(* ===== verification/Prelude.thy ===== *)
theory Prelude
  imports Complex_Main
begin

text \<open>
  Shared vocabulary of the development.

  A coroutine or method of the source that changes state and may raise is a function from the
  state to an outcome and the new state: \<open>Inl e\<close> is a raised exception, \<open>Inr a\<close> a returned
  value. The state survives an exception, because the source's \<open>except\<close> blocks go on from it.
  The combinators below are Python's sequencing, \<open>raise\<close>, \<open>try\<close>/\<open>except\<close> and \<open>for\<close>; each has
  its evaluation rules as simp rules and its rule for invariants in the collection
  \<open>keeps_intros\<close>. Python dictionaries, which keep insertion order, are association lists with
  \<open>dict_get\<close> and \<open>dict_set\<close>.
\<close>

named_theorems keeps_intros

section \<open>Programs with state and exceptions\<close>

type_synonym ('s, 'e, 'a) prog = "'s \<Rightarrow> ('e + 'a) \<times> 's"

definition ret :: "'a \<Rightarrow> ('s, 'e, 'a) prog" where
  "ret a = (\<lambda>s. (Inr a, s))"

definition raise :: "'e \<Rightarrow> ('s, 'e, 'a) prog" where
  "raise e = (\<lambda>s. (Inl e, s))"

definition bindM :: "('s, 'e, 'a) prog \<Rightarrow> ('a \<Rightarrow> ('s, 'e, 'b) prog) \<Rightarrow> ('s, 'e, 'b) prog" where
  "bindM m f = (\<lambda>s. case m s of (Inl e, s') \<Rightarrow> (Inl e, s') | (Inr a, s') \<Rightarrow> f a s')"

definition seqM :: "('s, 'e, 'a) prog \<Rightarrow> ('s, 'e, 'b) prog \<Rightarrow> ('s, 'e, 'b) prog" where
  "seqM m n = bindM m (\<lambda>_. n)"

text \<open>\<open>try: m except e: h e\<close>; a handler that does not apply re-raises.\<close>

definition tryM :: "('s, 'e, 'a) prog \<Rightarrow> ('e \<Rightarrow> ('s, 'e, 'a) prog) \<Rightarrow> ('s, 'e, 'a) prog" where
  "tryM m h = (\<lambda>s. case m s of (Inl e, s') \<Rightarrow> h e s' | (Inr a, s') \<Rightarrow> (Inr a, s'))"

definition gets :: "('s \<Rightarrow> 'a) \<Rightarrow> ('s, 'e, 'a) prog" where
  "gets f = (\<lambda>s. (Inr (f s), s))"

definition modify :: "('s \<Rightarrow> 's) \<Rightarrow> ('s, 'e, unit) prog" where
  "modify f = (\<lambda>s. (Inr (), f s))"

text \<open>\<open>for x in xs: body\<close>, with no loop variable carried over.\<close>

fun forM :: "('a \<Rightarrow> ('s, 'e, unit) prog) \<Rightarrow> 'a list \<Rightarrow> ('s, 'e, unit) prog" where
  "forM f [] = ret ()"
| "forM f (x # xs) = seqM (f x) (forM f xs)"

text \<open>\<open>for x in xs: acc = body(acc, x)\<close>.\<close>

fun foldM :: "('b \<Rightarrow> 'a \<Rightarrow> ('s, 'e, 'b) prog) \<Rightarrow> 'b \<Rightarrow> 'a list \<Rightarrow> ('s, 'e, 'b) prog" where
  "foldM f b [] = ret b"
| "foldM f b (x # xs) = bindM (f b x) (\<lambda>b'. foldM f b' xs)"

lemma ret_run [simp]: "ret a s = (Inr a, s)"
  by (simp add: ret_def)

lemma raise_run [simp]: "raise e s = (Inl e, s)"
  by (simp add: raise_def)

lemma gets_run [simp]: "gets f s = (Inr (f s), s)"
  by (simp add: gets_def)

lemma modify_run [simp]: "modify f s = (Inr (), f s)"
  by (simp add: modify_def)

lemma bindM_run: "bindM m f s = (case m s of (Inl e, s') \<Rightarrow> (Inl e, s') | (Inr a, s') \<Rightarrow> f a s')"
  by (simp add: bindM_def)

lemma bindM_Inr [simp]: "m s = (Inr a, s') \<Longrightarrow> bindM m f s = f a s'"
  by (simp add: bindM_def)

lemma bindM_Inl [simp]: "m s = (Inl e, s') \<Longrightarrow> bindM m f s = (Inl e, s')"
  by (simp add: bindM_def)

lemma bindM_gets [simp]: "bindM (gets f) k s = k (f s) s"
  by (simp add: bindM_def gets_def)

lemma seqM_Inr [simp]: "m s = (Inr a, s') \<Longrightarrow> seqM m n s = n s'"
  by (simp add: seqM_def)

lemma seqM_Inl [simp]: "m s = (Inl e, s') \<Longrightarrow> seqM m n s = (Inl e, s')"
  by (simp add: seqM_def)

lemma tryM_Inr [simp]: "m s = (Inr a, s') \<Longrightarrow> tryM m h s = (Inr a, s')"
  by (simp add: tryM_def)

lemma tryM_Inl [simp]: "m s = (Inl e, s') \<Longrightarrow> tryM m h s = h e s'"
  by (simp add: tryM_def)

lemma bindM_eq_Inr:
  "bindM m f s = (Inr b, s'') \<longleftrightarrow> (\<exists>a s'. m s = (Inr a, s') \<and> f a s' = (Inr b, s''))"
  by (auto simp: bindM_def split: prod.splits sum.splits)

lemma seqM_eq_Inr:
  "seqM m n s = (Inr b, s'') \<longleftrightarrow> (\<exists>a s'. m s = (Inr a, s') \<and> n s' = (Inr b, s''))"
  by (simp add: seqM_def bindM_eq_Inr)

lemma bindM_ret [simp]: "bindM (ret a) f = f a"
  by (rule ext) simp

lemma seqM_ret [simp]: "seqM (ret a) n = n"
  by (rule ext) simp

lemma bindM_assoc: "bindM (bindM m f) g = bindM m (\<lambda>a. bindM (f a) g)"
  by (rule ext) (auto simp: bindM_def split: prod.splits sum.splits)

lemma forM_append: "forM f (xs @ ys) = seqM (forM f xs) (forM f ys)"
  by (induction xs) (auto simp: seqM_def bindM_assoc)

section \<open>Invariants of programs\<close>

text \<open>\<open>keeps I m\<close>: the program keeps the invariant, whether it returns or raises.\<close>

definition keeps :: "('s \<Rightarrow> bool) \<Rightarrow> ('s, 'e, 'a) prog \<Rightarrow> bool" where
  "keeps I m \<longleftrightarrow> (\<forall>s. I s \<longrightarrow> I (snd (m s)))"

lemma keepsI: "(\<And>s. I s \<Longrightarrow> I (snd (m s))) \<Longrightarrow> keeps I m"
  by (simp add: keeps_def)

lemma keepsD: "keeps I m \<Longrightarrow> I s \<Longrightarrow> I (snd (m s))"
  by (simp add: keeps_def)

lemma keeps_run: "keeps I m \<Longrightarrow> I s \<Longrightarrow> m s = (r, s') \<Longrightarrow> I s'"
  by (metis keepsD snd_conv)

lemma keeps_ret [keeps_intros]: "keeps I (ret a)"
  by (simp add: keeps_def)

lemma keeps_raise [keeps_intros]: "keeps I (raise e)"
  by (simp add: keeps_def)

lemma keeps_gets [keeps_intros]: "keeps I (gets f)"
  by (simp add: keeps_def)

lemma keeps_modify: "(\<And>s. I s \<Longrightarrow> I (f s)) \<Longrightarrow> keeps I (modify f)"
  by (simp add: keeps_def)

lemma keeps_bindM [keeps_intros]:
  "keeps I m \<Longrightarrow> (\<And>a. keeps I (f a)) \<Longrightarrow> keeps I (bindM m f)"
  by (fastforce simp: keeps_def bindM_def split: prod.splits sum.splits)

lemma keeps_seqM [keeps_intros]: "keeps I m \<Longrightarrow> keeps I n \<Longrightarrow> keeps I (seqM m n)"
  by (simp add: seqM_def keeps_bindM)

lemma keeps_tryM [keeps_intros]:
  "keeps I m \<Longrightarrow> (\<And>e. keeps I (h e)) \<Longrightarrow> keeps I (tryM m h)"
  by (fastforce simp: keeps_def tryM_def split: prod.splits sum.splits)

lemma keeps_forM [keeps_intros]:
  "(\<And>x. x \<in> set xs \<Longrightarrow> keeps I (f x)) \<Longrightarrow> keeps I (forM f xs)"
  by (induction xs) (auto intro: keeps_intros)

lemma keeps_foldM [keeps_intros]:
  "(\<And>b x. keeps I (f b x)) \<Longrightarrow> keeps I (foldM f b xs)"
  by (induction xs arbitrary: b) (auto intro: keeps_intros)

lemma keeps_if [keeps_intros]:
  "(c \<Longrightarrow> keeps I m) \<Longrightarrow> (\<not> c \<Longrightarrow> keeps I n) \<Longrightarrow> keeps I (if c then m else n)"
  by simp

lemma keeps_option [keeps_intros]:
  "(x = None \<Longrightarrow> keeps I m) \<Longrightarrow> (\<And>a. x = Some a \<Longrightarrow> keeps I (f a)) \<Longrightarrow>
   keeps I (case x of None \<Rightarrow> m | Some a \<Rightarrow> f a)"
  by (cases x) auto

lemma keeps_prod [keeps_intros]:
  "(\<And>a b. x = (a, b) \<Longrightarrow> keeps I (f a b)) \<Longrightarrow> keeps I (case x of (a, b) \<Rightarrow> f a b)"
  by (cases x) auto

lemma keeps_Let [keeps_intros]: "keeps I (f a) \<Longrightarrow> keeps I (let x = a in f x)"
  by simp

section \<open>Programs with a postcondition\<close>

text \<open>\<open>triple P m Q E\<close>: from a state with \<open>P\<close> the program returns with \<open>Q\<close> or raises with \<open>E\<close>.\<close>

definition triple :: "('s \<Rightarrow> bool) \<Rightarrow> ('s, 'e, 'a) prog \<Rightarrow> ('a \<Rightarrow> 's \<Rightarrow> bool) \<Rightarrow> ('s \<Rightarrow> bool) \<Rightarrow> bool" where
  "triple P m Q E \<longleftrightarrow> (\<forall>s r s'. P s \<longrightarrow> m s = (r, s') \<longrightarrow> (case r of Inl e \<Rightarrow> E s' | Inr a \<Rightarrow> Q a s'))"

lemma tripleI: "(\<And>s e s'. P s \<Longrightarrow> m s = (Inl e, s') \<Longrightarrow> E s') \<Longrightarrow> (\<And>s a s'. P s \<Longrightarrow> m s = (Inr a, s') \<Longrightarrow> Q a s') \<Longrightarrow> triple P m Q E"
  by (auto simp: triple_def split: sum.split)

lemma triple_Inl: "triple P m Q E \<Longrightarrow> P s \<Longrightarrow> m s = (Inl e, s') \<Longrightarrow> E s'"
  by (fastforce simp: triple_def)

lemma triple_Inr: "triple P m Q E \<Longrightarrow> P s \<Longrightarrow> m s = (Inr a, s') \<Longrightarrow> Q a s'"
  by (fastforce simp: triple_def)

lemma triple_ret: "(\<And>s. P s \<Longrightarrow> Q a s) \<Longrightarrow> triple P (ret a) Q E"
  by (rule tripleI) auto

lemma triple_raise: "(\<And>s. P s \<Longrightarrow> E s) \<Longrightarrow> triple P (raise e) Q E"
  by (rule tripleI) auto

lemma triple_weaken:
  "triple P m Q E \<Longrightarrow> (\<And>s. P' s \<Longrightarrow> P s) \<Longrightarrow> (\<And>a s. Q a s \<Longrightarrow> Q' a s) \<Longrightarrow> (\<And>s. E s \<Longrightarrow> E' s) \<Longrightarrow> triple P' m Q' E'"
  by (rule tripleI) (blast dest: triple_Inl triple_Inr)+

lemma triple_gets: "(\<And>s. P s \<Longrightarrow> Q (f s) s) \<Longrightarrow> triple P (gets f) Q E"
  by (rule tripleI) auto

lemma triple_bindM:
  assumes m: "triple P m Q E" and f: "\<And>a. triple (Q a) (f a) R E"
  shows "triple P (bindM m f) R E"
proof (rule tripleI)
  fix s e s'
  assume s: "P s" and run: "bindM m f s = (Inl e, s')"
  obtain x s1 where x: "m s = (x, s1)" by fastforce
  show "E s'"
  proof (cases x)
    case (Inl e')
    then show ?thesis using run x triple_Inl [OF m s] by auto
  next
    case (Inr a)
    then have "f a s1 = (Inl e, s')" using run x by simp
    then show ?thesis by (rule triple_Inl [OF f triple_Inr [OF m s x [unfolded Inr]]])
  qed
next
  fix s b s'
  assume s: "P s" and run: "bindM m f s = (Inr b, s')"
  then obtain a s1 where "m s = (Inr a, s1)" "f a s1 = (Inr b, s')" by (auto simp: bindM_eq_Inr)
  then show "R b s'" using triple_Inr [OF f triple_Inr [OF m s]] by blast
qed

lemma triple_seqM: "triple P m (\<lambda>_. Q) E \<Longrightarrow> triple Q n R E \<Longrightarrow> triple P (seqM m n) R E"
  unfolding seqM_def by (rule triple_bindM)

lemma triple_tryM:
  assumes m: "triple P m Q F" and h: "\<And>e. triple F (h e) Q E"
  shows "triple P (tryM m h) Q E"
proof (rule tripleI)
  fix s e s'
  assume s: "P s" and run: "tryM m h s = (Inl e, s')"
  then obtain e' s1 where "m s = (Inl e', s1)" "h e' s1 = (Inl e, s')"
    by (auto simp: tryM_def split: prod.splits sum.splits)
  then show "E s'" using triple_Inl [OF h triple_Inl [OF m s]] by blast
next
  fix s b s'
  assume s: "P s" and run: "tryM m h s = (Inr b, s')"
  then consider "m s = (Inr b, s')" | e' s1 where "m s = (Inl e', s1)" "h e' s1 = (Inr b, s')"
    by (auto simp: tryM_def split: prod.splits sum.splits)
  then show "Q b s'"
    by cases (blast intro: triple_Inr [OF m s], blast dest: triple_Inr [OF h triple_Inl [OF m s]])
qed

lemma triple_foldM:
  assumes "\<And>b x. x \<in> set xs \<Longrightarrow> triple (J b) (f b x) J E"
  shows "triple (J b) (foldM f b xs) J E"
  using assms
proof (induction xs arbitrary: b)
  case (Cons x xs)
  have "triple (J b) (f b x) J E" using Cons.prems by simp
  then show ?case by (auto intro!: triple_bindM Cons.IH Cons.prems)
qed (simp add: triple_ret)

lemma triple_keeps: "keeps I m \<Longrightarrow> triple I m (\<lambda>_. I) I"
  by (rule tripleI) (blast intro: keeps_run)+

lemma keeps_triple: "triple I m (\<lambda>_. I) I \<Longrightarrow> keeps I m"
proof (rule keepsI)
  fix s
  assume m: "triple I m (\<lambda>_. I) I" and s: "I s"
  show "I (snd (m s))"
    using triple_Inl [OF m s] triple_Inr [OF m s] by (cases "m s", cases "fst (m s)") auto
qed

text \<open>\<open>yields I m Q\<close>: the program keeps the invariant, and what it returns satisfies \<open>Q\<close>.\<close>

definition yields :: "('s \<Rightarrow> bool) \<Rightarrow> ('s, 'e, 'a) prog \<Rightarrow> ('a \<Rightarrow> bool) \<Rightarrow> bool" where
  "yields I m Q \<longleftrightarrow> triple I m (\<lambda>a s. I s \<and> Q a) I"

lemma yieldsI: "(\<And>s r s'. I s \<Longrightarrow> m s = (r, s') \<Longrightarrow> I s' \<and> (\<forall>a. r = Inr a \<longrightarrow> Q a)) \<Longrightarrow> yields I m Q"
  unfolding yields_def by (rule tripleI) blast+

lemma yields_keeps: "yields I m Q \<Longrightarrow> keeps I m"
  unfolding yields_def by (rule keeps_triple, erule triple_weaken) auto

lemma yields_True: "keeps I m \<Longrightarrow> yields I m (\<lambda>_. True)"
  unfolding yields_def by (rule triple_weaken [OF triple_keeps]) auto

lemma yields_ret: "Q a \<Longrightarrow> yields I (ret a) Q"
  unfolding yields_def by (rule triple_ret) simp

lemma yields_raise: "yields I (raise e) Q"
  unfolding yields_def by (rule triple_raise)

lemma yields_gets: "(\<And>s. I s \<Longrightarrow> Q (f s)) \<Longrightarrow> yields I (gets f) Q"
  unfolding yields_def by (rule triple_gets) simp

lemma yields_bindM: "yields I m P \<Longrightarrow> (\<And>a. P a \<Longrightarrow> yields I (f a) Q) \<Longrightarrow> yields I (bindM m f) Q"
proof -
  assume m: "yields I m P" and f: "\<And>a. P a \<Longrightarrow> yields I (f a) Q"
  have "triple (\<lambda>s. I s \<and> P a) (f a) (\<lambda>b s. I s \<and> Q b) I" for a
    using f [of a] by (cases "P a") (simp_all add: yields_def, simp add: triple_def)
  then show ?thesis using m unfolding yields_def by (rule triple_bindM [rotated])
qed

lemma yields_bind_keeps: "keeps I m \<Longrightarrow> (\<And>a. yields I (f a) Q) \<Longrightarrow> yields I (bindM m f) Q"
  by (rule yields_bindM [OF yields_True])

lemma yields_seqM: "keeps I m \<Longrightarrow> yields I n Q \<Longrightarrow> yields I (seqM m n) Q"
  by (simp add: seqM_def yields_bind_keeps)

lemma keeps_bind_yields: "yields I m P \<Longrightarrow> (\<And>a. P a \<Longrightarrow> keeps I (f a)) \<Longrightarrow> keeps I (bindM m f)"
  by (rule yields_keeps, erule yields_bindM, rule yields_True, simp)

lemma yields_tryM: "yields I m Q \<Longrightarrow> (\<And>e. yields I (h e) Q) \<Longrightarrow> yields I (tryM m h) Q"
  unfolding yields_def by (rule triple_tryM)

lemma yields_foldM: "P b \<Longrightarrow> (\<And>b x. P b \<Longrightarrow> x \<in> set xs \<Longrightarrow> yields I (f b x) P) \<Longrightarrow> yields I (foldM f b xs) P"
proof (induction xs arbitrary: b)
  case (Cons x xs)
  have "yields I (f b x) P" using Cons.prems by simp
  then show ?case by (auto intro!: yields_bindM Cons.IH Cons.prems(2))
qed (simp add: yields_ret)

section \<open>Dictionaries in insertion order\<close>

type_synonym ('k, 'v) dict = "('k \<times> 'v) list"

definition dict_get :: "('k, 'v) dict \<Rightarrow> 'k \<Rightarrow> 'v option" where
  "dict_get d k = map_of d k"

fun dict_set :: "('k, 'v) dict \<Rightarrow> 'k \<Rightarrow> 'v \<Rightarrow> ('k, 'v) dict" where
  "dict_set [] k v = [(k, v)]"
| "dict_set ((k', v') # d) k v = (if k' = k then (k, v) # d else (k', v') # dict_set d k v)"

definition dict_values :: "('k, 'v) dict \<Rightarrow> 'v list" where
  "dict_values d = map snd d"

definition dict_of :: "('k \<times> 'v) list \<Rightarrow> ('k, 'v) dict" where
  "dict_of kvs = fold (\<lambda>(k, v) d. dict_set d k v) kvs []"

lemma dict_get_Nil [simp]: "dict_get [] k = None"
  by (simp add: dict_get_def)

lemma dict_get_set [simp]:
  "dict_get (dict_set d k v) k' = (if k' = k then Some v else dict_get d k')"
  by (induction d k v rule: dict_set.induct) (auto simp: dict_get_def)

lemma dict_keys_set: "fst ` set (dict_set d k v) = insert k (fst ` set d)"
  by (induction d k v rule: dict_set.induct) auto

lemma dict_set_distinct: "distinct (map fst d) \<Longrightarrow> distinct (map fst (dict_set d k v))"
proof (induction d k v rule: dict_set.induct)
  case (2 k' v' d k v)
  then have "k' \<notin> fst ` set d" by simp
  with 2 show ?case by (auto simp: dict_keys_set)
qed simp

lemma dict_set_values: "v' \<in> set (dict_values (dict_set d k v)) \<Longrightarrow> v' = v \<or> v' \<in> set (dict_values d)"
  by (induction d k v rule: dict_set.induct) (auto simp: dict_values_def split: if_splits)

lemma dict_set_fresh: "k \<notin> fst ` set d \<Longrightarrow> dict_set d k v = d @ [(k, v)]"
  by (induction d k v rule: dict_set.induct) auto

lemma dict_of_distinct_aux:
  "distinct (map fst (d @ kvs)) \<Longrightarrow> fold (\<lambda>(k, v) d. dict_set d k v) kvs d = d @ kvs"
proof (induction kvs arbitrary: d)
  case Nil
  then show ?case by simp
next
  case (Cons kv kvs)
  obtain k v where kv: "kv = (k, v)" by (cases kv)
  with Cons.prems have "dict_set d k v = d @ [(k, v)]"
    by (intro dict_set_fresh) auto
  with Cons kv show ?case by simp
qed

lemma dict_of_distinct: "distinct (map fst kvs) \<Longrightarrow> dict_of kvs = kvs"
  using dict_of_distinct_aux [of "[]" kvs] by (simp add: dict_of_def)

section \<open>Lists\<close>

text \<open>\<open>list[offset:offset+limit]\<close>, the SQL clauses \<open>OFFSET\<close> and \<open>LIMIT\<close>.\<close>

definition page :: "nat \<Rightarrow> nat \<Rightarrow> 'a list \<Rightarrow> 'a list" where
  "page limit offset xs = take limit (drop offset xs)"

lemma page_subset: "set (page l k xs) \<subseteq> set xs"
  by (auto simp: page_def dest: in_set_takeD in_set_dropD)

lemma length_page: "length (page l k xs) = min l (length xs - k)"
  by (simp add: page_def min.commute)

definition first_or_none :: "'a list \<Rightarrow> 'a option" where
  "first_or_none xs = (case xs of [] \<Rightarrow> None | x # _ \<Rightarrow> Some x)"

lemma first_or_none_filter_None:
  "first_or_none (filter P xs) = None \<longleftrightarrow> (\<forall>x \<in> set xs. \<not> P x)"
  by (induction xs) (auto simp: first_or_none_def)

lemma first_or_none_filter_Some:
  "first_or_none (filter P xs) = Some x \<Longrightarrow> x \<in> set xs \<and> P x"
  by (induction xs) (auto simp: first_or_none_def split: if_splits)

section \<open>Numbers in messages\<close>

fun show_nat :: "nat \<Rightarrow> string" where
  "show_nat n = (if n < 10 then [char_of (48 + n)] else show_nat (n div 10) @ [char_of (48 + n mod 10)])"

declare show_nat.simps [simp del]

definition show_int :: "int \<Rightarrow> string" where
  "show_int i = (if i < 0 then ''-'' @ show_nat (nat (- i)) else show_nat (nat i))"

section \<open>Filters and sorting\<close>

lemma map_filter_id_outside:
  "(\<And>x. x \<in> set xs \<Longrightarrow> P x \<Longrightarrow> f x = x) \<Longrightarrow> filter P (map f xs) = map f (filter (P \<circ> f) xs)"
  by (simp add: filter_map)

lemma sort_key_singleton [simp]: "sort_key f [x] = [x]"
  by simp

section \<open>Characters\<close>

text \<open>\<open>str.lower\<close> on ASCII characters.\<close>

definition lower_char :: "char \<Rightarrow> char" where
  "lower_char c = (let n = of_char c :: nat in if 65 \<le> n \<and> n \<le> 90 then char_of (n + 32) else c)"

definition lower :: "string \<Rightarrow> string" where
  "lower s = map lower_char s"

end
