(* ===== verification/PyTime.thy ===== *)
theory PyTime
  imports Prelude
begin

text \<open>
  Python's \<open>datetime\<close> and \<open>timedelta\<close>, as far as the services use them. An instant is a wall
  reading in microseconds; an aware value also carries its UTC offset. Subtracting or ordering a
  naive and an aware value raises \<open>TypeError\<close> in Python, and the difference is then a
  \<open>TypeError\<close> here. Seconds (\<open>total_seconds\<close>, the settings, the accumulated in-ROI seconds) are
  exact rationals where Python has doubles: the rounding of double arithmetic is not modelled,
  the rounding of \<open>timedelta(seconds=s)\<close> to whole microseconds is. The range check of
  \<open>datetime\<close> (years 1 to 9999) is not modelled.
\<close>

datatype datetime =
    Naive int
  | Aware int int \<comment> \<open>wall reading and UTC offset, both in microseconds\<close>

fun is_naive :: "datetime \<Rightarrow> bool" where
  "is_naive (Naive _) = True"
| "is_naive (Aware _ _) = False"

text \<open>The helper \<open>_to_naive_utc\<close>, which the services and one repository each define.\<close>

fun to_naive_utc :: "datetime \<Rightarrow> datetime" where
  "to_naive_utc (Naive t) = Naive t"
| "to_naive_utc (Aware t off) = Naive (t - off)"

fun wall :: "datetime \<Rightarrow> int" where
  "wall (Naive t) = t"
| "wall (Aware t _) = t"

text \<open>Microseconds of the naive UTC reading: what \<open>_to_naive_utc(dt)\<close> denotes.\<close>

definition utc_us :: "datetime \<Rightarrow> int" where
  "utc_us d = wall (to_naive_utc d)"

lemma utc_us_simps [simp]:
  "utc_us (Naive t) = t"
  "utc_us (Aware t off) = t - off"
  by (simp_all add: utc_us_def)

text \<open>\<open>a - b\<close> for two datetimes: \<open>None\<close> is the \<open>TypeError\<close> of mixing naive and aware.\<close>

fun dt_sub :: "datetime \<Rightarrow> datetime \<Rightarrow> int option" where
  "dt_sub (Naive a) (Naive b) = Some (a - b)"
| "dt_sub (Aware a oa) (Aware b ob) = Some ((a - oa) - (b - ob))"
| "dt_sub _ _ = None"

definition dt_less :: "datetime \<Rightarrow> datetime \<Rightarrow> bool option" where
  "dt_less a b = map_option (\<lambda>d. d < 0) (dt_sub a b)"

text \<open>\<open>dt + timedelta\<close> with the delta in microseconds.\<close>

fun dt_add :: "datetime \<Rightarrow> int \<Rightarrow> datetime" where
  "dt_add (Naive t) d = Naive (t + d)"
| "dt_add (Aware t off) d = Aware (t + d) off"

definition total_seconds :: "int \<Rightarrow> rat" where
  "total_seconds us = of_int us / 1000000"

text \<open>Python's \<open>round\<close> to an integer: halves go to the even neighbour.\<close>

definition round_half_even :: "rat \<Rightarrow> int" where
  "round_half_even x =
     (let f = \<lfloor>x\<rfloor>; r = x - of_int f
      in if r < 1 / 2 then f else if 1 / 2 < r then f + 1 else if even f then f else f + 1)"

text \<open>\<open>timedelta(seconds=s)\<close>, in microseconds.\<close>

definition timedelta_s :: "rat \<Rightarrow> int" where
  "timedelta_s s = round_half_even (s * 1000000)"

text \<open>\<open>(_to_naive_utc(a) - _to_naive_utc(b)).total_seconds()\<close>.\<close>

definition secs_between :: "datetime \<Rightarrow> datetime \<Rightarrow> rat" where
  "secs_between a b = total_seconds (utc_us a - utc_us b)"

section \<open>ISO 8601 rendering\<close>

text \<open>
  \<open>datetime.isoformat()\<close>: date and time, six digits of microseconds only when they are not
  zero, and the UTC offset of an aware value. The proleptic Gregorian date of a day number is
  computed in eras of 400 years counted from 1 March of year 0.
\<close>

fun digits_rev :: "nat \<Rightarrow> nat \<Rightarrow> string" where
  "digits_rev 0 n = []"
| "digits_rev (Suc w) n = char_of (48 + n mod 10) # digits_rev w (n div 10)"

definition zero_pad :: "nat \<Rightarrow> int \<Rightarrow> string" where
  "zero_pad w n = rev (digits_rev w (nat n))"

definition civil_of_days :: "int \<Rightarrow> int \<times> int \<times> int" where
  "civil_of_days days =
     (let z = days + 719468;
          era = z div 146097;
          doe = z mod 146097;
          yoe = (doe - doe div 1460 + doe div 36524 - doe div 146096) div 365;
          doy = doe - (365 * yoe + yoe div 4 - yoe div 100);
          mp = (5 * doy + 2) div 153;
          d = doy - (153 * mp + 2) div 5 + 1;
          m = (if mp < 10 then mp + 3 else mp - 9);
          y = yoe + era * 400 + (if m \<le> 2 then 1 else 0)
      in (y, m, d))"

definition iso_naive :: "int \<Rightarrow> string" where
  "iso_naive us =
     (let secs = us div 1000000; frac = us mod 1000000; sod = secs mod 86400;
          (y, m, d) = civil_of_days (secs div 86400)
      in zero_pad 4 y @ ''-'' @ zero_pad 2 m @ ''-'' @ zero_pad 2 d @ ''T''
         @ zero_pad 2 (sod div 3600) @ '':'' @ zero_pad 2 (sod div 60 mod 60) @ '':''
         @ zero_pad 2 (sod mod 60)
         @ (if frac = 0 then [] else ''.'' @ zero_pad 6 frac))"

text \<open>The offset is written in whole minutes; offsets with seconds are outside the model.\<close>

definition iso_offset :: "int \<Rightarrow> string" where
  "iso_offset off =
     (let mins = \<bar>off\<bar> div 60000000
      in (if off < 0 then ''-'' else ''+'') @ zero_pad 2 (mins div 60) @ '':'' @ zero_pad 2 (mins mod 60))"

fun isoformat :: "datetime \<Rightarrow> string" where
  "isoformat (Naive t) = iso_naive t"
| "isoformat (Aware t off) = iso_naive t @ iso_offset off"

section \<open>Facts\<close>

lemma is_naive_to_naive_utc [simp]: "is_naive (to_naive_utc d)"
  by (cases d) auto

lemma to_naive_utc_idem [simp]: "to_naive_utc (to_naive_utc d) = to_naive_utc d"
  by (cases d) auto

lemma utc_us_to_naive_utc [simp]: "utc_us (to_naive_utc d) = utc_us d"
  by (cases d) auto

lemma to_naive_utc_eq: "to_naive_utc d = Naive (utc_us d)"
  by (cases d) auto

lemma utc_us_dt_add [simp]: "utc_us (dt_add d n) = utc_us d + n"
  by (cases d) auto

lemma dt_sub_naive_utc: "dt_sub (to_naive_utc a) (to_naive_utc b) = Some (utc_us a - utc_us b)"
  by (simp add: to_naive_utc_eq)

text \<open>Normalising first is what makes a subtraction safe: it always succeeds.\<close>

lemma secs_between_dt_sub:
  "Some (secs_between a b) = map_option total_seconds (dt_sub (to_naive_utc a) (to_naive_utc b))"
  by (simp add: dt_sub_naive_utc secs_between_def)

lemma dt_sub_same_kind:
  "is_naive a = is_naive b \<Longrightarrow> dt_sub a b = Some (utc_us a - utc_us b)"
  by (cases a; cases b) auto

lemma dt_sub_mixed: "is_naive a \<noteq> is_naive b \<Longrightarrow> dt_sub a b = None"
  by (cases a; cases b) auto

lemma total_seconds_mono [simp]: "total_seconds a \<le> total_seconds b \<longleftrightarrow> a \<le> b"
  by (simp add: total_seconds_def divide_le_cancel)

lemma total_seconds_0 [simp]: "total_seconds 0 = 0"
  by (simp add: total_seconds_def)

lemma total_seconds_nonneg [simp]: "0 \<le> total_seconds a \<longleftrightarrow> 0 \<le> a"
  using total_seconds_mono [of 0 a] by simp

lemma total_seconds_add: "total_seconds (a + b) = total_seconds a + total_seconds b"
  by (simp add: total_seconds_def add_divide_distrib)

lemma secs_between_refl [simp]: "secs_between a a = 0"
  by (simp add: secs_between_def)

lemma secs_between_trans: "secs_between a b + secs_between b c = secs_between a c"
  by (simp add: secs_between_def flip: total_seconds_add)

lemma secs_between_nonneg [simp]: "0 \<le> secs_between a b \<longleftrightarrow> utc_us b \<le> utc_us a"
  by (simp add: secs_between_def)

lemma round_half_even_of_int [simp]: "round_half_even (of_int n) = n"
  by (simp add: round_half_even_def)

lemma round_half_even_near: "\<bar>of_int (round_half_even x) - x\<bar> \<le> 1 / 2"
proof -
  define f where "f = \<lfloor>x\<rfloor>"
  have "of_int f \<le> x" "x < of_int f + 1"
    unfolding f_def by linarith+
  then show ?thesis
    by (auto simp: round_half_even_def Let_def f_def [symmetric] abs_le_iff)
qed

lemma round_half_even_lower: "x - 1 / 2 \<le> of_int (round_half_even x)"
  using round_half_even_near [of x] by linarith

lemma timedelta_s_pos:
  assumes "1 \<le> s * 1000000"
  shows "0 < timedelta_s s"
proof -
  have "(0::rat) < of_int (round_half_even (s * 1000000))"
    using round_half_even_lower [of "s * 1000000"] assms by linarith
  then show ?thesis by (simp add: timedelta_s_def)
qed

lemma timedelta_s_nonneg:
  assumes "0 \<le> s"
  shows "0 \<le> timedelta_s s"
proof -
  have "(- 1::rat) < of_int (round_half_even (s * 1000000))"
    using round_half_even_lower [of "s * 1000000"] assms by linarith
  then have "- 1 < round_half_even (s * 1000000)" by linarith
  then show ?thesis by (simp add: timedelta_s_def)
qed

text \<open>A whole number of microseconds is exact.\<close>

lemma timedelta_s_exact: "s * 1000000 = of_int n \<Longrightarrow> timedelta_s s = n"
  by (simp add: timedelta_s_def)

end
