(* ===== verification/Schema.thy ===== *)
theory Schema
  imports PyTime
begin

text \<open>
  The data model: the enumerations and rows of \<open>src/schemas\<close> and \<open>src/models\<close>, and the CHECK
  constraints and unique indexes that the Alembic migrations put on the tables. \<open>BaseFields\<close>,
  which every model class inherits, is a record that the row records extend, so that the generic
  repository works on any of them. A row here is a persisted object: it has its \<open>id\<close>. Values of
  \<open>TIMESTAMP WITHOUT TIME ZONE\<close> columns are \<open>datetime\<close>s, floats are exact rationals, JSON columns
  are \<open>json\<close> values, byte strings are lists of characters.
\<close>

section \<open>JSON values\<close>

datatype json =
    JNull
  | JBool bool
  | JInt int
  | JFloat rat
  | JStr string
  | JList "json list"
  | JObj "(string \<times> json) list"

section \<open>Enumerations\<close>

datatype visit_state = ABSENT | ENTERING | PRESENT | LEAVING | CLOSED

datatype video_status = CREATED | PROCESSING | COMPLETED | FAILED | INVALID

datatype event_type = ENTRY | EXIT | DETECTED

datatype detector_method = ARUCO | YOLO_ARUCO | COLOR_CLASS | REID | FALLBACK

text \<open>The string each \<open>StrEnum\<close> member is.\<close>

fun visit_state_value :: "visit_state \<Rightarrow> string" where
  "visit_state_value ABSENT = ''ABSENT''"
| "visit_state_value ENTERING = ''ENTERING''"
| "visit_state_value PRESENT = ''PRESENT''"
| "visit_state_value LEAVING = ''LEAVING''"
| "visit_state_value CLOSED = ''CLOSED''"

fun video_status_value :: "video_status \<Rightarrow> string" where
  "video_status_value CREATED = ''CREATED''"
| "video_status_value PROCESSING = ''PROCESSING''"
| "video_status_value COMPLETED = ''COMPLETED''"
| "video_status_value FAILED = ''FAILED''"
| "video_status_value INVALID = ''INVALID''"

lemma visit_state_value_inj [simp]: "visit_state_value a = visit_state_value b \<longleftrightarrow> a = b"
  by (cases a; cases b) auto

lemma video_status_value_inj [simp]: "video_status_value a = video_status_value b \<longleftrightarrow> a = b"
  by (cases a; cases b) auto

section \<open>Rows\<close>

text \<open>\<open>BaseFields\<close>: primary key and audit stamps.\<close>

record base_fields =
  row_id :: int
  created_at :: "datetime option"
  updated_at :: "datetime option"
  deleted_at :: "datetime option"

record station = base_fields +
  st_code :: string
  st_name :: string
  st_location :: "string option"
  st_video_dir :: string
  st_roi_polygon :: "int list list option"
  st_is_entry_zone :: bool
  st_is_active :: bool

record tractor = base_fields +
  tr_name :: string
  tr_model :: "string option"
  tr_notes :: "string option"
  tr_is_active :: bool
  tr_aruco_ids :: "int list"

text \<open>\<open>primary_aruco_id\<close> is the generated column \<open>aruco_ids[1]\<close> (SQL arrays start at 1).\<close>

definition primary_aruco_id :: "('a) tractor_scheme \<Rightarrow> int option" where
  "primary_aruco_id t = first_or_none (tr_aruco_ids t)"

record video_file = base_fields +
  vf_station_id :: "int option"
  vf_storage_uri :: string
  vf_content_hash :: string
  vf_started_at :: datetime
  vf_ended_at :: datetime
  vf_fps :: "rat option"
  vf_width :: "int option"
  vf_height :: "int option"
  vf_duration_seconds :: "rat option"
  vf_status :: video_status
  vf_retry_count :: "int option" \<comment> \<open>\<open>None\<close> is SQL NULL\<close>
  vf_error_message :: "string option"
  vf_frames_processed :: int
  vf_triggers_fired :: int
  vf_events_found :: int

record event = base_fields +
  e_video_file_id :: int
  e_tractor_id :: "int option"
  e_aruco_id :: "int option"
  e_event_type :: event_type
  e_detector_method :: detector_method
  e_inside_roi :: bool
  e_frame_number :: int
  e_timestamp_in_video :: rat
  e_wall_clock_at :: datetime
  e_confidence :: "rat option"
  e_bbox :: "json option"
  e_detector_metadata :: "json option"

record visit = base_fields +
  v_tractor_id :: int
  v_station_id :: int
  v_state :: visit_state
  v_arrived_at :: "datetime option"
  v_departed_at :: "datetime option"
  v_last_seen_at :: "datetime option"
  v_entry_event_id :: "int option"
  v_exit_event_id :: "int option"
  v_last_event_id :: "int option"
  v_entry_seen_seconds :: rat
  v_duration_seconds :: "rat option"

section \<open>Constraints of the tables\<close>

text \<open>
  The generated column \<open>visits.duration_seconds\<close>. PostgreSQL computes it when the row is
  written; the in-memory object keeps the value it was loaded with.
\<close>

definition computed_duration :: "visit \<Rightarrow> rat option" where
  "computed_duration v =
     (case (v_state v = CLOSED, v_arrived_at v, v_departed_at v) of
        (True, Some a, Some d) \<Rightarrow> Some (secs_between d a)
      | _ \<Rightarrow> None)"

definition chk_visit_arrival :: "visit \<Rightarrow> bool" where
  "chk_visit_arrival v \<longleftrightarrow> v_arrived_at v \<noteq> None \<or> v_state v = ENTERING"

definition chk_visit_departure :: "visit \<Rightarrow> bool" where
  "chk_visit_departure v \<longleftrightarrow> (v_state v = CLOSED) = (v_departed_at v \<noteq> None)"

definition chk_visit_times :: "visit \<Rightarrow> bool" where
  "chk_visit_times v \<longleftrightarrow>
     (case (v_arrived_at v, v_departed_at v) of
        (Some a, Some d) \<Rightarrow> utc_us a < utc_us d
      | _ \<Rightarrow> True)"

definition chk_visit_entry_seen_nonneg :: "visit \<Rightarrow> bool" where
  "chk_visit_entry_seen_nonneg v \<longleftrightarrow> 0 \<le> v_entry_seen_seconds v"

text \<open>The enum type \<open>visit_state\<close> of the database has no \<open>ABSENT\<close>.\<close>

definition visit_row_ok :: "visit \<Rightarrow> bool" where
  "visit_row_ok v \<longleftrightarrow>
     v_state v \<noteq> ABSENT \<and> chk_visit_arrival v \<and> chk_visit_departure v \<and> chk_visit_times v
     \<and> chk_visit_entry_seen_nonneg v"

definition visit_is_open :: "visit \<Rightarrow> bool" where
  "visit_is_open v \<longleftrightarrow> v_state v \<noteq> CLOSED"

definition visit_pair :: "visit \<Rightarrow> int \<times> int" where
  "visit_pair v = (v_tractor_id v, v_station_id v)"

text \<open>The partial unique index \<open>uq_visit_open\<close>: one open visit per tractor and station.\<close>

definition uq_visit_open :: "visit list \<Rightarrow> bool" where
  "uq_visit_open vs \<longleftrightarrow> distinct (map visit_pair (filter visit_is_open vs))"

definition chk_video_times :: "video_file \<Rightarrow> bool" where
  "chk_video_times v \<longleftrightarrow> utc_us (vf_started_at v) < utc_us (vf_ended_at v)"

definition chk_video_duration :: "video_file \<Rightarrow> bool" where
  "chk_video_duration v \<longleftrightarrow> (case vf_duration_seconds v of None \<Rightarrow> True | Some d \<Rightarrow> 0 < d)"

text \<open>\<open>retry_count\<close> is created with \<open>nullable=False\<close>.\<close>

definition video_row_ok :: "video_file \<Rightarrow> bool" where
  "video_row_ok v \<longleftrightarrow> chk_video_times v \<and> chk_video_duration v \<and> vf_retry_count v \<noteq> None"

definition event_row_ok :: "event \<Rightarrow> bool" where
  "event_row_ok e \<longleftrightarrow> 0 \<le> e_frame_number e \<and> 0 \<le> e_timestamp_in_video e"

text \<open>
  \<open>array_length(aruco_ids, 1) >= 1\<close> is NULL for an empty array, and a CHECK constraint passes
  on NULL: an empty array is let through.
\<close>

definition chk_tractors_aruco_ids_nonempty :: "tractor \<Rightarrow> bool" where
  "chk_tractors_aruco_ids_nonempty t \<longleftrightarrow>
     (if tr_aruco_ids t = [] then True else 1 \<le> length (tr_aruco_ids t))"

text \<open>A unique index ignores NULLs.\<close>

definition uq_tractors_primary_aruco :: "tractor list \<Rightarrow> bool" where
  "uq_tractors_primary_aruco ts \<longleftrightarrow>
     distinct (filter (\<lambda>p. p \<noteq> None) (map primary_aruco_id ts))"

lemmas visit_checks =
  visit_row_ok_def chk_visit_arrival_def chk_visit_departure_def chk_visit_times_def
  chk_visit_entry_seen_nonneg_def

lemmas video_checks = video_row_ok_def chk_video_times_def chk_video_duration_def

lemma visit_is_open_simps [simp]:
  "v_state v = CLOSED \<Longrightarrow> \<not> visit_is_open v"
  "v_state v \<noteq> CLOSED \<Longrightarrow> visit_is_open v"
  by (simp_all add: visit_is_open_def)

lemma uq_visit_openD:
  "uq_visit_open vs \<Longrightarrow> v \<in> set vs \<Longrightarrow> w \<in> set vs \<Longrightarrow> visit_is_open v \<Longrightarrow> visit_is_open w \<Longrightarrow>
   visit_pair v = visit_pair w \<Longrightarrow> v = w"
  by (auto simp: uq_visit_open_def distinct_map inj_on_def)

end
