(* ===== verification/Sse.thy ===== *)
theory Sse
  imports Prelude
begin

text \<open>
  The publish/subscribe broker of \<open>src/sse/broker.py\<close>. Every connected client has a queue of its
  own, named here by a number; \<open>publish\<close> appends the message to the queue of every subscriber.
  An unbounded \<open>asyncio.Queue\<close> accepts every message, so which queues fail on \<open>put\<close> is a field of
  the broker that the environment chooses. The generator \<open>stream\<close> is modelled by its three
  steps: starting (connect, then the ready event), the next item, and leaving.
\<close>

section \<open>State and operations\<close>

record 'm broker =
  subscribers :: "nat list"
  queue_of :: "nat \<Rightarrow> 'm list"
  next_queue :: nat
  put_fails :: "nat \<Rightarrow> bool"

definition new_broker :: "'m broker" where
  "new_broker = \<lparr>subscribers = [], queue_of = (\<lambda>_. []), next_queue = 0, put_fails = (\<lambda>_. False)\<rparr>"

definition connect :: "'m broker \<Rightarrow> nat \<times> 'm broker" where
  "connect b =
     (let q = next_queue b
      in (q, b\<lparr>subscribers := subscribers b @ [q], queue_of := (queue_of b)(q := []),
              next_queue := Suc q\<rparr>))"

definition disconnect :: "nat \<Rightarrow> 'm broker \<Rightarrow> 'm broker" where
  "disconnect q b =
     (if q \<in> set (subscribers b) then b\<lparr>subscribers := remove1 q (subscribers b)\<rparr> else b)"

definition put :: "nat \<Rightarrow> 'm \<Rightarrow> 'm broker \<Rightarrow> 'm broker" where
  "put q m b = b\<lparr>queue_of := (queue_of b)(q := queue_of b q @ [m])\<rparr>"

text \<open>The loop over \<open>list(self._subscribers)\<close>, collecting the queues that failed.\<close>

fun put_all :: "'m \<Rightarrow> nat list \<Rightarrow> 'm broker \<Rightarrow> nat list \<times> 'm broker" where
  "put_all m [] b = ([], b)"
| "put_all m (q # qs) b =
     (if put_fails b q
      then (let (dead, b') = put_all m qs b in (q # dead, b'))
      else put_all m qs (put q m b))"

definition publish :: "'m \<Rightarrow> 'm broker \<Rightarrow> 'm broker" where
  "publish m b = (let (dead, b') = put_all m (subscribers b) b in fold disconnect dead b')"

text \<open>\<open>stream()\<close>: connect and yield the ready event; afterwards one item of the queue at a time.\<close>

definition stream_start :: "'m \<Rightarrow> 'm broker \<Rightarrow> nat \<times> 'm \<times> 'm broker" where
  "stream_start ready b = (let (q, b') = connect b in (q, ready, b'))"

definition stream_next :: "nat \<Rightarrow> 'm broker \<Rightarrow> ('m \<times> 'm broker) option" where
  "stream_next q b =
     (case queue_of b q of
        [] \<Rightarrow> None
      | m # ms \<Rightarrow> Some (m, b\<lparr>queue_of := (queue_of b)(q := ms)\<rparr>))"

definition stream_close :: "nat \<Rightarrow> 'm broker \<Rightarrow> 'm broker" where
  "stream_close q b = disconnect q b"

section \<open>Well-formed brokers\<close>

text \<open>Queues are numbered in the order of connection and a client subscribes once.\<close>

definition broker_wf :: "'m broker \<Rightarrow> bool" where
  "broker_wf b \<longleftrightarrow> distinct (subscribers b) \<and> (\<forall>q \<in> set (subscribers b). q < next_queue b)"

lemma put_all_subscribers [simp]: "subscribers (snd (put_all m qs b)) = subscribers b"
  by (induction m qs b rule: put_all.induct) (auto simp: put_def Let_def split: prod.splits)

lemma put_all_next_queue [simp]: "next_queue (snd (put_all m qs b)) = next_queue b"
  by (induction m qs b rule: put_all.induct) (auto simp: put_def Let_def split: prod.splits)

lemma put_all_put_fails [simp]: "put_fails (snd (put_all m qs b)) = put_fails b"
  by (induction m qs b rule: put_all.induct) (auto simp: put_def Let_def split: prod.splits)

lemma put_all_dead: "fst (put_all m qs b) = filter (put_fails b) qs"
  by (induction m qs b rule: put_all.induct) (auto simp: put_def Let_def split: prod.splits)

lemma put_all_queue:
  "distinct qs \<Longrightarrow>
   queue_of (snd (put_all m qs b)) q =
     (if q \<in> set qs \<and> \<not> put_fails b q then queue_of b q @ [m] else queue_of b q)"
  by (induction m qs b rule: put_all.induct) (auto simp: put_def Let_def split: prod.splits)

lemma disconnect_simps [simp]:
  "queue_of (disconnect q b) = queue_of b"
  "next_queue (disconnect q b) = next_queue b"
  "put_fails (disconnect q b) = put_fails b"
  "subscribers (disconnect q b) = remove1 q (subscribers b)"
  by (simp_all add: disconnect_def remove1_idem)

lemma fold_disconnect_simps [simp]:
  "queue_of (fold disconnect qs b) = queue_of b"
  "next_queue (fold disconnect qs b) = next_queue b"
  "put_fails (fold disconnect qs b) = put_fails b"
  by (induction qs arbitrary: b) auto

lemma fold_disconnect_subscribers:
  "distinct (subscribers b) \<Longrightarrow>
   subscribers (fold disconnect qs b) = filter (\<lambda>q. q \<notin> set qs) (subscribers b)"
  by (induction qs arbitrary: b) (auto simp: distinct_remove1_removeAll removeAll_filter_not_eq
      intro: filter_cong)

lemma publish_simps [simp]:
  "next_queue (publish m b) = next_queue b"
  "put_fails (publish m b) = put_fails b"
  by (simp_all add: publish_def case_prod_beta)

lemma publish_subscribers:
  "broker_wf b \<Longrightarrow> subscribers (publish m b) = filter (\<lambda>q. \<not> put_fails b q) (subscribers b)"
  by (simp add: publish_def case_prod_beta put_all_dead fold_disconnect_subscribers broker_wf_def)
     (rule filter_cong, auto)

lemma publish_queue:
  "broker_wf b \<Longrightarrow>
   queue_of (publish m b) q =
     (if q \<in> set (subscribers b) \<and> \<not> put_fails b q then queue_of b q @ [m] else queue_of b q)"
  by (simp add: publish_def case_prod_beta put_all_queue broker_wf_def)

lemma broker_wf_new: "broker_wf new_broker"
  by (simp add: broker_wf_def new_broker_def)

lemma broker_wf_connect: "broker_wf b \<Longrightarrow> broker_wf (snd (connect b))"
  by (auto simp: broker_wf_def connect_def Let_def less_Suc_eq)

lemma broker_wf_disconnect: "broker_wf b \<Longrightarrow> broker_wf (disconnect q b)"
  by (auto simp: broker_wf_def dest: notin_set_remove1 in_set_remove1)

lemma broker_wf_publish: "broker_wf b \<Longrightarrow> broker_wf (publish m b)"
  by (simp add: publish_subscribers broker_wf_def)

section \<open>The interface of a channel\<close>

text \<open>
  What a producer and its clients rely on: a fresh subscription starts empty, a publication
  reaches every live subscriber once and at the end of its queue, and nobody else.
\<close>

locale pubsub =
  fixes wf :: "'b \<Rightarrow> bool"
    and live :: "'b \<Rightarrow> nat \<Rightarrow> bool"
    and pending :: "'b \<Rightarrow> nat \<Rightarrow> 'm list"
    and join :: "'b \<Rightarrow> nat \<times> 'b"
    and leave :: "nat \<Rightarrow> 'b \<Rightarrow> 'b"
    and send :: "'m \<Rightarrow> 'b \<Rightarrow> 'b"
  assumes wf_join: "wf b \<Longrightarrow> wf (snd (join b))"
    and wf_leave: "wf b \<Longrightarrow> wf (leave q b)"
    and wf_send: "wf b \<Longrightarrow> wf (send m b)"
    and join_pending: "wf b \<Longrightarrow> pending (snd (join b)) (fst (join b)) = []"
    and join_other: "wf b \<Longrightarrow> q \<noteq> fst (join b) \<Longrightarrow> pending (snd (join b)) q = pending b q"
    and join_fresh: "wf b \<Longrightarrow> \<not> live b (fst (join b))"
    and join_live: "wf b \<Longrightarrow> live b q \<Longrightarrow> live (snd (join b)) q"
    and leave_dead: "wf b \<Longrightarrow> \<not> live (leave q b) q"
    and leave_other: "wf b \<Longrightarrow> q' \<noteq> q \<Longrightarrow> live (leave q b) q' = live b q'"
    and leave_pending: "wf b \<Longrightarrow> pending (leave q b) q' = pending b q'"
    and send_live: "wf b \<Longrightarrow> live (send m b) q = live b q"
    and send_pending: "wf b \<Longrightarrow> pending (send m b) q = (if live b q then pending b q @ [m] else pending b q)"
begin

lemma send_all_wf: "wf b \<Longrightarrow> wf (fold send ms b)"
  by (induction ms arbitrary: b) (auto intro: wf_send)

lemma send_all_live: "wf b \<Longrightarrow> live (fold send ms b) q = live b q"
  by (induction ms arbitrary: b) (auto simp: send_live wf_send)

text \<open>A subscriber finds every later message, in the order of publication.\<close>

lemma send_all_pending:
  "wf b \<Longrightarrow> pending (fold send ms b) q = (if live b q then pending b q @ ms else pending b q)"
  by (induction ms arbitrary: b) (auto simp: send_live send_pending wf_send)

text \<open>A client that left gets nothing more.\<close>

lemma after_leave: "wf b \<Longrightarrow> pending (fold send ms (leave q b)) q = pending b q"
  by (simp add: send_all_pending wf_leave leave_dead leave_pending)

end

definition broker_live :: "'m broker \<Rightarrow> nat \<Rightarrow> bool" where
  "broker_live b q \<longleftrightarrow> q \<in> set (subscribers b) \<and> \<not> put_fails b q"

interpretation chan: pubsub broker_wf broker_live queue_of connect disconnect publish
proof unfold_locales
  fix b :: "'m broker" and m :: 'm and q q' :: nat
  assume wf: "broker_wf b"
  show "broker_wf (snd (connect b))" by (rule broker_wf_connect [OF wf])
  show "broker_wf (disconnect q b)" by (rule broker_wf_disconnect [OF wf])
  show "broker_wf (publish m b)" by (rule broker_wf_publish [OF wf])
  show "queue_of (snd (connect b)) (fst (connect b)) = []"
    by (simp add: connect_def Let_def)
  show "\<not> broker_live b (fst (connect b))"
    using wf by (auto simp: broker_live_def connect_def Let_def broker_wf_def)
  show "\<not> broker_live (disconnect q b) q"
    using wf by (auto simp: broker_live_def broker_wf_def)
  show "queue_of (disconnect q b) q' = queue_of b q'" by simp
  show "broker_live (publish m b) q = broker_live b q"
    using wf by (auto simp: broker_live_def publish_subscribers)
  show "queue_of (publish m b) q = (if broker_live b q then queue_of b q @ [m] else queue_of b q)"
    using wf by (simp add: publish_queue broker_live_def)
  show "q \<noteq> fst (connect b) \<Longrightarrow> queue_of (snd (connect b)) q = queue_of b q"
    by (simp add: connect_def Let_def)
  show "broker_live b q \<Longrightarrow> broker_live (snd (connect b)) q"
    by (auto simp: broker_live_def connect_def Let_def)
  show "q' \<noteq> q \<Longrightarrow> broker_live (disconnect q b) q' = broker_live b q'"
    by (auto simp: broker_live_def dest: notin_set_remove1)
qed

end
