(* ===== verification/Store.thy ===== *)
theory Store
  imports Schema Sse
begin

text \<open>
  Tables, the database and the state a request works on.

  A table is the list of its rows with the next value of its id sequence. The state \<open>world\<close>
  holds the committed database, the working copy that the open \<open>AsyncSession\<close> sees, the wall
  clock, the SSE channel and the file system. Mutating a persistent object changes its row in the
  working copy at once; the table constraints are checked at \<open>flush\<close> and \<open>commit\<close>, which raise
  \<open>IntegrityError\<close>; \<open>rollback\<close> restores the committed rows but, as in PostgreSQL, not the
  sequences. What other connections commit meanwhile is a parameter \<open>env\<close> of the operations that
  meet it.
\<close>

section \<open>Tables\<close>

type_synonym 'a row = "'a base_fields_scheme"

record 'r table =
  tbl_rows :: "'r list"
  tbl_seq :: int

definition empty_table :: "'r table" where
  "empty_table = \<lparr>tbl_rows = [], tbl_seq = 1\<rparr>"

definition table_ids :: "'a row table \<Rightarrow> int list" where
  "table_ids t = map row_id (tbl_rows t)"

definition table_get :: "'a row table \<Rightarrow> int \<Rightarrow> 'a row option" where
  "table_get t i = find (\<lambda>r. row_id r = i) (tbl_rows t)"

text \<open>INSERT: the id from the sequence, both audit stamps from \<open>CURRENT_TIMESTAMP\<close>.\<close>

definition stamp_new :: "datetime \<Rightarrow> int \<Rightarrow> 'a row \<Rightarrow> 'a row" where
  "stamp_new now i r = r\<lparr>row_id := i, created_at := Some now, updated_at := Some now\<rparr>"

definition table_insert :: "datetime \<Rightarrow> 'a row \<Rightarrow> 'a row table \<Rightarrow> int \<times> 'a row table" where
  "table_insert now r t =
     (tbl_seq t,
      t\<lparr>tbl_rows := tbl_rows t @ [stamp_new now (tbl_seq t) r], tbl_seq := tbl_seq t + 1\<rparr>)"

text \<open>UPDATE: \<open>onupdate\<close> stamps the row, and a row without a net change is not written.\<close>

definition touch :: "datetime \<Rightarrow> 'a row \<Rightarrow> 'a row \<Rightarrow> 'a row" where
  "touch now r r' = (if r' = r then r else r'\<lparr>updated_at := Some now\<rparr>)"

definition table_update ::
  "datetime \<Rightarrow> int \<Rightarrow> ('a row \<Rightarrow> 'a row) \<Rightarrow> 'a row table \<Rightarrow> 'a row table" where
  "table_update now i f t =
     t\<lparr>tbl_rows := map (\<lambda>r. if row_id r = i then touch now r (f r) else r) (tbl_rows t)\<rparr>"

definition table_delete :: "int \<Rightarrow> 'a row table \<Rightarrow> 'a row table" where
  "table_delete i t = t\<lparr>tbl_rows := filter (\<lambda>r. row_id r \<noteq> i) (tbl_rows t)\<rparr>"

definition table_wf :: "'a row table \<Rightarrow> bool" where
  "table_wf t \<longleftrightarrow> distinct (table_ids t) \<and> list_all (\<lambda>i. i < tbl_seq t) (table_ids t)"

lemma row_id_stamp_new [simp]: "row_id (stamp_new now i r) = i"
  by (simp add: stamp_new_def)

lemma row_id_touch [simp]: "row_id (touch now r r') = row_id r'"
  by (simp add: touch_def)

lemma find_unique:
  "distinct (map k xs) \<Longrightarrow> x \<in> set xs \<Longrightarrow> find (\<lambda>y. k y = k x) xs = Some x"
  by (induction xs) auto

lemma table_get_Some: "table_get t i = Some r \<Longrightarrow> r \<in> set (tbl_rows t) \<and> row_id r = i"
  by (auto simp: table_get_def find_Some_iff)

lemma table_get_None: "table_get t i = None \<longleftrightarrow> i \<notin> set (table_ids t)"
  by (auto simp: table_get_def table_ids_def find_None_iff)

lemma table_get_in: "table_wf t \<Longrightarrow> r \<in> set (tbl_rows t) \<Longrightarrow> table_get t (row_id r) = Some r"
  by (simp add: table_wf_def table_ids_def table_get_def find_unique)

lemma find_map_update:
  "(\<And>r. row_id (f r) = row_id r) \<Longrightarrow>
   find (\<lambda>r. row_id r = j) (map (\<lambda>r. if row_id r = i then touch now r (f r) else r) xs) =
     (if j = i then map_option (\<lambda>r. touch now r (f r)) (find (\<lambda>r. row_id r = i) xs)
      else find (\<lambda>r. row_id r = j) xs)"
  by (induction xs) auto

lemma find_append_case:
  "find P (xs @ ys) = (case find P xs of None \<Rightarrow> find P ys | Some x \<Rightarrow> Some x)"
  by (induction xs) auto

lemma find_filter_other:
  "find (\<lambda>r. row_id r = j) (filter (\<lambda>r. row_id r \<noteq> i) xs) =
     (if j = i then None else find (\<lambda>r. row_id r = j) xs)"
  by (induction xs) auto

lemma table_get_insert:
  assumes "table_wf t"
  shows "table_get (snd (table_insert now r t)) j =
     (if j = tbl_seq t then Some (stamp_new now (tbl_seq t) r) else table_get t j)"
proof -
  have "tbl_seq t \<notin> set (table_ids t)"
    using assms by (auto simp: table_wf_def list_all_iff)
  then have "table_get t (tbl_seq t) = None" by (simp add: table_get_None)
  then show ?thesis
    by (simp add: table_get_def table_insert_def find_append_case split: option.split)
qed

lemma table_ids_update [simp]:
  "(\<And>r. row_id (f r) = row_id r) \<Longrightarrow> table_ids (table_update now i f t) = table_ids t"
  by (auto simp: table_ids_def table_update_def)

lemma table_seq_update [simp]: "tbl_seq (table_update now i f t) = tbl_seq t"
  by (simp add: table_update_def)

section \<open>The interface of a table\<close>

text \<open>
  What \<open>AsyncRepository\<close> needs of the store it sits on: a lookup after an insertion, an update
  and a deletion, fresh ids, and well-formedness kept by all three.
\<close>

locale row_store =
  fixes wf :: "'s \<Rightarrow> bool"
    and id_of :: "'r \<Rightarrow> int"
    and lookup :: "'s \<Rightarrow> int \<Rightarrow> 'r option"
    and add :: "'r \<Rightarrow> 's \<Rightarrow> int \<times> 's"
    and stamp :: "int \<Rightarrow> 'r \<Rightarrow> 'r"
    and change :: "int \<Rightarrow> ('r \<Rightarrow> 'r) \<Rightarrow> 's \<Rightarrow> 's"
    and changed :: "'r \<Rightarrow> 'r \<Rightarrow> 'r"
    and remove :: "int \<Rightarrow> 's \<Rightarrow> 's"
  assumes wf_add: "wf s \<Longrightarrow> wf (snd (add r s))"
    and wf_change: "wf s \<Longrightarrow> (\<And>r. id_of (f r) = id_of r) \<Longrightarrow> wf (change i f s)"
    and wf_remove: "wf s \<Longrightarrow> wf (remove i s)"
    and lookup_id: "lookup s i = Some r \<Longrightarrow> id_of r = i"
    and fresh: "wf s \<Longrightarrow> lookup s (fst (add r s)) = None"
    and lookup_add: "wf s \<Longrightarrow> lookup (snd (add r s)) j =
          (if j = fst (add r s) then Some (stamp (fst (add r s)) r) else lookup s j)"
    and lookup_change: "wf s \<Longrightarrow> (\<And>r. id_of (f r) = id_of r) \<Longrightarrow> lookup (change i f s) j =
          (if j = i then map_option (\<lambda>r. changed r (f r)) (lookup s i) else lookup s j)"
    and lookup_remove: "wf s \<Longrightarrow> lookup (remove i s) j = (if j = i then None else lookup s j)"
begin

lemma add_then_lookup: "wf s \<Longrightarrow> add r s = (i, s') \<Longrightarrow> lookup s' i = Some (stamp i r)"
  using lookup_add [of s r i] by simp

lemma add_keeps_others: "wf s \<Longrightarrow> add r s = (i, s') \<Longrightarrow> lookup s j = Some x \<Longrightarrow> lookup s' j = Some x"
  using lookup_add [of s r j] fresh [of s r] by auto

lemma remove_add: "wf s \<Longrightarrow> add r s = (i, s') \<Longrightarrow> lookup (remove i s') j = lookup s j"
  using lookup_add [of s r j] lookup_remove [of s' i j] wf_add [of s r] fresh [of s r] by auto

lemma change_missing: "wf s \<Longrightarrow> (\<And>r. id_of (f r) = id_of r) \<Longrightarrow> lookup s i = None \<Longrightarrow>
  lookup (change i f s) j = lookup s j"
  using lookup_change [of s f i j] by auto

lemma remove_twice: "wf s \<Longrightarrow> lookup (remove i (remove i s)) j = lookup (remove i s) j"
  by (simp add: lookup_remove wf_remove)

end

interpretation tab: row_store table_wf row_id table_get "table_insert now" "stamp_new now"
  "table_update now" "touch now" table_delete
  for now :: datetime
proof unfold_locales
  fix t :: "'a row table" and r :: "'a row" and f :: "'a row \<Rightarrow> 'a row" and i j :: int
  assume wf: "table_wf t"
  show "table_wf (snd (table_insert now r t))"
    using wf by (fastforce simp: table_wf_def table_insert_def table_ids_def list_all_iff)
  show "table_wf (table_delete i t)"
    using wf by (auto simp: table_wf_def table_delete_def table_ids_def list_all_iff
        distinct_map_filter)
  show "table_get t (fst (table_insert now r t)) = None"
    using wf by (auto simp: table_get_None table_insert_def table_wf_def list_all_iff)
  show "table_get (snd (table_insert now r t)) j =
      (if j = fst (table_insert now r t) then Some (stamp_new now (fst (table_insert now r t)) r)
       else table_get t j)"
    using table_get_insert [OF wf, of now r j] by (simp add: table_insert_def)
  show "table_get (table_delete i t) j = (if j = i then None else table_get t j)"
    by (simp add: table_get_def table_delete_def find_filter_other)
  show "(\<And>r. row_id (f r) = row_id r) \<Longrightarrow> table_wf (table_update now i f t)"
    using wf by (simp add: table_wf_def)
  show "(\<And>r. row_id (f r) = row_id r) \<Longrightarrow> table_get (table_update now i f t) j =
      (if j = i then map_option (\<lambda>r. touch now r (f r)) (table_get t i) else table_get t j)"
    by (simp add: table_get_def table_update_def find_map_update)
qed (simp add: table_get_Some)

end
