(* ===== verification/Database.thy ===== *)
theory Database
  imports Store
begin

text \<open>
  The database, the unit of work and the generic repository: \<open>src/dependencies.py\<close>,
  \<open>src/repositories/base.py\<close> and the constraints that tie the tables together.
\<close>

section \<open>Exceptions\<close>

datatype exn_kind =
    IntegrityErr
  | TypeErr
  | AttributeErr
  | ValueErr
  | HTTPErr int
  | RuntimeErr
  | VideoProcessErr
  | ArucoDecodeErr
  | MissingGreenletErr
  | InvalidRequestErr
  | OSErr
  | CancelledErr
  | MqttErr
  | HttpxErr
  | ClientErr
  | TimeoutErr
  | ValidationErr
  | RecognitionApiErr
  | VideoAlreadyExistsErr
  | StationDirectoryErr
  | HttpStatusErr
  | AssertionErr

datatype exn = Exn exn_kind string

fun exn_class :: "exn \<Rightarrow> exn_kind" where
  "exn_class (Exn k _) = k"

text \<open>\<open>str(exc)\<close>.\<close>

fun exn_str :: "exn \<Rightarrow> string" where
  "exn_str (Exn _ m) = m"

text \<open>\<open>ArucoDecodeError\<close> is a subclass of \<open>VideoProcessError\<close>.\<close>

fun is_retriable_without_limit :: "exn \<Rightarrow> bool" where
  "is_retriable_without_limit (Exn k _) \<longleftrightarrow> k = VideoProcessErr \<or> k = ArucoDecodeErr"

section \<open>The database and its constraints\<close>

record db =
  stations :: "station table"
  tractors :: "tractor table"
  videos :: "video_file table"
  events :: "event table"
  visits :: "visit table"

definition fk :: "'a row table \<Rightarrow> int \<Rightarrow> bool" where
  "fk t i \<longleftrightarrow> i \<in> set (table_ids t)"

definition fk_opt :: "'a row table \<Rightarrow> int option \<Rightarrow> bool" where
  "fk_opt t x \<longleftrightarrow> (case x of None \<Rightarrow> True | Some i \<Rightarrow> fk t i)"

definition stations_ok :: "db \<Rightarrow> bool" where
  "stations_ok d \<longleftrightarrow> distinct (map st_code (tbl_rows (stations d)))"

definition tractors_ok :: "db \<Rightarrow> bool" where
  "tractors_ok d \<longleftrightarrow>
     list_all chk_tractors_aruco_ids_nonempty (tbl_rows (tractors d))
     \<and> uq_tractors_primary_aruco (tbl_rows (tractors d))"

definition videos_ok :: "db \<Rightarrow> bool" where
  "videos_ok d \<longleftrightarrow>
     list_all (\<lambda>v. video_row_ok v \<and> fk_opt (stations d) (vf_station_id v)) (tbl_rows (videos d))
     \<and> distinct (map vf_content_hash (tbl_rows (videos d)))"

definition events_ok :: "db \<Rightarrow> bool" where
  "events_ok d \<longleftrightarrow>
     list_all (\<lambda>e. event_row_ok e \<and> fk (videos d) (e_video_file_id e)
                  \<and> fk_opt (tractors d) (e_tractor_id e)) (tbl_rows (events d))"

definition visit_fks :: "db \<Rightarrow> visit \<Rightarrow> bool" where
  "visit_fks d v \<longleftrightarrow>
     fk (tractors d) (v_tractor_id v) \<and> fk (stations d) (v_station_id v)
     \<and> fk_opt (events d) (v_entry_event_id v) \<and> fk_opt (events d) (v_exit_event_id v)
     \<and> fk_opt (events d) (v_last_event_id v)"

definition visits_ok :: "db \<Rightarrow> bool" where
  "visits_ok d \<longleftrightarrow>
     list_all (\<lambda>v. visit_row_ok v \<and> visit_fks d v) (tbl_rows (visits d))
     \<and> uq_visit_open (tbl_rows (visits d))"

definition db_ok :: "db \<Rightarrow> bool" where
  "db_ok d \<longleftrightarrow> stations_ok d \<and> tractors_ok d \<and> videos_ok d \<and> events_ok d \<and> visits_ok d"

definition db_wf :: "db \<Rightarrow> bool" where
  "db_wf d \<longleftrightarrow> table_wf (stations d) \<and> table_wf (tractors d) \<and> table_wf (videos d)
     \<and> table_wf (events d) \<and> table_wf (visits d)"

section \<open>The world\<close>

datatype sse_event = ServerSentEvent string json

record world =
  committed :: db
  working :: db
  clock :: "nat \<Rightarrow> int" \<comment> \<open>the successive readings of the wall clock, UTC microseconds\<close>
  reads :: nat
  txn_now :: datetime \<comment> \<open>\<open>CURRENT_TIMESTAMP\<close> of the open transaction\<close>
  channel :: "sse_event broker"
  files :: "string \<Rightarrow> string option"

type_synonym 'a io = "(world, exn, 'a) prog"

text \<open>\<open>datetime.now(UTC)\<close>.\<close>

definition py_now :: "datetime io" where
  "py_now = (\<lambda>w. (Inr (Aware (clock w (reads w)) 0), w\<lparr>reads := Suc (reads w)\<rparr>))"

text \<open>Sequences run on across a rollback.\<close>

definition rewind_table :: "'r table \<Rightarrow> 'r table \<Rightarrow> 'r table" where
  "rewind_table c t = c\<lparr>tbl_seq := max (tbl_seq c) (tbl_seq t)\<rparr>"

definition rewind :: "db \<Rightarrow> db \<Rightarrow> db" where
  "rewind c d = \<lparr>stations = rewind_table (stations c) (stations d),
                tractors = rewind_table (tractors c) (tractors d),
                videos = rewind_table (videos c) (videos d),
                events = rewind_table (events c) (events d),
                visits = rewind_table (visits c) (visits d)\<rparr>"

text \<open>Writing a row computes the generated column; a reload after a commit reads it.\<close>

definition regenerate :: "db \<Rightarrow> db" where
  "regenerate d =
     d\<lparr>visits := (visits d)\<lparr>tbl_rows :=
         map (\<lambda>v. v\<lparr>v_duration_seconds := computed_duration v\<rparr>) (tbl_rows (visits d))\<rparr>\<rparr>"

definition next_txn :: "world \<Rightarrow> world" where
  "next_txn w = w\<lparr>txn_now := Naive (clock w (reads w))\<rparr>"

definition integrity_error :: exn where
  "integrity_error = Exn IntegrityErr ''IntegrityError''"

definition flush :: "unit io" where
  "flush = (\<lambda>w. if db_ok (working w) then (Inr (), w) else (Inl integrity_error, w))"

definition commit :: "unit io" where
  "commit = (\<lambda>w.
     if db_ok (working w)
     then (let d = regenerate (working w)
           in (Inr (), next_txn (w\<lparr>committed := d, working := d\<rparr>)))
     else (Inl integrity_error, w))"

definition rollback :: "unit io" where
  "rollback = modify (\<lambda>w. next_txn (w\<lparr>working := rewind (committed w) (working w)\<rparr>))"

text \<open>
  \<open>async with AsyncSession(engine) as session\<close>: a new unit of work over the committed data;
  leaving the block closes the session, which discards what was not committed.
\<close>

definition with_session :: "'a io \<Rightarrow> 'a io" where
  "with_session m = (\<lambda>w.
     case m (next_txn (w\<lparr>working := committed w\<rparr>)) of
       (r, w') \<Rightarrow> (r, w'\<lparr>working := rewind (committed w') (working w'),
                        committed := rewind (committed w') (working w')\<rparr>))"

text \<open>\<open>get_async_session\<close>: commit when the endpoint returns, roll back when it raises.\<close>

definition get_async_session :: "'a io \<Rightarrow> 'a io" where
  "get_async_session endpoint =
     with_session
       (tryM (bindM endpoint (\<lambda>a. seqM commit (ret a))) (\<lambda>e. seqM rollback (raise e)))"

section \<open>The generic repository\<close>

text \<open>
  \<open>AsyncRepository[T](model, session)\<close>: the model class names its table, the attributes a filter
  may use, and what the foreign keys that point at it do when a row is deleted.
\<close>

record 'r repo =
  rp_name :: string
  rp_table :: "db \<Rightarrow> 'r table"
  rp_upd :: "('r table \<Rightarrow> 'r table) \<Rightarrow> db \<Rightarrow> db"
  rp_attr :: "string \<Rightarrow> ('r \<Rightarrow> json) option"
  rp_on_delete :: "int \<Rightarrow> db \<Rightarrow> db"

definition repo_rows :: "'r repo \<Rightarrow> world \<Rightarrow> 'r list" where
  "repo_rows R w = tbl_rows (rp_table R (working w))"

definition repo_get :: "('a row) repo \<Rightarrow> int \<Rightarrow> 'a row option io" where
  "repo_get R i = gets (\<lambda>w. table_get (rp_table R (working w)) i)"

definition created_between :: "datetime option \<Rightarrow> datetime option \<Rightarrow> 'a row \<Rightarrow> bool" where
  "created_between created_before created_after r \<longleftrightarrow>
     (case created_after of None \<Rightarrow> True
      | Some a \<Rightarrow> (case created_at r of None \<Rightarrow> False | Some c \<Rightarrow> utc_us a \<le> utc_us c))
     \<and> (case created_before of None \<Rightarrow> True
      | Some b \<Rightarrow> (case created_at r of None \<Rightarrow> False | Some c \<Rightarrow> utc_us c \<le> utc_us b))"

definition repo_list ::
  "('a row) repo \<Rightarrow> nat \<Rightarrow> nat \<Rightarrow> datetime option \<Rightarrow> datetime option \<Rightarrow> 'a row list io" where
  "repo_list R limit offset created_before created_after =
     gets (\<lambda>w. page limit offset (sort_key row_id (filter (created_between created_before created_after) (repo_rows R w))))"

text \<open>One entry of \<open>options\<close>: absent attributes and \<open>None\<close> values do not restrict the query.\<close>

definition option_matches :: "('a row) repo \<Rightarrow> string \<times> json \<Rightarrow> 'a row \<Rightarrow> bool" where
  "option_matches R opt r =
     (case opt of (attr, value) \<Rightarrow>
        (case (rp_attr R attr, value) of
           (_, JNull) \<Rightarrow> True
         | (None, _) \<Rightarrow> True
         | (Some f, JList vs) \<Rightarrow> f r \<noteq> JNull \<and> f r \<in> set vs
         | (Some f, v) \<Rightarrow> f r = v))"

definition attr_is_null :: "('a row) repo \<Rightarrow> bool \<Rightarrow> string \<Rightarrow> 'a row \<Rightarrow> bool" where
  "attr_is_null R want attr r =
     (case rp_attr R attr of None \<Rightarrow> True | Some f \<Rightarrow> (f r = JNull) = want)"

definition repo_get_filtered ::
  "('a row) repo \<Rightarrow> (string \<times> json) list \<Rightarrow> nat \<Rightarrow> nat \<Rightarrow> bool \<Rightarrow> string list \<Rightarrow> string list \<Rightarrow>
   datetime option \<Rightarrow> datetime option \<Rightarrow> 'a row list io" where
  "repo_get_filtered R options limit offset descending attr_none attr_not_none created_before created_after =
     gets (\<lambda>w.
       let hits = filter (\<lambda>r. list_all (\<lambda>opt. option_matches R opt r) options
                            \<and> list_all (\<lambda>a. attr_is_null R True a r) attr_none
                            \<and> list_all (\<lambda>a. attr_is_null R False a r) attr_not_none
                            \<and> created_between created_before created_after r) (repo_rows R w);
           ordered = sort_key row_id hits
       in page limit offset (if descending then rev ordered else ordered))"

text \<open>\<open>session.add(obj)\<close> of a new object; its id is known after the flush.\<close>

definition add_row :: "('a row) repo \<Rightarrow> 'a row \<Rightarrow> int io" where
  "add_row R obj = (\<lambda>w.
     case table_insert (txn_now w) obj (rp_table R (working w)) of
       (i, t') \<Rightarrow> (Inr i, w\<lparr>working := rp_upd R (\<lambda>_. t') (working w)\<rparr>))"

definition set_row :: "('a row) repo \<Rightarrow> int \<Rightarrow> ('a row \<Rightarrow> 'a row) \<Rightarrow> unit io" where
  "set_row R i f =
     modify (\<lambda>w. w\<lparr>working := rp_upd R (table_update (txn_now w) i f) (working w)\<rparr>)"

definition refresh :: "('a row) repo \<Rightarrow> int \<Rightarrow> 'a row io" where
  "refresh R i =
     bindM (repo_get R i) (\<lambda>r. case r of
         Some row \<Rightarrow> ret row
       | None \<Rightarrow> raise (Exn InvalidRequestErr ''Could not refresh instance''))"

definition repo_create :: "('a row) repo \<Rightarrow> 'a row \<Rightarrow> 'a row io" where
  "repo_create R obj = bindM (add_row R obj) (\<lambda>i. seqM flush (refresh R i))"

definition repo_update :: "('a row) repo \<Rightarrow> int \<Rightarrow> ('a row \<Rightarrow> 'a row) \<Rightarrow> 'a row io" where
  "repo_update R i f = seqM (set_row R i f) (seqM flush (refresh R i))"

definition not_found_msg :: "string \<Rightarrow> int \<Rightarrow> string" where
  "not_found_msg name i = name @ '' id='' @ show_int i @ '' not found''"

definition repo_update_by_id :: "('a row) repo \<Rightarrow> int \<Rightarrow> ('a row \<Rightarrow> 'a row) \<Rightarrow> 'a row io" where
  "repo_update_by_id R i f =
     bindM (repo_get R i) (\<lambda>r. case r of
         None \<Rightarrow> raise (Exn ValueErr (not_found_msg (rp_name R) i))
       | Some _ \<Rightarrow> repo_update R i f)"

definition repo_delete :: "('a row) repo \<Rightarrow> int \<Rightarrow> unit io" where
  "repo_delete R i =
     modify (\<lambda>w. w\<lparr>working := rp_on_delete R i (rp_upd R (table_delete i) (working w))\<rparr>)"

definition repo_count :: "'r repo \<Rightarrow> nat io" where
  "repo_count R = gets (\<lambda>w. length (repo_rows R w))"

section \<open>Well-formed worlds\<close>

text \<open>
  Both copies of the database are well-formed tables, and what is committed satisfies every
  constraint of the schema. Every operation keeps this.
\<close>

definition world_ok :: "world \<Rightarrow> bool" where
  "world_ok w \<longleftrightarrow> db_wf (committed w) \<and> db_wf (working w) \<and> db_ok (committed w)"

lemma table_wf_rewind: "table_wf c \<Longrightarrow> table_wf (rewind_table c t)"
  by (auto simp: table_wf_def rewind_table_def table_ids_def list_all_iff)

lemma db_wf_rewind: "db_wf c \<Longrightarrow> db_wf (rewind c d)"
  by (simp add: db_wf_def rewind_def table_wf_rewind)

lemma rows_rewind [simp]:
  "tbl_rows (stations (rewind c d)) = tbl_rows (stations c)"
  "tbl_rows (tractors (rewind c d)) = tbl_rows (tractors c)"
  "tbl_rows (videos (rewind c d)) = tbl_rows (videos c)"
  "tbl_rows (events (rewind c d)) = tbl_rows (events c)"
  "tbl_rows (visits (rewind c d)) = tbl_rows (visits c)"
  by (simp_all add: rewind_def rewind_table_def)

lemma fk_cong: "tbl_rows t = tbl_rows t' \<Longrightarrow> fk t = fk t' \<and> fk_opt t = fk_opt t'"
  by (auto simp: fk_def fk_opt_def table_ids_def fun_eq_iff split: option.split)

lemma fk_rewind [simp]:
  "fk (stations (rewind c d)) = fk (stations c)" "fk_opt (stations (rewind c d)) = fk_opt (stations c)"
  "fk (tractors (rewind c d)) = fk (tractors c)" "fk_opt (tractors (rewind c d)) = fk_opt (tractors c)"
  "fk (videos (rewind c d)) = fk (videos c)" "fk_opt (videos (rewind c d)) = fk_opt (videos c)"
  "fk (events (rewind c d)) = fk (events c)" "fk_opt (events (rewind c d)) = fk_opt (events c)"
  by (simp_all add: fk_cong [OF rows_rewind(1)] fk_cong [OF rows_rewind(2)]
      fk_cong [OF rows_rewind(3)] fk_cong [OF rows_rewind(4)])

lemma db_ok_rewind [simp]: "db_ok (rewind c d) = db_ok c"
  by (simp add: db_ok_def stations_ok_def tractors_ok_def videos_ok_def events_ok_def visits_ok_def
      visit_fks_def)

lemma regenerate_simps [simp]:
  "stations (regenerate d) = stations d"
  "tractors (regenerate d) = tractors d"
  "videos (regenerate d) = videos d"
  "events (regenerate d) = events d"
  "tbl_rows (visits (regenerate d)) =
     map (\<lambda>v. v\<lparr>v_duration_seconds := computed_duration v\<rparr>) (tbl_rows (visits d))"
  "tbl_seq (visits (regenerate d)) = tbl_seq (visits d)"
  by (simp_all add: regenerate_def)

lemma visit_row_ok_duration [simp]: "visit_row_ok (v\<lparr>v_duration_seconds := x\<rparr>) = visit_row_ok v"
  by (simp add: visit_checks)

lemma visit_pair_duration [simp]: "visit_pair (v\<lparr>v_duration_seconds := x\<rparr>) = visit_pair v"
  by (simp add: visit_pair_def)

lemma visit_is_open_duration [simp]: "visit_is_open (v\<lparr>v_duration_seconds := x\<rparr>) = visit_is_open v"
  by (simp add: visit_is_open_def)

lemma uq_visit_open_regenerate:
  "uq_visit_open (map (\<lambda>v. v\<lparr>v_duration_seconds := computed_duration v\<rparr>) vs) = uq_visit_open vs"
  by (simp add: uq_visit_open_def filter_map comp_def)

lemma db_ok_regenerate [simp]: "db_ok (regenerate d) = db_ok d"
  by (simp add: db_ok_def stations_ok_def tractors_ok_def videos_ok_def events_ok_def visits_ok_def
      visit_fks_def list_all_iff uq_visit_open_regenerate)

lemma db_wf_regenerate: "db_wf d \<Longrightarrow> db_wf (regenerate d)"
  by (simp add: db_wf_def table_wf_def table_ids_def comp_def)

lemma next_txn_simps [simp]:
  "committed (next_txn w) = committed w"
  "working (next_txn w) = working w"
  "clock (next_txn w) = clock w"
  "reads (next_txn w) = reads w"
  "channel (next_txn w) = channel w"
  "files (next_txn w) = files w"
  by (simp_all add: next_txn_def)

lemma world_ok_next_txn [simp]: "world_ok (next_txn w) = world_ok w"
  by (simp add: world_ok_def)

lemma keeps_py_now [keeps_intros]: "keeps world_ok py_now"
  by (rule keepsI) (simp add: py_now_def world_ok_def)

lemma keeps_flush [keeps_intros]: "keeps world_ok flush"
  by (rule keepsI) (simp add: flush_def)

lemma keeps_commit [keeps_intros]: "keeps world_ok commit"
  by (rule keepsI) (simp add: commit_def world_ok_def Let_def db_wf_regenerate)

lemma keeps_rollback [keeps_intros]: "keeps world_ok rollback"
  by (rule keepsI) (simp add: rollback_def world_ok_def db_wf_rewind)

lemma keeps_with_session [keeps_intros]: "keeps world_ok m \<Longrightarrow> keeps world_ok (with_session m)"
proof (rule keepsI)
  fix w
  assume m: "keeps world_ok m" and w: "world_ok w"
  obtain r w' where run: "m (next_txn (w\<lparr>working := committed w\<rparr>)) = (r, w')"
    by fastforce
  have "world_ok (next_txn (w\<lparr>working := committed w\<rparr>))"
    using w by (simp add: world_ok_def)
  then have "world_ok w'" by (rule keeps_run [OF m _ run])
  then show "world_ok (snd (with_session m w))"
    by (simp add: with_session_def run world_ok_def db_wf_rewind)
qed

lemma keeps_get_async_session [keeps_intros]:
  "keeps world_ok m \<Longrightarrow> keeps world_ok (get_async_session m)"
  by (auto simp: get_async_session_def intro!: keeps_intros)

text \<open>After a successful commit the transaction is what everybody else sees.\<close>

lemma commit_Inr:
  "commit w = (Inr u, w') \<Longrightarrow>
   db_ok (working w) \<and> committed w' = regenerate (working w) \<and> working w' = committed w'"
  by (auto simp: commit_def Let_def split: if_splits)

lemma commit_Inl: "commit w = (Inl e, w') \<Longrightarrow> e = integrity_error \<and> w' = w \<and> \<not> db_ok (working w)"
  by (auto simp: commit_def Let_def split: if_splits)

text \<open>The world after a rollback.\<close>

definition rolled_back :: "world \<Rightarrow> world" where
  "rolled_back w = next_txn (w\<lparr>working := rewind (committed w) (working w)\<rparr>)"

lemma rolled_back_simps [simp]:
  "working (rolled_back w) = rewind (committed w) (working w)" "committed (rolled_back w) = committed w"
  "files (rolled_back w) = files w" "clock (rolled_back w) = clock w" "reads (rolled_back w) = reads w"
  by (simp_all add: rolled_back_def)

lemma rollback_run: "rollback w = (Inr (), rolled_back w)"
  by (simp add: rollback_def rolled_back_def)

section \<open>The interface of a repository\<close>

text \<open>
  What the generic repository needs of a model class: its table is a component of the database
  that can be read and replaced, and deleting a row leaves well-formed tables behind.
\<close>

locale model_class =
  fixes R :: "('a row) repo"
  assumes table_upd: "rp_table R (rp_upd R f d) = f (rp_table R d)"
    and upd_wf: "db_wf d \<Longrightarrow> table_wf (f (rp_table R d)) \<Longrightarrow> db_wf (rp_upd R f d)"
    and table_of_wf: "db_wf d \<Longrightarrow> table_wf (rp_table R d)"
    and on_delete_wf: "db_wf d \<Longrightarrow> db_wf (rp_on_delete R i d)"
    and on_delete_table: "rp_table R (rp_on_delete R i d) = rp_table R d"
begin

lemma keeps_repo_get: "keeps I (repo_get R i)"
  by (simp add: repo_get_def keeps_gets)

lemma keeps_refresh: "keeps I (refresh R i)"
  by (auto simp: refresh_def intro!: keeps_intros keeps_repo_get)

lemma keeps_add_row: "keeps world_ok (add_row R obj)"
proof (rule keepsI)
  fix w
  assume "world_ok w"
  then have "db_wf (rp_upd R (\<lambda>_. snd (table_insert (txn_now w) obj (rp_table R (working w)))) (working w))"
    by (intro upd_wf) (auto simp: world_ok_def intro!: tab.wf_add table_of_wf)
  then show "world_ok (snd (add_row R obj w))"
    using \<open>world_ok w\<close> by (simp add: add_row_def case_prod_beta world_ok_def)
qed

lemma keeps_set_row:
  assumes "\<And>r. row_id (f r) = row_id r"
  shows "keeps world_ok (set_row R i f)"
  unfolding set_row_def
  by (rule keeps_modify)
     (auto simp: world_ok_def assms intro!: upd_wf tab.wf_change table_of_wf)

lemma keeps_repo_create: "keeps world_ok (repo_create R obj)"
  by (auto simp: repo_create_def intro!: keeps_intros keeps_add_row keeps_refresh)

lemma keeps_repo_update:
  "(\<And>r. row_id (f r) = row_id r) \<Longrightarrow> keeps world_ok (repo_update R i f)"
  by (auto simp: repo_update_def intro!: keeps_intros keeps_set_row keeps_refresh)

lemma keeps_repo_update_by_id:
  "(\<And>r. row_id (f r) = row_id r) \<Longrightarrow> keeps world_ok (repo_update_by_id R i f)"
  by (auto simp: repo_update_by_id_def intro!: keeps_intros keeps_repo_get keeps_repo_update)

lemma keeps_repo_delete: "keeps world_ok (repo_delete R i)"
  unfolding repo_delete_def
  by (rule keeps_modify)
     (auto simp: world_ok_def intro!: on_delete_wf upd_wf tab.wf_remove table_of_wf)

lemma add_row_run:
  "add_row R obj w =
     (let t = rp_table R (working w)
      in (Inr (tbl_seq t),
          w\<lparr>working := rp_upd R (\<lambda>_. snd (table_insert (txn_now w) obj t)) (working w)\<rparr>))"
  by (simp add: add_row_def table_insert_def Let_def)

text \<open>A created row has the id the sequence gave, the stamps, and is found under its id.\<close>

lemma repo_create_Inr:
  assumes "world_ok w" and "repo_create R obj w = (Inr r, w')"
  shows "r = stamp_new (txn_now w) (tbl_seq (rp_table R (working w))) obj
    \<and> table_get (rp_table R (working w')) (row_id r) = Some r
    \<and> db_ok (working w')"
proof -
  let ?t = "rp_table R (working w)"
  have wf: "table_wf ?t" using assms(1) by (simp add: world_ok_def table_of_wf)
  from assms(2) have w': "w' = snd (add_row R obj w)" "db_ok (working w')"
    and r: "table_get (rp_table R (working w')) (tbl_seq ?t) = Some r"
    by (auto simp: repo_create_def add_row_run bindM_eq_Inr seqM_eq_Inr flush_def refresh_def
        repo_get_def Let_def table_upd split: if_splits option.splits)
  then have "r = stamp_new (txn_now w) (tbl_seq ?t) obj"
    using tab.lookup_add [OF wf, of "txn_now w" obj "tbl_seq ?t"]
    by (simp add: add_row_run Let_def table_upd table_insert_def)
  with r w' show ?thesis by simp
qed

lemma repo_create_error: "repo_create R obj w = (Inl e, w') \<Longrightarrow> world_ok w \<Longrightarrow> e = integrity_error"
  using tab.lookup_add [OF table_of_wf, of "working w" "txn_now w" obj "tbl_seq (rp_table R (working w))"]
  by (auto simp: repo_create_def add_row_run bindM_def seqM_def flush_def refresh_def world_ok_def
      repo_get_def Let_def table_upd table_insert_def split: if_splits option.splits)

lemma repo_update_by_id_missing:
  "table_get (rp_table R (working w)) i = None \<Longrightarrow>
   repo_update_by_id R i f w = (Inl (Exn ValueErr (not_found_msg (rp_name R) i)), w)"
  by (simp add: repo_update_by_id_def bindM_def repo_get_def)

lemma repo_update_run:
  assumes wf: "db_wf (working w)" and id: "\<And>r. row_id (f r) = row_id r"
    and r: "table_get (rp_table R (working w)) i = Some r"
  shows "repo_update R i f w =
    (let w' = w\<lparr>working := rp_upd R (table_update (txn_now w) i f) (working w)\<rparr>
     in if db_ok (working w') then (Inr (touch (txn_now w) r (f r)), w') else (Inl integrity_error, w'))"
  using tab.lookup_change [OF table_of_wf [OF wf], of f "txn_now w" i i] r id
  by (simp add: repo_update_def set_row_def seqM_def bindM_def flush_def refresh_def repo_get_def
      table_upd Let_def)

lemma repo_update_by_id_run:
  assumes "db_wf (working w)" and "\<And>r. row_id (f r) = row_id r"
    and "table_get (rp_table R (working w)) i = Some r"
  shows "repo_update_by_id R i f w =
    (let w' = w\<lparr>working := rp_upd R (table_update (txn_now w) i f) (working w)\<rparr>
     in if db_ok (working w') then (Inr (touch (txn_now w) r (f r)), w') else (Inl integrity_error, w'))"
  using repo_update_run [OF assms] assms(3)
  by (simp add: repo_update_by_id_def bindM_def repo_get_def)

lemma repo_delete_get:
  "db_wf (working w) \<Longrightarrow> repo_delete R i w = (Inr u, w') \<Longrightarrow>
   table_get (rp_table R (working w')) j = (if j = i then None else table_get (rp_table R (working w)) j)"
  by (auto simp: repo_delete_def on_delete_table table_upd tab.lookup_remove table_of_wf)

end

end
