(* ===== verification/Repositories.thy ===== *)
theory Repositories
  imports Database "HOL-Library.Option_ord"
begin

text \<open>
  The five model classes as instances of the generic repository, with the foreign-key actions of
  the migrations, and the queries of \<open>src/repositories\<close>. A \<open>SELECT\<close> without \<open>ORDER BY\<close> returns
  the rows in table order here; SQL leaves that order open.
\<close>

section \<open>Model classes\<close>

definition opt_json :: "('a \<Rightarrow> json) \<Rightarrow> 'a option \<Rightarrow> json" where
  "opt_json f x = (case x of None \<Rightarrow> JNull | Some a \<Rightarrow> f a)"

definition station_attr :: "string \<Rightarrow> (station \<Rightarrow> json) option" where
  "station_attr = map_of
     [(''id'', \<lambda>s. JInt (row_id s)), (''code'', \<lambda>s. JStr (st_code s)),
      (''name'', \<lambda>s. JStr (st_name s)), (''location'', \<lambda>s. opt_json JStr (st_location s)),
      (''video_dir'', \<lambda>s. JStr (st_video_dir s)), (''is_entry_zone'', \<lambda>s. JBool (st_is_entry_zone s)),
      (''is_active'', \<lambda>s. JBool (st_is_active s))]"

definition tractor_attr :: "string \<Rightarrow> (tractor \<Rightarrow> json) option" where
  "tractor_attr = map_of
     [(''id'', \<lambda>t. JInt (row_id t)), (''name'', \<lambda>t. JStr (tr_name t)),
      (''model'', \<lambda>t. opt_json JStr (tr_model t)), (''notes'', \<lambda>t. opt_json JStr (tr_notes t)),
      (''is_active'', \<lambda>t. JBool (tr_is_active t)),
      (''primary_aruco_id'', \<lambda>t. opt_json JInt (primary_aruco_id t))]"

definition video_attr :: "string \<Rightarrow> (video_file \<Rightarrow> json) option" where
  "video_attr = map_of
     [(''id'', \<lambda>v. JInt (row_id v)), (''station_id'', \<lambda>v. opt_json JInt (vf_station_id v)),
      (''status'', \<lambda>v. JStr (video_status_value (vf_status v)))]"

definition event_attr :: "string \<Rightarrow> (event \<Rightarrow> json) option" where
  "event_attr = map_of
     [(''id'', \<lambda>e. JInt (row_id e)), (''video_file_id'', \<lambda>e. JInt (e_video_file_id e)),
      (''tractor_id'', \<lambda>e. opt_json JInt (e_tractor_id e)),
      (''aruco_id'', \<lambda>e. opt_json JInt (e_aruco_id e))]"

definition visit_attr :: "string \<Rightarrow> (visit \<Rightarrow> json) option" where
  "visit_attr = map_of
     [(''id'', \<lambda>v. JInt (row_id v)), (''tractor_id'', \<lambda>v. JInt (v_tractor_id v)),
      (''station_id'', \<lambda>v. JInt (v_station_id v)),
      (''state'', \<lambda>v. JStr (visit_state_value (v_state v)))]"

text \<open>\<open>ON DELETE SET NULL\<close> and \<open>CASCADE\<close>; \<open>RESTRICT\<close> is the foreign-key check of the flush.\<close>

definition map_rows :: "('r \<Rightarrow> 'r) \<Rightarrow> 'r table \<Rightarrow> 'r table" where
  "map_rows f t = t\<lparr>tbl_rows := map f (tbl_rows t)\<rparr>"

definition null_if :: "int \<Rightarrow> int option \<Rightarrow> int option" where
  "null_if i x = (if x = Some i then None else x)"

definition on_delete_tractor :: "int \<Rightarrow> db \<Rightarrow> db" where
  "on_delete_tractor i d =
     d\<lparr>events := map_rows (\<lambda>e. e\<lparr>e_tractor_id := null_if i (e_tractor_id e)\<rparr>) (events d)\<rparr>"

definition on_delete_event :: "int \<Rightarrow> db \<Rightarrow> db" where
  "on_delete_event i d =
     d\<lparr>visits := map_rows (\<lambda>v. v\<lparr>v_entry_event_id := null_if i (v_entry_event_id v),
                               v_exit_event_id := null_if i (v_exit_event_id v),
                               v_last_event_id := null_if i (v_last_event_id v)\<rparr>) (visits d)\<rparr>"

definition on_delete_video :: "int \<Rightarrow> db \<Rightarrow> db" where
  "on_delete_video i d =
     fold (\<lambda>e d. on_delete_event e (d\<lparr>events := table_delete e (events d)\<rparr>))
       (map row_id (filter (\<lambda>e. e_video_file_id e = i) (tbl_rows (events d)))) d"

definition StationRepo :: "station repo" where
  "StationRepo = \<lparr>rp_name = ''Station'', rp_table = stations, rp_upd = stations_update,
                  rp_attr = station_attr, rp_on_delete = (\<lambda>_ d. d)\<rparr>"

definition TractorRepo :: "tractor repo" where
  "TractorRepo = \<lparr>rp_name = ''Tractor'', rp_table = tractors, rp_upd = tractors_update,
                  rp_attr = tractor_attr, rp_on_delete = on_delete_tractor\<rparr>"

definition VideoRepo :: "video_file repo" where
  "VideoRepo = \<lparr>rp_name = ''VideoFile'', rp_table = videos, rp_upd = videos_update,
                rp_attr = video_attr, rp_on_delete = on_delete_video\<rparr>"

definition EventRepo :: "event repo" where
  "EventRepo = \<lparr>rp_name = ''Event'', rp_table = events, rp_upd = events_update,
                rp_attr = event_attr, rp_on_delete = on_delete_event\<rparr>"

definition VisitRepo :: "visit repo" where
  "VisitRepo = \<lparr>rp_name = ''Visit'', rp_table = visits, rp_upd = visits_update,
                rp_attr = visit_attr, rp_on_delete = (\<lambda>_ d. d)\<rparr>"

lemma repo_sel [simp]:
  "rp_table StationRepo = stations" "rp_upd StationRepo = stations_update"
  "rp_on_delete StationRepo = (\<lambda>_ d. d)" "rp_name StationRepo = ''Station''"
  "rp_table TractorRepo = tractors" "rp_upd TractorRepo = tractors_update"
  "rp_on_delete TractorRepo = on_delete_tractor" "rp_name TractorRepo = ''Tractor''"
  "rp_table VideoRepo = videos" "rp_upd VideoRepo = videos_update"
  "rp_on_delete VideoRepo = on_delete_video" "rp_name VideoRepo = ''VideoFile''"
  "rp_table EventRepo = events" "rp_upd EventRepo = events_update"
  "rp_on_delete EventRepo = on_delete_event" "rp_name EventRepo = ''Event''"
  "rp_table VisitRepo = visits" "rp_upd VisitRepo = visits_update"
  "rp_on_delete VisitRepo = (\<lambda>_ d. d)" "rp_name VisitRepo = ''Visit''"
  by (simp_all add: StationRepo_def TractorRepo_def VideoRepo_def EventRepo_def VisitRepo_def)

lemma table_ids_map_rows:
  "(\<And>r. row_id (f r) = row_id r) \<Longrightarrow> table_ids (map_rows f t) = table_ids t"
  by (simp add: table_ids_def map_rows_def comp_def)

lemma table_wf_map_rows:
  "(\<And>r. row_id (f r) = row_id r) \<Longrightarrow> table_wf t \<Longrightarrow> table_wf (map_rows f t)"
  by (simp add: table_wf_def table_ids_map_rows) (simp add: map_rows_def)

lemma db_wf_on_delete_event: "db_wf d \<Longrightarrow> db_wf (on_delete_event i d)"
  by (simp add: db_wf_def on_delete_event_def table_wf_map_rows)

lemma on_delete_video_aux:
  "db_wf d \<Longrightarrow>
   db_wf (fold (\<lambda>e d. on_delete_event e (d\<lparr>events := table_delete e (events d)\<rparr>)) es d)
   \<and> videos (fold (\<lambda>e d. on_delete_event e (d\<lparr>events := table_delete e (events d)\<rparr>)) es d) = videos d"
proof (induction es arbitrary: d)
  case Nil
  then show ?case by simp
next
  case (Cons e es)
  let ?d = "on_delete_event e (d\<lparr>events := table_delete e (events d)\<rparr>)"
  have "db_wf (d\<lparr>events := table_delete e (events d)\<rparr>)"
    using Cons.prems tab.wf_remove [of "events d" e] by (simp add: db_wf_def)
  then have "db_wf ?d" by (rule db_wf_on_delete_event)
  from Cons.IH [OF this] show ?case by (simp add: on_delete_event_def)
qed

interpretation station_model: model_class StationRepo
  by unfold_locales (auto simp: db_wf_def)

interpretation tractor_model: model_class TractorRepo
  by unfold_locales (auto simp: db_wf_def on_delete_tractor_def table_wf_map_rows)

interpretation event_model: model_class EventRepo
  by unfold_locales (auto simp: db_wf_def on_delete_event_def table_wf_map_rows)

interpretation visit_model: model_class VisitRepo
  by unfold_locales (auto simp: db_wf_def)

lemma on_delete_video_videos: "videos (on_delete_video i d) = videos d"
proof -
  have "videos (fold (\<lambda>e d. on_delete_event e (d\<lparr>events := table_delete e (events d)\<rparr>)) es d) = videos d"
    for es by (induction es arbitrary: d) (simp_all add: on_delete_event_def)
  then show ?thesis by (simp add: on_delete_video_def)
qed

lemma db_wf_on_delete_video: "db_wf d \<Longrightarrow> db_wf (on_delete_video i d)"
  by (simp add: on_delete_video_def on_delete_video_aux)

lemma db_wf_videos_update:
  "db_wf d \<Longrightarrow> table_wf (f (videos d)) \<Longrightarrow> db_wf (videos_update f d)"
  by (simp add: db_wf_def)

interpretation video_model: model_class VideoRepo
  by unfold_locales
     (simp_all add: db_wf_videos_update on_delete_video_videos db_wf_on_delete_video,
      simp add: db_wf_def)

section \<open>Queries\<close>

definition get_by_code :: "string \<Rightarrow> station option io" where
  "get_by_code code = gets (\<lambda>w. first_or_none (filter (\<lambda>s. st_code s = code) (repo_rows StationRepo w)))"

definition get_by_any_aruco_id :: "int \<Rightarrow> tractor option io" where
  "get_by_any_aruco_id aruco_id =
     gets (\<lambda>w. first_or_none (filter (\<lambda>t. aruco_id \<in> set (tr_aruco_ids t)) (repo_rows TractorRepo w)))"

definition get_by_primary_aruco_id :: "int \<Rightarrow> tractor option io" where
  "get_by_primary_aruco_id aruco_id =
     gets (\<lambda>w. first_or_none (filter (\<lambda>t. primary_aruco_id t = Some aruco_id) (repo_rows TractorRepo w)))"

definition get_by_hash :: "string \<Rightarrow> video_file option io" where
  "get_by_hash content_hash =
     gets (\<lambda>w. first_or_none (filter (\<lambda>v. vf_content_hash v = content_hash) (repo_rows VideoRepo w)))"

definition list_by_station :: "int \<Rightarrow> nat \<Rightarrow> nat \<Rightarrow> video_file list io" where
  "list_by_station station_id limit offset =
     gets (\<lambda>w. page limit offset
       (rev (sort_key row_id (filter (\<lambda>v. vf_station_id v = Some station_id) (repo_rows VideoRepo w)))))"

definition count_by_status :: "(string \<times> nat) list io" where
  "count_by_status =
     gets (\<lambda>w. filter (\<lambda>(_, n). 0 < n)
       (map (\<lambda>s. (video_status_value s, length (filter (\<lambda>v. vf_status v = s) (repo_rows VideoRepo w))))
          [CREATED, PROCESSING, COMPLETED, FAILED, INVALID]))"

text \<open>
  The event repository selects with \<open>sqlalchemy\<close>'s own \<open>select\<close>: the session then returns rows, tuples of
  one column, instead of events, and \<open>int\<close> of such a row raises. \<open>ORDER BY frame_number, id\<close> is a stable
  sort by the frame number of the rows in the order of their ids.
\<close>

datatype 'a result_row = ResultRow 'a

primrec row_entity :: "'a result_row \<Rightarrow> 'a" where
  "row_entity (ResultRow a) = a"

definition list_by_video :: "int \<Rightarrow> event result_row list io" where
  "list_by_video video_id =
     gets (\<lambda>w. map ResultRow (sort_key e_frame_number
       (sort_key row_id (filter (\<lambda>e. e_video_file_id e = video_id) (repo_rows EventRepo w)))))"

definition py_int_of_row :: "'a result_row \<Rightarrow> exn + int" where
  "py_int_of_row r = Inl (Exn TypeErr ''int() argument must be a string or a real number, not Row'')"

definition count_by_video :: "int \<Rightarrow> int io" where
  "count_by_video video_id = (\<lambda>w.
     (py_int_of_row (ResultRow (length (filter (\<lambda>e. e_video_file_id e = video_id) (repo_rows EventRepo w)))), w))"

lemma list_by_video_run:
  "\<exists>rs. list_by_video i w = (Inr rs, w) \<and> sorted (map (e_frame_number \<circ> row_entity) rs)
     \<and> set (map row_entity rs) = {e \<in> set (tbl_rows (events (working w))). e_video_file_id e = i}
     \<and> length rs = length (filter (\<lambda>e. e_video_file_id e = i) (tbl_rows (events (working w))))"
  by (auto simp: list_by_video_def repo_rows_def gets_def comp_def image_image)

lemma count_by_video_raises: "\<exists>msg. count_by_video i w = (Inl (Exn TypeErr msg), w)"
  by (simp add: count_by_video_def py_int_of_row_def)

text \<open>\<open>updated_at < threshold\<close> is not true for a NULL stamp.\<close>

definition updated_before :: "int \<Rightarrow> 'a row \<Rightarrow> bool" where
  "updated_before threshold r \<longleftrightarrow>
     (case updated_at r of None \<Rightarrow> False | Some u \<Rightarrow> utc_us u < threshold)"

definition get_stale_videos :: "video_status \<Rightarrow> rat \<Rightarrow> video_file list io" where
  "get_stale_videos status threshold_minutes =
     bindM py_now (\<lambda>now.
       let threshold = utc_us (dt_add now (- timedelta_s (threshold_minutes * 60)))
       in gets (\<lambda>w. sort_key row_id
            (filter (\<lambda>v. vf_status v = status \<and> updated_before threshold v) (repo_rows VideoRepo w))))"

definition below_cap :: "int \<Rightarrow> int option \<Rightarrow> bool" where
  "below_cap cap retry_count = (case retry_count of None \<Rightarrow> True | Some n \<Rightarrow> n < cap)"

definition get_failed_videos_within_limit :: "int \<Rightarrow> video_file list io" where
  "get_failed_videos_within_limit max_retry_attempts =
     gets (\<lambda>w. sort_key row_id
       (filter (\<lambda>v. vf_status v = FAILED \<and> below_cap max_retry_attempts (vf_retry_count v))
          (repo_rows VideoRepo w)))"

definition get_failed_videos_unlimited :: "video_file list io" where
  "get_failed_videos_unlimited =
     gets (\<lambda>w. sort_key row_id
       (filter (\<lambda>v. vf_status v = FAILED \<and> vf_retry_count v = None) (repo_rows VideoRepo w)))"

definition list_open :: "visit list io" where
  "list_open = gets (\<lambda>w. sort_key row_id (filter visit_is_open (repo_rows VisitRepo w)))"

definition list_open_for_station :: "int \<Rightarrow> visit list io" where
  "list_open_for_station station_id =
     gets (\<lambda>w. sort_key row_id
       (filter (\<lambda>v. v_station_id v = station_id \<and> visit_is_open v) (repo_rows VisitRepo w)))"

definition list_open_for_tractor :: "int \<Rightarrow> visit list io" where
  "list_open_for_tractor tractor_id =
     gets (\<lambda>w. sort_key row_id
       (filter (\<lambda>v. v_tractor_id v = tractor_id \<and> visit_is_open v) (repo_rows VisitRepo w)))"

definition get_open_for_pair :: "int \<Rightarrow> int \<Rightarrow> visit option io" where
  "get_open_for_pair tractor_id station_id =
     gets (\<lambda>w. first_or_none
       (filter (\<lambda>v. v_tractor_id v = tractor_id \<and> v_station_id v = station_id \<and> visit_is_open v)
          (repo_rows VisitRepo w)))"

definition list_active :: "visit list io" where
  "list_active =
     gets (\<lambda>w. filter (\<lambda>v. v_state v \<in> {ENTERING, PRESENT, LEAVING}) (repo_rows VisitRepo w))"

definition opt_filter :: "('b option) \<Rightarrow> ('a \<Rightarrow> 'b) \<Rightarrow> 'a \<Rightarrow> bool" where
  "opt_filter x f r = (case x of None \<Rightarrow> True | Some b \<Rightarrow> f r = b)"

text \<open>\<open>ORDER BY arrived_at DESC\<close>, where PostgreSQL puts NULLs first.\<close>

definition list_history :: "int option \<Rightarrow> int option \<Rightarrow> nat \<Rightarrow> nat \<Rightarrow> visit list io" where
  "list_history tractor_id station_id limit offset =
     gets (\<lambda>w. page limit offset
       (sort_key (\<lambda>v. map_option (\<lambda>a. - utc_us a) (v_arrived_at v))
          (filter (\<lambda>v. v_state v = CLOSED \<and> opt_filter tractor_id v_tractor_id v
                       \<and> opt_filter station_id v_station_id v) (repo_rows VisitRepo w))))"

definition count_by_state :: "(string \<times> nat) list io" where
  "count_by_state =
     gets (\<lambda>w. filter (\<lambda>(_, n). 0 < n)
       (map (\<lambda>s. (visit_state_value s, length (filter (\<lambda>v. v_state v = s) (repo_rows VisitRepo w))))
          [ENTERING, PRESENT, LEAVING, CLOSED]))"

lemma repo_rows_simps [simp]:
  "repo_rows StationRepo w = tbl_rows (stations (working w))"
  "repo_rows TractorRepo w = tbl_rows (tractors (working w))"
  "repo_rows VideoRepo w = tbl_rows (videos (working w))"
  "repo_rows EventRepo w = tbl_rows (events (working w))"
  "repo_rows VisitRepo w = tbl_rows (visits (working w))"
  by (simp_all add: repo_rows_def)

lemmas query_defs =
  get_by_code_def get_by_any_aruco_id_def get_by_primary_aruco_id_def get_by_hash_def
  list_by_station_def get_failed_videos_within_limit_def get_failed_videos_unlimited_def
  list_open_def list_open_for_station_def list_open_for_tractor_def get_open_for_pair_def
  list_active_def list_history_def

lemma keeps_queries [keeps_intros]:
  "keeps I (get_by_code c)" "keeps I (get_by_any_aruco_id a)" "keeps I (get_by_hash h)"
  "keeps I (get_failed_videos_within_limit m)" "keeps I get_failed_videos_unlimited"
  "keeps I list_open" "keeps I (list_open_for_station s)" "keeps I (list_open_for_tractor t)"
  "keeps I (get_open_for_pair t s)" "keeps I list_active"
  by (simp_all add: query_defs keeps_gets)

lemma keeps_get_stale_videos [keeps_intros]: "keeps world_ok (get_stale_videos s m)"
  by (auto simp: get_stale_videos_def Let_def intro!: keeps_intros)

lemmas keeps_repo [keeps_intros] =
  station_model.keeps_repo_get station_model.keeps_repo_create station_model.keeps_repo_delete
  tractor_model.keeps_repo_get tractor_model.keeps_repo_create tractor_model.keeps_repo_delete
  video_model.keeps_repo_get video_model.keeps_repo_create video_model.keeps_repo_delete
  video_model.keeps_refresh event_model.keeps_add_row event_model.keeps_refresh
  event_model.keeps_repo_create event_model.keeps_repo_get
  visit_model.keeps_repo_get visit_model.keeps_repo_create visit_model.keeps_repo_delete
  visit_model.keeps_add_row

end
