(* ===== verification/VisitMachine.thy ===== *)
theory VisitMachine
  imports Schema
begin

text \<open>
  The visit state machine on one \<open>Visit\<close> object: \<open>_apply_state_transition\<close>,
  \<open>_maybe_close_visit\<close> and the test of \<open>recover_open_visits\<close> of
  \<open>src/services/visit_service.py\<close>, as functions from the object to the mutated object and the
  status changes published on the way (the object at that moment and the event id). A session's
  part of these methods (adding, deleting, publishing) is in the theory of the service.

  The object invariant \<open>visit_inv\<close> is kept by every operation and implies the CHECK constraints
  of the table. The automaton \<open>lifecycle\<close> is the life cycle the documentation draws.
\<close>

section \<open>Settings\<close>

record visit_settings =
  entry_confirm_seconds :: rat
  exit_confirm_seconds :: rat
  stale_check_interval_seconds :: rat
  recovery_grace_multiplier :: rat

definition default_visit_settings :: visit_settings where
  "default_visit_settings =
     \<lparr>entry_confirm_seconds = 1, exit_confirm_seconds = 10, stale_check_interval_seconds = 5,
      recovery_grace_multiplier = 3\<rparr>"

section \<open>Operations\<close>

type_synonym pub = "visit \<times> int option"

text \<open>The fields \<open>_create_or_get_open_visit\<close> gives a new object.\<close>

definition new_visit :: "int \<Rightarrow> int \<Rightarrow> datetime \<Rightarrow> int option \<Rightarrow> visit" where
  "new_visit tractor_id station_id frame_time event_id =
     \<lparr>row_id = 0, created_at = None, updated_at = None, deleted_at = None,
      v_tractor_id = tractor_id, v_station_id = station_id, v_state = ENTERING,
      v_arrived_at = None, v_departed_at = None, v_last_seen_at = Some frame_time,
      v_entry_event_id = event_id, v_exit_event_id = None, v_last_event_id = event_id,
      v_entry_seen_seconds = 0, v_duration_seconds = None\<rparr>"

definition or_else :: "'a option \<Rightarrow> 'a \<Rightarrow> 'a" where
  "or_else x d = (case x of None \<Rightarrow> d | Some a \<Rightarrow> a)"

definition apply_state_transition ::
  "visit_settings \<Rightarrow> visit \<Rightarrow> datetime \<Rightarrow> int \<Rightarrow> visit \<times> pub list" where
  "apply_state_transition cfg v frame_time event_id =
     (case v_state v of
        ENTERING \<Rightarrow>
          (let anchor = or_else (v_last_seen_at v) (or_else (created_at v) frame_time);
               elapsed = secs_between frame_time anchor;
               v1 = v\<lparr>v_entry_seen_seconds := v_entry_seen_seconds v + elapsed,
                     v_last_seen_at := Some frame_time,
                     v_last_event_id := Some event_id\<rparr>
           in if entry_confirm_seconds cfg \<le> v_entry_seen_seconds v1
              then (let v2 = v1\<lparr>v_state := PRESENT, v_arrived_at := Some frame_time,
                                v_entry_event_id := Some event_id\<rparr>
                    in (v2, [(v2, Some event_id)]))
              else (v1, []))
      | PRESENT \<Rightarrow> (v\<lparr>v_last_seen_at := Some frame_time, v_last_event_id := Some event_id\<rparr>, [])
      | LEAVING \<Rightarrow>
          (let v1 = v\<lparr>v_state := PRESENT, v_last_seen_at := Some frame_time,
                     v_last_event_id := Some event_id\<rparr>
           in (v1, [(v1, Some event_id)]))
      | _ \<Rightarrow> (v, []))"

datatype close_result = Deleted | Kept visit "pub list"

text \<open>PRESENT to LEAVING once the exit window has passed.\<close>

definition quiet_check :: "visit_settings \<Rightarrow> visit \<Rightarrow> datetime \<Rightarrow> visit \<times> pub list" where
  "quiet_check cfg v current_time =
     (if v_state v = PRESENT
         \<and> exit_confirm_seconds cfg \<le> secs_between current_time (or_else (v_last_seen_at v) current_time)
      then (let v1 = v\<lparr>v_state := LEAVING\<rparr> in (v1, [(v1, None)]))
      else (v, []))"

text \<open>LEAVING to CLOSED after two exit windows.\<close>

definition gone_check :: "visit_settings \<Rightarrow> visit \<Rightarrow> datetime \<Rightarrow> visit \<times> pub list" where
  "gone_check cfg v current_time =
     (let seen = or_else (v_last_seen_at v) current_time
      in if v_state v = LEAVING \<and> 2 * exit_confirm_seconds cfg \<le> secs_between current_time seen
         then (let v1 = v\<lparr>v_state := CLOSED,
                         v_departed_at :=
                           Some (dt_add (to_naive_utc seen) (timedelta_s (exit_confirm_seconds cfg)))\<rparr>
               in (v1, [(v1, None)]))
         else (v, []))"

definition maybe_close_visit :: "visit_settings \<Rightarrow> visit \<Rightarrow> datetime \<Rightarrow> close_result" where
  "maybe_close_visit cfg v current_time =
     (if v_state v = ENTERING
      then (if entry_confirm_seconds cfg * 3
                 \<le> secs_between current_time (or_else (created_at v) current_time)
            then Deleted else Kept v [])
      else (case quiet_check cfg v current_time of
              (v1, p1) \<Rightarrow> (case gone_check cfg v1 current_time of (v2, p2) \<Rightarrow> Kept v2 (p1 @ p2))))"

text \<open>\<open>recover_open_visits\<close>: is this open visit a leftover of a crash?\<close>

definition is_crash_leftover :: "visit_settings \<Rightarrow> visit \<Rightarrow> datetime \<Rightarrow> bool" where
  "is_crash_leftover cfg v now \<longleftrightarrow>
     v_state v = ENTERING
     \<and> entry_confirm_seconds cfg * recovery_grace_multiplier cfg
         < secs_between now (or_else (created_at v) now)"

lemma or_else_simps [simp]:
  "or_else None d = d"
  "or_else (Some a) d = a"
  by (simp_all add: or_else_def)

lemmas machine_defs =
  apply_state_transition_def maybe_close_visit_def quiet_check_def gone_check_def Let_def

section \<open>The object invariant\<close>

definition visit_inv :: "visit_settings \<Rightarrow> visit \<Rightarrow> bool" where
  "visit_inv cfg v \<longleftrightarrow>
     v_state v \<noteq> ABSENT
     \<and> 0 \<le> v_entry_seen_seconds v
     \<and> (v_arrived_at v = None \<longleftrightarrow> v_state v = ENTERING)
     \<and> (case v_last_seen_at v of None \<Rightarrow> False
        | Some seen \<Rightarrow>
            (case v_arrived_at v of None \<Rightarrow> True | Some a \<Rightarrow> utc_us a \<le> utc_us seen)
            \<and> (if v_state v = CLOSED
               then v_departed_at v
                      = Some (Naive (utc_us seen + timedelta_s (exit_confirm_seconds cfg)))
               else v_departed_at v = None))"

lemma visit_inv_row_ok:
  "visit_inv cfg v \<Longrightarrow> 0 < timedelta_s (exit_confirm_seconds cfg) \<Longrightarrow> visit_row_ok v"
  by (auto simp: visit_inv_def visit_checks split: option.splits if_splits)

lemma visit_inv_new: "visit_inv cfg (new_visit tid sid t e)"
  by (simp add: visit_inv_def new_visit_def)

lemma visit_inv_apply:
  assumes "visit_inv cfg v" and "v_last_seen_at v = Some seen" and "utc_us seen \<le> utc_us t"
  shows "visit_inv cfg (fst (apply_state_transition cfg v t e))"
  using assms
  by (cases "v_state v")
     (auto simp: visit_inv_def machine_defs add_nonneg_nonneg split: option.splits)

lemma visit_inv_maybe_close:
  assumes "visit_inv cfg v" and "maybe_close_visit cfg v t = Kept v' ps"
  shows "visit_inv cfg v'"
  using assms
  by (cases "v_state v")
     (auto simp: visit_inv_def machine_defs to_naive_utc_eq split: option.splits if_splits)

text \<open>Fields that no operation of the machine writes.\<close>

lemma apply_frame [simp]:
  "row_id (fst (apply_state_transition cfg v t e)) = row_id v"
  "created_at (fst (apply_state_transition cfg v t e)) = created_at v"
  "v_tractor_id (fst (apply_state_transition cfg v t e)) = v_tractor_id v"
  "v_station_id (fst (apply_state_transition cfg v t e)) = v_station_id v"
  "v_departed_at (fst (apply_state_transition cfg v t e)) = v_departed_at v"
  "v_exit_event_id (fst (apply_state_transition cfg v t e)) = v_exit_event_id v"
  "v_duration_seconds (fst (apply_state_transition cfg v t e)) = v_duration_seconds v"
  by (simp_all add: machine_defs split: visit_state.split)

lemma maybe_close_frame:
  assumes "maybe_close_visit cfg v t = Kept v' ps"
  shows "row_id v' = row_id v" "created_at v' = created_at v"
    "v_tractor_id v' = v_tractor_id v" "v_station_id v' = v_station_id v"
    "v_arrived_at v' = v_arrived_at v" "v_last_seen_at v' = v_last_seen_at v"
    "v_entry_event_id v' = v_entry_event_id v" "v_exit_event_id v' = v_exit_event_id v"
    "v_last_event_id v' = v_last_event_id v" "v_entry_seen_seconds v' = v_entry_seen_seconds v"
    "v_duration_seconds v' = v_duration_seconds v"
  using assms by (auto simp: machine_defs split: if_splits)

section \<open>Closing: what the exit timer does\<close>

lemma maybe_close_CLOSED [simp]: "v_state v = CLOSED \<Longrightarrow> maybe_close_visit cfg v t = Kept v []"
  by (simp add: machine_defs)

lemma maybe_close_ENTERING:
  "v_state v = ENTERING \<Longrightarrow>
   maybe_close_visit cfg v t =
     (if entry_confirm_seconds cfg * 3 \<le> secs_between t (or_else (created_at v) t)
      then Deleted else Kept v [])"
  by (simp add: machine_defs)

definition closed_at :: "visit_settings \<Rightarrow> visit \<Rightarrow> datetime \<Rightarrow> visit" where
  "closed_at cfg v seen =
     v\<lparr>v_state := CLOSED,
       v_departed_at := Some (dt_add (to_naive_utc seen) (timedelta_s (exit_confirm_seconds cfg)))\<rparr>"

lemma maybe_close_PRESENT:
  assumes "v_state v = PRESENT" and "v_last_seen_at v = Some seen" and "0 < exit_confirm_seconds cfg"
  shows "maybe_close_visit cfg v t =
    (let gap = secs_between t seen; left = v\<lparr>v_state := LEAVING\<rparr>; gone = closed_at cfg left seen
     in if gap < exit_confirm_seconds cfg then Kept v []
        else if gap < 2 * exit_confirm_seconds cfg then Kept left [(left, None)]
        else Kept gone [(left, None), (gone, None)])"
  using assms by (auto simp: machine_defs closed_at_def)

lemma maybe_close_LEAVING:
  assumes "v_state v = LEAVING" and "v_last_seen_at v = Some seen"
  shows "maybe_close_visit cfg v t =
    (if secs_between t seen < 2 * exit_confirm_seconds cfg then Kept v []
     else Kept (closed_at cfg v seen) [(closed_at cfg v seen, None)])"
  using assms by (auto simp: machine_defs closed_at_def)

definition closing_visit :: "close_result \<Rightarrow> visit option" where
  "closing_visit r = (case r of Deleted \<Rightarrow> None | Kept v _ \<Rightarrow> Some v)"

text \<open>
  Checking twice, at \<open>t1\<close> and later at \<open>t2\<close>, leaves the visit as one check at \<open>t2\<close> does: the
  outcome does not depend on how often the stale check runs.
\<close>

lemma secs_between_mono: "utc_us a \<le> utc_us b \<Longrightarrow> secs_between a c \<le> secs_between b c"
  by (simp add: secs_between_def)

text \<open>What is left of a check when the published changes are dropped.\<close>

definition close_state :: "visit_settings \<Rightarrow> visit \<Rightarrow> rat \<Rightarrow> datetime \<Rightarrow> visit" where
  "close_state cfg v gap seen =
     (if v_state v = PRESENT \<and> gap < exit_confirm_seconds cfg then v
      else if v_state v = PRESENT \<and> gap < 2 * exit_confirm_seconds cfg then v\<lparr>v_state := LEAVING\<rparr>
      else if v_state v = LEAVING \<and> gap < 2 * exit_confirm_seconds cfg then v
      else if v_state v = PRESENT \<or> v_state v = LEAVING then closed_at cfg v seen
      else v)"

lemma closing_visit_eq:
  assumes "v_state v \<noteq> ENTERING" and "v_last_seen_at v = Some seen" and "0 < exit_confirm_seconds cfg"
  shows "closing_visit (maybe_close_visit cfg v t) = Some (close_state cfg v (secs_between t seen) seen)"
proof (cases "v_state v")
  case PRESENT
  then show ?thesis
    using maybe_close_PRESENT [OF PRESENT assms(2,3), of t]
    by (simp add: closing_visit_def close_state_def closed_at_def Let_def)
next
  case LEAVING
  then show ?thesis
    using maybe_close_LEAVING [OF LEAVING assms(2), of cfg t]
    by (simp add: closing_visit_def close_state_def)
qed (use assms in \<open>simp_all add: closing_visit_def close_state_def machine_defs\<close>)

lemma close_state_simps [simp]:
  "v_last_seen_at (close_state cfg v g seen) = v_last_seen_at v"
  "v_state v \<noteq> ENTERING \<Longrightarrow> v_state (close_state cfg v g seen) \<noteq> ENTERING"
  by (simp_all add: close_state_def closed_at_def)

lemma close_state_twice:
  "g1 \<le> g2 \<Longrightarrow> 0 < exit_confirm_seconds cfg \<Longrightarrow>
   close_state cfg (close_state cfg v g1 seen) g2 seen = close_state cfg v g2 seen"
  by (cases "v_state v") (simp_all add: close_state_def closed_at_def)

lemma check_twice:
  assumes "utc_us t1 \<le> utc_us t2" and "v_state v \<noteq> ENTERING"
    and "v_last_seen_at v = Some seen" and "0 < exit_confirm_seconds cfg"
    and "maybe_close_visit cfg v t1 = Kept v1 p1"
  shows "closing_visit (maybe_close_visit cfg v1 t2) = closing_visit (maybe_close_visit cfg v t2)"
proof -
  have "v1 = close_state cfg v (secs_between t1 seen) seen"
    using closing_visit_eq [OF assms(2-4), of t1] assms(5) by (simp add: closing_visit_def)
  then show ?thesis
    using assms by (simp add: closing_visit_eq close_state_twice secs_between_mono)
qed

section \<open>Debouncing: when an entering visit becomes present\<close>

text \<open>Detections of one tractor in order, each with its time and event id.\<close>

fun detect_all :: "visit_settings \<Rightarrow> visit \<Rightarrow> (datetime \<times> int) list \<Rightarrow> visit" where
  "detect_all cfg v [] = v"
| "detect_all cfg v ((t, e) # ds) = detect_all cfg (fst (apply_state_transition cfg v t e)) ds"

lemma apply_PRESENT_keeps:
  "v_state v = PRESENT \<Longrightarrow> v_state (fst (apply_state_transition cfg v t e)) = PRESENT
     \<and> v_arrived_at (fst (apply_state_transition cfg v t e)) = v_arrived_at v"
  by (simp add: machine_defs)

lemma detect_all_PRESENT:
  "v_state v = PRESENT \<Longrightarrow>
   v_state (detect_all cfg v ds) = PRESENT \<and> v_arrived_at (detect_all cfg v ds) = v_arrived_at v"
  by (induction cfg v ds rule: detect_all.induct) (auto simp: apply_PRESENT_keeps)

text \<open>
  While the visit is entering, the accumulated seconds are just the distance of the last
  detection from the first: the sum telescopes, whatever the gaps between detections are.
\<close>

lemma detect_all_ENTERING:
  assumes "v_state v = ENTERING" and "v_last_seen_at v = Some seen"
    and "v_entry_seen_seconds v = secs_between seen t0"
  shows "v_arrived_at (detect_all cfg v ds) =
      (case find (\<lambda>d. entry_confirm_seconds cfg \<le> secs_between (fst d) t0) ds of
         None \<Rightarrow> v_arrived_at v | Some d \<Rightarrow> Some (fst d))
    \<and> v_state (detect_all cfg v ds) =
      (if find (\<lambda>d. entry_confirm_seconds cfg \<le> secs_between (fst d) t0) ds = None
       then ENTERING else PRESENT)"
  using assms
proof (induction ds arbitrary: v seen)
  case Nil
  then show ?case by simp
next
  case (Cons d ds)
  obtain t e where d: "d = (t, e)" by (cases d)
  have acc: "v_entry_seen_seconds v + secs_between t seen = secs_between t t0"
    using Cons.prems(3) secs_between_trans [of t seen t0] by simp
  show ?case
  proof (cases "entry_confirm_seconds cfg \<le> secs_between t t0")
    case True
    then show ?thesis
      using Cons.prems(1,2) acc d
      by (simp add: machine_defs detect_all_PRESENT)
  next
    case False
    let ?v = "fst (apply_state_transition cfg v t e)"
    have "v_state ?v = ENTERING" "v_last_seen_at ?v = Some t"
      "v_entry_seen_seconds ?v = secs_between t t0" "v_arrived_at ?v = v_arrived_at v"
      using False Cons.prems(1,2) acc by (simp_all add: machine_defs)
    from Cons.IH [OF this(1-3)] this(4) False show ?thesis by (simp add: d split: option.split)
  qed
qed

section \<open>The documented life cycle\<close>

inductive lifecycle :: "visit_state \<Rightarrow> visit_state \<Rightarrow> bool" where
  confirm: "lifecycle ENTERING PRESENT"
| quiet: "lifecycle PRESENT LEAVING"
| resume: "lifecycle LEAVING PRESENT"
| gone: "lifecycle LEAVING CLOSED"

inductive_cases from_CLOSED: "lifecycle CLOSED s"
inductive_cases to_CLOSED: "lifecycle s CLOSED"
inductive_cases to_ENTERING: "lifecycle s ENTERING"

inductive_simps lifecycle_to_CLOSED: "lifecycle s CLOSED"

lemma apply_lifecycle:
  "v_state (fst (apply_state_transition cfg v t e)) = v_state v
   \<or> lifecycle (v_state v) (v_state (fst (apply_state_transition cfg v t e)))"
  by (cases "v_state v") (auto simp: machine_defs intro: lifecycle.intros)

lemma lifecycle_paths [simp]:
  "lifecycle\<^sup>*\<^sup>* PRESENT LEAVING"
  "lifecycle\<^sup>*\<^sup>* LEAVING CLOSED"
  "lifecycle\<^sup>*\<^sup>* PRESENT CLOSED"
proof -
  show "lifecycle\<^sup>*\<^sup>* PRESENT LEAVING" "lifecycle\<^sup>*\<^sup>* LEAVING CLOSED"
    by (auto intro: quiet gone)
  then show "lifecycle\<^sup>*\<^sup>* PRESENT CLOSED" by (rule rtranclp_trans)
qed

lemma maybe_close_lifecycle:
  "maybe_close_visit cfg v t = Kept v' ps \<Longrightarrow> lifecycle\<^sup>*\<^sup>* (v_state v) (v_state v')"
  by (cases "v_state v")
     (auto simp: machine_defs split: if_splits)

lemma CLOSED_is_final: "lifecycle\<^sup>*\<^sup>* CLOSED s \<longleftrightarrow> s = CLOSED"
  by (auto elim: converse_rtranclpE from_CLOSED)

end
