(* ===== verification/VisitService.thy ===== *)
theory VisitService
  imports Repositories VisitMachine
begin

text \<open>
  \<open>src/services/visit_service.py\<close>: the visit state machine applied to the events of a video, the
  periodic check, the recovery at startup and the read side.

  A loaded \<open>Visit\<close> object is a reference: \<open>Live i\<close> is the persistent object of row \<open>i\<close>. After a
  rollback the objects of the session are expired, and reading an attribute of an expired object
  needs a query, which asyncio turns into \<open>MissingGreenlet\<close>: \<open>Expired\<close>. An object that was new in
  the rolled back transaction has no row any more and keeps its attributes: \<open>Transient v\<close>.
  Adding it to the session again inserts it anew. The \<open>Event\<close> objects are plain values.
\<close>

section \<open>References to visit objects\<close>

datatype vref = Live int | Expired | Transient visit

definition load_ref :: "vref \<Rightarrow> visit io" where
  "load_ref r =
     (case r of
        Live i \<Rightarrow> bindM (repo_get VisitRepo i) (\<lambda>x. case x of
            Some v \<Rightarrow> ret v
          | None \<Rightarrow> raise (Exn InvalidRequestErr ''ObjectDeletedError''))
      | Expired \<Rightarrow> raise (Exn MissingGreenletErr ''MissingGreenlet'')
      | Transient v \<Rightarrow> ret v)"

definition readd_visit :: "visit \<Rightarrow> vref io" where
  "readd_visit v = (\<lambda>w.
     (Inr (Live (row_id v)),
      w\<lparr>working := visits_update (\<lambda>t. t\<lparr>tbl_rows := tbl_rows t @ [v]\<rparr>) (working w)\<rparr>))"

text \<open>\<open>session.add(visit)\<close> after its attributes, all but the primary key, were set.\<close>

definition set_attrs :: "visit \<Rightarrow> visit \<Rightarrow> visit" where
  "set_attrs v row = v\<lparr>row_id := row_id row\<rparr>"

definition save_ref :: "vref \<Rightarrow> visit \<Rightarrow> vref io" where
  "save_ref r v =
     (case r of
        Live i \<Rightarrow> seqM (set_row VisitRepo i (set_attrs v)) (ret (Live i))
      | Expired \<Rightarrow> ret Expired
      | Transient _ \<Rightarrow> readd_visit v)"

definition delete_ref :: "vref \<Rightarrow> unit io" where
  "delete_ref r =
     (case r of
        Live i \<Rightarrow> repo_delete VisitRepo i
      | _ \<Rightarrow> raise (Exn InvalidRequestErr ''Instance is not persisted''))"

text \<open>What a rollback does to the references held: \<open>lost\<close> is the table it took away.\<close>

definition expire_ref :: "visit table \<Rightarrow> visit table \<Rightarrow> vref \<Rightarrow> vref" where
  "expire_ref lost kept r =
     (case r of
        Live i \<Rightarrow> (case (table_get kept i, table_get lost i) of
                     (None, Some v) \<Rightarrow> Transient v
                   | _ \<Rightarrow> Expired)
      | _ \<Rightarrow> r)"

section \<open>Status changes for the subscribers\<close>

definition opt_iso :: "datetime option \<Rightarrow> json" where
  "opt_iso = opt_json (\<lambda>t. JStr (isoformat t))"

definition status_payload :: "visit \<Rightarrow> int option \<Rightarrow> datetime \<Rightarrow> json" where
  "status_payload v event_id now = JObj
     [(''type'', JStr ''visit_state_change''),
      (''visit_id'', JInt (row_id v)),
      (''tractor_id'', JInt (v_tractor_id v)),
      (''station_id'', JInt (v_station_id v)),
      (''state'', JStr (visit_state_value (v_state v))),
      (''arrived_at'', opt_iso (v_arrived_at v)),
      (''last_seen_at'', opt_iso (v_last_seen_at v)),
      (''duration_seconds'', opt_json JFloat (v_duration_seconds v)),
      (''event_id'', opt_json JInt event_id),
      (''timestamp'', JStr (isoformat now))]"

definition publish_status_change :: "pub \<Rightarrow> unit io" where
  "publish_status_change p =
     (case p of (v, event_id) \<Rightarrow>
        bindM py_now (\<lambda>now. modify (\<lambda>w.
          w\<lparr>channel := publish (ServerSentEvent ''visit_state_change'' (status_payload v event_id now))
                        (channel w)\<rparr>)))"

section \<open>The state machine on the session\<close>

definition close_ref :: "visit_settings \<Rightarrow> vref \<Rightarrow> visit \<Rightarrow> datetime \<Rightarrow> (vref \<times> visit) io" where
  "close_ref cfg r v current_time =
     (case maybe_close_visit cfg v current_time of
        Deleted \<Rightarrow> seqM (delete_ref r) (ret (r, v))
      | Kept v' ps \<Rightarrow>
          (if v_state v = ENTERING then ret (r, v')
           else seqM (forM publish_status_change ps)
                  (bindM (save_ref r v') (\<lambda>r'. ret (r', v')))))"

definition apply_ref :: "visit_settings \<Rightarrow> vref \<Rightarrow> visit \<Rightarrow> datetime \<Rightarrow> int \<Rightarrow> vref io" where
  "apply_ref cfg r v frame_time event_id =
     (case apply_state_transition cfg v frame_time event_id of
        (v', ps) \<Rightarrow> seqM (forM publish_status_change ps) (save_ref r v'))"

text \<open>
  \<open>_create_or_get_open_visit\<close>. While the flush is awaited other connections may commit: \<open>env\<close>.
  The flag says whether the session was rolled back on the way.
\<close>

definition insert_visit :: "(world \<Rightarrow> world) \<Rightarrow> visit \<Rightarrow> int option \<Rightarrow> vref io" where
  "insert_visit env v event_id =
     bindM (add_row VisitRepo v) (\<lambda>i.
     seqM (modify env) (seqM flush
       (bindM (load_ref (Live i)) (\<lambda>row.
          seqM (publish_status_change (row, event_id)) (ret (Live i))))))"

definition create_or_get_open_visit ::
  "(world \<Rightarrow> world) \<Rightarrow> int \<Rightarrow> int \<Rightarrow> datetime \<Rightarrow> int option \<Rightarrow> (vref option \<times> bool) io" where
  "create_or_get_open_visit env tractor_id station_id frame_time event_id =
     tryM
       (bindM (insert_visit env (new_visit tractor_id station_id frame_time event_id) event_id)
          (\<lambda>r. ret (Some r, False)))
       (\<lambda>e. if exn_class e = IntegrityErr
            then seqM rollback
                   (bindM (get_open_for_pair tractor_id station_id)
                      (\<lambda>x. ret (map_option (\<lambda>v. Live (row_id v)) x, True)))
            else raise e)"

section \<open>Processing the events of a video\<close>

type_synonym pair = "int \<times> int"

record batch =
  active :: "(pair, vref option) dict"
  seen_at :: "(pair, datetime option) dict"

definition visit_of :: "batch \<Rightarrow> pair \<Rightarrow> vref option" where
  "visit_of b pair = (case dict_get (active b) pair of None \<Rightarrow> None | Some r \<Rightarrow> r)"

text \<open>\<open>frame_time - last_seen[pair]\<close>, raising what Python raises.\<close>

definition seen_gap :: "batch \<Rightarrow> pair \<Rightarrow> datetime \<Rightarrow> rat io" where
  "seen_gap b pair frame_time =
     (case dict_get (seen_at b) pair of
        None \<Rightarrow> raise (Exn ValueErr ''KeyError'')
      | Some None \<Rightarrow> raise (Exn TypeErr ''unsupported operand type(s)'')
      | Some (Some seen) \<Rightarrow>
          (case dt_sub frame_time seen of
             None \<Rightarrow> raise (Exn TypeErr ''can't subtract offset-naive and offset-aware datetimes'')
           | Some us \<Rightarrow> ret (total_seconds us)))"

text \<open>Close out a stale open visit (the first \<open>if\<close> of the loop body).\<close>

definition close_out :: "visit_settings \<Rightarrow> pair \<Rightarrow> datetime \<Rightarrow> batch \<Rightarrow> batch io" where
  "close_out cfg pair frame_time b =
     (case visit_of b pair of
        None \<Rightarrow> ret b
      | Some r \<Rightarrow>
          bindM (load_ref r) (\<lambda>v.
            if v_state v = PRESENT
            then bindM (seen_gap b pair frame_time) (\<lambda>gap.
                   if exit_confirm_seconds cfg \<le> gap
                   then bindM (close_ref cfg r (v\<lparr>v_state := LEAVING\<rparr>) frame_time) (\<lambda>(r', _).
                          ret (b\<lparr>active := dict_set (active b) pair (Some r'),
                                 seen_at := dict_set (seen_at b) pair (Some frame_time)\<rparr>))
                   else ret b)
            else ret b))"

definition start_visit ::
  "(world \<Rightarrow> world) \<Rightarrow> pair \<Rightarrow> datetime \<Rightarrow> int \<Rightarrow> batch \<Rightarrow> batch io" where
  "start_visit env pair frame_time event_id b =
     bindM (gets (\<lambda>w. visits (working w))) (\<lambda>lost.
     bindM (create_or_get_open_visit env (fst pair) (snd pair) frame_time (Some event_id)) (\<lambda>(r, rolled_back).
     bindM (gets (\<lambda>w. visits (working w))) (\<lambda>kept.
       let act = (if rolled_back then map (\<lambda>(p, x). (p, map_option (expire_ref lost kept) x)) (active b)
                  else active b)
       in ret (b\<lparr>active := dict_set act pair r,
                 seen_at := dict_set (seen_at b) pair (Some frame_time)\<rparr>))))"

text \<open>The second \<open>if\<close> of the loop body.\<close>

definition advance ::
  "visit_settings \<Rightarrow> (world \<Rightarrow> world) \<Rightarrow> pair \<Rightarrow> datetime \<Rightarrow> int \<Rightarrow> batch \<Rightarrow> batch io" where
  "advance cfg env pair frame_time event_id b =
     (case visit_of b pair of
        None \<Rightarrow> start_visit env pair frame_time event_id b
      | Some r \<Rightarrow>
          bindM (load_ref r) (\<lambda>v.
            if v_state v = CLOSED then start_visit env pair frame_time event_id b
            else bindM (apply_ref cfg r v frame_time event_id) (\<lambda>r'.
                   ret (b\<lparr>active := dict_set (active b) pair (Some r'),
                          seen_at := dict_set (seen_at b) pair (Some frame_time)\<rparr>))))"

definition relevant :: "event \<Rightarrow> bool" where
  "relevant e \<longleftrightarrow> e_tractor_id e \<noteq> None \<and> e_inside_roi e"

definition process_event ::
  "visit_settings \<Rightarrow> (world \<Rightarrow> world) \<Rightarrow> int \<Rightarrow> batch \<Rightarrow> event \<Rightarrow> batch io" where
  "process_event cfg env station_id b e =
     (case e_tractor_id e of
        None \<Rightarrow> ret b
      | Some tid \<Rightarrow>
          (if \<not> e_inside_roi e then ret b
           else bindM (close_out cfg (tid, station_id) (e_wall_clock_at e) b)
                  (advance cfg env (tid, station_id) (e_wall_clock_at e) (row_id e))))"

text \<open>The loop after the events; a \<open>None\<close> left in the dictionary has no attribute \<open>state\<close>.\<close>

definition force_close :: "visit_settings \<Rightarrow> datetime \<Rightarrow> vref option \<Rightarrow> unit io" where
  "force_close cfg final_time x =
     (case x of
        None \<Rightarrow> raise (Exn AttributeErr ''NoneType object has no attribute state'')
      | Some r \<Rightarrow>
          bindM (load_ref r) (\<lambda>v.
            if v_state v \<noteq> CLOSED then seqM (close_ref cfg r v final_time) (ret ()) else ret ()))"

definition open_visits_for_station :: "int \<Rightarrow> batch io" where
  "open_visits_for_station station_id =
     bindM (list_open_for_station station_id) (\<lambda>rows. ret
       \<lparr>active = dict_of (map (\<lambda>v. (visit_pair v, Some (Live (row_id v)))) rows),
        seen_at = dict_of (map (\<lambda>v. (visit_pair v, v_last_seen_at v)) rows)\<rparr>)"

definition process_video_for_visits ::
  "visit_settings \<Rightarrow> (world \<Rightarrow> world) \<Rightarrow> video_file \<Rightarrow> event list \<Rightarrow> unit io" where
  "process_video_for_visits cfg env video evs =
     (let event_list = sort_key e_frame_number evs
      in if event_list = [] then ret ()
         else (case vf_station_id video of
             None \<Rightarrow> ret ()
           | Some station_id \<Rightarrow>
               bindM (open_visits_for_station station_id) (\<lambda>b0.
               bindM (foldM (process_event cfg env station_id) b0 event_list) (\<lambda>b.
               seqM (forM (force_close cfg (e_wall_clock_at (last event_list))) (dict_values (active b)))
                 commit))))"

section \<open>The periodic check and the recovery\<close>

definition check_one :: "visit_settings \<Rightarrow> datetime \<Rightarrow> nat \<Rightarrow> visit \<Rightarrow> nat io" where
  "check_one cfg now n v =
     bindM (close_ref cfg (Live (row_id v)) v now) (\<lambda>(_, v').
       ret (if v_state v' = CLOSED \<and> v_state v \<noteq> CLOSED then Suc n else n))"

definition check_stale_visits :: "visit_settings \<Rightarrow> nat io" where
  "check_stale_visits cfg =
     bindM list_active (\<lambda>vs.
     bindM py_now (\<lambda>now.
     bindM (foldM (check_one cfg now) 0 vs) (\<lambda>n_closed.
     seqM commit (ret n_closed))))"

definition recover_one :: "visit_settings \<Rightarrow> datetime \<Rightarrow> nat \<Rightarrow> visit \<Rightarrow> nat io" where
  "recover_one cfg now deleted v =
     (if v_state v = ENTERING
      then bindM (case created_at v of None \<Rightarrow> py_now | Some c \<Rightarrow> ret c) (\<lambda>anchor.
             if entry_confirm_seconds cfg * recovery_grace_multiplier cfg < secs_between now anchor
             then seqM (repo_delete VisitRepo (row_id v)) (ret (Suc deleted))
             else ret deleted)
      else ret deleted)"

definition recover_open_visits :: "visit_settings \<Rightarrow> (nat \<times> nat) io" where
  "recover_open_visits cfg =
     bindM list_open (\<lambda>vs.
     bindM py_now (\<lambda>now.
     bindM (foldM (recover_one cfg now) 0 vs) (\<lambda>deleted.
     seqM commit (ret (length vs, deleted)))))"

section \<open>Reading the current state\<close>

record current_visit =
  cv_tractor_id :: int
  cv_station_id :: "int option"
  cv_state :: visit_state
  cv_arrived_at :: "datetime option"
  cv_last_seen_at :: "datetime option"
  cv_dwell_seconds :: "rat option"

definition dwell :: "datetime \<Rightarrow> visit \<Rightarrow> rat option" where
  "dwell now v = map_option (\<lambda>a. secs_between now a) (v_arrived_at v)"

definition to_current :: "datetime \<Rightarrow> visit \<Rightarrow> current_visit" where
  "to_current now v =
     \<lparr>cv_tractor_id = v_tractor_id v, cv_station_id = Some (v_station_id v), cv_state = v_state v,
      cv_arrived_at = v_arrived_at v, cv_last_seen_at = v_last_seen_at v,
      cv_dwell_seconds = dwell now v\<rparr>"

definition get_current_tractors :: "current_visit list io" where
  "get_current_tractors =
     bindM list_open (\<lambda>vs. bindM py_now (\<lambda>now. ret (map (to_current now) vs)))"

text \<open>The absent answer has only the two keys \<open>tractor_id\<close> and \<open>state\<close>.\<close>

definition absent_visit :: "int \<Rightarrow> current_visit" where
  "absent_visit tractor_id =
     \<lparr>cv_tractor_id = tractor_id, cv_station_id = None, cv_state = ABSENT, cv_arrived_at = None,
      cv_last_seen_at = None, cv_dwell_seconds = None\<rparr>"

definition get_current_tractor :: "int \<Rightarrow> current_visit io" where
  "get_current_tractor tractor_id =
     bindM (list_open_for_tractor tractor_id) (\<lambda>vs.
       case first_or_none vs of
         None \<Rightarrow> ret (absent_visit tractor_id)
       | Some v \<Rightarrow> bindM py_now (\<lambda>now. ret (to_current now v)))"

record tractor_at_station =
  ts_tractor_id :: "int option"
  ts_tractor_name :: "string option"
  ts_state :: visit_state
  ts_arrived_at :: "datetime option"
  ts_dwell_seconds :: "rat option"

record station_entry =
  se_station_id :: int
  se_code :: string
  se_name :: string
  se_tractors :: "tractor_at_station list"

text \<open>The outer joins: a station without an open visit gives one row with NULLs.\<close>

definition station_rows :: "world \<Rightarrow> (station \<times> visit option \<times> tractor option) list" where
  "station_rows w =
     concat (map (\<lambda>s.
       case filter (\<lambda>v. v_station_id v = row_id s \<and> visit_is_open v) (tbl_rows (visits (working w))) of
         [] \<Rightarrow> [(s, None, None)]
       | vs \<Rightarrow> map (\<lambda>v. (s, Some v, table_get (tractors (working w)) (v_tractor_id v))) vs)
       (filter st_is_active (tbl_rows (stations (working w)))))"

definition empty_entry :: "station \<Rightarrow> station_entry" where
  "empty_entry s = \<lparr>se_station_id = row_id s, se_code = st_code s, se_name = st_name s, se_tractors = []\<rparr>"

definition at_station :: "datetime \<Rightarrow> visit \<Rightarrow> tractor option \<Rightarrow> tractor_at_station" where
  "at_station now v t =
     \<lparr>ts_tractor_id = map_option row_id t, ts_tractor_name = map_option tr_name t,
      ts_state = v_state v, ts_arrived_at = v_arrived_at v, ts_dwell_seconds = dwell now v\<rparr>"

definition group_row ::
  "datetime \<Rightarrow> station \<times> visit option \<times> tractor option \<Rightarrow> (int, station_entry) dict \<Rightarrow> (int, station_entry) dict" where
  "group_row now row grouped =
     (case row of (s, v, t) \<Rightarrow>
        let entry = or_else (dict_get grouped (row_id s)) (empty_entry s);
            entry' = (case v of
                        None \<Rightarrow> entry
                      | Some v \<Rightarrow> entry\<lparr>se_tractors := se_tractors entry @ [at_station now v t]\<rparr>)
        in dict_set grouped (row_id s) entry')"

definition get_current_stations :: "station_entry list io" where
  "get_current_stations =
     bindM (gets station_rows) (\<lambda>rows. bindM py_now (\<lambda>now.
       ret (dict_values (fold (group_row now) rows []))))"

definition get_history :: "int option \<Rightarrow> int option \<Rightarrow> nat \<Rightarrow> nat \<Rightarrow> visit list io" where
  "get_history tractor_id station_id limit offset = list_history tractor_id station_id limit offset"

end
