(* ===== verification/VisitTables.thy ===== *)
theory VisitTables
  imports VisitService
begin

text \<open>
  What the writes of the visit service do to the \<open>visits\<close> table: changing, inserting and deleting
  a row, each with its effect on the constraints and on the open visit of every pair. The view
  \<open>tracked d p\<close> is all the service knows about a pair \<open>p\<close>: the open visit of \<open>p\<close> without its key
  and stamps.
\<close>

section \<open>The open visit of a pair\<close>

definition open_at :: "db \<Rightarrow> pair \<Rightarrow> visit option" where
  "open_at d p = find (\<lambda>v. visit_is_open v \<and> visit_pair v = p) (tbl_rows (visits d))"

definition consistent :: "db \<Rightarrow> bool" where
  "consistent d \<longleftrightarrow> db_wf d \<and> db_ok d"

lemma consistentD:
  assumes "consistent d"
  shows "db_wf d" "db_ok d" "table_wf (visits d)" "uq_visit_open (tbl_rows (visits d))"
  using assms by (simp_all add: consistent_def db_wf_def db_ok_def visits_ok_def)

lemma open_at_Some:
  assumes "consistent d"
  shows "open_at d p = Some v \<longleftrightarrow> v \<in> set (tbl_rows (visits d)) \<and> visit_is_open v \<and> visit_pair v = p"
proof
  assume "open_at d p = Some v"
  then show "v \<in> set (tbl_rows (visits d)) \<and> visit_is_open v \<and> visit_pair v = p"
    by (auto simp: open_at_def find_Some_iff)
next
  assume v: "v \<in> set (tbl_rows (visits d)) \<and> visit_is_open v \<and> visit_pair v = p"
  then obtain v' where v': "open_at d p = Some v'"
    by (cases "open_at d p") (auto simp: open_at_def find_None_iff)
  then have "v' \<in> set (tbl_rows (visits d)) \<and> visit_is_open v' \<and> visit_pair v' = p"
    by (auto simp: open_at_def find_Some_iff)
  with v consistentD(4) [OF assms] have "v' = v"
    by (auto dest: uq_visit_openD)
  with v' show "open_at d p = Some v" by simp
qed

lemma open_at_None:
  "open_at d p = None \<longleftrightarrow> (\<forall>v \<in> set (tbl_rows (visits d)). visit_is_open v \<longrightarrow> visit_pair v \<noteq> p)"
  by (auto simp: open_at_def find_None_iff)

lemma open_at_get:
  "consistent d \<Longrightarrow> open_at d p = Some v \<Longrightarrow> table_get (visits d) (row_id v) = Some v"
  using table_get_in [of "visits d" v] consistentD(3) [of d] open_at_Some [of d p v] by blast

lemma open_at_eqI:
  assumes "\<And>v. open_at d p = Some v \<longleftrightarrow> x = Some v"
  shows "open_at d p = x"
proof (cases "open_at d p")
  case None
  then show ?thesis using assms [of "the x"] by (cases x) simp_all
next
  case (Some v)
  then show ?thesis using assms [of v] by simp
qed

lemma visit_row_facts:
  assumes "consistent d" and "v \<in> set (tbl_rows (visits d))"
  shows "visit_row_ok v" "visit_fks d v"
  using assms by (auto simp: consistent_def db_ok_def visits_ok_def list_all_iff)

section \<open>Changing a row\<close>

definition put_visit :: "datetime \<Rightarrow> int \<Rightarrow> visit \<Rightarrow> db \<Rightarrow> db" where
  "put_visit now i v d = visits_update (table_update now i (set_attrs v)) d"

lemma put_visit_tables [simp]:
  "stations (put_visit now i v d) = stations d"
  "tractors (put_visit now i v d) = tractors d"
  "videos (put_visit now i v d) = videos d"
  "events (put_visit now i v d) = events d"
  by (simp_all add: put_visit_def)

lemma row_id_set_attrs [simp]: "row_id (set_attrs v r) = row_id r"
  by (simp add: set_attrs_def)

lemma stamp_simps [simp]:
  "visit_row_ok (v\<lparr>updated_at := u\<rparr>) = visit_row_ok v"
  "visit_fks d (v\<lparr>updated_at := u\<rparr>) = visit_fks d v"
  "visit_pair (v\<lparr>updated_at := u\<rparr>) = visit_pair v"
  "visit_is_open (v\<lparr>updated_at := u\<rparr>) = visit_is_open v"
  "visit_row_ok (v\<lparr>row_id := i\<rparr>) = visit_row_ok v"
  "visit_fks d (v\<lparr>row_id := i\<rparr>) = visit_fks d v"
  "visit_pair (v\<lparr>row_id := i\<rparr>) = visit_pair v"
  "visit_is_open (v\<lparr>row_id := i\<rparr>) = visit_is_open v"
  "visit_row_ok (v\<lparr>created_at := u\<rparr>) = visit_row_ok v"
  "visit_fks d (v\<lparr>created_at := u\<rparr>) = visit_fks d v"
  "visit_pair (v\<lparr>created_at := u\<rparr>) = visit_pair v"
  "visit_is_open (v\<lparr>created_at := u\<rparr>) = visit_is_open v"
  by (simp_all add: visit_checks visit_fks_def visit_pair_def visit_is_open_def)

lemma touch_eq: "touch now v v' = v' \<or> touch now v v' = v'\<lparr>updated_at := Some now\<rparr>"
  by (auto simp: touch_def)

lemma touch_simps [simp]:
  "visit_row_ok (touch now v v') = visit_row_ok v'"
  "visit_fks d (touch now v v') = visit_fks d v'"
  "visit_pair (touch now v v') = visit_pair v'"
  "visit_is_open (touch now v v') = visit_is_open v'"
  using touch_eq [of now v v'] by (metis stamp_simps)+

text \<open>What a visit is to the service: the row without its key, update stamp and generated column.\<close>

definition strip :: "visit \<Rightarrow> visit" where
  "strip v = v\<lparr>row_id := 0, updated_at := None, v_duration_seconds := None\<rparr>"

lemma strip_touch [simp]: "strip (touch now v v') = strip v'"
  using touch_eq [of now v v'] by (auto simp: strip_def)

lemma strip_sel [simp]:
  "v_state (strip v) = v_state v" "v_last_seen_at (strip v) = v_last_seen_at v"
  "v_arrived_at (strip v) = v_arrived_at v" "v_departed_at (strip v) = v_departed_at v"
  "created_at (strip v) = created_at v" "visit_pair (strip v) = visit_pair v"
  "visit_is_open (strip v) = visit_is_open v" "v_entry_seen_seconds (strip v) = v_entry_seen_seconds v"
  by (simp_all add: strip_def visit_pair_def visit_is_open_def)

text \<open>The visits of a pair, oldest first, and the view of them that the service works on.\<close>

definition rows_at :: "db \<Rightarrow> pair \<Rightarrow> visit list" where
  "rows_at d p = filter (\<lambda>v. visit_pair v = p) (tbl_rows (visits d))"

definition track :: "db \<Rightarrow> pair \<Rightarrow> visit list" where
  "track d p = map strip (rows_at d p)"

lemma open_at_rows: "open_at d p = find visit_is_open (rows_at d p)"
proof -
  have "find (\<lambda>v. visit_is_open v \<and> visit_pair v = p) vs = find visit_is_open (filter (\<lambda>v. visit_pair v = p) vs)"
    for vs by (induction vs) auto
  then show ?thesis by (simp add: open_at_def rows_at_def)
qed

lemma find_map: "find P (map f xs) = map_option f (find (P \<circ> f) xs)"
  by (induction xs) auto

lemma find_track: "find visit_is_open (track d p) = map_option strip (open_at d p)"
  by (simp add: track_def open_at_rows find_map comp_def)

lemma uq_visit_open_map:
  assumes "uq_visit_open vs"
    and "\<And>v. v \<in> set vs \<Longrightarrow> visit_pair (f v) = visit_pair v"
    and "\<And>v. v \<in> set vs \<Longrightarrow> visit_is_open (f v) \<Longrightarrow> visit_is_open v"
  shows "uq_visit_open (map f vs)"
  using assms
proof (induction vs)
  case Nil
  then show ?case by (simp add: uq_visit_open_def)
next
  case (Cons v vs)
  then have IH: "uq_visit_open (map f vs)" by (auto simp: uq_visit_open_def split: if_splits)
  have "visit_pair (f v) \<notin> visit_pair ` {r \<in> set (map f vs). visit_is_open r}" if "visit_is_open (f v)"
  proof
    assume "visit_pair (f v) \<in> visit_pair ` {r \<in> set (map f vs). visit_is_open r}"
    then obtain r where r: "r \<in> set vs" "visit_is_open (f r)" "visit_pair (f v) = visit_pair (f r)"
      by auto
    with Cons.prems(2,3) that have "visit_is_open v" "visit_is_open r" "visit_pair v = visit_pair r"
      by auto
    with r(1) Cons.prems(1) show False by (auto simp: uq_visit_open_def)
  qed
  with IH show ?case by (auto simp: uq_visit_open_def)
qed

lemma uq_visit_open_filter: "uq_visit_open vs \<Longrightarrow> uq_visit_open (filter P vs)"
  by (induction vs) (auto simp: uq_visit_open_def)

lemma visit_fks_tables:
  "stations d' = stations d \<Longrightarrow> tractors d' = tractors d \<Longrightarrow> events d' = events d \<Longrightarrow>
   visit_fks d' v = visit_fks d v"
  by (simp add: visit_fks_def)

lemma consistent_visits:
  assumes "consistent d"
    and "stations d' = stations d" "tractors d' = tractors d" "videos d' = videos d" "events d' = events d"
    and "table_wf (visits d')" and "uq_visit_open (tbl_rows (visits d'))"
    and "\<And>r. r \<in> set (tbl_rows (visits d')) \<Longrightarrow> visit_row_ok r \<and> visit_fks d r"
  shows "consistent d'"
proof -
  have "visits_ok d'"
    using assms(7,8) visit_fks_tables [OF assms(2,3,5)] by (simp add: visits_ok_def list_all_iff)
  then show ?thesis
    using assms
    by (simp add: consistent_def db_wf_def db_ok_def stations_ok_def tractors_ok_def videos_ok_def
        events_ok_def)
qed

text \<open>A change of row \<open>v\<close> to \<open>v'\<close> that a visit operation may make.\<close>

definition row_change :: "db \<Rightarrow> visit \<Rightarrow> visit \<Rightarrow> bool" where
  "row_change d v v' \<longleftrightarrow>
     consistent d \<and> v \<in> set (tbl_rows (visits d)) \<and> visit_is_open v
     \<and> visit_row_ok v' \<and> visit_fks d v' \<and> row_id v' = row_id v \<and> visit_pair v' = visit_pair v"

lemma row_changeD:
  assumes "row_change d v v'"
  shows "consistent d" "v \<in> set (tbl_rows (visits d))" "visit_is_open v" "visit_row_ok v'"
    "visit_fks d v'" "row_id v' = row_id v" "visit_pair v' = visit_pair v"
    "table_get (visits d) (row_id v) = Some v"
proof -
  show c: "consistent d" and v: "v \<in> set (tbl_rows (visits d))"
    using assms by (simp_all add: row_change_def)
  show "table_get (visits d) (row_id v) = Some v"
    by (rule table_get_in [OF consistentD(3) [OF c] v])
qed (use assms in \<open>unfold row_change_def, blast+\<close>)

lemma row_unique:
  "table_wf t \<Longrightarrow> r \<in> set (tbl_rows t) \<Longrightarrow> v \<in> set (tbl_rows t) \<Longrightarrow> row_id r = row_id v \<Longrightarrow> r = v"
  by (metis option.inject table_get_in)

lemma put_rows:
  assumes "row_change d v v'"
  shows "tbl_rows (visits (put_visit now (row_id v) v' d)) =
     map (\<lambda>r. if r = v then touch now v v' else r) (tbl_rows (visits d))"
proof -
  note c = row_changeD [OF assms]
  have "set_attrs v' v = v'" using c(6) by (simp add: set_attrs_def)
  then show ?thesis
    using row_unique [OF consistentD(3) [OF c(1)] _ c(2)]
    by (auto simp: put_visit_def table_update_def)
qed

lemma put_consistent:
  assumes "row_change d v v'"
  shows "consistent (put_visit now (row_id v) v' d)"
proof (rule consistent_visits [OF row_changeD(1) [OF assms]])
  note c = row_changeD [OF assms]
  show "uq_visit_open (tbl_rows (visits (put_visit now (row_id v) v' d)))"
    unfolding put_rows [OF assms] using consistentD(4) [OF c(1)] c(3,7)
    by (intro uq_visit_open_map) (auto split: if_splits)
  show "table_wf (visits (put_visit now (row_id v) v' d))"
    using tab.wf_change [OF consistentD(3) [OF c(1)], of "set_attrs v'" now "row_id v"]
    by (simp add: put_visit_def)
  show "visit_row_ok r \<and> visit_fks d r"
    if "r \<in> set (tbl_rows (visits (put_visit now (row_id v) v' d)))" for r
    using that visit_row_facts [OF c(1)] c(4,5) unfolding put_rows [OF assms] by (auto split: if_splits)
qed simp_all

lemma open_row_of_pair:
  assumes "consistent d" "v \<in> set (tbl_rows (visits d))" "visit_is_open v"
    and "r \<in> set (rows_at d (visit_pair v))" "visit_is_open r"
  shows "r = v"
  using uq_visit_openD [OF consistentD(4) [OF assms(1)], of r v] assms by (auto simp: rows_at_def)

lemma put_track:
  assumes "row_change d v v'"
  shows "track (put_visit now (row_id v) v' d) p =
    (if p = visit_pair v then map (\<lambda>r. if visit_is_open r then strip v' else r) (track d p)
     else track d p)"
proof -
  note c = row_changeD [OF assms]
  have rows: "rows_at (put_visit now (row_id v) v' d) p =
      map (\<lambda>r. if r = v then touch now v v' else r) (rows_at d p)"
    unfolding rows_at_def put_rows [OF assms] using c(7)
    by (auto simp: filter_map comp_def intro!: arg_cong [where f = "map _"] filter_cong)
  have v: "r = v \<longleftrightarrow> visit_is_open r" if "r \<in> set (rows_at d p)" "p = visit_pair v" for r
    using that open_row_of_pair [OF c(1,2,3), of r] c(3) by auto
  have other: "r \<noteq> v" if "r \<in> set (rows_at d p)" "p \<noteq> visit_pair v" for r
    using that by (auto simp: rows_at_def)
  show ?thesis
    unfolding track_def rows using v other by auto
qed

lemma put_get:
  assumes "row_change d v v'"
  shows "table_get (visits (put_visit now (row_id v) v' d)) (row_id v) = Some (touch now v v')"
  using table_get_in [OF consistentD(3) [OF put_consistent [OF assms, of now]], of "touch now v v'"]
    row_changeD(2,6) [OF assms] by (auto simp: put_rows [OF assms])

lemma put_open_at:
  assumes "row_change d v v'"
  shows "open_at (put_visit now (row_id v) v' d) p =
    (if p = visit_pair v then (if visit_is_open v' then Some (touch now v v') else None)
     else open_at d p)"
proof -
  note c = row_changeD [OF assms]
  have v: "r = v" if "r \<in> set (tbl_rows (visits d))" "visit_is_open r" "visit_pair r = visit_pair v" for r
    using that uq_visit_openD [OF consistentD(4) [OF c(1)], of r v] c(2,3) by auto
  show ?thesis
  proof (rule open_at_eqI)
    fix x
    show "open_at (put_visit now (row_id v) v' d) p = Some x \<longleftrightarrow>
      (if p = visit_pair v then (if visit_is_open v' then Some (touch now v v') else None)
       else open_at d p) = Some x"
      using c(2,7) v
      by (auto simp: open_at_Some [OF put_consistent [OF assms]] open_at_Some [OF c(1)] put_rows [OF assms]
          split: if_splits)
  qed
qed

section \<open>Inserting a row\<close>

definition add_visit :: "datetime \<Rightarrow> visit \<Rightarrow> db \<Rightarrow> db" where
  "add_visit now v d = visits_update (\<lambda>t. snd (table_insert now v t)) d"

lemma add_visit_tables [simp]:
  "stations (add_visit now v d) = stations d"
  "tractors (add_visit now v d) = tractors d"
  "videos (add_visit now v d) = videos d"
  "events (add_visit now v d) = events d"
  by (simp_all add: add_visit_def)

lemma stamp_new_simps [simp]:
  "visit_row_ok (stamp_new now i v) = visit_row_ok v"
  "visit_fks d (stamp_new now i v) = visit_fks d v"
  "visit_pair (stamp_new now i v) = visit_pair v"
  "visit_is_open (stamp_new now i v) = visit_is_open v"
  "strip (stamp_new now i v) = strip v\<lparr>created_at := Some now\<rparr>"
  "v_last_seen_at (stamp_new now i v) = v_last_seen_at v"
  by (simp_all add: stamp_new_def strip_def)

definition row_insert :: "db \<Rightarrow> visit \<Rightarrow> bool" where
  "row_insert d v \<longleftrightarrow>
     consistent d \<and> open_at d (visit_pair v) = None \<and> visit_row_ok v \<and> visit_fks d v \<and> visit_is_open v"

lemma row_insertD:
  assumes "row_insert d v"
  shows "consistent d" "open_at d (visit_pair v) = None" "visit_row_ok v" "visit_fks d v" "visit_is_open v"
  using assms by (auto simp: row_insert_def)

lemma add_rows:
  "tbl_rows (visits (add_visit now v d)) = tbl_rows (visits d) @ [stamp_new now (tbl_seq (visits d)) v]"
  by (simp add: add_visit_def table_insert_def)

lemma add_consistent:
  assumes "row_insert d v"
  shows "consistent (add_visit now v d)"
proof (rule consistent_visits [OF row_insertD(1) [OF assms]])
  note c = row_insertD [OF assms]
  show "uq_visit_open (tbl_rows (visits (add_visit now v d)))"
    using consistentD(4) [OF c(1)] c(2) by (auto simp: add_rows uq_visit_open_def open_at_None)
  show "table_wf (visits (add_visit now v d))"
    using consistentD(3) [OF c(1)] tab.wf_add by (simp add: add_visit_def)
  show "visit_row_ok r \<and> visit_fks d r" if "r \<in> set (tbl_rows (visits (add_visit now v d)))" for r
    using that visit_row_facts [OF c(1)] c(3,4) by (auto simp: add_rows)
qed simp_all

lemma add_get:
  "consistent d \<Longrightarrow> table_get (visits (add_visit now v d)) (tbl_seq (visits d)) =
     Some (stamp_new now (tbl_seq (visits d)) v)"
  using table_get_insert [OF consistentD(3), of d now v "tbl_seq (visits d)"] by (simp add: add_visit_def)

lemma add_track:
  "track (add_visit now v d) p =
    (if p = visit_pair v then track d p @ [strip v\<lparr>created_at := Some now\<rparr>] else track d p)"
  by (simp add: track_def rows_at_def add_rows)

lemma add_open_at:
  assumes "row_insert d v"
  shows "open_at (add_visit now v d) p =
    (if p = visit_pair v then Some (stamp_new now (tbl_seq (visits d)) v) else open_at d p)"
proof (rule open_at_eqI)
  fix x
  note c = row_insertD [OF assms]
  show "open_at (add_visit now v d) p = Some x \<longleftrightarrow>
    (if p = visit_pair v then Some (stamp_new now (tbl_seq (visits d)) v) else open_at d p) = Some x"
    using c(2,5)
    by (auto simp: open_at_Some [OF add_consistent [OF assms]] open_at_Some [OF c(1)] add_rows open_at_None)
qed

section \<open>Deleting a row\<close>

definition drop_visit :: "int \<Rightarrow> db \<Rightarrow> db" where
  "drop_visit i d = visits_update (table_delete i) d"

lemma drop_visit_tables [simp]:
  "stations (drop_visit i d) = stations d"
  "tractors (drop_visit i d) = tractors d"
  "videos (drop_visit i d) = videos d"
  "events (drop_visit i d) = events d"
  by (simp_all add: drop_visit_def)

lemma drop_rows: "tbl_rows (visits (drop_visit i d)) = filter (\<lambda>r. row_id r \<noteq> i) (tbl_rows (visits d))"
  by (simp add: drop_visit_def table_delete_def)

lemma drop_consistent:
  assumes "consistent d"
  shows "consistent (drop_visit i d)"
proof (rule consistent_visits [OF assms])
  show "uq_visit_open (tbl_rows (visits (drop_visit i d)))"
    unfolding drop_rows by (rule uq_visit_open_filter [OF consistentD(4) [OF assms]])
  show "table_wf (visits (drop_visit i d))"
    using consistentD(3) [OF assms] tab.wf_remove by (simp add: drop_visit_def)
  show "visit_row_ok r \<and> visit_fks d r" if "r \<in> set (tbl_rows (visits (drop_visit i d)))" for r
    using that visit_row_facts [OF assms] by (auto simp: drop_rows)
qed simp_all

lemma drop_track:
  assumes "consistent d" "v \<in> set (tbl_rows (visits d))" "visit_is_open v"
  shows "track (drop_visit (row_id v) d) p =
    (if p = visit_pair v then filter (\<lambda>r. \<not> visit_is_open r) (track d p) else track d p)"
proof -
  have same: "row_id r \<noteq> row_id v \<longleftrightarrow> \<not> visit_is_open r"
    if "r \<in> set (rows_at d p)" "p = visit_pair v" for r
    using that open_row_of_pair [OF assms, of r] row_unique [OF consistentD(3) [OF assms(1)], of r v] assms
    by (auto simp: rows_at_def)
  have other: "row_id r \<noteq> row_id v" if "r \<in> set (rows_at d p)" "p \<noteq> visit_pair v" for r
    using that row_unique [OF consistentD(3) [OF assms(1)], of r v] assms(2) by (auto simp: rows_at_def)
  have rows: "rows_at (drop_visit (row_id v) d) p = filter (\<lambda>r. row_id r \<noteq> row_id v) (rows_at d p)"
    by (auto simp: rows_at_def drop_rows intro: filter_cong)
  show ?thesis
  proof (cases "p = visit_pair v")
    case True
    with same have "filter (\<lambda>r. row_id r \<noteq> row_id v) (rows_at d p) = filter (\<lambda>r. \<not> visit_is_open r) (rows_at d p)"
      by (intro filter_cong) auto
    with True rows show ?thesis by (simp add: track_def filter_map comp_def)
  next
    case False
    with other have "filter (\<lambda>r. row_id r \<noteq> row_id v) (rows_at d p) = rows_at d p"
      by (simp add: filter_id_conv)
    with False show ?thesis by (simp add: track_def rows)
  qed
qed

lemma drop_open_at:
  assumes "consistent d" "v \<in> set (tbl_rows (visits d))" "visit_is_open v"
  shows "open_at (drop_visit (row_id v) d) p = (if p = visit_pair v then None else open_at d p)"
proof (rule open_at_eqI)
  fix x
  have "r = v" if "r \<in> set (tbl_rows (visits d))" "row_id r = row_id v" for r
    using that row_unique [OF consistentD(3) [OF assms(1)], of r v] assms(2) by simp
  moreover have "r = v" if "r \<in> set (tbl_rows (visits d))" "visit_is_open r" "visit_pair r = visit_pair v" for r
    using that uq_visit_openD [OF consistentD(4) [OF assms(1)], of r v] assms by auto
  ultimately show "open_at (drop_visit (row_id v) d) p = Some x \<longleftrightarrow>
    (if p = visit_pair v then None else open_at d p) = Some x"
    using assms(2) by (auto simp: open_at_Some [OF drop_consistent [OF assms(1)]] open_at_Some [OF assms(1)] drop_rows)
qed

end
