(* ===== verification/VisitSpec.thy ===== *)
theory VisitSpec
  imports VisitTables
begin

text \<open>
  The contract of the visit service, on the visits of one tractor at one station: what a detection
  does (\<open>spec_event\<close>) and what the end of a video does (\<open>spec_end\<close>), with no session, no references
  and no dictionaries. The theory \<open>VisitRefinement\<close> proves that the service implements it.
\<close>

section \<open>The contract\<close>

text \<open>A visit after a time of silence: the exit timer on its own.\<close>

definition settle :: "visit_settings \<Rightarrow> datetime \<Rightarrow> visit \<Rightarrow> visit" where
  "settle cfg t v =
     (case v_last_seen_at v of
        None \<Rightarrow> v
      | Some seen \<Rightarrow> close_state cfg v (secs_between t seen) seen)"

text \<open>Before a detection only a present visit is put to the exit timer.\<close>

definition settle_present :: "visit_settings \<Rightarrow> datetime \<Rightarrow> visit \<Rightarrow> visit" where
  "settle_present cfg t v = (if v_state v = PRESENT then settle cfg t v else v)"

definition begun :: "datetime \<Rightarrow> pair \<Rightarrow> datetime \<Rightarrow> int \<Rightarrow> visit" where
  "begun now p t e = (new_visit (fst p) (snd p) t (Some e))\<lparr>created_at := Some now\<rparr>"

definition detected :: "visit_settings \<Rightarrow> datetime \<Rightarrow> int \<Rightarrow> visit \<Rightarrow> visit" where
  "detected cfg t e v = fst (apply_state_transition cfg v t e)"

definition spec_event ::
  "visit_settings \<Rightarrow> datetime \<Rightarrow> pair \<Rightarrow> datetime \<times> int \<Rightarrow> visit list \<Rightarrow> visit list" where
  "spec_event cfg now p d vs =
     (case d of (t, e) \<Rightarrow>
        let vs' = map (settle_present cfg t) vs
        in if find visit_is_open vs' = None then vs' @ [begun now p t e]
           else map (detected cfg t e) vs')"

definition entering_timeout :: "visit_settings \<Rightarrow> datetime \<Rightarrow> visit \<Rightarrow> bool" where
  "entering_timeout cfg t v \<longleftrightarrow>
     v_state v = ENTERING
     \<and> 3 * entry_confirm_seconds cfg \<le> secs_between t (or_else (created_at v) t)"

definition spec_end :: "visit_settings \<Rightarrow> datetime \<Rightarrow> visit list \<Rightarrow> visit list" where
  "spec_end cfg t vs = map (settle cfg t) (filter (\<lambda>v. \<not> entering_timeout cfg t v) vs)"

definition detections :: "int \<Rightarrow> event list \<Rightarrow> (datetime \<times> int) list" where
  "detections tid evs =
     map (\<lambda>e. (e_wall_clock_at e, row_id e))
       (filter (\<lambda>e. e_tractor_id e = Some tid \<and> e_inside_roi e) evs)"

definition spec_video ::
  "visit_settings \<Rightarrow> datetime \<Rightarrow> int \<Rightarrow> event list \<Rightarrow> int \<Rightarrow> visit list \<Rightarrow> visit list" where
  "spec_video cfg now sid evs tid vs =
     spec_end cfg (e_wall_clock_at (last evs))
       (fold (spec_event cfg now (tid, sid)) (detections tid evs) vs)"

section \<open>Facts about the contract\<close>

lemma settle_frame [simp]:
  "row_id (settle cfg t v) = row_id v" "visit_pair (settle cfg t v) = visit_pair v"
  "v_last_seen_at (settle cfg t v) = v_last_seen_at v" "created_at (settle cfg t v) = created_at v"
  by (auto simp: settle_def close_state_def closed_at_def visit_pair_def split: option.split)

lemma settle_ENTERING [simp]: "v_state v = ENTERING \<Longrightarrow> settle cfg t v = v"
  by (simp add: settle_def close_state_def split: option.split)

lemma settle_CLOSED [simp]: "v_state v = CLOSED \<Longrightarrow> settle cfg t v = v"
  by (simp add: settle_def close_state_def split: option.split)

lemma settle_closed [simp]: "\<not> visit_is_open v \<Longrightarrow> settle cfg t v = v"
  by (simp add: visit_is_open_def)

lemma detected_closed [simp]: "\<not> visit_is_open v \<Longrightarrow> detected cfg t e v = v"
  by (simp add: visit_is_open_def detected_def machine_defs)

lemma settle_present_closed [simp]: "\<not> visit_is_open v \<Longrightarrow> settle_present cfg t v = v"
  by (simp add: visit_is_open_def settle_present_def)

lemma strip_settle [simp]: "strip (settle cfg t v) = settle cfg t (strip v)"
  by (auto simp: settle_def close_state_def closed_at_def strip_def split: option.split)

lemma strip_settle_present [simp]: "strip (settle_present cfg t v) = settle_present cfg t (strip v)"
  by (auto simp: settle_present_def)

lemma strip_detected [simp]: "strip (detected cfg t e v) = detected cfg t e (strip v)"
  by (cases "v_state v") (auto simp: detected_def machine_defs strip_def)

lemma detected_frame [simp]:
  "row_id (detected cfg t e v) = row_id v" "visit_pair (detected cfg t e v) = visit_pair v"
  by (simp_all add: detected_def visit_pair_def)

lemma detected_open [simp]: "visit_is_open (detected cfg t e v) = visit_is_open v"
  by (cases "v_state v") (auto simp: detected_def machine_defs)

lemma detected_last_seen:
  "visit_is_open v \<Longrightarrow> v_state v \<noteq> ABSENT \<Longrightarrow> v_last_seen_at (detected cfg t e v) = Some t"
  by (cases "v_state v") (auto simp: detected_def machine_defs)

lemma visit_inv_settle:
  assumes "visit_inv cfg v"
  shows "visit_inv cfg (settle cfg t v)"
  using assms
  by (cases "v_state v")
     (auto simp: visit_inv_def settle_def close_state_def closed_at_def to_naive_utc_eq
       split: option.splits)

lemma visit_inv_detected:
  assumes "visit_inv cfg v" and "v_last_seen_at v = Some seen" and "utc_us seen \<le> utc_us t"
  shows "visit_inv cfg (detected cfg t e v)"
  unfolding detected_def by (rule visit_inv_apply [OF assms])


end
