(* ===== verification/VisitRefinement.thy ===== *)
theory VisitRefinement
  imports VisitSpec
begin

text \<open>
  The visit service implements its contract: the run of \<open>process_video_for_visits\<close> on any stored
  batch of events returns, commits a database that satisfies every constraint, and leaves the
  visits of each pair as \<open>spec_video\<close> says. The proof follows the code: the runs of the session's
  part, the invariant \<open>loop_inv\<close> that ties the two dictionaries to the open visits of the station,
  one event, the loop over the events, the loop that closes, the commit.
\<close>

section \<open>Runs of the session's part\<close>

text \<open>Two worlds that differ in the wall clock's position and the channel only.\<close>

definition same_data :: "world \<Rightarrow> world \<Rightarrow> bool" where
  "same_data w w' \<longleftrightarrow> working w' = working w \<and> committed w' = committed w \<and> txn_now w' = txn_now w
     \<and> files w' = files w \<and> clock w' = clock w"

lemma same_data_refl [simp]: "same_data w w"
  by (simp add: same_data_def)

lemma same_data_trans: "same_data a b \<Longrightarrow> same_data b c \<Longrightarrow> same_data a c"
  by (simp add: same_data_def)

lemma publish_run:
  obtains w' where "publish_status_change p w = (Inr (), w')" "same_data w w'"
proof -
  obtain v e where p: "p = (v, e)" by (cases p)
  show ?thesis
    by (rule that [of "snd (publish_status_change p w)"])
       (simp_all add: p publish_status_change_def bindM_run py_now_def same_data_def)
qed

lemma publish_all_run:
  obtains w' where "forM publish_status_change ps w = (Inr (), w')" "same_data w w'"
proof (induction ps arbitrary: w thesis)
  case Nil
  then show ?case by simp
next
  case (Cons p ps)
  obtain w1 where 1: "publish_status_change p w = (Inr (), w1)" "same_data w w1"
    by (rule publish_run)
  obtain w2 where 2: "forM publish_status_change ps w1 = (Inr (), w2)" "same_data w1 w2"
    by (rule Cons.IH)
  show ?case
    by (rule Cons.prems [of w2]) (use 1 2 same_data_trans in auto)
qed

text \<open>Two worlds of one transaction: the working copy is \<open>d\<close> in the second.\<close>

definition moved :: "world \<Rightarrow> db \<Rightarrow> world \<Rightarrow> bool" where
  "moved w d w' \<longleftrightarrow> same_data (w\<lparr>working := d\<rparr>) w'"

lemma movedD:
  assumes "moved w d w'"
  shows "working w' = d" "committed w' = committed w" "txn_now w' = txn_now w" "files w' = files w"
    "clock w' = clock w"
  using assms by (simp_all add: moved_def same_data_def)

lemma moved_refl [simp]: "moved w (working w) w"
  by (simp add: moved_def same_data_def)

lemma moved_trans: "moved w d w' \<Longrightarrow> moved w' d' w'' \<Longrightarrow> moved w d' w''"
  by (simp add: moved_def same_data_def)

lemma save_ref_run:
  "save_ref (Live i) v w = (Inr (Live i), w\<lparr>working := put_visit (txn_now w) i v (working w)\<rparr>)"
  by (simp add: save_ref_def set_row_def put_visit_def)

lemma load_ref_run: "table_get (visits (working w)) i = Some v \<Longrightarrow> load_ref (Live i) w = (Inr v, w)"
  by (simp add: load_ref_def repo_get_def bindM_run)

lemma save_after_publish:
  obtains w' where "seqM (forM publish_status_change ps) (save_ref (Live i) v) w = (Inr (Live i), w')"
    "moved w (put_visit (txn_now w) i v (working w)) w'"
proof -
  obtain w1 where 1: "forM publish_status_change ps w = (Inr (), w1)" "same_data w w1"
    by (rule publish_all_run)
  show ?thesis
    by (rule that) (use 1 in \<open>auto simp: save_ref_run moved_def same_data_def\<close>)
qed

lemma apply_ref_run:
  obtains w' where "apply_ref cfg (Live i) v t e w = (Inr (Live i), w')"
    "moved w (put_visit (txn_now w) i (detected cfg t e v) (working w)) w'"
proof -
  obtain v' ps where v': "apply_state_transition cfg v t e = (v', ps)" by fastforce
  obtain w' where "seqM (forM publish_status_change ps) (save_ref (Live i) v') w = (Inr (Live i), w')"
    "moved w (put_visit (txn_now w) i v' (working w)) w'"
    by (rule save_after_publish)
  with v' show ?thesis by (intro that [of w']) (simp_all add: apply_ref_def detected_def)
qed

lemma maybe_close_settle:
  assumes "v_state v \<noteq> ENTERING" and "v_last_seen_at v = Some seen" and "0 < exit_confirm_seconds cfg"
  obtains ps where "maybe_close_visit cfg v t = Kept (settle cfg t v) ps"
  using closing_visit_eq [OF assms, of t] assms(2)
  by (auto simp: closing_visit_def settle_def split: close_result.splits)

lemma close_ref_run:
  assumes "v_state v \<noteq> ENTERING" and "v_last_seen_at v = Some seen" and "0 < exit_confirm_seconds cfg"
  obtains w' where "close_ref cfg (Live i) v t w = (Inr (Live i, settle cfg t v), w')"
    "moved w (put_visit (txn_now w) i (settle cfg t v) (working w)) w'"
proof -
  obtain ps where ps: "maybe_close_visit cfg v t = Kept (settle cfg t v) ps"
    by (rule maybe_close_settle [OF assms])
  obtain w1 where 1: "forM publish_status_change ps w = (Inr (), w1)" "same_data w w1"
    by (rule publish_all_run)
  show ?thesis
    by (rule that)
       (use ps 1 assms(1) in \<open>auto simp: close_ref_def save_ref_run bindM_run moved_def same_data_def\<close>)
qed

lemma close_ref_ENTERING:
  assumes "v_state v = ENTERING"
  shows "close_ref cfg (Live i) v t w =
    (Inr (Live i, v),
     if entering_timeout cfg t v then w\<lparr>working := drop_visit i (working w)\<rparr> else w)"
  using assms
  by (simp add: close_ref_def maybe_close_ENTERING entering_timeout_def delete_ref_def repo_delete_def
      drop_visit_def mult.commute)


section \<open>The invariant of the loop\<close>

text \<open>What the machine needs of an open visit at time \<open>t\<close>, in UTC microseconds.\<close>

definition fit :: "visit_settings \<Rightarrow> int \<Rightarrow> visit \<Rightarrow> bool" where
  "fit cfg t v \<longleftrightarrow> visit_inv cfg v \<and> (\<exists>s. v_last_seen_at v = Some (Naive s) \<and> s \<le> t)"

text \<open>
  The two dictionaries cover exactly the open visits of the station: \<open>active_visits\<close> holds the
  live object of each, \<open>last_seen\<close> its \<open>last_seen_at\<close>.
\<close>

definition covers :: "int \<Rightarrow> batch \<Rightarrow> db \<Rightarrow> bool" where
  "covers sid b d \<longleftrightarrow>
     distinct (map fst (active b)) \<and> (\<forall>p \<in> fst ` set (active b). snd p = sid)
     \<and> (\<forall>p. snd p = sid \<longrightarrow>
           dict_get (active b) p = map_option (\<lambda>v. Some (Live (row_id v))) (open_at d p)
           \<and> dict_get (seen_at b) p = map_option v_last_seen_at (open_at d p))"

definition fit_at :: "visit_settings \<Rightarrow> int \<Rightarrow> int \<Rightarrow> db \<Rightarrow> bool" where
  "fit_at cfg sid t d \<longleftrightarrow> (\<forall>p v. snd p = sid \<longrightarrow> open_at d p = Some v \<longrightarrow> fit cfg t v)"

definition loop_inv :: "visit_settings \<Rightarrow> int \<Rightarrow> int \<Rightarrow> batch \<Rightarrow> world \<Rightarrow> bool" where
  "loop_inv cfg sid t b w \<longleftrightarrow>
     consistent (working w) \<and> fk (stations (working w)) sid
     \<and> covers sid b (working w) \<and> fit_at cfg sid t (working w)"

definition settings_ok :: "visit_settings \<Rightarrow> bool" where
  "settings_ok cfg \<longleftrightarrow> 0 < timedelta_s (exit_confirm_seconds cfg) \<and> 0 < exit_confirm_seconds cfg"

lemma covers_set:
  assumes "covers sid b d" and "snd p = sid" and "open_at d' p = Some v"
    and "\<And>q. q \<noteq> p \<Longrightarrow> snd q = sid \<Longrightarrow> open_at d' q = open_at d q"
    and "\<And>q. q \<noteq> p \<Longrightarrow> dict_get (active b1) q = dict_get (active b) q"
    and "\<And>q. q \<noteq> p \<Longrightarrow> dict_get (seen_at b1) q = dict_get (seen_at b) q"
    and "distinct (map fst (active b1))" and "\<forall>q \<in> fst ` set (active b1). snd q = sid"
    and "s = v_last_seen_at v" and "r = Some (Live (row_id v))"
  shows "covers sid (b1\<lparr>active := dict_set (active b1) p r, seen_at := dict_set (seen_at b1) p s\<rparr>) d'"
  using assms by (auto simp: covers_def dict_set_distinct dict_keys_set)

lemma fit_row_change:
  assumes "settings_ok cfg" and "consistent d" and "v \<in> set (tbl_rows (visits d))" and "visit_is_open v"
    and "visit_inv cfg v'" and "visit_fks d v'" and "row_id v' = row_id v" and "visit_pair v' = visit_pair v"
  shows "row_change d v v'"
  using assms visit_inv_row_ok [of cfg v'] by (simp add: row_change_def settings_ok_def)

lemma settle_fks [simp]: "visit_fks d (settle cfg t v) = visit_fks d v"
  by (simp add: visit_fks_def settle_def close_state_def closed_at_def split: option.split)

lemma detected_fks: "visit_fks d v \<Longrightarrow> fk (events d) e \<Longrightarrow> visit_fks d (detected cfg t e v)"
  by (cases "v_state v") (simp_all add: visit_fks_def detected_def machine_defs fk_opt_def)

text \<open>The run of the first \<open>if\<close>: afterwards the exit timer has been applied to the pair's visit.\<close>

definition after_timer :: "visit_settings \<Rightarrow> pair \<Rightarrow> datetime \<Rightarrow> db \<Rightarrow> db \<Rightarrow> bool" where
  "after_timer cfg p t d d1 \<longleftrightarrow>
     consistent d1
     \<and> stations d1 = stations d \<and> tractors d1 = tractors d \<and> videos d1 = videos d \<and> events d1 = events d
     \<and> track d1 p = map (settle_present cfg t) (track d p)
     \<and> (\<forall>q. q \<noteq> p \<longrightarrow> track d1 q = track d q \<and> open_at d1 q = open_at d q)"

lemma after_timerD:
  assumes "after_timer cfg p t d d1"
  shows "consistent d1" "stations d1 = stations d" "tractors d1 = tractors d" "videos d1 = videos d"
    "events d1 = events d" "track d1 p = map (settle_present cfg t) (track d p)"
    "q \<noteq> p \<Longrightarrow> track d1 q = track d q" "q \<noteq> p \<Longrightarrow> open_at d1 q = open_at d q"
  using assms unfolding after_timer_def by blast+

lemma only_open:
  assumes "consistent d" and "open_at d p = Some v" and "r \<in> set (track d p)" and "visit_is_open r"
  shows "r = strip v"
proof -
  obtain r' where r': "r' \<in> set (rows_at d p)" "r = strip r'"
    using assms(3) by (auto simp: track_def)
  then have "open_at d p = Some r'"
    using assms(4) by (simp add: open_at_Some [OF assms(1)] rows_at_def)
  with assms(2) r' show ?thesis by simp
qed

lemma track_settle_present:
  assumes "consistent d" and "open_at d p = Some v"
  shows "map (\<lambda>r. if visit_is_open r then strip (settle_present cfg t v) else r) (track d p)
    = map (settle_present cfg t) (track d p)"
  using only_open [OF assms] by auto

lemma settle_LEAVING:
  "v_state v = PRESENT \<Longrightarrow> v_last_seen_at v = Some seen \<Longrightarrow>
   exit_confirm_seconds cfg \<le> secs_between t seen \<Longrightarrow>
   settle cfg t (v\<lparr>v_state := LEAVING\<rparr>) = settle cfg t v"
  by (simp add: settle_def close_state_def closed_at_def)

lemma settle_present_early:
  "v_last_seen_at v = Some seen \<Longrightarrow> secs_between t seen < exit_confirm_seconds cfg \<Longrightarrow>
   settle_present cfg t v = v"
  by (simp add: settle_present_def settle_def close_state_def)

lemma after_timer_refl:
  assumes "consistent d" and "\<And>v. open_at d p = Some v \<Longrightarrow> settle_present cfg t v = v"
  shows "after_timer cfg p t d d"
proof -
  have "settle_present cfg t r = r" if "r \<in> set (track d p)" for r
  proof (cases "visit_is_open r")
    case True
    from that obtain r' where r': "r' \<in> set (rows_at d p)" "r = strip r'" by (auto simp: track_def)
    then have "open_at d p = Some r'"
      using True by (simp add: open_at_Some [OF assms(1)] rows_at_def)
    with assms(2) r' show ?thesis by (metis strip_settle_present)
  qed simp
  then show ?thesis using assms(1) by (simp add: after_timer_def map_idI)
qed

lemma after_timer_put:
  assumes "row_change d v (settle_present cfg t v)" and "open_at d p = Some v" and "visit_pair v = p"
  shows "after_timer cfg p t d (put_visit now (row_id v) (settle_present cfg t v) d)"
  using put_consistent [OF assms(1)] put_track [OF assms(1)] put_open_at [OF assms(1)]
    track_settle_present [OF row_changeD(1) [OF assms(1)] assms(2)] assms(3)
  by (simp add: after_timer_def)

lemma fit_atD:
  assumes "fit_at cfg sid t d" and "snd p = sid" and "open_at d p = Some v"
  obtains s where "visit_inv cfg v" "v_last_seen_at v = Some (Naive s)" "s \<le> t"
  using assms unfolding fit_at_def fit_def by blast

lemma seen_gap_run:
  "dict_get (seen_at b) p = Some (Some (Naive s)) \<Longrightarrow>
   seen_gap b p (Naive t) = ret (secs_between (Naive t) (Naive s))"
  by (simp add: seen_gap_def dt_sub_same_kind secs_between_def)


text \<open>
  After the first \<open>if\<close>: the object held for the pair is still live, its row is the visit after the
  exit timer, and the dictionaries differ from before only in \<open>last_seen\<close> of this pair.
\<close>

definition mid :: "visit_settings \<Rightarrow> pair \<Rightarrow> datetime \<Rightarrow> batch \<Rightarrow> world \<Rightarrow> batch \<Rightarrow> world \<Rightarrow> bool" where
  "mid cfg p t b w b1 w1 \<longleftrightarrow>
     moved w (working w1) w1 \<and> after_timer cfg p t (working w) (working w1)
     \<and> distinct (map fst (active b1)) \<and> fst ` set (active b1) = fst ` set (active b)
     \<and> dict_get (active b1) = dict_get (active b)
     \<and> (\<forall>q. q \<noteq> p \<longrightarrow> dict_get (seen_at b1) q = dict_get (seen_at b) q)"

lemma moved_self: "moved w d w' \<Longrightarrow> moved w (working w') w'"
  by (simp add: moved_def same_data_def)

lemma coversD:
  assumes "covers sid b d" and "snd p = sid"
  shows "dict_get (active b) p = map_option (\<lambda>v. Some (Live (row_id v))) (open_at d p)"
    "dict_get (seen_at b) p = map_option v_last_seen_at (open_at d p)"
  using assms unfolding covers_def by blast+

lemma visit_of_covers:
  "covers sid b d \<Longrightarrow> snd p = sid \<Longrightarrow> visit_of b p = map_option (\<lambda>v. Live (row_id v)) (open_at d p)"
  by (simp add: coversD visit_of_def split: option.split)

lemma close_out_none:
  "covers sid b (working w) \<Longrightarrow> snd p = sid \<Longrightarrow> open_at (working w) p = None \<Longrightarrow> close_out cfg p t b w = (Inr b, w)"
  by (simp add: close_out_def visit_of_covers)

lemma close_out_some:
  assumes inv: "loop_inv cfg sid t0 b w" and cfg: "settings_ok cfg" and p: "snd p = sid" "t0 \<le> t"
    and v: "open_at (working w) p = Some v"
  obtains b1 w1 v1 where "close_out cfg p (Naive t) b w = (Inr b1, w1)" "mid cfg p (Naive t) b w b1 w1"
    "table_get (visits (working w1)) (row_id v) = Some v1"
    "strip v1 = strip (settle_present cfg (Naive t) v)" "row_id v1 = row_id v"
    "visit_fks (working w) v1"
proof -
  have c: "consistent (working w)" and cov: "covers sid b (working w)"
    and fit: "fit_at cfg sid t0 (working w)"
    using inv by (simp_all add: loop_inv_def)
  obtain s where s: "visit_inv cfg v" "v_last_seen_at v = Some (Naive s)" "s \<le> t0"
    by (rule fit_atD [OF fit p(1) v])
  have v_in: "v \<in> set (tbl_rows (visits (working w)))" "visit_is_open v" "visit_pair v = p"
    using v c by (simp_all add: open_at_Some)
  have get: "table_get (visits (working w)) (row_id v) = Some v"
    by (rule open_at_get [OF c v])
  have gap: "seen_gap b p (Naive t) = ret (secs_between (Naive t) (Naive s))"
    using coversD(2) [OF cov p(1)] v s(2) by (intro seen_gap_run) simp
  have vis: "visit_of b p = Some (Live (row_id v))"
    using visit_of_covers [OF cov p(1)] v by simp
  have mid0: "mid cfg p (Naive t) b w b w" if "settle_present cfg (Naive t) v = v"
    using after_timer_refl [OF c, of p cfg "Naive t"] that v cov by (simp add: mid_def covers_def)
  show ?thesis
  proof (cases "v_state v = PRESENT \<and> exit_confirm_seconds cfg \<le> secs_between (Naive t) (Naive s)")
    case False
    then have same: "settle_present cfg (Naive t) v = v"
      using settle_present_early [OF s(2)] by (auto simp: settle_present_def not_le)
    have "close_out cfg p (Naive t) b w = (Inr b, w)"
      using False by (auto simp: close_out_def vis load_ref_run [OF get] bindM_run gap)
    then show ?thesis
      by (rule that [OF _ mid0 [OF same] get])
         (use same visit_row_facts(2) [OF c v_in(1)] in simp_all)
  next
    case True
    let ?v1 = "settle_present cfg (Naive t) v"
    have v1: "?v1 = settle cfg (Naive t) v" using True by (simp add: settle_present_def)
    have rc: "row_change (working w) v ?v1"
      unfolding v1
      by (rule fit_row_change [OF cfg c v_in(1,2) visit_inv_settle [OF s(1)]])
         (use visit_row_facts(2) [OF c v_in(1)] in simp_all)
    obtain w1 where w1: "close_ref cfg (Live (row_id v)) (v\<lparr>v_state := LEAVING\<rparr>) (Naive t) w
        = (Inr (Live (row_id v), settle cfg (Naive t) (v\<lparr>v_state := LEAVING\<rparr>)), w1)"
      "moved w (put_visit (txn_now w) (row_id v) (settle cfg (Naive t) (v\<lparr>v_state := LEAVING\<rparr>)) (working w)) w1"
      by (rule close_ref_run [where v = "v\<lparr>v_state := LEAVING\<rparr>" and seen = "Naive s"])
         (use s(2) cfg in \<open>auto simp: settings_ok_def\<close>)
    have m: "moved w (put_visit (txn_now w) (row_id v) ?v1 (working w)) w1"
      using w1(2) settle_LEAVING [OF _ s(2)] True v1 by simp
    let ?b1 = "b\<lparr>active := dict_set (active b) p (Some (Live (row_id v))),
                 seen_at := dict_set (seen_at b) p (Some (Naive t))\<rparr>"
    have "close_out cfg p (Naive t) b w = (Inr ?b1, w1)"
      using True w1(1) by (simp add: close_out_def vis load_ref_run [OF get] bindM_run gap)
    moreover have "dict_get (active ?b1) = dict_get (active b)"
      using coversD(1) [OF cov p(1)] v by (auto simp: fun_eq_iff)
    moreover have "p \<in> fst ` set (active b)"
      using coversD(1) [OF cov p(1)] v by (force simp: dict_get_def dest: map_of_SomeD)
    ultimately show ?thesis
      using m cov after_timer_put [OF rc v v_in(3)] put_get [OF rc]
        visit_row_facts(2) [OF c v_in(1)]
      by (intro that [of ?b1 w1 "touch (txn_now w) v ?v1"])
         (auto simp: mid_def movedD(1) [OF m] moved_self [OF m] covers_def dict_set_distinct dict_keys_set v1)
  qed
qed


lemma row_insert_new:
  assumes "consistent d" and "open_at d p = None"
    and "fk (tractors d) (fst p)" and "fk (stations d) (snd p)" and "fk (events d) e"
  shows "row_insert d (new_visit (fst p) (snd p) t (Some e))"
  using assms
  by (simp add: row_insert_def new_visit_def visit_checks visit_fks_def fk_opt_def visit_pair_def)

lemma new_visit_simps [simp]:
  "visit_pair (new_visit a b t x) = (a, b)"
  "strip (new_visit a b t (Some e))\<lparr>created_at := Some now\<rparr> = begun now (a, b) t e"
  "strip (begun now p t e) = begun now p t e"
  "v_last_seen_at (new_visit a b t x) = Some t"
  "v_last_seen_at (begun now p t i) = Some t"
  "visit_is_open (new_visit a b t x)"
  by (simp_all add: new_visit_def visit_pair_def begun_def strip_def)

lemma add_visit_row_run:
  "add_row VisitRepo v w =
    (Inr (tbl_seq (visits (working w))), w\<lparr>working := add_visit (txn_now w) v (working w)\<rparr>)"
  by (simp add: visit_model.add_row_run Let_def add_visit_def)

lemma insert_visit_run:
  assumes ins: "row_insert (working w) v"
  obtains w' where
    "insert_visit id v e w = (Inr (Live (tbl_seq (visits (working w)))), w')"
    "moved w (add_visit (txn_now w) v (working w)) w'"
proof -
  let ?i = "tbl_seq (visits (working w))"
  let ?w1 = "w\<lparr>working := add_visit (txn_now w) v (working w)\<rparr>"
  let ?v = "stamp_new (txn_now w) ?i v"
  have add: "add_row VisitRepo v w = (Inr ?i, ?w1)"
    by (rule add_visit_row_run)
  have ok: "db_ok (working ?w1)"
    using consistentD(2) [OF add_consistent [OF ins]] by simp
  have get: "table_get (visits (working ?w1)) ?i = Some ?v"
    using add_get [OF row_insertD(1) [OF ins]] by simp
  obtain w' where w': "publish_status_change (?v, e) ?w1 = (Inr (), w')" "same_data ?w1 w'"
    by (rule publish_run)
  show ?thesis
  proof (rule that [of w'])
    show "insert_visit id v e w = (Inr (Live ?i), w')"
      unfolding insert_visit_def using add ok w'(1) load_ref_run [OF get]
      by (simp add: flush_def)
    show "moved w (add_visit (txn_now w) v (working w)) w'"
      using w'(2) by (simp add: moved_def)
  qed
qed

lemma start_visit_run:
  assumes ins: "row_insert (working w) (new_visit (fst p) (snd p) t (Some e))"
  obtains w' where
    "start_visit id p t e b w =
      (Inr (b\<lparr>active := dict_set (active b) p (Some (Live (tbl_seq (visits (working w))))),
             seen_at := dict_set (seen_at b) p (Some t)\<rparr>), w')"
    "moved w (add_visit (txn_now w) (new_visit (fst p) (snd p) t (Some e)) (working w)) w'"
proof -
  obtain w' where "insert_visit id (new_visit (fst p) (snd p) t (Some e)) (Some e) w
      = (Inr (Live (tbl_seq (visits (working w)))), w')"
    "moved w (add_visit (txn_now w) (new_visit (fst p) (snd p) t (Some e)) (working w)) w'"
    by (rule insert_visit_run [OF ins])
  then show ?thesis
    by (intro that [of w']) (simp_all add: start_visit_def create_or_get_open_visit_def)
qed

lemma loop_inv_set:
  assumes "consistent d'" and "fk (stations d') sid" and "covers sid b (working w)"
    and "fit_at cfg sid t0 (working w)" and "t0 \<le> t" and "snd p = sid"
    and "open_at d' p = Some v" and "fit cfg t v" and "v_last_seen_at v = Some x"
    and "\<And>q. q \<noteq> p \<Longrightarrow> open_at d' q = open_at (working w) q"
    and "mid cfg p y b w0 b1 w1" and "working w' = d'"
  shows "loop_inv cfg sid t
    (b1\<lparr>active := dict_set (active b1) p (Some (Live (row_id v))),
       seen_at := dict_set (seen_at b1) p (Some x)\<rparr>) w'"
proof -
  have "covers sid (b1\<lparr>active := dict_set (active b1) p (Some (Live (row_id v))),
       seen_at := dict_set (seen_at b1) p (Some x)\<rparr>) d'"
    using assms by (intro covers_set [where v = v and d = "working w" and b = b])
      (auto simp: mid_def covers_def)
  moreover have "fit_at cfg sid t d'"
    unfolding fit_at_def
  proof (intro allI impI)
    fix q r
    assume q: "snd q = sid" "open_at d' q = Some r"
    show "fit cfg t r"
    proof (cases "q = p")
      case False
      with q assms(10) have "open_at (working w) q = Some r" by simp
      with q(1) assms(4,5) show ?thesis unfolding fit_at_def fit_def by fastforce
    qed (use q assms(7,8) in simp)
  qed
  ultimately show ?thesis
    using assms(1,2,12) by (simp add: loop_inv_def)
qed


section \<open>One event\<close>

text \<open>The transaction goes on: only visits, the clock's position and the channel may differ.\<close>

definition same_txn :: "world \<Rightarrow> world \<Rightarrow> bool" where
  "same_txn w w' \<longleftrightarrow>
     committed w' = committed w \<and> txn_now w' = txn_now w \<and> files w' = files w \<and> clock w' = clock w
     \<and> stations (working w') = stations (working w) \<and> tractors (working w') = tractors (working w)
     \<and> videos (working w') = videos (working w) \<and> events (working w') = events (working w)"

lemma same_txn_refl [simp]: "same_txn w w"
  by (simp add: same_txn_def)

lemma same_txn_trans: "same_txn a b \<Longrightarrow> same_txn b c \<Longrightarrow> same_txn a c"
  by (simp add: same_txn_def)

lemma same_txn_moved:
  "moved w d w' \<Longrightarrow> stations d = stations (working w) \<Longrightarrow> tractors d = tractors (working w) \<Longrightarrow>
   videos d = videos (working w) \<Longrightarrow> events d = events (working w) \<Longrightarrow> same_txn w w'"
  by (simp add: same_txn_def moved_def same_data_def)

definition hits :: "int \<Rightarrow> event \<Rightarrow> pair \<Rightarrow> bool" where
  "hits sid e p \<longleftrightarrow> snd p = sid \<and> e_tractor_id e = Some (fst p) \<and> e_inside_roi e"

definition step_track ::
  "visit_settings \<Rightarrow> datetime \<Rightarrow> int \<Rightarrow> event \<Rightarrow> pair \<Rightarrow> visit list \<Rightarrow> visit list" where
  "step_track cfg now sid e p vs =
     (if hits sid e p then spec_event cfg now p (e_wall_clock_at e, row_id e) vs else vs)"

text \<open>An event row as the video handler stores it.\<close>

definition event_stored :: "db \<Rightarrow> event \<Rightarrow> bool" where
  "event_stored d e \<longleftrightarrow>
     is_naive (e_wall_clock_at e) \<and> fk (events d) (row_id e)
     \<and> (case e_tractor_id e of None \<Rightarrow> True | Some tid \<Rightarrow> fk (tractors d) tid)"

lemma mid_refl:
  assumes "covers sid b (working w)" and "consistent (working w)" and "open_at (working w) p = None"
  shows "mid cfg p t b w b w"
  using assms after_timer_refl [of "working w" p cfg t] by (simp add: mid_def covers_def)

lemma fit_new [simp]: "fit cfg t (stamp_new now i (new_visit a b (Naive t) e))"
  by (simp add: fit_def visit_inv_def new_visit_def stamp_new_def)

text \<open>What one detection of the pair \<open>p\<close> has to achieve.\<close>

definition stepped ::
  "visit_settings \<Rightarrow> int \<Rightarrow> pair \<Rightarrow> int \<Rightarrow> world \<Rightarrow> (exn + batch) \<times> world \<Rightarrow> bool" where
  "stepped cfg t p e w r \<longleftrightarrow>
     (\<exists>b' w'. r = (Inr b', w') \<and> loop_inv cfg (snd p) t b' w' \<and> same_txn w w'
        \<and> (\<forall>q. track (working w') q =
             (if q = p then spec_event cfg (txn_now w) p (Naive t, e) (track (working w) p)
              else track (working w) q)))"

definition ready :: "visit_settings \<Rightarrow> int \<Rightarrow> int \<Rightarrow> pair \<Rightarrow> int \<Rightarrow> batch \<Rightarrow> world \<Rightarrow> bool" where
  "ready cfg t0 t p e b w \<longleftrightarrow>
     settings_ok cfg \<and> loop_inv cfg (snd p) t0 b w \<and> t0 \<le> t
     \<and> fk (tractors (working w)) (fst p) \<and> fk (events (working w)) e"

lemma readyD:
  assumes "ready cfg t0 t p e b w"
  shows "settings_ok cfg" "consistent (working w)" "covers (snd p) b (working w)"
    "fit_at cfg (snd p) t0 (working w)" "t0 \<le> t" "fk (stations (working w)) (snd p)"
    "fk (tractors (working w)) (fst p)" "fk (events (working w)) e"
    "loop_inv cfg (snd p) t0 b w"
  using assms by (auto simp: ready_def loop_inv_def)

lemma start_after_timer:
  assumes rdy: "ready cfg t0 t p e b w"
    and m: "mid cfg p (Naive t) b w b1 w1" and none: "open_at (working w1) p = None"
  shows "stepped cfg t p e w (start_visit id p (Naive t) e b1 w1)"
proof -
  let ?v = "new_visit (fst p) (snd p) (Naive t) (Some e)"
  let ?i = "tbl_seq (visits (working w1))"
  note r = readyD [OF rdy]
  have at: "after_timer cfg p (Naive t) (working w) (working w1)" and mw: "moved w (working w1) w1"
    using m by (simp_all add: mid_def)
  note a = after_timerD [OF at]
  have ins: "row_insert (working w1) ?v"
    using a r none by (intro row_insert_new) simp_all
  obtain w' where w': "start_visit id p (Naive t) e b1 w1 =
      (Inr (b1\<lparr>active := dict_set (active b1) p (Some (Live ?i)),
             seen_at := dict_set (seen_at b1) p (Some (Naive t))\<rparr>), w')"
    "moved w1 (add_visit (txn_now w1) ?v (working w1)) w'"
    by (rule start_visit_run [OF ins])
  let ?r = "stamp_new (txn_now w1) ?i ?v"
  have wk: "working w' = add_visit (txn_now w1) ?v (working w1)" by (rule movedD(1) [OF w'(2)])
  have inv: "loop_inv cfg (snd p) t
    (b1\<lparr>active := dict_set (active b1) p (Some (Live (row_id ?r))),
       seen_at := dict_set (seen_at b1) p (Some (Naive t))\<rparr>) w'"
    by (rule loop_inv_set [OF _ _ r(3,4,5) refl, of "working w'" ?r])
       (use add_consistent [OF ins] add_open_at [OF ins] a m r in \<open>auto simp: wk\<close>)
  have "find visit_is_open (track (working w1) p) = None"
    using none by (simp add: find_track)
  then have tr: "track (working w') q =
      (if q = p then spec_event cfg (txn_now w) p (Naive t, e) (track (working w) p) else track (working w) q)" for q
    using a(6,7) movedD(3) [OF mw] unfolding wk
    by (auto simp: add_track spec_event_def Let_def)
  have "same_txn w w'"
    by (rule same_txn_trans [OF same_txn_moved [OF mw] same_txn_moved [OF w'(2)]])
       (simp_all add: a)
  with w'(1) inv tr show ?thesis by (simp add: stepped_def)
qed

lemma settle_open_fit:
  "visit_inv cfg v \<Longrightarrow> v_last_seen_at v = Some (Naive s) \<Longrightarrow>
   visit_inv cfg (settle_present cfg t v) \<and> v_last_seen_at (settle_present cfg t v) = Some (Naive s)"
  by (simp add: settle_present_def visit_inv_settle)

lemma visit_inv_strip: "visit_inv cfg (strip v) = visit_inv cfg v"
  unfolding visit_inv_def strip_sel by (rule refl)

lemma spec_event_open:
  assumes "consistent d" and "open_at d p = Some v" and "visit_is_open (settle_present cfg t v)"
    and "track d1 p = map (settle_present cfg t) (track d p)"
  shows "spec_event cfg now p (t, e) (track d p) = map (detected cfg t e) (track d1 p)"
proof -
  have "strip v \<in> set (track d p)"
    using assms(1,2) by (auto simp: open_at_Some track_def rows_at_def)
  moreover have "visit_is_open (settle_present cfg t (strip v))"
    using assms(3) by (simp flip: strip_settle_present)
  ultimately have "find visit_is_open (map (settle_present cfg t) (track d p)) \<noteq> None"
    by (auto simp: find_None_iff)
  then show ?thesis by (auto simp: spec_event_def Let_def assms(4))
qed

text \<open>Applying a detection to the live row of the pair.\<close>

lemma detect_track:
  assumes "row_change d v (detected cfg t e v)"
  shows "track (put_visit now (row_id v) (detected cfg t e v) d) p =
    (if p = visit_pair v then map (detected cfg t e) (track d p) else track d p)"
proof -
  note c = row_changeD [OF assms]
  have "r = strip v" if r: "r \<in> set (track d (visit_pair v))" "visit_is_open r" for r
  proof -
    obtain r' where r': "r' \<in> set (rows_at d (visit_pair v))" "r = strip r'"
      using r(1) by (auto simp: track_def)
    then show ?thesis using open_row_of_pair [OF c(1-3), of r'] r(2) by simp
  qed
  then show ?thesis by (auto simp: put_track [OF assms])
qed

lemma apply_after_timer:
  assumes rdy: "ready cfg t0 t p e b w"
    and m: "mid cfg p (Naive t) b w b1 w1" and v: "open_at (working w) p = Some v"
    and get: "table_get (visits (working w1)) (row_id v) = Some v1"
    and v1: "strip v1 = strip (settle_present cfg (Naive t) v)" "row_id v1 = row_id v"
       "visit_fks (working w) v1" "visit_is_open v1"
  shows "stepped cfg t p e w
    (bindM (apply_ref cfg (Live (row_id v)) v1 (Naive t) e) (\<lambda>r'.
       ret (b1\<lparr>active := dict_set (active b1) p (Some r'),
               seen_at := dict_set (seen_at b1) p (Some (Naive t))\<rparr>)) w1)"
proof -
  note r = readyD [OF rdy]
  have at: "after_timer cfg p (Naive t) (working w) (working w1)" and mw: "moved w (working w1) w1"
    using m by (simp_all add: mid_def)
  note a = after_timerD [OF at]
  obtain s where s: "visit_inv cfg v" "v_last_seen_at v = Some (Naive s)" "s \<le> t0"
    by (rule fit_atD [OF r(4) refl v])
  have st: "v_last_seen_at v1 = Some (Naive s)" "visit_inv cfg v1" "visit_pair v1 = p"
    "visit_is_open v1 = visit_is_open (settle_present cfg (Naive t) v)"
    using settle_open_fit [OF s(1,2), of "Naive t"] v r(2) arg_cong [OF v1(1), of v_last_seen_at]
      arg_cong [OF v1(1), of "visit_inv cfg"] arg_cong [OF v1(1), of visit_pair]
      arg_cong [OF v1(1), of visit_is_open]
    by (auto simp: visit_inv_strip open_at_Some settle_present_def simp del: strip_settle_present split: if_splits)
  have v1_in: "v1 \<in> set (tbl_rows (visits (working w1)))" using get by (simp add: table_get_Some)
  have inv': "visit_inv cfg (detected cfg (Naive t) e v1)"
    by (rule visit_inv_detected [OF st(2,1)]) (use s(3) r(5) in simp)
  have rc: "row_change (working w1) v1 (detected cfg (Naive t) e v1)"
    by (rule fit_row_change [OF r(1) a(1) v1_in v1(4) inv'])
       (use v1(3) r(8) visit_fks_tables [OF a(2,3,5)] a(5) in \<open>auto intro: detected_fks\<close>)
  obtain w' where w': "apply_ref cfg (Live (row_id v)) v1 (Naive t) e w1 = (Inr (Live (row_id v)), w')"
    "moved w1 (put_visit (txn_now w1) (row_id v) (detected cfg (Naive t) e v1) (working w1)) w'"
    by (rule apply_ref_run)
  have wk: "working w' = put_visit (txn_now w1) (row_id v1) (detected cfg (Naive t) e v1) (working w1)"
    using movedD(1) [OF w'(2)] v1(2) by simp
  let ?r = "touch (txn_now w1) v1 (detected cfg (Naive t) e v1)"
  have touch: "v_last_seen_at ?r = Some (Naive t)" "visit_inv cfg ?r" "row_id ?r = row_id v"
    using detected_last_seen [OF v1(4)] inv' v1(2) st(2) strip_touch [of "txn_now w1" v1 "detected cfg (Naive t) e v1"]
    by (simp_all only: row_id_touch detected_frame) (metis strip_sel(2) visit_inv_def, metis visit_inv_strip)
  have inv: "loop_inv cfg (snd p) t
    (b1\<lparr>active := dict_set (active b1) p (Some (Live (row_id ?r))),
       seen_at := dict_set (seen_at b1) p (Some (Naive t))\<rparr>) w'"
    by (rule loop_inv_set [OF _ _ r(3,4,5) refl, of "working w'" ?r])
       (use put_consistent [OF rc] put_open_at [OF rc] a m r(6) st(3) v1(4) touch in
        \<open>auto simp: wk fit_def\<close>)
  have tr: "track (working w') q =
      (if q = p then spec_event cfg (txn_now w) p (Naive t, e) (track (working w) p) else track (working w) q)" for q
    using detect_track [OF rc] spec_event_open [OF r(2) v _ a(6)] st(3,4) v1(4) a(7) by (auto simp: wk)
  have "same_txn w w'"
    by (rule same_txn_trans [OF same_txn_moved [OF mw] same_txn_moved [OF w'(2)]]) (simp_all add: a)
  with w'(1) inv tr touch(3) show ?thesis by (simp add: stepped_def)
qed

lemma closed_after_timer:
  assumes "consistent (working w)" and "mid cfg p t b w b1 w1" and "open_at (working w) p = Some v"
    and "strip v1 = strip (settle_present cfg t v)" and "\<not> visit_is_open v1"
  shows "open_at (working w1) p = None"
proof -
  have "\<not> visit_is_open (settle_present cfg t (strip v))"
    using assms(5) arg_cong [OF assms(4), of visit_is_open] by simp
  then have "\<not> visit_is_open (settle_present cfg t r)" if "r \<in> set (track (working w) p)" for r
    using that only_open [OF assms(1,3), of r] by (cases "visit_is_open r") auto
  then have "find visit_is_open (track (working w1) p) = None"
    using assms(2) by (auto simp: mid_def after_timerD(6) find_None_iff)
  then show ?thesis by (simp add: find_track)
qed

lemma detection_run:
  assumes rdy: "ready cfg t0 t p e b w"
  shows "stepped cfg t p e w (bindM (close_out cfg p (Naive t) b) (advance cfg id p (Naive t) e) w)"
proof (cases "open_at (working w) p")
  note r = readyD [OF rdy]
  case None
  then show ?thesis
    using start_after_timer [OF rdy mid_refl [OF r(3,2) None] None] visit_of_covers [OF r(3)]
      close_out_none [OF r(3) refl None, of cfg "Naive t"]
    by (simp add: advance_def)
next
  note r = readyD [OF rdy]
  case (Some v)
  obtain b1 w1 v1 where m: "close_out cfg p (Naive t) b w = (Inr b1, w1)" "mid cfg p (Naive t) b w b1 w1"
    "table_get (visits (working w1)) (row_id v) = Some v1"
    "strip v1 = strip (settle_present cfg (Naive t) v)" "row_id v1 = row_id v" "visit_fks (working w) v1"
    by (rule close_out_some [OF r(9,1) refl r(5) Some])
  have "visit_of b1 p = Some (Live (row_id v))"
    using m(2) visit_of_covers [OF r(3)] Some by (simp add: mid_def visit_of_def)
  then have run: "bindM (close_out cfg p (Naive t) b) (advance cfg id p (Naive t) e) w =
      (if visit_is_open v1
       then bindM (apply_ref cfg (Live (row_id v)) v1 (Naive t) e) (\<lambda>r'.
         ret (b1\<lparr>active := dict_set (active b1) p (Some r'),
                 seen_at := dict_set (seen_at b1) p (Some (Naive t))\<rparr>)) w1
       else start_visit id p (Naive t) e b1 w1)"
    using m(1) load_ref_run [OF m(3)] by (simp add: advance_def visit_is_open_def)
  show ?thesis
  proof (cases "visit_is_open v1")
    case True
    with apply_after_timer [OF rdy m(2) Some m(3-6) True] run show ?thesis by simp
  next
    case False
    with start_after_timer [OF rdy m(2) closed_after_timer [OF r(2) m(2) Some m(4) False]] run
    show ?thesis by simp
  qed
qed

lemma process_event_run:
  assumes inv: "loop_inv cfg sid t0 b w" and cfg: "settings_ok cfg"
    and e: "event_stored (working w) e" and t: "t0 \<le> utc_us (e_wall_clock_at e)"
  obtains b' w' where "process_event cfg id sid b e w = (Inr b', w')"
    "loop_inv cfg sid (utc_us (e_wall_clock_at e)) b' w'" "same_txn w w'"
    "\<forall>p. track (working w') p = step_track cfg (txn_now w) sid e p (track (working w) p)"
proof (cases "e_tractor_id e = None \<or> \<not> e_inside_roi e")
  case True
  then have "process_event cfg id sid b e w = (Inr b, w)"
    by (auto simp: process_event_def split: option.split)
  moreover have "loop_inv cfg sid (utc_us (e_wall_clock_at e)) b w"
    using inv t unfolding loop_inv_def fit_at_def fit_def by fastforce
  ultimately show ?thesis
    by (rule that) (use True in \<open>auto simp: step_track_def hits_def\<close>)
next
  case False
  then obtain tid where tid: "e_tractor_id e = Some tid" by auto
  let ?t = "utc_us (e_wall_clock_at e)" and ?p = "(tid, sid)"
  have wall: "e_wall_clock_at e = Naive ?t"
    using e by (cases "e_wall_clock_at e") (simp_all add: event_stored_def)
  have "ready cfg t0 ?t ?p (row_id e) b w"
    using inv cfg e t tid by (simp add: ready_def event_stored_def)
  from detection_run [OF this] obtain b' w' where s:
    "process_event cfg id sid b e w = (Inr b', w')" "loop_inv cfg sid ?t b' w'" "same_txn w w'"
    "\<And>q. track (working w') q =
       (if q = ?p then spec_event cfg (txn_now w) ?p (Naive ?t, row_id e) (track (working w) ?p)
        else track (working w) q)"
    using False tid wall by (auto simp: stepped_def process_event_def)
  have hit: "hits sid e q \<longleftrightarrow> q = ?p" for q
    using False tid by (cases q) (auto simp: hits_def)
  show ?thesis
    by (rule that [OF s(1-3)]) (simp add: s(4) step_track_def hit flip: wall)
qed


section \<open>The events of a video\<close>

definition event_times :: "int \<Rightarrow> event list \<Rightarrow> bool" where
  "event_times t0 evs \<longleftrightarrow> sorted (t0 # map (\<lambda>e. utc_us (e_wall_clock_at e)) evs)"

lemma event_stored_same: "same_txn w w' \<Longrightarrow> event_stored (working w') e = event_stored (working w) e"
  by (simp add: event_stored_def same_txn_def split: option.split)

lemma process_events_run:
  assumes "loop_inv cfg sid t0 b w" and "settings_ok cfg"
    and "\<And>e. e \<in> set evs \<Longrightarrow> event_stored (working w) e" and "event_times t0 evs"
  obtains b' w' t where "foldM (process_event cfg id sid) b evs w = (Inr b', w')"
    "loop_inv cfg sid t b' w'" "same_txn w w'"
    "\<forall>p. track (working w') p = fold (\<lambda>e. step_track cfg (txn_now w) sid e p) evs (track (working w) p)"
  using assms
proof (induction evs arbitrary: b w t0 thesis)
  case Nil
  show ?case by (rule Nil.prems(1) [OF _ Nil.prems(2)]) simp_all
next
  case (Cons e evs)
  let ?t = "utc_us (e_wall_clock_at e)"
  have e: "event_stored (working w) e" and t: "t0 \<le> ?t" and ts: "event_times ?t evs"
    using Cons.prems(4,5) by (simp_all add: event_times_def)
  obtain b1 w1 where 1: "process_event cfg id sid b e w = (Inr b1, w1)" "loop_inv cfg sid ?t b1 w1"
    "same_txn w w1" "\<forall>p. track (working w1) p = step_track cfg (txn_now w) sid e p (track (working w) p)"
    by (rule process_event_run [OF Cons.prems(2,3) e t])
  obtain b2 w2 t2 where 2: "foldM (process_event cfg id sid) b1 evs w1 = (Inr b2, w2)" "loop_inv cfg sid t2 b2 w2"
    "same_txn w1 w2"
    "\<forall>p. track (working w2) p = fold (\<lambda>e. step_track cfg (txn_now w1) sid e p) evs (track (working w1) p)"
    by (rule Cons.IH [OF _ 1(2) Cons.prems(3) _ ts])
       (use Cons.prems(4) event_stored_same [OF 1(3)] in auto)
  have run: "foldM (process_event cfg id sid) b (e # evs) w = (Inr b2, w2)"
    by (simp only: foldM.simps bindM_run 1(1) 2(1) prod.case sum.case)
  show ?case
    by (rule Cons.prems(1) [OF run 2(2) same_txn_trans [OF 1(3) 2(3)]])
       (use 1(3,4) 2(4) in \<open>simp add: same_txn_def\<close>)
qed

lemma fold_step_track:
  "fold (\<lambda>e. step_track cfg now sid e (tid, sid)) evs vs =
   fold (spec_event cfg now (tid, sid)) (detections tid evs) vs"
  by (induction evs arbitrary: vs) (auto simp: step_track_def hits_def detections_def)

lemma fold_step_track_other:
  "sid' \<noteq> sid \<Longrightarrow> fold (\<lambda>e. step_track cfg now sid e (tid, sid')) evs vs = vs"
  by (induction evs arbitrary: vs) (auto simp: step_track_def hits_def)

section \<open>The end of a video\<close>

lemma spec_end_closed: "\<forall>r \<in> set vs. \<not> visit_is_open r \<Longrightarrow> spec_end cfg t vs = vs"
  by (induction vs) (auto simp: spec_end_def entering_timeout_def visit_is_open_def)

lemma spec_end_one_open:
  assumes only: "\<And>r. r \<in> set vs \<Longrightarrow> visit_is_open r \<Longrightarrow> r = v" and v: "visit_is_open v"
  shows "spec_end cfg t vs =
    (if entering_timeout cfg t v then filter (\<lambda>r. \<not> visit_is_open r) vs
     else map (\<lambda>r. if visit_is_open r then settle cfg t v else r) vs)"
proof -
  have et: "entering_timeout cfg t r \<longleftrightarrow> visit_is_open r \<and> entering_timeout cfg t v" if "r \<in> set vs" for r
    using only [OF that] v by (cases "visit_is_open r") (auto simp: entering_timeout_def visit_is_open_def)
  show ?thesis
  proof (cases "entering_timeout cfg t v")
    case True
    then have "filter (\<lambda>r. \<not> entering_timeout cfg t r) vs = filter (\<lambda>r. \<not> visit_is_open r) vs"
      using et by (intro filter_cong) auto
    moreover have "map (settle cfg t) (filter (\<lambda>r. \<not> visit_is_open r) vs) = filter (\<lambda>r. \<not> visit_is_open r) vs"
      by (rule map_idI) simp
    ultimately show ?thesis using True by (simp add: spec_end_def)
  next
    case False
    then have "filter (\<lambda>r. \<not> entering_timeout cfg t r) vs = vs"
      using et by (simp add: filter_id_conv)
    then show ?thesis using False only by (auto simp: spec_end_def)
  qed
qed

lemma entering_timeout_strip [simp]: "entering_timeout cfg t (strip v) = entering_timeout cfg t v"
  by (simp add: entering_timeout_def)

text \<open>The database after the exit timer was applied to the open visit \<open>v\<close> of the pair \<open>p\<close>.\<close>

definition ended_one :: "visit_settings \<Rightarrow> datetime \<Rightarrow> pair \<Rightarrow> world \<Rightarrow> world \<Rightarrow> bool" where
  "ended_one cfg t p w w' \<longleftrightarrow>
     consistent (working w') \<and> same_txn w w'
     \<and> track (working w') p = spec_end cfg t (track (working w) p)
     \<and> (\<forall>q. q \<noteq> p \<longrightarrow> track (working w') q = track (working w) q \<and> open_at (working w') q = open_at (working w) q)"

lemma ended_oneD:
  assumes "ended_one cfg t p w w'"
  shows "consistent (working w')" "same_txn w w'"
    "track (working w') p = spec_end cfg t (track (working w) p)"
    "q \<noteq> p \<Longrightarrow> track (working w') q = track (working w) q"
    "q \<noteq> p \<Longrightarrow> open_at (working w') q = open_at (working w) q"
  using assms unfolding ended_one_def by blast+

text \<open>Closing one visit, as the end of a video, the periodic check and both timers do it.\<close>

lemma close_one_run:
  assumes cfg: "settings_ok cfg" and c: "consistent (working w)" and v: "open_at (working w) p = Some v"
    and inv: "visit_inv cfg v"
  obtains w' v' where "close_ref cfg (Live (row_id v)) v t w = (Inr (Live (row_id v), v'), w')"
    "ended_one cfg t p w w'" "v' = settle cfg t v"
proof -
  have v_in: "v \<in> set (tbl_rows (visits (working w)))" "visit_is_open v" "visit_pair v = p"
    using v c by (simp_all add: open_at_Some)
  have se: "spec_end cfg t (track (working w) p) =
    (if entering_timeout cfg t v then filter (\<lambda>r. \<not> visit_is_open r) (track (working w) p)
     else map (\<lambda>r. if visit_is_open r then strip (settle cfg t v) else r) (track (working w) p))"
    using spec_end_one_open [OF only_open [OF c v], of "track (working w) p" cfg t] v_in(2) by auto
  show ?thesis
  proof (cases "v_state v = ENTERING")
    case True
    let ?w = "if entering_timeout cfg t v then w\<lparr>working := drop_visit (row_id v) (working w)\<rparr> else w"
    have "map (\<lambda>r. if visit_is_open r then strip (settle cfg t v) else r) (track (working w) p) = track (working w) p"
      using only_open [OF c v] True by (auto intro: map_idI)
    then have "ended_one cfg t p w ?w"
      using se drop_consistent [OF c] drop_track [OF c v_in(1,2)] drop_open_at [OF c v_in(1,2)] c v_in(3)
      by (auto simp: ended_one_def same_txn_def)
    then show ?thesis
      by (intro that [of v ?w]) (use True in \<open>simp_all add: close_ref_ENTERING\<close>)
  next
    case False
    obtain s where s: "v_last_seen_at v = Some s" using inv by (auto simp: visit_inv_def split: option.splits)
    obtain w' where w': "close_ref cfg (Live (row_id v)) v t w = (Inr (Live (row_id v), settle cfg t v), w')"
      "moved w (put_visit (txn_now w) (row_id v) (settle cfg t v) (working w)) w'"
      by (rule close_ref_run [OF False s, of cfg "row_id v" t w]) (use cfg in \<open>auto simp: settings_ok_def\<close>)
    have rc: "row_change (working w) v (settle cfg t v)"
      by (rule fit_row_change [OF cfg c v_in(1,2) visit_inv_settle [OF inv]])
         (use visit_row_facts(2) [OF c v_in(1)] in simp_all)
    have "\<not> entering_timeout cfg t v" using False by (simp add: entering_timeout_def)
    then have "ended_one cfg t p w w'"
      using se put_consistent [OF rc] put_track [OF rc] put_open_at [OF rc] same_txn_moved [OF w'(2)]
        movedD(1) [OF w'(2)] v_in(3) by (auto simp: ended_one_def)
    then show ?thesis by (intro that [OF w'(1)]) simp_all
  qed
qed


text \<open>The loop after the events: every entry of \<open>active_visits\<close> in turn.\<close>

definition holds_open :: "visit_settings \<Rightarrow> db \<Rightarrow> pair \<times> vref option \<Rightarrow> bool" where
  "holds_open cfg d kv \<longleftrightarrow>
     (\<exists>v. snd kv = Some (Live (row_id v)) \<and> open_at d (fst kv) = Some v \<and> visit_inv cfg v)"

lemma force_close_run:
  assumes cfg: "settings_ok cfg" and c: "consistent (working w)" and h: "holds_open cfg (working w) (p, r)"
  obtains w' where "force_close cfg t r w = (Inr (), w')" "ended_one cfg t p w w'"
proof -
  obtain v where v: "r = Some (Live (row_id v))" "open_at (working w) p = Some v" "visit_inv cfg v"
    using h by (auto simp: holds_open_def)
  obtain w' v' where w': "close_ref cfg (Live (row_id v)) v t w = (Inr (Live (row_id v), v'), w')"
    "ended_one cfg t p w w'" "v' = settle cfg t v"
    by (rule close_one_run [OF cfg c v(2,3)])
  have "v_state v \<noteq> CLOSED" using v(2) c by (simp add: open_at_Some visit_is_open_def)
  then have "force_close cfg t r w = (Inr (), w')"
    using w'(1) load_ref_run [OF open_at_get [OF c v(2)]] by (simp add: force_close_def v(1))
  then show ?thesis by (rule that [OF _ w'(2)])
qed

lemma force_close_all_run:
  assumes "settings_ok cfg" and "consistent (working w)" and "distinct (map fst kvs)"
    and "\<forall>kv \<in> set kvs. holds_open cfg (working w) kv"
  obtains w' where "forM (force_close cfg t) (map snd kvs) w = (Inr (), w')" "consistent (working w')"
    "same_txn w w'"
    "\<forall>p. track (working w') p =
      (if p \<in> fst ` set kvs then spec_end cfg t (track (working w) p) else track (working w) p)"
  using assms
proof (induction kvs arbitrary: w thesis)
  case Nil
  show ?case by (rule Nil.prems(1) [of w]) (simp_all add: Nil.prems(3))
next
  case (Cons kv kvs)
  obtain p r where kv: "kv = (p, r)" by (cases kv)
  obtain w1 where 1: "force_close cfg t r w = (Inr (), w1)" "ended_one cfg t p w w1"
    by (rule force_close_run [OF Cons.prems(2,3), of p r t]) (use Cons.prems(5) kv in simp)
  note e1 = ended_oneD [OF 1(2)]
  have fresh: "fst kv' \<noteq> p" if "kv' \<in> set kvs" for kv'
    using Cons.prems(4) that kv by auto
  have rest: "\<forall>kv \<in> set kvs. holds_open cfg (working w1) kv"
    using Cons.prems(5) e1(5) [OF fresh] by (auto simp: holds_open_def)
  obtain w2 where 2: "forM (force_close cfg t) (map snd kvs) w1 = (Inr (), w2)" "consistent (working w2)"
    "same_txn w1 w2"
    "\<forall>p. track (working w2) p =
      (if p \<in> fst ` set kvs then spec_end cfg t (track (working w1) p) else track (working w1) p)"
    by (rule Cons.IH [OF _ Cons.prems(2) e1(1) _ rest]) (use Cons.prems(4) in auto)
  have tr: "track (working w2) q =
      (if q \<in> fst ` set (kv # kvs) then spec_end cfg t (track (working w) q) else track (working w) q)" for q
  proof (cases "q = p")
    case True
    then have "q \<notin> fst ` set kvs" using fresh by blast
    then show ?thesis using 2(4) [rule_format, of q] e1(3) kv True by simp
  next
    case False
    then show ?thesis using 2(4) [rule_format, of q] e1(4) [of q] kv by simp
  qed
  show ?case
    by (rule Cons.prems(1) [OF _ 2(2) same_txn_trans [OF e1(2) 2(3)]])
       (use 1(1) 2(1) kv tr in \<open>simp_all del: set_simps\<close>)
qed

section \<open>The open visits of a station\<close>

lemma map_of_pairs:
  "map_of (map (\<lambda>x. (k x, f x)) xs) p = map_option f (find (\<lambda>x. k x = p) xs)"
  by (induction xs) auto

lemma find_key:
  "distinct (map k xs) \<Longrightarrow> find (\<lambda>x. k x = p) xs = Some v \<longleftrightarrow> v \<in> set xs \<and> k v = p"
  by (induction xs) auto

lemma open_rows_station:
  assumes "consistent d"
  shows "distinct (map visit_pair (sort_key row_id (filter (\<lambda>v. v_station_id v = sid \<and> visit_is_open v) (tbl_rows (visits d)))))"
proof -
  have "uq_visit_open (filter (\<lambda>v. v_station_id v = sid) (tbl_rows (visits d)))"
    using consistentD(4) [OF assms] by (rule uq_visit_open_filter)
  then have "distinct (map visit_pair (filter (\<lambda>v. v_station_id v = sid \<and> visit_is_open v) (tbl_rows (visits d))))"
    by (simp add: uq_visit_open_def conj_commute)
  then show ?thesis
    by (simp add: distinct_map)
qed

lemma open_visits_for_station_run:
  assumes c: "consistent (working w)"
  obtains b where "open_visits_for_station sid w = (Inr b, w)" "covers sid b (working w)"
proof -
  let ?rows = "sort_key row_id (filter (\<lambda>v. v_station_id v = sid \<and> visit_is_open v) (tbl_rows (visits (working w))))"
  let ?b = "\<lparr>active = map (\<lambda>v. (visit_pair v, Some (Live (row_id v)))) ?rows,
             seen_at = map (\<lambda>v. (visit_pair v, v_last_seen_at v)) ?rows\<rparr>"
  have d: "distinct (map visit_pair ?rows)" by (rule open_rows_station [OF c])
  have run: "open_visits_for_station sid w = (Inr ?b, w)"
    using d by (simp add: open_visits_for_station_def list_open_for_station_def dict_of_distinct comp_def del: set_sort)
  have fnd: "find (\<lambda>v. visit_pair v = p) ?rows = open_at (working w) p" if "snd p = sid" for p
  proof (rule sym, rule open_at_eqI)
    fix v
    show "open_at (working w) p = Some v \<longleftrightarrow> find (\<lambda>v. visit_pair v = p) ?rows = Some v"
      unfolding find_key [OF d] open_at_Some [OF c] using that by (auto simp: visit_pair_def)
  qed
  have "\<forall>p \<in> fst ` set (active ?b). snd p = sid" by (auto simp: visit_pair_def)
  moreover have "distinct (map fst (active ?b))" using d by (simp add: comp_def)
  moreover have "dict_get (active ?b) p = map_option (\<lambda>v. Some (Live (row_id v))) (open_at (working w) p)"
    "dict_get (seen_at ?b) p = map_option v_last_seen_at (open_at (working w) p)" if "snd p = sid" for p
    using fnd [OF that] by (simp_all add: dict_get_def map_of_pairs)
  ultimately have "covers sid ?b (working w)"
    unfolding covers_def by blast
  with run show ?thesis by (rule that)
qed


section \<open>A whole video\<close>

lemma db_ok_consistent: "consistent d \<Longrightarrow> db_ok d"
  by (rule consistentD)

lemma consistent_regenerate: "consistent d \<Longrightarrow> consistent (regenerate d)"
  by (simp add: consistent_def db_wf_regenerate)

lemma track_regenerate [simp]: "track (regenerate d) p = track d p"
proof -
  have "strip (v\<lparr>v_duration_seconds := x\<rparr>) = strip v" for v x
    by (simp add: strip_def)
  then show ?thesis by (simp add: track_def rows_at_def filter_map comp_def)
qed

lemma commit_run:
  assumes "consistent (working w)"
  obtains w' where "commit w = (Inr (), w')" "consistent (committed w')" "working w' = committed w'"
    "committed w' = regenerate (working w)" "files w' = files w" "clock w' = clock w" "reads w' = reads w"
    "txn_now w' = Naive (clock w (reads w))"
proof -
  have "commit w = (Inr (), next_txn (w\<lparr>committed := regenerate (working w), working := regenerate (working w)\<rparr>))"
    using db_ok_consistent [OF assms] by (simp add: commit_def Let_def)
  then show ?thesis
    by (rule that) (simp_all add: consistent_regenerate assms next_txn_def)
qed

text \<open>
  What \<open>process_video_for_visits\<close> is called with: the stored events of a video of the station, in
  time order, after every detection recorded so far.
\<close>

definition video_input :: "visit_settings \<Rightarrow> world \<Rightarrow> int \<Rightarrow> event list \<Rightarrow> bool" where
  "video_input cfg w sid evs \<longleftrightarrow>
     settings_ok cfg \<and> consistent (working w) \<and> fk (stations (working w)) sid
     \<and> list_all (event_stored (working w)) evs
     \<and> (\<exists>t0. fit_at cfg sid t0 (working w) \<and> event_times t0 evs)"

lemma covers_holds_open:
  assumes "covers sid b d" and "fit_at cfg sid t d" and "kv \<in> set (active b)"
  shows "holds_open cfg d kv"
proof -
  have p: "snd (fst kv) = sid" "dict_get (active b) (fst kv) = Some (snd kv)"
    using assms(1,3) by (auto simp: covers_def dict_get_def)
  with coversD(1) [OF assms(1) p(1)] obtain v where v: "open_at d (fst kv) = Some v"
    "snd kv = Some (Live (row_id v))" by (cases "open_at d (fst kv)") auto
  then show ?thesis
    using assms(2) p(1) unfolding holds_open_def fit_at_def fit_def by blast
qed

lemma end_of_video_run:
  assumes inv: "loop_inv cfg sid t0 b w" and cfg: "settings_ok cfg"
  obtains w' where "forM (force_close cfg t) (dict_values (active b)) w = (Inr (), w')"
    "consistent (working w')" "same_txn w w'"
    "\<forall>p. track (working w') p =
      (if snd p = sid then spec_end cfg t (track (working w) p) else track (working w) p)"
proof -
  have c: "consistent (working w)" and cov: "covers sid b (working w)" and fit: "fit_at cfg sid t0 (working w)"
    using inv by (simp_all add: loop_inv_def)
  have "distinct (map fst (active b))" using cov by (simp add: covers_def)
  then obtain w' where w': "forM (force_close cfg t) (map snd (active b)) w = (Inr (), w')"
    "consistent (working w')" "same_txn w w'"
    "\<forall>p. track (working w') p =
      (if p \<in> fst ` set (active b) then spec_end cfg t (track (working w) p) else track (working w) p)"
    by (rule force_close_all_run [OF cfg c]) (use covers_holds_open [OF cov fit] in auto)
  have "track (working w') p =
      (if snd p = sid then spec_end cfg t (track (working w) p) else track (working w) p)" for p
  proof (cases "p \<in> fst ` set (active b)")
    case True
    then have "snd p = sid" using cov by (auto simp: covers_def)
    then show ?thesis using w'(4) [rule_format, of p] True by simp
  next
    case False
    then have "dict_get (active b) p = None" by (simp add: dict_get_def map_of_eq_None_iff)
    then have "\<forall>r \<in> set (track (working w) p). \<not> visit_is_open r" if "snd p = sid"
      using coversD(1) [OF cov that] find_track [of "working w" p] by (auto simp: find_None_iff)
    then show ?thesis using w'(4) [rule_format, of p] False by (auto simp: spec_end_closed)
  qed
  then show ?thesis by (intro that [OF _ w'(2,3)]) (simp_all add: w'(1) dict_values_def)
qed

lemma sort_key_Nil [simp]: "sort_key f xs = [] \<longleftrightarrow> xs = []"
  by (metis length_0_conv length_sort)

lemma video_run:
  assumes inp: "video_input cfg w sid (sort_key e_frame_number evs)" and ne: "evs \<noteq> []"
    and sid: "vf_station_id video = Some sid"
  obtains w' where "process_video_for_visits cfg id video evs w = (Inr (), w')"
    "consistent (committed w')" "working w' = committed w'"
    "\<forall>p. track (committed w') p =
      (if snd p = sid
       then spec_video cfg (txn_now w) sid (sort_key e_frame_number evs) (fst p) (track (working w) p)
       else track (working w) p)"
    "events (committed w') = events (working w)" "videos (committed w') = videos (working w)"
proof -
  let ?evs = "sort_key e_frame_number evs"
  let ?t = "e_wall_clock_at (last ?evs)"
  obtain t0 where cfg: "settings_ok cfg" and c: "consistent (working w)" and st: "fk (stations (working w)) sid"
    and ev: "\<And>e. e \<in> set ?evs \<Longrightarrow> event_stored (working w) e"
    and fit: "fit_at cfg sid t0 (working w)" and ts: "event_times t0 ?evs"
    using inp unfolding video_input_def list_all_iff by blast
  obtain b where b: "open_visits_for_station sid w = (Inr b, w)" "covers sid b (working w)"
    by (rule open_visits_for_station_run [OF c])
  have inv: "loop_inv cfg sid t0 b w" using c st b(2) fit by (simp add: loop_inv_def)
  obtain b1 w1 t where 1: "foldM (process_event cfg id sid) b ?evs w = (Inr b1, w1)" "loop_inv cfg sid t b1 w1"
    "same_txn w w1"
    "\<forall>p. track (working w1) p = fold (\<lambda>e. step_track cfg (txn_now w) sid e p) ?evs (track (working w) p)"
    by (rule process_events_run [OF inv cfg ev ts])
  obtain w2 where 2: "forM (force_close cfg ?t) (dict_values (active b1)) w1 = (Inr (), w2)"
    "consistent (working w2)" "same_txn w1 w2"
    "\<forall>p. track (working w2) p =
      (if snd p = sid then spec_end cfg ?t (track (working w1) p) else track (working w1) p)"
    by (rule end_of_video_run [OF 1(2) cfg])
  obtain w3 where 3: "commit w2 = (Inr (), w3)" "consistent (committed w3)" "working w3 = committed w3"
    "committed w3 = regenerate (working w2)" "files w3 = files w2" "clock w3 = clock w2"
    by (rule commit_run [OF 2(2)])
  have "track (committed w3) p =
      (if snd p = sid then spec_video cfg (txn_now w) sid ?evs (fst p) (track (working w) p)
       else track (working w) p)" for p
    using 2(4) [rule_format, of p] 1(4) [rule_format, of p]
      fold_step_track [of cfg "txn_now w" sid "fst p"] fold_step_track_other [of "snd p" sid cfg "txn_now w" "fst p"]
    by (cases p) (auto simp: 3(4) spec_video_def)
  moreover have "process_video_for_visits cfg id video evs w = (Inr (), w3)"
    using ne sid b(1) 1(1) 2(1) 3(1)
    by (simp add: process_video_for_visits_def Let_def bindM_run seqM_def)
  moreover have "events (committed w3) = events (working w)" "videos (committed w3) = videos (working w)"
    using 1(3) 2(3) 3(4) by (simp_all add: same_txn_def regenerate_def)
  ultimately show ?thesis using that [OF _ 3(2,3)] by simp
qed

end
