(* ===== verification/VisitChecks.thy ===== *)
theory VisitChecks
  imports VisitRefinement
begin

text \<open>
  The periodic check, the recovery at startup and the read side of the visit service: their runs
  on a consistent database, in terms of the contract of \<open>VisitSpec\<close>.
\<close>

section \<open>The periodic check\<close>

definition all_fit :: "visit_settings \<Rightarrow> db \<Rightarrow> bool" where
  "all_fit cfg d \<longleftrightarrow> list_all (visit_inv cfg) (filter visit_is_open (tbl_rows (visits d)))"

definition closes :: "visit_settings \<Rightarrow> datetime \<Rightarrow> visit \<Rightarrow> bool" where
  "closes cfg t v \<longleftrightarrow> visit_is_open v \<and> v_state (settle cfg t v) = CLOSED"

lemma check_one_run:
  assumes cfg: "settings_ok cfg" and c: "consistent (working w)"
    and v: "open_at (working w) (visit_pair v) = Some v" and inv: "visit_inv cfg v"
  obtains w' where "check_one cfg t n v w = (Inr (if closes cfg t v then Suc n else n), w')"
    "ended_one cfg t (visit_pair v) w w'"
proof -
  obtain w' v' where w': "close_ref cfg (Live (row_id v)) v t w = (Inr (Live (row_id v), v'), w')"
    "ended_one cfg t (visit_pair v) w w'" "v' = settle cfg t v"
    by (rule close_one_run [OF cfg c v inv])
  have "visit_is_open v" using v c by (simp add: open_at_Some)
  then have "check_one cfg t n v w = (Inr (if closes cfg t v then Suc n else n), w')"
    using w'(1,3) by (simp add: check_one_def closes_def visit_is_open_def)
  then show ?thesis by (rule that [OF _ w'(2)])
qed

lemma check_all_run:
  assumes "settings_ok cfg" and "consistent (working w)" and "distinct (map visit_pair vs)"
    and "\<forall>v \<in> set vs. open_at (working w) (visit_pair v) = Some v \<and> visit_inv cfg v"
  obtains w' where "foldM (check_one cfg t) n vs w = (Inr (n + length (filter (closes cfg t) vs)), w')"
    "consistent (working w')" "same_txn w w'"
    "\<forall>p. track (working w') p =
      (if p \<in> visit_pair ` set vs then spec_end cfg t (track (working w) p) else track (working w) p)"
  using assms
proof (induction vs arbitrary: w n thesis)
  case Nil
  show ?case by (rule Nil.prems(1) [of w]) (simp_all add: Nil.prems(3))
next
  case (Cons v vs)
  let ?p = "visit_pair v" and ?n = "if closes cfg t v then Suc n else n"
  obtain w1 where 1: "check_one cfg t n v w = (Inr ?n, w1)" "ended_one cfg t ?p w w1"
    by (rule check_one_run [OF Cons.prems(2,3), of v t n]) (use Cons.prems(5) in simp_all)
  note e1 = ended_oneD [OF 1(2)]
  have fresh: "visit_pair v' \<noteq> ?p" if "v' \<in> set vs" for v'
    using Cons.prems(4) imageI [OF that, of visit_pair] by auto
  have rest: "\<forall>v \<in> set vs. open_at (working w1) (visit_pair v) = Some v \<and> visit_inv cfg v"
    using Cons.prems(5) e1(5) [OF fresh] by simp
  obtain w2 where 2: "foldM (check_one cfg t) ?n vs w1 = (Inr (?n + length (filter (closes cfg t) vs)), w2)"
    "consistent (working w2)" "same_txn w1 w2"
    "\<forall>p. track (working w2) p =
      (if p \<in> visit_pair ` set vs then spec_end cfg t (track (working w1) p) else track (working w1) p)"
    by (rule Cons.IH [OF _ Cons.prems(2) e1(1) _ rest]) (use Cons.prems(4) in auto)
  have tr: "track (working w2) q =
      (if q \<in> visit_pair ` set (v # vs) then spec_end cfg t (track (working w) q) else track (working w) q)" for q
  proof (cases "q = ?p")
    case True
    then have "q \<notin> visit_pair ` set vs" using fresh by blast
    then show ?thesis using 2(4) [rule_format, of q] e1(3) True by simp
  next
    case False
    then show ?thesis using 2(4) [rule_format, of q] e1(4) [of q] by simp
  qed
  have run: "foldM (check_one cfg t) n (v # vs) w = (Inr (n + length (filter (closes cfg t) (v # vs))), w2)"
    using 1(1) 2(1) by simp
  show ?case
    by (rule Cons.prems(1) [OF run 2(2) same_txn_trans [OF e1(2) 2(3)]])
       (use tr in \<open>simp del: set_simps\<close>)
qed

text \<open>\<open>list_active\<close> selects the open rows: \<open>ABSENT\<close> is never stored.\<close>

lemma active_rows:
  assumes "consistent d"
  shows "filter (\<lambda>v. v_state v \<in> {ENTERING, PRESENT, LEAVING}) (tbl_rows (visits d))
    = filter visit_is_open (tbl_rows (visits d))"
proof (rule filter_cong [OF refl])
  fix v
  assume "v \<in> set (tbl_rows (visits d))"
  then have "v_state v \<noteq> ABSENT"
    using visit_row_facts(1) [OF assms] by (simp add: visit_row_ok_def)
  then show "(v_state v \<in> {ENTERING, PRESENT, LEAVING}) = visit_is_open v"
    by (cases "v_state v") (simp_all add: visit_is_open_def)
qed

lemma py_now_run: "py_now w = (Inr (Aware (clock w (reads w)) 0), w\<lparr>reads := Suc (reads w)\<rparr>)"
  by (simp add: py_now_def)

lemma check_stale_run:
  assumes cfg: "settings_ok cfg" and c: "consistent (working w)" and fit: "all_fit cfg (working w)"
  obtains w' where
    "check_stale_visits cfg w =
      (Inr (length (filter (closes cfg (Aware (clock w (reads w)) 0)) (tbl_rows (visits (working w))))), w')"
    "consistent (committed w')" "working w' = committed w'"
    "\<forall>p. track (committed w') p = spec_end cfg (Aware (clock w (reads w)) 0) (track (working w) p)"
proof -
  let ?t = "Aware (clock w (reads w)) 0" and ?rows = "tbl_rows (visits (working w))"
  let ?vs = "filter visit_is_open ?rows" and ?w = "w\<lparr>reads := Suc (reads w)\<rparr>"
  have d: "distinct (map visit_pair ?vs)"
    using consistentD(4) [OF c] by (simp add: uq_visit_open_def)
  have o: "\<forall>v \<in> set ?vs. open_at (working ?w) (visit_pair v) = Some v \<and> visit_inv cfg v"
    using fit by (simp add: open_at_Some [OF c] all_fit_def list_all_iff)
  obtain w1 where 1: "foldM (check_one cfg ?t) 0 ?vs ?w = (Inr (0 + length (filter (closes cfg ?t) ?vs)), w1)"
    "consistent (working w1)" "same_txn ?w w1"
    "\<forall>p. track (working w1) p =
      (if p \<in> visit_pair ` set ?vs then spec_end cfg ?t (track (working ?w) p) else track (working ?w) p)"
    by (rule check_all_run [OF cfg _ d o, of ?t 0]) (use c in simp)
  obtain w2 where 2: "commit w1 = (Inr (), w2)" "consistent (committed w2)" "working w2 = committed w2"
    "committed w2 = regenerate (working w1)" "files w2 = files w1" "clock w2 = clock w1"
    by (rule commit_run [OF 1(2)])
  have "track (committed w2) p = spec_end cfg ?t (track (working w) p)" for p
  proof (cases "p \<in> visit_pair ` set ?vs")
    case False
    then have "\<forall>r \<in> set (track (working w) p). \<not> visit_is_open r"
      by (auto simp: track_def rows_at_def)
    then show ?thesis using 1(4) [rule_format, of p] False by (simp add: 2(4) spec_end_closed del: set_filter)
  qed (use 1(4) [rule_format, of p] in \<open>simp add: 2(4)\<close>)
  moreover have "filter (closes cfg ?t) ?vs = filter (closes cfg ?t) ?rows"
    by (auto simp: closes_def intro: filter_cong)
  then have "check_stale_visits cfg w = (Inr (length (filter (closes cfg ?t) ?rows)), w2)"
    using 1(1) 2(1) active_rows [OF c]
    by (simp add: check_stale_visits_def list_active_def py_now_run bindM_run seqM_def)
  ultimately show ?thesis by (intro that [OF _ 2(2,3)]) simp_all
qed

section \<open>Recovery at startup\<close>

definition leftover :: "visit_settings \<Rightarrow> datetime \<Rightarrow> visit \<Rightarrow> bool" where
  "leftover cfg now v \<longleftrightarrow> visit_is_open v \<and> is_crash_leftover cfg v now"

lemma recover_one_run:
  assumes "created_at v \<noteq> None" and "visit_is_open v"
  shows "recover_one cfg now n v w =
    (if leftover cfg now v then (Inr (Suc n), w\<lparr>working := drop_visit (row_id v) (working w)\<rparr>) else (Inr n, w))"
  using assms
  by (auto simp: recover_one_def leftover_def is_crash_leftover_def repo_delete_def drop_visit_def)

lemma drop_visit_rows:
  "visits (drop_visit i d) = (visits d)\<lparr>tbl_rows := filter (\<lambda>r. row_id r \<noteq> i) (tbl_rows (visits d))\<rparr>"
  by (simp add: drop_visit_def table_delete_def)

definition drop_visits :: "int set \<Rightarrow> db \<Rightarrow> db" where
  "drop_visits I d = visits_update (\<lambda>t. t\<lparr>tbl_rows := filter (\<lambda>r. row_id r \<notin> I) (tbl_rows t)\<rparr>) d"

lemma drop_visits_drop: "drop_visits I (drop_visit i d) = drop_visits (insert i I) d"
  by (simp add: drop_visits_def drop_visit_def table_delete_def conj_commute)

lemma drop_visits_empty [simp]: "drop_visits {} d = d"
  by (simp add: drop_visits_def)

lemma recover_all_run:
  assumes "\<forall>v \<in> set vs. created_at v \<noteq> None \<and> visit_is_open v"
  shows "foldM (recover_one cfg now) n vs w =
    (Inr (n + length (filter (leftover cfg now) vs)),
     w\<lparr>working := drop_visits (row_id ` set (filter (leftover cfg now) vs)) (working w)\<rparr>)"
  using assms
  by (induction vs arbitrary: n w) (simp_all add: bindM_run recover_one_run drop_visits_drop)


lemma drop_visits_consistent:
  assumes "consistent d"
  shows "consistent (drop_visits I d)"
proof (rule consistent_visits [OF assms])
  show "uq_visit_open (tbl_rows (visits (drop_visits I d)))"
    using uq_visit_open_filter [OF consistentD(4) [OF assms]] by (simp add: drop_visits_def)
  show "table_wf (visits (drop_visits I d))"
    using consistentD(3) [OF assms]
    by (auto simp: drop_visits_def table_wf_def table_ids_def list_all_iff distinct_map_filter)
  show "visit_row_ok r \<and> visit_fks d r" if "r \<in> set (tbl_rows (visits (drop_visits I d)))" for r
    using that visit_row_facts [OF assms] by (auto simp: drop_visits_def)
qed (simp_all add: drop_visits_def)

lemma leftover_ids:
  assumes "consistent d" and "r \<in> set (tbl_rows (visits d))"
  shows "row_id r \<in> row_id ` set (filter (leftover cfg now) (filter visit_is_open (tbl_rows (visits d))))
    \<longleftrightarrow> leftover cfg now r"
proof
  assume "row_id r \<in> row_id ` set (filter (leftover cfg now) (filter visit_is_open (tbl_rows (visits d))))"
  then obtain v where "v \<in> set (tbl_rows (visits d))" "leftover cfg now v" "row_id r = row_id v" by auto
  then show "leftover cfg now r"
    using row_unique [OF consistentD(3) [OF assms(1)] assms(2)] by metis
next
  assume "leftover cfg now r"
  with assms(2) show "row_id r \<in> row_id ` set (filter (leftover cfg now) (filter visit_is_open (tbl_rows (visits d))))"
    by (auto simp: leftover_def)
qed

definition dated :: "db \<Rightarrow> bool" where
  "dated d \<longleftrightarrow> list_all (\<lambda>v. created_at v \<noteq> None) (tbl_rows (visits d))"

lemma recover_run:
  assumes c: "consistent (working w)" and dt: "dated (working w)"
  defines "now \<equiv> Aware (clock w (reads w)) 0" and "rows \<equiv> tbl_rows (visits (working w))"
  obtains w' where
    "recover_open_visits cfg w =
      (Inr (length (filter visit_is_open rows), length (filter (leftover cfg now) rows)), w')"
    "consistent (committed w')" "working w' = committed w'"
    "\<forall>p. track (committed w') p = filter (\<lambda>v. \<not> leftover cfg now v) (track (working w) p)"
proof -
  let ?vs = "sort_key row_id (filter visit_is_open rows)" and ?w = "w\<lparr>reads := Suc (reads w)\<rparr>"
  let ?I = "row_id ` set (filter (leftover cfg now) (filter visit_is_open rows))"
  have run: "foldM (recover_one cfg now) 0 ?vs ?w =
      (Inr (length (filter (leftover cfg now) ?vs)), ?w\<lparr>working := drop_visits ?I (working w)\<rparr>)"
    using dt recover_all_run [of ?vs cfg now 0 ?w] by (simp add: dated_def list_all_iff rows_def)
  obtain w2 where 2: "commit (?w\<lparr>working := drop_visits ?I (working w)\<rparr>) = (Inr (), w2)"
    "consistent (committed w2)" "working w2 = committed w2" "committed w2 = regenerate (drop_visits ?I (working w))"
    using commit_run [of "?w\<lparr>working := drop_visits ?I (working w)\<rparr>"] drop_visits_consistent [OF c] by force
  have "length (filter (leftover cfg now) ?vs) = length (filter (leftover cfg now) (filter visit_is_open rows))"
    by (simp only: filter_sort length_sort)
  also have "filter (leftover cfg now) (filter visit_is_open rows) = filter (leftover cfg now) rows"
    by (auto simp: leftover_def intro: filter_cong)
  finally have "recover_open_visits cfg w =
      (Inr (length (filter visit_is_open rows), length (filter (leftover cfg now) rows)), w2)"
    using run 2(1)
    by (simp add: recover_open_visits_def list_open_def py_now_run bindM_run seqM_def rows_def now_def)
  moreover have "track (committed w2) p = filter (\<lambda>v. \<not> leftover cfg now v) (track (working w) p)" for p
  proof -
    have "leftover cfg now (strip v) = leftover cfg now v" for v
      by (simp add: leftover_def is_crash_leftover_def)
    moreover have "filter (\<lambda>r. row_id r \<notin> ?I \<and> visit_pair r = p) rows
        = filter (\<lambda>r. \<not> leftover cfg now r \<and> visit_pair r = p) rows"
      using leftover_ids [OF c] by (auto simp: rows_def intro!: filter_cong)
    ultimately show ?thesis
      unfolding 2(4) track_regenerate
      by (simp add: track_def rows_at_def drop_visits_def filter_map comp_def conj_commute rows_def)
  qed
  ultimately show ?thesis by (intro that [OF _ 2(2,3)]) simp_all
qed


section \<open>The read side\<close>

lemma current_tractor_run:
  assumes c: "consistent (working w)"
  obtains cv w' where "get_current_tractor tid w = (Inr cv, w')" "working w' = working w"
    "cv_tractor_id cv = tid"
    "cv_state cv = ABSENT \<longleftrightarrow> (\<forall>sid. open_at (working w) (tid, sid) = None)"
    "\<And>sid. cv_station_id cv = Some sid \<Longrightarrow>
       (\<exists>v. open_at (working w) (tid, sid) = Some v \<and> cv_state cv = v_state v
          \<and> cv_arrived_at cv = v_arrived_at v \<and> cv_last_seen_at cv = v_last_seen_at v)"
proof -
  let ?vs = "sort_key row_id (filter (\<lambda>v. v_tractor_id v = tid \<and> visit_is_open v) (tbl_rows (visits (working w))))"
  show ?thesis
  proof (cases ?vs)
    case Nil
    then have "open_at (working w) (tid, sid) = None" for sid
      by (auto simp: open_at_None visit_pair_def filter_empty_conv)
    then show ?thesis
      using Nil by (intro that [of "absent_visit tid" w])
        (simp_all add: get_current_tractor_def list_open_for_tractor_def first_or_none_def absent_visit_def)
  next
    case (Cons v vs)
    then have "v \<in> set ?vs" by simp
    then have v: "v \<in> set (tbl_rows (visits (working w)))" "v_tractor_id v = tid" "visit_is_open v" by auto
    then have o: "open_at (working w) (tid, v_station_id v) = Some v"
      by (simp add: open_at_Some [OF c] visit_pair_def)
    have "v_state v \<noteq> ABSENT"
      using visit_row_facts(1) [OF c v(1)] by (simp add: visit_row_ok_def)
    then show ?thesis
      using Cons o v(2)
      by (intro that [of "to_current (Aware (clock w (reads w)) 0) v" "w\<lparr>reads := Suc (reads w)\<rparr>"])
         (auto simp: get_current_tractor_def list_open_for_tractor_def first_or_none_def py_now_run to_current_def)
  qed
qed

text \<open>What \<open>GET /stations/current\<close> is to show for a station.\<close>

definition station_view :: "datetime \<Rightarrow> db \<Rightarrow> station \<Rightarrow> station_entry" where
  "station_view now d s =
     \<lparr>se_station_id = row_id s, se_code = st_code s, se_name = st_name s,
      se_tractors = map (\<lambda>v. at_station now v (table_get (tractors d) (v_tractor_id v)))
        (filter (\<lambda>v. v_station_id v = row_id s \<and> visit_is_open v) (tbl_rows (visits d)))\<rparr>"

lemma dict_set_last:
  "k \<notin> fst ` set g \<Longrightarrow> dict_set (g @ [(k, e)]) k e' = g @ [(k, e')]"
  "k \<notin> fst ` set g \<Longrightarrow> dict_get (g @ [(k, e)]) k = Some e"
  by (induction g) (auto simp: dict_get_def)

lemma group_visits:
  assumes "row_id s \<notin> fst ` set g"
  shows "fold (group_row now) (map (\<lambda>v. (s, Some v, t v)) vs) (g @ [(row_id s, e)]) =
    g @ [(row_id s, e\<lparr>se_tractors := se_tractors e @ map (\<lambda>v. at_station now v (t v)) vs\<rparr>)]"
  by (induction vs arbitrary: e) (simp_all add: group_row_def Let_def dict_set_last assms)

lemma group_station:
  assumes "row_id s \<notin> fst ` set g"
  shows "fold (group_row now)
      (case vs of [] \<Rightarrow> [(s, None, None)] | a # l \<Rightarrow> map (\<lambda>v. (s, Some v, t v)) (a # l)) g =
    g @ [(row_id s, (empty_entry s)\<lparr>se_tractors := map (\<lambda>v. at_station now v (t v)) vs\<rparr>)]"
proof -
  have fresh: "dict_get g (row_id s) = None"
    using assms by (simp add: dict_get_def map_of_eq_None_iff)
  show ?thesis
    using group_visits [OF assms, of now t] fresh assms
    by (cases vs) (simp_all add: group_row_def Let_def dict_set_fresh empty_entry_def)
qed

lemma group_stations:
  assumes "distinct (map row_id ss)" and "fst ` set g \<inter> row_id ` set ss = {}"
  shows "fold (group_row now)
      (concat (map (\<lambda>s. case vs s of [] \<Rightarrow> [(s, None, None)] | a # l \<Rightarrow> map (\<lambda>v. (s, Some v, t v)) (a # l)) ss)) g =
    g @ map (\<lambda>s. (row_id s, (empty_entry s)\<lparr>se_tractors := map (\<lambda>v. at_station now v (t v)) (vs s)\<rparr>)) ss"
  using assms
proof (induction ss arbitrary: g)
  case (Cons s ss)
  then have "row_id s \<notin> fst ` set g" by auto
  from group_station [OF this, where now = now and vs = "vs s" and t = t] Cons show ?case by simp
qed simp

lemma current_stations_run:
  assumes c: "consistent (working w)"
  shows "fst (get_current_stations w) =
    Inr (map (station_view (Aware (clock w (reads w)) 0) (working w))
           (filter st_is_active (tbl_rows (stations (working w)))))"
proof -
  let ?ss = "filter st_is_active (tbl_rows (stations (working w)))"
  have "distinct (map row_id ?ss)"
    using c by (simp add: consistent_def db_wf_def table_wf_def table_ids_def distinct_map_filter)
  from group_stations [OF this, where g = "[]" and now = "Aware (clock w (reads w)) 0"
      and t = "\<lambda>v. table_get (tractors (working w)) (v_tractor_id v)"
      and vs = "\<lambda>s. filter (\<lambda>v. v_station_id v = row_id s \<and> visit_is_open v) (tbl_rows (visits (working w)))"]
  show ?thesis
    by (simp add: get_current_stations_def station_rows_def py_now_run dict_values_def comp_def
        empty_entry_def station_view_def)
qed

end
