(* ===== verification/Sample.thy ===== *)
theory Sample
  imports VisitService
begin

text \<open>
  A small concrete plant, on which the properties are instantiated: one station, one tractor with
  two markers, one video being processed with its detections, and one visit already open.
\<close>

definition st1 :: station where
  "st1 = \<lparr>row_id = 1, created_at = None, updated_at = None, deleted_at = None, st_code = ''gate-1'',
     st_name = ''Gate'', st_location = None, st_video_dir = ''/videos'', st_roi_polygon = None,
     st_is_entry_zone = True, st_is_active = True\<rparr>"

definition tr1 :: tractor where
  "tr1 = \<lparr>row_id = 1, created_at = None, updated_at = None, deleted_at = None, tr_name = ''T1'',
     tr_model = None, tr_notes = None, tr_is_active = True, tr_aruco_ids = [7, 17]\<rparr>"

definition vf1 :: video_file where
  "vf1 = \<lparr>row_id = 1, created_at = Some (Naive 0), updated_at = Some (Naive 0), deleted_at = None,
     vf_station_id = Some 1, vf_storage_uri = ''/videos/a.mp4'', vf_content_hash = ''aa'',
     vf_started_at = Naive 0, vf_ended_at = Naive 60000000, vf_fps = None, vf_width = None,
     vf_height = None, vf_duration_seconds = None, vf_status = PROCESSING, vf_retry_count = Some 0,
     vf_error_message = None, vf_frames_processed = 0, vf_triggers_fired = 0, vf_events_found = 0\<rparr>"

text \<open>A detection of the tractor: event \<open>i\<close> of the video, \<open>s\<close> seconds after midnight.\<close>

definition ev :: "int \<Rightarrow> int \<Rightarrow> event" where
  "ev i s = \<lparr>row_id = i, created_at = Some (Naive 0), updated_at = Some (Naive 0), deleted_at = None,
     e_video_file_id = 1, e_tractor_id = Some 1, e_aruco_id = Some 7, e_event_type = DETECTED,
     e_detector_method = ARUCO, e_inside_roi = True, e_frame_number = i, e_timestamp_in_video = 0,
     e_wall_clock_at = Naive (s * 1000000), e_confidence = None, e_bbox = None,
     e_detector_metadata = None\<rparr>"

definition vis1 :: visit where
  "vis1 = \<lparr>row_id = 1, created_at = Some (Naive 0), updated_at = Some (Naive 0), deleted_at = None,
     v_tractor_id = 1, v_station_id = 1, v_state = PRESENT, v_arrived_at = Some (Naive 1000000),
     v_departed_at = None, v_last_seen_at = Some (Naive 2000000), v_entry_event_id = Some 1,
     v_exit_event_id = None, v_last_event_id = Some 1, v_entry_seen_seconds = 1,
     v_duration_seconds = None\<rparr>"

definition plant :: "visit list \<Rightarrow> db" where
  "plant vs = \<lparr>stations = \<lparr>tbl_rows = [st1], tbl_seq = 2\<rparr>, tractors = \<lparr>tbl_rows = [tr1], tbl_seq = 2\<rparr>,
     videos = \<lparr>tbl_rows = [vf1], tbl_seq = 2\<rparr>,
     events = \<lparr>tbl_rows = [ev 1 2, ev 2 3, ev 3 40], tbl_seq = 4\<rparr>,
     visits = \<lparr>tbl_rows = vs, tbl_seq = 10\<rparr>\<rparr>"

definition world_of :: "db \<Rightarrow> world" where
  "world_of d = \<lparr>committed = d, working = d, clock = (\<lambda>n. 100000000 + int n * 1000000), reads = 0,
     txn_now = Naive 0, channel = new_broker, files = (\<lambda>_. None)\<rparr>"

lemma sample_working [simp]: "working (world_of d) = d" "committed (world_of d) = d"
  by (simp_all add: world_of_def)

lemmas sample_defs = st1_def tr1_def vf1_def ev_def vis1_def plant_def world_of_def

end
