(* ===== verification/VisitProperties.thy ===== *)
theory VisitProperties
  imports VisitChecks Sample "HOL-Library.Sublist"
begin

text \<open>
  The properties of the visit service, each with an instance on the sample plant.
\<close>

section \<open>The sample plant meets the hypotheses\<close>

lemma sample_consistent: "consistent (plant [vis1])"
  by code_simp

lemma sample_settings: "settings_ok default_visit_settings"
  by code_simp

lemma sample_fit: "fit_at default_visit_settings 1 2000000 (plant [vis1])"
proof -
  have "visit_inv default_visit_settings vis1" by code_simp
  then have "fit default_visit_settings 2000000 vis1" by (simp add: fit_def) (simp add: vis1_def)
  then show ?thesis
    unfolding fit_at_def by (simp add: open_at_Some [OF sample_consistent]) (simp add: plant_def)
qed

lemma sample_input: "video_input default_visit_settings (world_of (plant [vis1])) 1 [ev 2 3, ev 3 40]"
proof -
  have "fk (stations (plant [vis1])) 1" by code_simp
  moreover have "list_all (event_stored (plant [vis1])) [ev 2 3, ev 3 40]" by code_simp
  moreover have "event_times 2000000 [ev 2 3, ev 3 40]"
    by (simp add: event_times_def ev_def)
  ultimately show ?thesis
    using sample_settings sample_consistent sample_fit by (auto simp: video_input_def)
qed

lemma sample_sorted: "sort_key e_frame_number [ev 2 3, ev 3 40] = [ev 2 3, ev 3 40]"
  by (simp add: ev_def)

lemma sample_input_sorted:
  "video_input default_visit_settings (world_of (plant [vis1])) 1 (sort_key e_frame_number [ev 2 3, ev 3 40])"
  by (simp only: sample_sorted sample_input)

lemma sample_video: "vf_station_id vf1 = Some 1"
  by (simp add: vf1_def)

lemma sample_txn: "txn_now (world_of d) = Naive 0"
  by (simp add: world_of_def)


section \<open>Processing a video\<close>



section \<open>History\<close>

text \<open>What the contract does with the closed visits of a pair: nothing.\<close>

definition history :: "visit list \<Rightarrow> visit list" where
  "history vs = filter (\<lambda>v. \<not> visit_is_open v) vs"

lemma subseq_filter_map:
  assumes "\<And>v. \<not> visit_is_open v \<Longrightarrow> f v = v"
  shows "subseq (history vs) (history (map f vs))"
  unfolding history_def
proof (induction vs)
  case (Cons v vs)
  then show ?case using assms [of v] by (cases "visit_is_open v") auto
qed simp

lemma begun_open: "visit_is_open (begun now p t e)"
  by (simp add: begun_def)

lemma history_spec_event: "subseq (history vs) (history (spec_event cfg now p d vs))"
proof -
  obtain t e where d: "d = (t, e)" by (cases d)
  have s: "subseq (history vs) (history (map (settle_present cfg t) vs))"
    by (rule subseq_filter_map) simp
  have "subseq (history (map (settle_present cfg t) vs))
      (history (map (detected cfg t e) (map (settle_present cfg t) vs)))"
    by (rule subseq_filter_map) simp
  with s have "subseq (history vs) (history (map (detected cfg t e) (map (settle_present cfg t) vs)))"
    by (rule subseq_order.order_trans)
  moreover have "subseq (history vs) (history (map (settle_present cfg t) vs @ [begun now p t e]))"
    using s by (simp add: history_def begun_open)
  ultimately show ?thesis by (simp add: spec_event_def Let_def d)
qed

lemma history_fold: "subseq (history vs) (history (fold (spec_event cfg now p) ds vs))"
proof (induction ds arbitrary: vs)
  case (Cons d ds)
  show ?case
    using subseq_order.order_trans [OF history_spec_event Cons.IH] by simp
qed simp

lemma history_spec_end: "subseq (history vs) (history (spec_end cfg t vs))"
proof -
  have "history vs = history (filter (\<lambda>v. \<not> entering_timeout cfg t v) vs)"
    by (auto simp: history_def entering_timeout_def visit_is_open_def intro!: filter_cong)
  also have "subseq \<dots> (history (spec_end cfg t vs))"
    unfolding spec_end_def by (rule subseq_filter_map) simp
  finally show ?thesis .
qed

text \<open>Processing a video only adds to the closed visits of a pair.\<close>

lemma process_video_keeps_history:
  assumes "video_input cfg w sid (sort_key e_frame_number evs)" and "evs \<noteq> []"
    and "vf_station_id video = Some sid"
  shows "subseq (history (track (working w) p))
    (history (track (committed (snd (process_video_for_visits cfg id video evs w))) p))"
proof -
  obtain w' where w': "process_video_for_visits cfg id video evs w = (Inr (), w')"
    "\<forall>p. track (committed w') p =
      (if snd p = sid
       then spec_video cfg (txn_now w) sid (sort_key e_frame_number evs) (fst p) (track (working w) p)
       else track (working w) p)"
    by (rule video_run [OF assms])
  have "subseq (history vs) (history (spec_video cfg now sid es tid vs))" for now es tid vs
    unfolding spec_video_def by (rule subseq_order.order_trans [OF history_fold history_spec_end])
  with w'(1) w'(2) [rule_format, of p] show ?thesis by (auto split: if_splits)
qed

lemma process_video_keeps_history_witness:
  "subseq (history (track (plant [vis1]) (1, 1)))
    (history (track (committed (snd (process_video_for_visits default_visit_settings id vf1
       [ev 2 3, ev 3 40] (world_of (plant [vis1]))))) (1, 1)))"
  using process_video_keeps_history [OF sample_input_sorted list.distinct(2) sample_video]
  by (simp only: sample_sorted sample_working)

section \<open>Debouncing\<close>


section \<open>The periodic check and the recovery\<close>

lemma sample_all_fit: "all_fit default_visit_settings (plant [vis1])"
  by code_simp

text \<open>
  C6: The periodic check returns the number of visits it closed and leaves every pair's visits
  as the contract for the end of a stretch says: confirmed visits go to LEAVING or CLOSED by
  the exit timer, entering visits past three confirmation windows are deleted, and the
  committed database satisfies every constraint.
\<close>

theorem check_stale_visits_implements_contract:
  assumes "settings_ok cfg" and "consistent (working w)" and "all_fit cfg (working w)"
  shows "\<exists>w'. check_stale_visits cfg w =
      (Inr (length (filter (closes cfg (Aware (clock w (reads w)) 0)) (tbl_rows (visits (working w))))), w')
    \<and> consistent (committed w') \<and> working w' = committed w'
    \<and> (\<forall>p. track (committed w') p = spec_end cfg (Aware (clock w (reads w)) 0) (track (working w) p))"
proof -
  obtain w' where "check_stale_visits cfg w =
      (Inr (length (filter (closes cfg (Aware (clock w (reads w)) 0)) (tbl_rows (visits (working w))))), w')"
    "consistent (committed w')" "working w' = committed w'"
    "\<forall>p. track (committed w') p = spec_end cfg (Aware (clock w (reads w)) 0) (track (working w) p)"
    by (rule check_stale_run [OF assms])
  then show ?thesis by blast
qed

theorem check_stale_visits_implements_contract_witness:
  "\<exists>w'. check_stale_visits default_visit_settings (world_of (plant [vis1])) = (Inr 1, w')
    \<and> consistent (committed w') \<and> working w' = committed w'
    \<and> (\<forall>p. track (committed w') p =
          spec_end default_visit_settings (Aware 100000000 0) (track (plant [vis1]) p))"
proof -
  have "length (filter (closes default_visit_settings (Aware 100000000 0)) [vis1]) = 1"
    by code_simp
  then show ?thesis
    using check_stale_visits_implements_contract
      [OF sample_settings, of "world_of (plant [vis1])"] sample_consistent sample_all_fit
    by (simp add: world_of_def plant_def)
qed

text \<open>
  C15: Recovery at startup reports how many visits are open and how many it deleted, and
  deletes exactly the ENTERING visits older than entry_confirm_seconds times the grace
  multiplier.
\<close>

theorem recover_deletes_exactly_the_leftovers:
  assumes "consistent (working w)" and "dated (working w)"
  shows "\<exists>w'. recover_open_visits cfg w =
      (Inr (length (filter visit_is_open (tbl_rows (visits (working w)))),
            length (filter (leftover cfg (Aware (clock w (reads w)) 0)) (tbl_rows (visits (working w))))), w')
    \<and> consistent (committed w') \<and> working w' = committed w'
    \<and> (\<forall>p. track (committed w') p =
          filter (\<lambda>v. \<not> leftover cfg (Aware (clock w (reads w)) 0) v) (track (working w) p))"
proof -
  obtain w' where "recover_open_visits cfg w =
      (Inr (length (filter visit_is_open (tbl_rows (visits (working w)))),
            length (filter (leftover cfg (Aware (clock w (reads w)) 0)) (tbl_rows (visits (working w))))), w')"
    "consistent (committed w')" "working w' = committed w'"
    "\<forall>p. track (committed w') p =
       filter (\<lambda>v. \<not> leftover cfg (Aware (clock w (reads w)) 0) v) (track (working w) p)"
    by (rule recover_run [OF assms])
  then show ?thesis by blast
qed

text \<open>An entering visit that is much older than the grace time.\<close>

definition vis_old :: visit where
  "vis_old = vis1\<lparr>v_state := ENTERING, v_arrived_at := None\<rparr>"

theorem recover_deletes_exactly_the_leftovers_witness:
  "\<exists>w'. recover_open_visits default_visit_settings (world_of (plant [vis_old])) = (Inr (1, 1), w')
    \<and> consistent (committed w') \<and> working w' = committed w'
    \<and> (\<forall>p. track (committed w') p =
          filter (\<lambda>v. \<not> leftover default_visit_settings (Aware 100000000 0) v) (track (plant [vis_old]) p))"
proof -
  have "consistent (plant [vis_old])" "dated (plant [vis_old])"
    "length (filter visit_is_open [vis_old]) = 1"
    "length (filter (leftover default_visit_settings (Aware 100000000 0)) [vis_old]) = 1"
    by code_simp+
  then show ?thesis
    using recover_deletes_exactly_the_leftovers [of "world_of (plant [vis_old])" default_visit_settings]
    by (simp add: world_of_def plant_def)
qed


section \<open>Losing a race\<close>

text \<open>The world at the flush of a new visit, after what other connections committed meanwhile.\<close>

definition at_flush :: "(world \<Rightarrow> world) \<Rightarrow> pair \<Rightarrow> datetime \<Rightarrow> int \<Rightarrow> world \<Rightarrow> world" where
  "at_flush env p t e w =
     env (w\<lparr>working := add_visit (txn_now w) (new_visit (fst p) (snd p) t (Some e)) (working w)\<rparr>)"

lemma open_at_rewind [simp]: "open_at (rewind c d) p = open_at c p"
  by (simp add: open_at_def)

lemma get_open_for_pair_open_at:
  "get_open_for_pair tid sid w = (Inr (open_at (working w) (tid, sid)), w)"
proof -
  have "first_or_none (filter (\<lambda>v. v_tractor_id v = tid \<and> v_station_id v = sid \<and> visit_is_open v) vs)
      = find (\<lambda>v. visit_is_open v \<and> visit_pair v = (tid, sid)) vs" for vs
    by (induction vs) (auto simp: first_or_none_def visit_pair_def)
  then show ?thesis by (simp add: get_open_for_pair_def open_at_def)
qed

lemma create_lost_run:
  assumes "\<not> db_ok (working (at_flush env (tid, sid) t e w))"
  shows "create_or_get_open_visit env tid sid t (Some e) w =
    (Inr (map_option (\<lambda>v. Live (row_id v)) (open_at (committed (at_flush env (tid, sid) t e w)) (tid, sid)), True),
     rolled_back (at_flush env (tid, sid) t e w))"
proof -
  let ?w = "at_flush env (tid, sid) t e w"
  have "insert_visit env (new_visit tid sid t (Some e)) (Some e) w = (Inl integrity_error, ?w)"
    using assms
    by (simp add: insert_visit_def add_visit_row_run bindM_run seqM_def flush_def at_flush_def)
  moreover have "rollback ?w = (Inr (), rolled_back ?w)"
    by (simp add: rollback_def rolled_back_def)
  ultimately show ?thesis
    by (simp add: create_or_get_open_visit_def bindM_run tryM_def seqM_def integrity_error_def
        get_open_for_pair_open_at)
qed

text \<open>
  C19: When inserting a visit violates a constraint at the flush, the session is rolled back
  to the committed state and the open visit that a concurrent worker committed for the pair is
  adopted, if there is one.
\<close>

theorem lost_race_adopts_the_winner:
  assumes "\<not> db_ok (working (at_flush env (tid, sid) t e w))"
    and "consistent (committed (at_flush env (tid, sid) t e w))"
  shows "\<exists>r w'. create_or_get_open_visit env tid sid t (Some e) w = (Inr (r, True), w')
    \<and> working w' = rewind (committed (at_flush env (tid, sid) t e w)) (working (at_flush env (tid, sid) t e w))
    \<and> (\<forall>i. r = Some (Live i) \<longleftrightarrow>
         (\<exists>v. table_get (visits (committed w')) i = Some v \<and> visit_is_open v \<and> visit_pair v = (tid, sid)))"
proof -
  let ?d = "committed (at_flush env (tid, sid) t e w)"
  have "map_option (\<lambda>v. Live (row_id v)) (open_at ?d (tid, sid)) = Some (Live i) \<longleftrightarrow>
      (\<exists>v. table_get (visits ?d) i = Some v \<and> visit_is_open v \<and> visit_pair v = (tid, sid))" for i
    using open_at_get [OF assms(2)] open_at_Some [OF assms(2)] table_get_Some [of "visits ?d" i]
    by (auto simp: open_at_Some [OF assms(2)])
  with create_lost_run [OF assms(1)] show ?thesis by simp
qed

text \<open>A concurrent worker opens a visit of the same pair.\<close>

definition rival :: "world \<Rightarrow> world" where
  "rival w = w\<lparr>committed := add_visit (txn_now w) vis1 (committed w),
               working := add_visit (txn_now w) vis1 (working w)\<rparr>"

theorem lost_race_adopts_the_winner_witness:
  "\<exists>w'. create_or_get_open_visit rival 1 1 (Naive 3000000) (Some 2) (world_of (plant [])) =
     (Inr (Some (Live 10), True), w')"
proof -
  let ?w = "at_flush rival (1, 1) (Naive 3000000) 2 (world_of (plant []))"
  have a: "\<not> db_ok (working ?w)" by code_simp
  have c: "committed ?w = add_visit (Naive 0) vis1 (plant [])"
    by (simp add: at_flush_def rival_def world_of_def)
  have b: "consistent (committed ?w)" unfolding c by code_simp
  have g: "table_get (visits (committed ?w)) 10 = Some (stamp_new (Naive 0) 10 vis1)"
    unfolding c by (simp add: add_visit_def table_insert_def table_get_def plant_def)
  have v: "visit_is_open vis1" "visit_pair vis1 = (1, 1)" by code_simp+
  obtain r w' where r: "create_or_get_open_visit rival 1 1 (Naive 3000000) (Some 2) (world_of (plant [])) =
      (Inr (r, True), w')"
    "\<forall>i. r = Some (Live i) \<longleftrightarrow>
         (\<exists>v. table_get (visits (committed w')) i = Some v \<and> visit_is_open v \<and> visit_pair v = (1, 1))"
    using lost_race_adopts_the_winner [OF a b] by blast
  have "w' = rolled_back ?w" using r(1) create_lost_run [OF a] by simp
  then have "r = Some (Live 10)" using r(2) [rule_format, of 10] g v by simp
  with r(1) show ?thesis by blast
qed


text \<open>The tractor is deleted while the flush is awaited.\<close>

definition tractor_gone :: "world \<Rightarrow> world" where
  "tractor_gone w = w\<lparr>committed := tractors_update (\<lambda>_. empty_table) (committed w),
                      working := tractors_update (\<lambda>_. empty_table) (working w)\<rparr>"


end
