(* ===== verification/VideoService.thy ===== *)
theory VideoService
  imports Repositories
begin

text \<open>
  \<open>src/services/video_service.py\<close> and \<open>src/utils.py\<close>: registering a video file, its status,
  counters and retries, the sentinel of an edge camera. The file system is the map \<open>files\<close> of the
  world, keyed by the normalised path. The hash algorithm of \<open>hashlib\<close> is a parameter: an initial
  state, an update and a digest.
\<close>

section \<open>Paths\<close>

fun split_on :: "char \<Rightarrow> string \<Rightarrow> string list" where
  "split_on c [] = [[]]"
| "split_on c (x # xs) =
     (if x = c then [] # split_on c xs
      else (case split_on c xs of [] \<Rightarrow> [[x]] | w # ws \<Rightarrow> (x # w) # ws))"

fun join_with :: "string \<Rightarrow> string list \<Rightarrow> string" where
  "join_with sep [] = []"
| "join_with sep [w] = w"
| "join_with sep (w # ws) = w @ sep @ join_with sep ws"

text \<open>\<open>str(Path(p))\<close> for a POSIX path: empty and \<open>.\<close> components vanish.\<close>

definition path_parts :: "string \<Rightarrow> string list" where
  "path_parts p = filter (\<lambda>w. w \<noteq> [] \<and> w \<noteq> ''.'') (split_on CHR ''/'' p)"

definition path_root :: "string \<Rightarrow> string" where
  "path_root p =
     (if take 2 p = ''//'' \<and> take 3 p \<noteq> ''///'' then ''//''
      else if take 1 p = ''/'' then ''/'' else [])"

definition path_str :: "string \<Rightarrow> string" where
  "path_str p =
     (let s = path_root p @ join_with ''/'' (path_parts p) in if s = [] then ''.'' else s)"

text \<open>\<open>Path(p).name\<close> and \<open>Path(d) / name\<close>.\<close>

definition path_name :: "string \<Rightarrow> string" where
  "path_name p = (if path_parts p = [] then [] else last (path_parts p))"

definition path_join :: "string \<Rightarrow> string \<Rightarrow> string" where
  "path_join d name =
     (if path_root name \<noteq> [] then path_str name
      else if d = [] \<or> last d = CHR ''/'' then path_str (d @ name)
      else path_str (d @ ''/'' @ name))"

definition path_exists :: "string \<Rightarrow> bool io" where
  "path_exists p = gets (\<lambda>w. files w (path_str p) \<noteq> None)"

section \<open>Hashing a file in chunks\<close>

record 'h hasher =
  h_init :: 'h
  h_update :: "'h \<Rightarrow> string \<Rightarrow> 'h"
  h_digest :: "'h \<Rightarrow> string"

text \<open>The chunks that \<open>iter(lambda: f.read(chunk_size), b"")\<close> yields.\<close>

function chunks :: "nat \<Rightarrow> string \<Rightarrow> string list" where
  "chunks n s = (if s = [] \<or> n = 0 then [] else take n s # chunks n (drop n s))"
  by auto
termination by (relation "measure (\<lambda>(n, s). length s)") auto

declare chunks.simps [simp del]

definition hash_large_file :: "'h hasher \<Rightarrow> nat \<Rightarrow> string \<Rightarrow> string" where
  "hash_large_file H chunk_size content =
     h_digest H (foldl (h_update H) (h_init H) (chunks chunk_size content))"

definition hex_digit :: "nat \<Rightarrow> char" where
  "hex_digit n = (if n < 10 then char_of (48 + n) else char_of (87 + n))"

definition hex :: "string \<Rightarrow> string" where
  "hex s = concat (map (\<lambda>c. [hex_digit (of_char c div 16), hex_digit (of_char c mod 16)]) s)"

definition hash_large_file_hex :: "'h hasher \<Rightarrow> nat \<Rightarrow> string \<Rightarrow> string" where
  "hash_large_file_hex H chunk_size content = hex (hash_large_file H chunk_size content)"

text \<open>What \<open>hashlib\<close> documents: updating twice is updating with the concatenation.\<close>

definition incremental :: "'h hasher \<Rightarrow> bool" where
  "incremental H \<longleftrightarrow>
     (\<forall>h a b. h_update H (h_update H h a) b = h_update H h (a @ b)) \<and> (\<forall>h. h_update H h [] = h)"

lemma concat_chunks: "0 < n \<Longrightarrow> concat (chunks n s) = s"
proof (induction n s rule: chunks.induct)
  case (1 n s)
  then show ?case by (subst chunks.simps) auto
qed

lemma foldl_update: "incremental H \<Longrightarrow> foldl (h_update H) h cs = h_update H h (concat cs)"
  by (induction cs arbitrary: h) (simp_all add: incremental_def)

lemma hash_large_file_eq:
  "incremental H \<Longrightarrow> 0 < n \<Longrightarrow> hash_large_file H n s = h_digest H (h_update H (h_init H) s)"
  by (simp add: hash_large_file_def foldl_update concat_chunks)

section \<open>Registration\<close>

definition http_422 :: "string \<Rightarrow> exn" where
  "http_422 m = Exn (HTTPErr 422) m"

definition new_video :: "int option \<Rightarrow> string \<Rightarrow> string \<Rightarrow> datetime \<Rightarrow> datetime \<Rightarrow> video_status \<Rightarrow> video_file" where
  "new_video station_id uri content_hash started ended status =
     \<lparr>row_id = 0, created_at = None, updated_at = None, deleted_at = None,
      vf_station_id = station_id, vf_storage_uri = uri, vf_content_hash = content_hash,
      vf_started_at = started, vf_ended_at = ended, vf_fps = None, vf_width = None,
      vf_height = None, vf_duration_seconds = None, vf_status = status, vf_retry_count = Some 0,
      vf_error_message = None, vf_frames_processed = 0, vf_triggers_fired = 0, vf_events_found = 0\<rparr>"

record media =
  m_fps :: "rat option"
  m_width :: "int option"
  m_height :: "int option"
  m_duration :: "rat option"

definition no_media :: media where
  "no_media = \<lparr>m_fps = None, m_width = None, m_height = None, m_duration = None\<rparr>"

definition with_media :: "media \<Rightarrow> video_file \<Rightarrow> video_file" where
  "with_media m v = v\<lparr>vf_fps := m_fps m, vf_width := m_width m, vf_height := m_height m,
                      vf_duration_seconds := m_duration m\<rparr>"

definition duplicate_error :: "video_file \<Rightarrow> exn" where
  "duplicate_error existing =
     Exn (HTTPErr 406) (''Video already exists (hash='' @ take 16 (hex (vf_content_hash existing))
       @ ''..., video_id='' @ show_int (row_id existing) @ '')'')"

definition create_and_commit ::
  "'h hasher \<Rightarrow> string \<Rightarrow> datetime \<Rightarrow> datetime \<Rightarrow> int option \<Rightarrow> media \<Rightarrow> video_file io" where
  "create_and_commit H storage_uri started_at ended_at station_id m =
     (let started_naive = to_naive_utc started_at; ended_naive = to_naive_utc ended_at
      in if utc_us ended_naive \<le> utc_us started_naive
         then raise (http_422 ''started_at must be < ended_at'')
         else bindM (gets (\<lambda>w. files w (path_str storage_uri))) (\<lambda>content.
           case content of
             None \<Rightarrow> raise (http_422 (''Video file does not exist: '' @ storage_uri))
           | Some bytes \<Rightarrow>
               (let content_hash = hash_large_file H 65536 bytes
                in bindM (get_by_hash content_hash) (\<lambda>existing.
                     case existing of
                       Some v \<Rightarrow> raise (duplicate_error v)
                     | None \<Rightarrow> repo_create VideoRepo (with_media m
                         (new_video station_id (path_str storage_uri) content_hash
                            started_naive ended_naive CREATED))))))"

section \<open>Status, counters, retries\<close>

definition set_status :: "video_status \<Rightarrow> string option \<Rightarrow> video_file \<Rightarrow> video_file" where
  "set_status new_status error_message v =
     (case error_message of
        None \<Rightarrow> v\<lparr>vf_status := new_status\<rparr>
      | Some _ \<Rightarrow> v\<lparr>vf_status := new_status, vf_error_message := error_message\<rparr>)"

definition update_status :: "int \<Rightarrow> video_status \<Rightarrow> string option \<Rightarrow> video_file io" where
  "update_status vf_id new_status error_message =
     repo_update_by_id VideoRepo vf_id (set_status new_status error_message)"

definition set_if :: "'a option \<Rightarrow> ('a \<Rightarrow> 'r \<Rightarrow> 'r) \<Rightarrow> 'r \<Rightarrow> 'r" where
  "set_if x f r = (case x of None \<Rightarrow> r | Some a \<Rightarrow> f a r)"

definition set_counters :: "int option \<Rightarrow> int option \<Rightarrow> int option \<Rightarrow> video_file \<Rightarrow> video_file" where
  "set_counters frames triggers evs v =
     set_if evs (\<lambda>n v. v\<lparr>vf_events_found := n\<rparr>)
       (set_if triggers (\<lambda>n v. v\<lparr>vf_triggers_fired := n\<rparr>)
          (set_if frames (\<lambda>n v. v\<lparr>vf_frames_processed := n\<rparr>) v))"

definition update_counters ::
  "int \<Rightarrow> int option \<Rightarrow> int option \<Rightarrow> int option \<Rightarrow> video_file option io" where
  "update_counters vf_id frames triggers evs =
     (if frames = None \<and> triggers = None \<and> evs = None then repo_get VideoRepo vf_id
      else bindM (repo_update_by_id VideoRepo vf_id (set_counters frames triggers evs)) (\<lambda>v. ret (Some v)))"

definition increment_retry_count :: "int \<Rightarrow> video_file option io" where
  "increment_retry_count vf_id =
     bindM (repo_get VideoRepo vf_id) (\<lambda>x.
       case x of
         None \<Rightarrow> ret None
       | Some vf \<Rightarrow>
           (case vf_retry_count vf of
              None \<Rightarrow> raise (Exn TypeErr ''unsupported operand type(s) for +: NoneType and int'')
            | Some n \<Rightarrow>
                bindM (repo_update VideoRepo (row_id vf) (\<lambda>v. v\<lparr>vf_retry_count := Some (n + 1)\<rparr>))
                  (\<lambda>v. ret (Some v))))"

text \<open>\<open>shutil.move\<close> to a folder of the same file system replaces what is there.\<close>

definition move_file :: "string \<Rightarrow> string \<Rightarrow> unit io" where
  "move_file src dst =
     modify (\<lambda>w. w\<lparr>files := (files w)(path_str src := None, path_str dst := files w (path_str src))\<rparr>)"

definition failed_path :: "string \<Rightarrow> video_file \<Rightarrow> string" where
  "failed_path failed_folder vf =
     path_join failed_folder (path_name (vf_storage_uri vf) @ ''.'' @ show_int (row_id vf))"

definition move_to_failed :: "string \<Rightarrow> int \<Rightarrow> string option io" where
  "move_to_failed failed_folder vf_id =
     bindM (repo_get VideoRepo vf_id) (\<lambda>x.
       case x of
         None \<Rightarrow> ret None
       | Some vf \<Rightarrow>
           bindM (path_exists (vf_storage_uri vf)) (\<lambda>there.
             if \<not> there then ret None
             else (let dst = failed_path failed_folder vf
                   in seqM (move_file (vf_storage_uri vf) dst)
                        (bindM (repo_update VideoRepo (row_id vf) (\<lambda>v. v\<lparr>vf_storage_uri := dst\<rparr>))
                           (\<lambda>_. ret (Some dst))))))"

definition mark_unlimited_retry :: "int \<Rightarrow> video_file io" where
  "mark_unlimited_retry vf_id =
     repo_update_by_id VideoRepo vf_id (\<lambda>v. v\<lparr>vf_retry_count := None\<rparr>)"

definition mark_permanently_failed :: "string \<Rightarrow> int \<Rightarrow> video_status \<Rightarrow> video_file option io" where
  "mark_permanently_failed failed_folder vf_id new_status =
     bindM (move_to_failed failed_folder vf_id) (\<lambda>moved.
     bindM (repo_get VideoRepo vf_id) (\<lambda>x.
       case x of
         None \<Rightarrow> ret None
       | Some vf \<Rightarrow>
           bindM (repo_update VideoRepo (row_id vf) (\<lambda>v.
               set_if moved (\<lambda>p v. v\<lparr>vf_storage_uri := p\<rparr>)
                 (v\<lparr>vf_status := new_status, vf_error_message := Some ''max_retry_attempts exceeded''\<rparr>)))
             (\<lambda>v. ret (Some v))))"

section \<open>The sentinel of an edge camera\<close>

definition edge_sentinel_uri :: "string \<Rightarrow> string" where
  "edge_sentinel_uri station_code = ''edge://'' @ station_code"

definition edge_sentinel_hash :: "'h hasher \<Rightarrow> string \<Rightarrow> string" where
  "edge_sentinel_hash H station_code =
     h_digest H (h_update H (h_init H) (edge_sentinel_uri station_code))"

definition later :: "datetime \<Rightarrow> datetime \<Rightarrow> datetime" where
  "later a b = (if utc_us a < utc_us b then b else a)"

definition earlier :: "datetime \<Rightarrow> datetime \<Rightarrow> datetime" where
  "earlier a b = (if utc_us b < utc_us a then b else a)"

definition extend_window :: "int \<Rightarrow> datetime \<Rightarrow> datetime \<Rightarrow> video_file \<Rightarrow> video_file" where
  "extend_window station_id started ended v =
     v\<lparr>vf_started_at := earlier (vf_started_at v) started, vf_ended_at := later (vf_ended_at v) ended,
       vf_station_id := Some station_id\<rparr>"

definition get_or_create_edge_sentinel ::
  "'h hasher \<Rightarrow> int \<Rightarrow> string \<Rightarrow> datetime \<Rightarrow> datetime \<Rightarrow> (video_file \<times> bool) io" where
  "get_or_create_edge_sentinel H station_id station_code started_at ended_at =
     (let started_naive = to_naive_utc started_at; ended_naive = to_naive_utc ended_at
      in if utc_us ended_naive \<le> utc_us started_naive
         then raise (http_422 ''started_at must be < ended_at'')
         else bindM (get_by_hash (edge_sentinel_hash H station_code)) (\<lambda>existing.
           case existing of
             Some v \<Rightarrow>
               bindM (repo_update VideoRepo (row_id v) (extend_window station_id started_naive ended_naive))
                 (\<lambda>v'. ret (v', False))
           | None \<Rightarrow>
               bindM (repo_create VideoRepo (new_video (Some station_id) (edge_sentinel_uri station_code)
                   (edge_sentinel_hash H station_code) started_naive ended_naive PROCESSING))
                 (\<lambda>v. ret (v, True))))"

section \<open>Frames and runs\<close>

lemma row_id_video_setters [simp]:
  "row_id (set_status s m v) = row_id v" "row_id (set_counters a b c v) = row_id v"
  "row_id (extend_window i a0 b0 v) = row_id v" "row_id (with_media md v) = row_id v"
  by (simp_all add: set_status_def set_counters_def set_if_def extend_window_def with_media_def split: option.split)

lemma keeps_video_service [keeps_intros]:
  "keeps world_ok (create_and_commit H uri s e st m)"
  "keeps world_ok (update_status i ns em)"
  "keeps world_ok (update_counters i a b c)"
  "keeps world_ok (increment_retry_count i)"
  "keeps world_ok (mark_unlimited_retry i)"
  "keeps world_ok (get_or_create_edge_sentinel H i code s e)"
  by (auto simp: create_and_commit_def update_status_def update_counters_def increment_retry_count_def
      mark_unlimited_retry_def get_or_create_edge_sentinel_def Let_def
      intro!: keeps_intros video_model.keeps_repo_create video_model.keeps_repo_update_by_id
        video_model.keeps_repo_get video_model.keeps_repo_update split: option.split)

lemma keeps_move_to_failed [keeps_intros]:
  "keeps world_ok (move_to_failed f i)" "keeps world_ok (mark_permanently_failed f i s)"
proof -
  have mv: "keeps world_ok (move_file a b)" for a b
    unfolding move_file_def by (rule keeps_modify) (simp add: world_ok_def)
  show "keeps world_ok (move_to_failed f i)"
    by (auto simp: move_to_failed_def Let_def path_exists_def
        intro!: keeps_intros mv video_model.keeps_repo_get video_model.keeps_repo_update)
  then show "keeps world_ok (mark_permanently_failed f i s)"
    by (auto simp: mark_permanently_failed_def set_if_def
        intro!: keeps_intros video_model.keeps_repo_get video_model.keeps_repo_update split: option.split)
qed

end
