(* ===== verification/Detection.thy ===== *)
theory Detection
  imports Database
begin

text \<open>
  \<open>src/services/detector.py\<close>, \<open>src/schemas/detector.py\<close> and \<open>src/services/video_processor.py\<close>:
  from the frames of a video to detection events. OpenCV is a parameter, the record \<open>cv2\<close> of the
  calls the code makes: frames, background models, masks and contours are abstract types. Floats
  are exact rationals, and \<open>math.dist\<close> is the real distance.
\<close>

section \<open>Data\<close>

type_synonym bbox = "int \<times> int \<times> int \<times> int"

record trigger_result =
  triggered :: bool
  contour_area :: rat
  tr_bbox :: "bbox option"

record aruco_detection =
  ad_aruco_id :: "int option"
  ad_tractor_id :: "int option"
  ad_confidence :: rat
  ad_bbox :: "bbox option"
  ad_method :: detector_method

record parked_decision =
  is_parked :: bool
  pd_inside_roi :: bool
  velocity_px_per_frame :: real
  mog2_mass_in_roi :: rat
  pd_metadata :: json

record detection_event =
  de_frame_number :: int
  de_timestamp_in_video :: rat
  de_aruco_id :: "int option"
  de_confidence :: rat
  de_bbox :: "bbox option"
  de_inside_roi :: bool
  de_metadata :: json

record detector_settings =
  min_aruco_side_pixels :: int
  velocity_px_threshold :: real
  mog2_mass_min :: rat
  min_contour_area :: rat
  target_width :: int

definition default_detector_settings :: detector_settings where
  "default_detector_settings =
     \<lparr>min_aruco_side_pixels = 30, velocity_px_threshold = 3, mog2_mass_min = 1000,
      min_contour_area = 5000, target_width = 640\<rparr>"

text \<open>\<open>cap.read()\<close> yields the frames of the capture until it reports failure.\<close>

record 'f capture =
  is_opened :: bool
  cap_fps :: rat
  cap_width :: int
  cap_height :: int
  cap_frames :: "'f list"

record ('f, 'bg, 'mask, 'c) cv2 =
  video_capture :: "string \<Rightarrow> 'f capture"
  resize :: "'f \<Rightarrow> int \<Rightarrow> int \<Rightarrow> 'f"
  new_background :: 'bg
  apply_background :: "'bg \<Rightarrow> 'f \<Rightarrow> 'mask \<times> 'bg"
  find_contours :: "'mask \<Rightarrow> 'c list"
  area_of :: "'c \<Rightarrow> rat"
  bounding_rect :: "'c \<Rightarrow> bbox"
  detect_markers :: "'f \<Rightarrow> 'c list \<times> int list option"
  frame_area :: "'f \<Rightarrow> int"
  point_polygon_test :: "int list list \<Rightarrow> int \<times> int \<Rightarrow> rat"

section \<open>Motion trigger\<close>

definition larger_contour ::
  "('f, 'bg, 'mask, 'c) cv2 \<Rightarrow> 'c \<Rightarrow> rat \<times> bbox option \<Rightarrow> rat \<times> bbox option" where
  "larger_contour cv c best =
     (if fst best < area_of cv c then (area_of cv c, Some (bounding_rect cv c)) else best)"

definition trigger_detect ::
  "detector_settings \<Rightarrow> ('f, 'bg, 'mask, 'c) cv2 \<Rightarrow> 'bg \<Rightarrow> 'f \<Rightarrow> trigger_result \<times> 'bg" where
  "trigger_detect cfg cv bg frame =
     (case apply_background cv bg frame of (fg, bg') \<Rightarrow>
        (case fold (larger_contour cv) (find_contours cv fg) (0, None) of (max_area, max_bbox) \<Rightarrow>
           let hit = min_contour_area cfg < max_area
           in (\<lparr>triggered = hit, contour_area = max_area, tr_bbox = (if hit then max_bbox else None)\<rparr>,
               bg')))"

section \<open>Marker decoder\<close>

definition marker_confidence :: "bbox \<Rightarrow> int \<Rightarrow> rat" where
  "marker_confidence b area =
     (case b of (x, y, cw, ch) \<Rightarrow> min (of_int (cw * ch) / of_int area * 10) 1)"

fun decode_markers ::
  "detector_settings \<Rightarrow> ('f, 'bg, 'mask, 'c) cv2 \<Rightarrow> int \<Rightarrow> ('c \<times> int) list \<Rightarrow> exn + aruco_detection list" where
  "decode_markers cfg cv area [] = Inr []"
| "decode_markers cfg cv area ((corner, aruco_id) # rest) =
     (case bounding_rect cv corner of (x, y, cw, ch) \<Rightarrow>
        if cw < min_aruco_side_pixels cfg then decode_markers cfg cv area rest
        else if area = 0 then Inl (Exn ValueErr ''division by zero'')
        else (case decode_markers cfg cv area rest of
                Inl e \<Rightarrow> Inl e
              | Inr ds \<Rightarrow> Inr
                  (\<lparr>ad_aruco_id = Some aruco_id, ad_tractor_id = None,
                    ad_confidence = marker_confidence (x, y, cw, ch) area,
                    ad_bbox = Some (x, y, cw, ch), ad_method = ARUCO\<rparr> # ds)))"

definition aruco_detect ::
  "detector_settings \<Rightarrow> ('f, 'bg, 'mask, 'c) cv2 \<Rightarrow> 'f \<Rightarrow> exn + aruco_detection list" where
  "aruco_detect cfg cv frame =
     (case detect_markers cv frame of
        (corners, None) \<Rightarrow> Inr []
      | (corners, Some ids) \<Rightarrow> decode_markers cfg cv (frame_area cv frame) (zip corners ids))"

section \<open>Region of interest\<close>

text \<open>An empty polygon is falsy: it does not restrict.\<close>

definition roi_polygon :: "int list list option \<Rightarrow> int list list option" where
  "roi_polygon p = (case p of None \<Rightarrow> None | Some [] \<Rightarrow> None | Some q \<Rightarrow> Some q)"

definition roi_is_inside ::
  "('f, 'bg, 'mask, 'c) cv2 \<Rightarrow> int list list option \<Rightarrow> bbox option \<Rightarrow> bool" where
  "roi_is_inside cv polygon b =
     (case b of
        None \<Rightarrow> False
      | Some (x, y, w, h) \<Rightarrow>
          (case polygon of
             None \<Rightarrow> True
           | Some p \<Rightarrow> 0 \<le> point_polygon_test cv p (x + w div 2, y + h div 2)))"

section \<open>Parked or passing by\<close>

type_synonym point = "rat \<times> rat"

definition dist_px :: "point \<Rightarrow> point \<Rightarrow> real" where
  "dist_px p q = sqrt ((of_rat (fst p) - of_rat (fst q))\<^sup>2 + (of_rat (snd p) - of_rat (snd q))\<^sup>2)"

definition center :: "bbox \<Rightarrow> point" where
  "center b = (case b of (x, y, w, h) \<Rightarrow> (of_int x + of_int w / 2, of_int y + of_int h / 2))"

definition parked_decide ::
  "detector_settings \<Rightarrow> ('f, 'bg, 'mask, 'c) cv2 \<Rightarrow> int list list option \<Rightarrow> point option \<Rightarrow>
   aruco_detection \<Rightarrow> trigger_result \<Rightarrow> parked_decision \<times> point option" where
  "parked_decide cfg cv polygon prev_center d tr =
     (let inside = roi_is_inside cv polygon (ad_bbox d);
          velocity = (case (ad_bbox d, prev_center) of
                        (Some b, Some prev) \<Rightarrow> dist_px prev (center b)
                      | _ \<Rightarrow> 0);
          prev' = (case ad_bbox d of None \<Rightarrow> prev_center | Some b \<Rightarrow> Some (center b));
          stopped = velocity < velocity_px_threshold cfg;
          mass = (if inside then contour_area tr else 0)
      in (\<lparr>is_parked = (inside \<and> stopped \<and> mog2_mass_min cfg < mass), pd_inside_roi = inside,
           velocity_px_per_frame = velocity, mog2_mass_in_roi = mass,
           pd_metadata = JObj [(''triggered_by_mog2'', JBool (triggered tr))]\<rparr>,
          prev'))"

definition parked_reset :: "point option \<Rightarrow> point option" where
  "parked_reset _ = None"

section \<open>The pipeline\<close>

definition scaled :: "detector_settings \<Rightarrow> ('f, 'bg, 'mask, 'c) cv2 \<Rightarrow> 'f capture \<Rightarrow> 'f \<Rightarrow> 'f" where
  "scaled cfg cv cap frame =
     (if target_width cfg < cap_width cap
      then (let scale = of_int (target_width cfg) / (of_int (cap_width cap) :: rat)
            in resize cv frame (target_width cfg) \<lfloor>of_int (cap_height cap) * scale\<rfloor>)
      else frame)"

definition frame_rate :: "'f capture \<Rightarrow> rat" where
  "frame_rate cap = (if cap_fps cap = 0 then 25 else cap_fps cap)"

definition extract_frames ::
  "detector_settings \<Rightarrow> ('f, 'bg, 'mask, 'c) cv2 \<Rightarrow> string \<Rightarrow> exn + (int \<times> rat \<times> 'f) list" where
  "extract_frames cfg cv video_path =
     (let cap = video_capture cv video_path
      in if \<not> is_opened cap then Inl (Exn RuntimeErr (''Cannot open video: '' @ video_path))
         else Inr (map (\<lambda>(i, frame). (int i, of_nat i / frame_rate cap, scaled cfg cv cap frame))
                     (enumerate 0 (cap_frames cap))))"

record 'bg pipeline =
  p_bg :: 'bg
  p_prev :: "point option"
  p_events :: "detection_event list"
  p_frames :: int
  p_triggers :: int

definition event_of :: "int \<Rightarrow> rat \<Rightarrow> aruco_detection \<Rightarrow> parked_decision \<Rightarrow> detection_event" where
  "event_of n t d p =
     \<lparr>de_frame_number = n, de_timestamp_in_video = t, de_aruco_id = ad_aruco_id d,
      de_confidence = ad_confidence d, de_bbox = ad_bbox d, de_inside_roi = pd_inside_roi p,
      de_metadata = pd_metadata p\<rparr>"

definition emit ::
  "detector_settings \<Rightarrow> ('f, 'bg, 'mask, 'c) cv2 \<Rightarrow> int list list option \<Rightarrow> int \<Rightarrow> rat \<Rightarrow> trigger_result \<Rightarrow>
   aruco_detection \<Rightarrow> 'bg pipeline \<Rightarrow> 'bg pipeline" where
  "emit cfg cv polygon n t tr d s =
     (case parked_decide cfg cv polygon (p_prev s) d tr of (decision, prev') \<Rightarrow>
        s\<lparr>p_prev := prev', p_events := p_events s @ [event_of n t d decision]\<rparr>)"

definition process_frame ::
  "detector_settings \<Rightarrow> ('f, 'bg, 'mask, 'c) cv2 \<Rightarrow> int list list option \<Rightarrow> int \<times> rat \<times> 'f \<Rightarrow>
   'bg pipeline \<Rightarrow> exn + 'bg pipeline" where
  "process_frame cfg cv polygon fr s =
     (case fr of (n, t, frame) \<Rightarrow>
        (case trigger_detect cfg cv (p_bg s) frame of (tr, bg') \<Rightarrow>
           let s1 = s\<lparr>p_frames := p_frames s + 1, p_bg := bg'\<rparr>
           in if \<not> triggered tr then Inr s1
              else (case aruco_detect cfg cv frame of
                      Inl e \<Rightarrow> Inl e
                    | Inr ds \<Rightarrow>
                        Inr (fold (emit cfg cv polygon n t tr) ds (s1\<lparr>p_triggers := p_triggers s1 + 1\<rparr>)))))"

fun process_frames ::
  "detector_settings \<Rightarrow> ('f, 'bg, 'mask, 'c) cv2 \<Rightarrow> int list list option \<Rightarrow> (int \<times> rat \<times> 'f) list \<Rightarrow>
   'bg pipeline \<Rightarrow> exn + 'bg pipeline" where
  "process_frames cfg cv polygon [] s = Inr s"
| "process_frames cfg cv polygon (fr # frs) s =
     (case process_frame cfg cv polygon fr s of
        Inl e \<Rightarrow> Inl e
      | Inr s' \<Rightarrow> process_frames cfg cv polygon frs s')"

definition pipeline_start :: "('f, 'bg, 'mask, 'c) cv2 \<Rightarrow> 'bg pipeline" where
  "pipeline_start cv =
     \<lparr>p_bg = new_background cv, p_prev = None, p_events = [], p_frames = 0, p_triggers = 0\<rparr>"

definition process_video ::
  "detector_settings \<Rightarrow> ('f, 'bg, 'mask, 'c) cv2 \<Rightarrow> string \<Rightarrow> int list list option \<Rightarrow>
   exn + detection_event list \<times> int \<times> int" where
  "process_video cfg cv video_path polygon =
     (case extract_frames cfg cv video_path of
        Inl e \<Rightarrow> Inl e
      | Inr frs \<Rightarrow>
          (case process_frames cfg cv (roi_polygon polygon) frs (pipeline_start cv) of
             Inl e \<Rightarrow> Inl e
           | Inr s \<Rightarrow> Inr (p_events s, p_frames s, p_triggers s)))"

section \<open>Facts\<close>

lemma trigger_max:
  "fold (larger_contour cv) cs (a, b) = (m, bb) \<Longrightarrow>
   a \<le> m \<and> (\<forall>c \<in> set cs. area_of cv c \<le> m) \<and> (m = a \<and> bb = b \<or> (\<exists>c \<in> set cs. area_of cv c = m \<and> bb = Some (bounding_rect cv c)))"
proof (induction cs arbitrary: a b)
  case (Cons c cs)
  show ?case
  proof (cases "a < area_of cv c")
    case True
    then have "larger_contour cv c (a, b) = (area_of cv c, Some (bounding_rect cv c))"
      by (simp add: larger_contour_def)
    then have "fold (larger_contour cv) cs (area_of cv c, Some (bounding_rect cv c)) = (m, bb)"
      using Cons.prems by simp
    from Cons.IH [OF this] True show ?thesis by fastforce
  next
    case False
    then have "larger_contour cv c (a, b) = (a, b)" by (simp add: larger_contour_def)
    then have "fold (larger_contour cv) cs (a, b) = (m, bb)"
      using Cons.prems by simp
    from Cons.IH [OF this] False show ?thesis by fastforce
  qed
qed simp

lemma decide_inside [simp]:
  "pd_inside_roi (fst (parked_decide cfg cv polygon prev d tr)) = roi_is_inside cv polygon (ad_bbox d)"
  "pd_metadata (fst (parked_decide cfg cv polygon prev d tr)) = JObj [(''triggered_by_mog2'', JBool (triggered tr))]"
  by (simp_all add: parked_decide_def Let_def)

text \<open>The event a detection becomes, without the state of the parked filter.\<close>

definition plain_event ::
  "('f, 'bg, 'mask, 'c) cv2 \<Rightarrow> int list list option \<Rightarrow> int \<Rightarrow> rat \<Rightarrow> aruco_detection \<Rightarrow> detection_event" where
  "plain_event cv polygon n t d =
     \<lparr>de_frame_number = n, de_timestamp_in_video = t, de_aruco_id = ad_aruco_id d,
      de_confidence = ad_confidence d, de_bbox = ad_bbox d,
      de_inside_roi = roi_is_inside cv polygon (ad_bbox d),
      de_metadata = JObj [(''triggered_by_mog2'', JBool True)]\<rparr>"

lemma emit_all:
  assumes "triggered tr"
  shows "p_events (fold (emit cfg cv polygon n t tr) ds s) = p_events s @ map (plain_event cv polygon n t) ds
    \<and> p_bg (fold (emit cfg cv polygon n t tr) ds s) = p_bg s
    \<and> p_frames (fold (emit cfg cv polygon n t tr) ds s) = p_frames s
    \<and> p_triggers (fold (emit cfg cv polygon n t tr) ds s) = p_triggers s"
proof (induction ds arbitrary: s)
  case (Cons d ds)
  obtain p prev where p: "parked_decide cfg cv polygon (p_prev s) d tr = (p, prev)" by fastforce
  then have "event_of n t d p = plain_event cv polygon n t d"
    using decide_inside [of cfg cv polygon "p_prev s" d tr] assms by (simp add: event_of_def plain_event_def)
  with Cons p show ?case by (simp add: emit_def)
qed simp

text \<open>The trigger decisions on their own: the background model sees every frame.\<close>

fun triggers_of ::
  "detector_settings \<Rightarrow> ('f, 'bg, 'mask, 'c) cv2 \<Rightarrow> 'bg \<Rightarrow> 'f list \<Rightarrow> bool list" where
  "triggers_of cfg cv bg [] = []"
| "triggers_of cfg cv bg (f # fs) =
     (case trigger_detect cfg cv bg f of (tr, bg') \<Rightarrow> triggered tr # triggers_of cfg cv bg' fs)"

definition frame_events ::
  "detector_settings \<Rightarrow> ('f, 'bg, 'mask, 'c) cv2 \<Rightarrow> int list list option \<Rightarrow> (int \<times> rat \<times> 'f) \<times> bool \<Rightarrow>
   detection_event list" where
  "frame_events cfg cv polygon x =
     (case x of ((n, t, frame), hit) \<Rightarrow>
        if hit then (case aruco_detect cfg cv frame of Inl _ \<Rightarrow> [] | Inr ds \<Rightarrow> map (plain_event cv polygon n t) ds)
        else [])"

lemma process_frames_spec:
  assumes "process_frames cfg cv polygon frs s = Inr s'"
  shows "p_events s' = p_events s @ concat (map (frame_events cfg cv polygon)
        (zip frs (triggers_of cfg cv (p_bg s) (map (\<lambda>(n, t, f). f) frs))))
    \<and> p_frames s' = p_frames s + int (length frs)
    \<and> p_triggers s' = p_triggers s
        + int (length (filter id (triggers_of cfg cv (p_bg s) (map (\<lambda>(n, t, f). f) frs))))"
  using assms
proof (induction frs arbitrary: s)
  case (Cons fr frs)
  obtain n t f where fr: "fr = (n, t, f)" by (cases fr)
  obtain tr bg' where tr: "trigger_detect cfg cv (p_bg s) f = (tr, bg')" by fastforce
  show ?case
  proof (cases "triggered tr")
    case False
    then have run: "process_frames cfg cv polygon frs (s\<lparr>p_frames := p_frames s + 1, p_bg := bg'\<rparr>) = Inr s'"
      using Cons.prems fr tr by (simp add: process_frame_def)
    show ?thesis using Cons.IH [OF run] False fr tr by (simp add: frame_events_def)
  next
    case True
    from Cons.prems True fr tr obtain ds where ds: "aruco_detect cfg cv f = Inr ds"
      and run: "process_frames cfg cv polygon frs (fold (emit cfg cv polygon n t tr) ds
        (s\<lparr>p_frames := p_frames s + 1, p_bg := bg', p_triggers := p_triggers s + 1\<rparr>)) = Inr s'"
      by (auto simp: process_frame_def Let_def split: sum.splits)
    show ?thesis
      using Cons.IH [OF run] emit_all [OF True, of cfg cv polygon n t ds] True fr tr ds
      by (simp add: frame_events_def)
  qed
qed simp

lemma triggers_of_length [simp]: "length (triggers_of cfg cv bg fs) = length fs"
  by (induction cfg cv bg fs rule: triggers_of.induct) (auto split: prod.split)

end
