(* ===== verification/VideoHandler.thy ===== *)
theory VideoHandler
  imports VideoService VisitService Detection
begin

text \<open>
  \<open>src/services/event_service.py\<close>, \<open>src/services/tractor_service.py\<close> (the lookup) and
  \<open>src/services/video_handler.py\<close>: storing the events of a video, the call of the visit service, and
  the status transitions around it.

  The process pool is the parameter \<open>worker\<close>: what \<open>run_video_in_process_pool\<close> returns or raises for
  a path and a polygon (the theory \<open>Detection\<close> models the function it runs). \<open>env\<close> is what other
  connections commit while a new visit is flushed, as in the visit service.
\<close>

section \<open>Events\<close>

record event_create =
  ec_video_file_id :: int
  ec_tractor_id :: "int option"
  ec_aruco_id :: "int option"
  ec_event_type :: event_type
  ec_detector_method :: detector_method
  ec_inside_roi :: bool
  ec_frame_number :: int
  ec_timestamp_in_video :: rat
  ec_wall_clock_at :: datetime
  ec_confidence :: "rat option"
  ec_bbox :: "json option"
  ec_detector_metadata :: "json option"

definition event_row :: "event_create \<Rightarrow> event" where
  "event_row p =
     \<lparr>row_id = 0, created_at = None, updated_at = None, deleted_at = None,
      e_video_file_id = ec_video_file_id p, e_tractor_id = ec_tractor_id p,
      e_aruco_id = ec_aruco_id p, e_event_type = ec_event_type p,
      e_detector_method = ec_detector_method p, e_inside_roi = ec_inside_roi p,
      e_frame_number = ec_frame_number p, e_timestamp_in_video = ec_timestamp_in_video p,
      e_wall_clock_at = to_naive_utc (ec_wall_clock_at p), e_confidence = ec_confidence p,
      e_bbox = ec_bbox p, e_detector_metadata = ec_detector_metadata p\<rparr>"

definition create_event :: "event_create \<Rightarrow> event io" where
  "create_event p = repo_create EventRepo (event_row p)"

fun mapM :: "('a \<Rightarrow> ('s, 'e, 'b) prog) \<Rightarrow> 'a list \<Rightarrow> ('s, 'e, 'b list) prog" where
  "mapM f [] = ret []"
| "mapM f (x # xs) = bindM (f x) (\<lambda>y. bindM (mapM f xs) (\<lambda>ys. ret (y # ys)))"

definition create_many :: "event_create list \<Rightarrow> event list io" where
  "create_many payloads =
     (if payloads = [] then ret []
      else bindM (mapM (\<lambda>p. add_row EventRepo (event_row p)) payloads) (\<lambda>ids.
           seqM flush (mapM (refresh EventRepo) ids)))"

record event_public =
  ep_id :: int
  ep_video_file_id :: int
  ep_tractor_id :: "int option"
  ep_aruco_id :: "int option"
  ep_event_type :: event_type
  ep_detector_method :: detector_method
  ep_inside_roi :: bool
  ep_frame_number :: int
  ep_timestamp_in_video :: rat
  ep_wall_clock_at :: datetime
  ep_confidence :: "rat option"
  ep_bbox :: "json option"
  ep_detector_metadata :: "json option"
  ep_created_at :: "datetime option"
  ep_updated_at :: "datetime option"

text \<open>\<open>updated_at\<close> is not handed over and keeps its default.\<close>

definition to_public :: "event list \<Rightarrow> event_public list" where
  "to_public evs = map (\<lambda>e.
     \<lparr>ep_id = row_id e, ep_video_file_id = e_video_file_id e, ep_tractor_id = e_tractor_id e,
      ep_aruco_id = e_aruco_id e, ep_event_type = e_event_type e,
      ep_detector_method = e_detector_method e, ep_inside_roi = e_inside_roi e,
      ep_frame_number = e_frame_number e, ep_timestamp_in_video = e_timestamp_in_video e,
      ep_wall_clock_at = e_wall_clock_at e, ep_confidence = e_confidence e, ep_bbox = e_bbox e,
      ep_detector_metadata = e_detector_metadata e, ep_created_at = created_at e,
      ep_updated_at = None\<rparr>) evs"

section \<open>Recognition\<close>

type_synonym worker = "string \<Rightarrow> int list list option \<Rightarrow> exn + detection_event list \<times> int \<times> int"

definition run_video_in_process_pool ::
  "worker \<Rightarrow> string \<Rightarrow> int list list option \<Rightarrow> (detection_event list \<times> int \<times> int) io" where
  "run_video_in_process_pool worker uri polygon = (\<lambda>w. (worker uri polygon, w))"

definition bbox_to_dict :: "bbox option \<Rightarrow> json option" where
  "bbox_to_dict b =
     (case b of
        None \<Rightarrow> None
      | Some (x, y, w, h) \<Rightarrow>
          Some (JObj [(''x'', JInt x), (''y'', JInt y), (''w'', JInt w), (''h'', JInt h)]))"

text \<open>The ROI of a station is passed on only when it is set and not empty.\<close>

definition station_roi :: "station option \<Rightarrow> int list list option" where
  "station_roi station =
     (case station of None \<Rightarrow> None
      | Some s \<Rightarrow> (case st_roi_polygon s of None \<Rightarrow> None | Some [] \<Rightarrow> None | Some p \<Rightarrow> Some p))"

text \<open>One lookup, through the dictionary \<open>aruco_to_tractor\<close>: only hits are remembered.\<close>

definition lookup_tractor ::
  "int option \<Rightarrow> (int, int) dict \<Rightarrow> (int option \<times> (int, int) dict) io" where
  "lookup_tractor aruco_id cache =
     (case aruco_id of
        None \<Rightarrow> ret (None, cache)
      | Some a \<Rightarrow>
          (case dict_get cache a of
             Some tid \<Rightarrow> ret (Some tid, cache)
           | None \<Rightarrow>
               bindM (get_by_any_aruco_id a) (\<lambda>t. case t of
                   None \<Rightarrow> ret (None, cache)
                 | Some tr \<Rightarrow> ret (Some (row_id tr), dict_set cache a (row_id tr)))))"

definition payload_of :: "int \<Rightarrow> detection_event \<Rightarrow> int option \<Rightarrow> datetime \<Rightarrow> event_create" where
  "payload_of video_id ev tractor_id now =
     \<lparr>ec_video_file_id = video_id, ec_tractor_id = tractor_id, ec_aruco_id = de_aruco_id ev,
      ec_event_type = DETECTED, ec_detector_method = ARUCO, ec_inside_roi = de_inside_roi ev,
      ec_frame_number = de_frame_number ev, ec_timestamp_in_video = de_timestamp_in_video ev,
      ec_wall_clock_at = now, ec_confidence = Some (de_confidence ev),
      ec_bbox = bbox_to_dict (de_bbox ev), ec_detector_metadata = Some (de_metadata ev)\<rparr>"

definition add_payload ::
  "int \<Rightarrow> event_create list \<times> (int, int) dict \<Rightarrow> detection_event \<Rightarrow>
   (event_create list \<times> (int, int) dict) io" where
  "add_payload video_id acc ev =
     (case acc of (payloads, cache) \<Rightarrow>
        bindM (lookup_tractor (de_aruco_id ev) cache) (\<lambda>(tractor_id, cache').
        bindM py_now (\<lambda>now.
          ret (payloads @ [payload_of video_id ev tractor_id now], cache'))))"

definition aggregate_visits ::
  "visit_settings \<Rightarrow> (world \<Rightarrow> world) \<Rightarrow> int \<Rightarrow> int option \<Rightarrow> event list \<Rightarrow> unit io" where
  "aggregate_visits cfg env video_id station_id persisted =
     (if station_id = None \<or> persisted = [] then ret ()
      else bindM (repo_get VideoRepo video_id) (\<lambda>video. case video of
          None \<Rightarrow> ret ()
        | Some v \<Rightarrow> process_video_for_visits cfg env v persisted))"

definition recognize_video ::
  "worker \<Rightarrow> visit_settings \<Rightarrow> (world \<Rightarrow> world) \<Rightarrow> int \<Rightarrow> string \<Rightarrow> station option \<Rightarrow> (int \<times> int \<times> int) io" where
  "recognize_video worker cfg env video_id uri station =
     bindM (run_video_in_process_pool worker uri (station_roi station)) (\<lambda>(evs, frames, triggers).
     bindM (update_counters video_id (Some frames) (Some triggers) (Some (int (length evs)))) (\<lambda>_.
       if evs = [] then ret (0, frames, triggers)
       else bindM (foldM (add_payload video_id) ([], []) evs) (\<lambda>(payloads, cache).
            bindM (create_many payloads) (\<lambda>persisted.
            seqM (aggregate_visits cfg env video_id (map_option row_id station) persisted)
              (ret (int (length evs), frames, triggers))))))"

section \<open>Status transitions\<close>

text \<open>\<open>except Exception\<close> lets \<open>CancelledError\<close> through.\<close>

definition except_exception :: "'a io \<Rightarrow> (exn \<Rightarrow> 'a io) \<Rightarrow> 'a io" where
  "except_exception m h = tryM m (\<lambda>e. if exn_class e = CancelledErr then raise e else h e)"

definition find_station :: "video_file option \<Rightarrow> station option io" where
  "find_station video =
     (case video of None \<Rightarrow> ret None
      | Some v \<Rightarrow> (case vf_station_id v of None \<Rightarrow> ret None | Some sid \<Rightarrow> repo_get StationRepo sid))"

definition fail_video :: "int \<Rightarrow> bool \<Rightarrow> exn \<Rightarrow> unit io" where
  "fail_video video_id is_retry exc =
     (if is_retry
      then (if is_retriable_without_limit exc then commit
            else bindM (increment_retry_count video_id) (\<lambda>_.
                 bindM (update_status video_id FAILED (Some (''retry failed: '' @ exn_str exc))) (\<lambda>_.
                 commit)))
      else bindM (update_status video_id FAILED (Some (exn_str exc))) (\<lambda>_. commit))"

definition process_video_with_error_handling ::
  "worker \<Rightarrow> visit_settings \<Rightarrow> (world \<Rightarrow> world) \<Rightarrow> int \<Rightarrow> string \<Rightarrow> bool \<Rightarrow> unit io" where
  "process_video_with_error_handling worker cfg env video_id uri is_retry =
     bindM (update_status video_id PROCESSING None) (\<lambda>_.
     seqM (except_exception commit (\<lambda>e. seqM rollback (raise e)))
     (bindM (repo_get VideoRepo video_id) (\<lambda>video.
      bindM (find_station video) (\<lambda>station.
        except_exception
          (bindM (recognize_video worker cfg env video_id uri station) (\<lambda>_.
           bindM (update_status video_id COMPLETED None) (\<lambda>_. commit)))
          (\<lambda>exc. seqM rollback (seqM (fail_video video_id is_retry exc) (raise exc)))))))"

definition process_video_background ::
  "worker \<Rightarrow> visit_settings \<Rightarrow> (world \<Rightarrow> world) \<Rightarrow> int \<Rightarrow> string \<Rightarrow> unit io" where
  "process_video_background worker cfg env video_id uri =
     with_session
       (except_exception
          (process_video_with_error_handling worker cfg env video_id uri False)
          (\<lambda>exc. except_exception
             (bindM (update_status video_id FAILED (Some (exn_str exc))) (\<lambda>_. commit))
             (\<lambda>_. rollback)))"

section \<open>Entry point\<close>

datatype handled =
    Queued int string
  | Handled int string "video_status option"

text \<open>The second component is what is handed to \<open>BackgroundTasks\<close>: video id and path.\<close>

definition handle_video ::
  "'h hasher \<Rightarrow> worker \<Rightarrow> visit_settings \<Rightarrow> (world \<Rightarrow> world) \<Rightarrow> string \<Rightarrow> string option \<Rightarrow> string \<Rightarrow>
   int option \<Rightarrow> datetime \<Rightarrow> datetime \<Rightarrow> bool \<Rightarrow> (handled \<times> (int \<times> string) list) io" where
  "handle_video H worker cfg env new_task_id task_id filepath station_id started_at ended_at background =
     (let task = or_else task_id new_task_id
      in bindM (create_and_commit H filepath started_at ended_at station_id no_media) (\<lambda>vf.
         if background then ret (Queued (row_id vf) task, [(row_id vf, vf_storage_uri vf)])
         else seqM (process_video_with_error_handling worker cfg env (row_id vf) (vf_storage_uri vf) False)
                (bindM (repo_get VideoRepo (row_id vf)) (\<lambda>refreshed.
                   ret (Handled (row_id vf) task (map_option vf_status refreshed), [])))))"

section \<open>Facts\<close>

lemma keeps_mapM [keeps_intros]: "(\<And>x. keeps I (f x)) \<Longrightarrow> keeps I (mapM f xs)"
  by (induction xs) (auto intro!: keeps_intros)

lemma to_public_length [simp]: "length (to_public evs) = length evs"
  by (simp add: to_public_def)

text \<open>What the dictionary of known markers holds: the answers of the table.\<close>

definition tractor_of :: "db \<Rightarrow> int \<Rightarrow> tractor option" where
  "tractor_of d a = first_or_none (filter (\<lambda>t. a \<in> set (tr_aruco_ids t)) (tbl_rows (tractors d)))"

definition cache_ok :: "db \<Rightarrow> (int, int) dict \<Rightarrow> bool" where
  "cache_ok d cache \<longleftrightarrow> (\<forall>a tid. dict_get cache a = Some tid \<longrightarrow> map_option row_id (tractor_of d a) = Some tid)"

definition resolve :: "db \<Rightarrow> int option \<Rightarrow> int option" where
  "resolve d x = (case x of None \<Rightarrow> None | Some a \<Rightarrow> map_option row_id (tractor_of d a))"

lemma lookup_tractor_run:
  assumes "cache_ok (working w) cache"
  obtains cache' where "lookup_tractor x cache w = (Inr (resolve (working w) x, cache'), w)"
    "cache_ok (working w) cache'"
proof (cases x)
  case None
  then show ?thesis using assms by (intro that [of cache]) (simp_all add: lookup_tractor_def resolve_def)
next
  case (Some a)
  have get: "get_by_any_aruco_id a w = (Inr (tractor_of (working w) a), w)"
    by (simp add: get_by_any_aruco_id_def tractor_of_def)
  show ?thesis
  proof (cases "dict_get cache a")
    case None
    show ?thesis
    proof (cases "tractor_of (working w) a")
      case t: None
      then show ?thesis using Some None get assms
        by (intro that [of cache]) (simp_all add: lookup_tractor_def resolve_def)
    next
      case t: (Some tr)
      then show ?thesis using Some None get assms
        by (intro that [of "dict_set cache a (row_id tr)"])
           (simp_all add: lookup_tractor_def resolve_def cache_ok_def)
    qed
  next
    case (Some tid)
    then have "map_option row_id (tractor_of (working w) a) = Some tid"
      using assms unfolding cache_ok_def by blast
    then show ?thesis using Some \<open>x = Some a\<close> assms
      by (intro that [of cache]) (auto simp: lookup_tractor_def resolve_def)
  qed
qed

text \<open>The payloads of a whole video: event \<open>k\<close> has the tractor of its marker and the \<open>k\<close>-th reading
  of the clock.\<close>

lemma payloads_run:
  assumes "cache_ok (working w) cache"
  shows "\<exists>cache' ps. foldM (add_payload video_id) (ps0, cache) evs w =
      (Inr (ps0 @ ps, cache'), w\<lparr>reads := reads w + length evs\<rparr>)
    \<and> ps = map (\<lambda>(k, ev). payload_of video_id ev (resolve (working w) (de_aruco_id ev))
                 (Aware (clock w (reads w + k)) 0)) (enumerate 0 evs)"
  using assms
proof (induction evs arbitrary: ps0 cache w)
  case Nil
  then show ?case by simp
next
  case (Cons ev evs)
  obtain c1 where c1: "lookup_tractor (de_aruco_id ev) cache w = (Inr (resolve (working w) (de_aruco_id ev), c1), w)"
    "cache_ok (working w) c1"
    by (rule lookup_tractor_run [OF Cons.prems])
  let ?w = "w\<lparr>reads := Suc (reads w)\<rparr>"
  let ?p = "payload_of video_id ev (resolve (working w) (de_aruco_id ev)) (Aware (clock w (reads w)) 0)"
  have step: "add_payload video_id (ps0, cache) ev w = (Inr (ps0 @ [?p], c1), ?w)"
    using c1(1) by (simp add: add_payload_def py_now_def)
  have "cache_ok (working ?w) c1" using c1(2) by simp
  from Cons.IH [OF this, of "ps0 @ [?p]"] step show ?case
    by (auto simp: enumerate_Suc_eq comp_def case_prod_beta simp flip: add_Suc_right)
qed

end
