(* ===== verification/Scheduler.thy ===== *)
theory Scheduler
  imports VideoHandler
begin

text \<open>
  \<open>src/services/scheduler.py\<close>, \<open>src/config/scheduler.py\<close> and the loops of \<open>src/main.py\<close>: marking stale
  videos, retrying failed ones, the life of the two background tasks.

  The retries of one tick are separate tasks, each with a session of its own, gathered with their
  exceptions swallowed; the model runs them one after the other in the order they are created
  (with \<open>max_concurrent_requests = 1\<close> the semaphore makes the code do the same).
\<close>

section \<open>Settings\<close>

record scheduler_settings =
  scheduler_activate :: bool
  max_concurrent_requests :: nat
  retry_interval_minutes :: rat
  stale_threshold_minutes :: rat
  max_retry_attempts :: int
  failed_videos_folder :: string

definition default_scheduler_settings :: scheduler_settings where
  "default_scheduler_settings =
     \<lparr>scheduler_activate = True, max_concurrent_requests = 2, retry_interval_minutes = 5,
      stale_threshold_minutes = 30, max_retry_attempts = 3,
      failed_videos_folder = ''data/failed_videos''\<rparr>"

text \<open>\<open>get_scheduler_settings\<close>: created once, with the folder of the database settings by default.\<close>

definition get_scheduler_settings ::
  "scheduler_settings option \<Rightarrow> scheduler_settings \<Rightarrow> string option \<Rightarrow> string \<Rightarrow> scheduler_settings" where
  "get_scheduler_settings cached from_env folder database_folder =
     (case cached of Some s \<Rightarrow> s
      | None \<Rightarrow> from_env\<lparr>failed_videos_folder := or_else folder database_folder\<rparr>)"

section \<open>Stale videos\<close>

definition show_rat1 :: "rat \<Rightarrow> string" where
  "show_rat1 r = (let t = \<lfloor>r * 10\<rfloor> in show_int (t div 10) @ ''.'' @ show_int (t mod 10))"

definition stuck_message :: "scheduler_settings \<Rightarrow> video_file \<Rightarrow> string" where
  "stuck_message cfg vf =
     ''Stuck in '' @ video_status_value (vf_status vf) @ '' > ''
       @ show_rat1 (stale_threshold_minutes cfg) @ ''m''"

definition mark_stale_videos :: "scheduler_settings \<Rightarrow> nat io" where
  "mark_stale_videos cfg = with_session
     (except_exception
        (bindM (get_stale_videos CREATED (stale_threshold_minutes cfg)) (\<lambda>stale_created.
         bindM (get_stale_videos PROCESSING (stale_threshold_minutes cfg)) (\<lambda>stale_processing.
           let stale = stale_created @ stale_processing
           in if stale = [] then ret 0
              else seqM (forM (\<lambda>vf. bindM (update_status (row_id vf) FAILED (Some (stuck_message cfg vf)))
                                    (\<lambda>_. ret ())) stale)
                     (seqM commit (ret (length stale))))))
        (\<lambda>_. seqM rollback (ret 0)))"

section \<open>Retries\<close>

record target =
  tg_video_id :: int
  tg_storage_uri :: string
  tg_retry_count :: "int option"
  tg_unlimited :: bool

definition target_of :: "video_file \<Rightarrow> target" where
  "target_of vf = \<lparr>tg_video_id = row_id vf, tg_storage_uri = vf_storage_uri vf,
                   tg_retry_count = vf_retry_count vf, tg_unlimited = (vf_retry_count vf = None)\<rparr>"

definition failed_targets :: "scheduler_settings \<Rightarrow> target list io" where
  "failed_targets cfg =
     bindM (get_failed_videos_within_limit (max_retry_attempts cfg)) (\<lambda>limited.
     bindM get_failed_videos_unlimited (\<lambda>unlimited.
       ret (map target_of (limited @ unlimited))))"

definition handle_retry_failure :: "scheduler_settings \<Rightarrow> target \<Rightarrow> exn \<Rightarrow> unit io" where
  "handle_retry_failure cfg t err =
     bindM (repo_get VideoRepo (tg_video_id t)) (\<lambda>x. case x of
         None \<Rightarrow> ret ()
       | Some vf \<Rightarrow>
           (if tg_unlimited t \<or> is_retriable_without_limit err
            then (if \<not> tg_unlimited t
                  then bindM (mark_unlimited_retry (tg_video_id t)) (\<lambda>_. commit)
                  else ret ())
            else if max_retry_attempts cfg \<le> or_else (vf_retry_count vf) 0
            then bindM (mark_permanently_failed (failed_videos_folder cfg) (tg_video_id t) INVALID)
                   (\<lambda>_. commit)
            else ret ()))"

definition process_single ::
  "worker \<Rightarrow> visit_settings \<Rightarrow> (world \<Rightarrow> world) \<Rightarrow> scheduler_settings \<Rightarrow> target \<Rightarrow> unit io" where
  "process_single worker vcfg env cfg t = with_session
     (except_exception
        (process_video_with_error_handling worker vcfg env (tg_video_id t) (tg_storage_uri t) True)
        (\<lambda>exc. handle_retry_failure cfg t exc))"

text \<open>\<open>asyncio.gather(..., return_exceptions=True)\<close>: what a task raises is dropped.\<close>

definition swallow :: "unit io \<Rightarrow> unit io" where
  "swallow m = tryM m (\<lambda>_. ret ())"

definition process_failed_videos ::
  "worker \<Rightarrow> visit_settings \<Rightarrow> (world \<Rightarrow> world) \<Rightarrow> scheduler_settings \<Rightarrow> nat io" where
  "process_failed_videos worker vcfg env cfg =
     bindM (with_session (except_exception (failed_targets cfg) (\<lambda>_. ret []))) (\<lambda>targets.
       if targets = [] then ret 0
       else seqM (forM (\<lambda>t. swallow (process_single worker vcfg env cfg t)) targets)
              (ret (length targets)))"

definition tick ::
  "worker \<Rightarrow> visit_settings \<Rightarrow> (world \<Rightarrow> world) \<Rightarrow> scheduler_settings \<Rightarrow> (nat \<times> nat) io" where
  "tick worker vcfg env cfg =
     bindM (mark_stale_videos cfg) (\<lambda>stale_count.
     bindM (process_failed_videos worker vcfg env cfg) (\<lambda>retried_count.
       ret (stale_count, retried_count)))"

section \<open>The life of the scheduler\<close>

datatype task = Running | Cancelled

record scheduler =
  sc_running :: bool
  sc_task :: "task option"
  sc_semaphore :: "nat option"

definition new_scheduler :: scheduler where
  "new_scheduler = \<lparr>sc_running = False, sc_task = None, sc_semaphore = None\<rparr>"

definition sem :: "scheduler_settings \<Rightarrow> scheduler \<Rightarrow> nat \<times> scheduler" where
  "sem cfg s =
     (case sc_semaphore s of
        Some n \<Rightarrow> (n, s)
      | None \<Rightarrow> (max_concurrent_requests cfg, s\<lparr>sc_semaphore := Some (max_concurrent_requests cfg)\<rparr>))"

definition start :: "scheduler_settings \<Rightarrow> scheduler \<Rightarrow> scheduler" where
  "start cfg s =
     (if \<not> scheduler_activate cfg then s
      else if sc_running s then s
      else s\<lparr>sc_running := True, sc_task := Some Running\<rparr>)"

definition stop :: "scheduler \<Rightarrow> scheduler" where
  "stop s =
     (if \<not> sc_running s then s
      else s\<lparr>sc_running := False, sc_task := map_option (\<lambda>_. Cancelled) (sc_task s)\<rparr>)"

definition loop_interval :: "scheduler_settings \<Rightarrow> rat" where
  "loop_interval cfg = max (retry_interval_minutes cfg * 60) 1"

text \<open>One turn of \<open>_run_loop\<close>: an error of the tick is logged, a cancellation ends the loop.\<close>

definition run_loop_turn ::
  "worker \<Rightarrow> visit_settings \<Rightarrow> (world \<Rightarrow> world) \<Rightarrow> scheduler_settings \<Rightarrow> bool io" where
  "run_loop_turn worker vcfg env cfg =
     tryM (bindM (tick worker vcfg env cfg) (\<lambda>_. ret True)) (\<lambda>e. ret (exn_class e \<noteq> CancelledErr))"

text \<open>\<open>_visit_stale_check_loop\<close> of \<open>main.py\<close>, one turn after the sleep.\<close>

definition stale_check_interval :: "visit_settings \<Rightarrow> rat" where
  "stale_check_interval vcfg = max (stale_check_interval_seconds vcfg) (1 / 2)"

definition visit_stale_check_turn :: "visit_settings \<Rightarrow> bool io" where
  "visit_stale_check_turn vcfg =
     tryM (bindM (with_session (check_stale_visits vcfg)) (\<lambda>_. ret True))
       (\<lambda>e. ret (exn_class e \<noteq> CancelledErr))"

text \<open>The startup part of \<open>lifespan\<close>: recovery before the tasks start.\<close>

definition lifespan_startup :: "visit_settings \<Rightarrow> scheduler_settings \<Rightarrow> scheduler \<Rightarrow> scheduler io" where
  "lifespan_startup vcfg cfg s =
     bindM (with_session (recover_open_visits vcfg)) (\<lambda>_. ret (start cfg s))"

definition lifespan_shutdown :: "scheduler \<Rightarrow> scheduler" where
  "lifespan_shutdown s = stop s"

section \<open>The scheduler is a switch\<close>

definition scheduler_inv :: "scheduler \<Rightarrow> bool" where
  "scheduler_inv s \<longleftrightarrow> (sc_running s \<longleftrightarrow> sc_task s = Some Running)"

inductive sched_step :: "scheduler_settings \<Rightarrow> scheduler \<Rightarrow> scheduler \<Rightarrow> bool" for cfg where
  start: "sched_step cfg s (start cfg s)"
| stop: "sched_step cfg s (stop s)"
| use: "sched_step cfg s (snd (sem cfg s))"

inductive_cases sched_step_cases: "sched_step cfg s s'"

lemma scheduler_inv_step: "sched_step cfg s s' \<Longrightarrow> scheduler_inv s \<Longrightarrow> scheduler_inv s'"
  by (erule sched_step_cases) (auto simp: scheduler_inv_def start_def stop_def sem_def split: option.splits)

lemma scheduler_inv_reachable:
  "(sched_step cfg)\<^sup>*\<^sup>* s s' \<Longrightarrow> scheduler_inv s \<Longrightarrow> scheduler_inv s'"
  by (induction rule: rtranclp_induct) (auto intro: scheduler_inv_step)

lemma scheduler_inv_new: "scheduler_inv new_scheduler"
  by (simp add: scheduler_inv_def new_scheduler_def)

end
