(* ===== verification/VideoProperties.thy ===== *)
theory VideoProperties
  imports VideoService VisitTables Sample
begin

text \<open>
  The properties of \<open>VideoService\<close>: registration with its refusals, retries, the sentinel of an edge
  camera, and the lemmas on writing the video table that they share.
\<close>

section \<open>Writes to the video table\<close>

lemma consistent_videos:
  assumes "consistent d"
    and "stations d' = stations d" "tractors d' = tractors d" "events d' = events d" "visits d' = visits d"
    and "table_wf (videos d')" and "set (table_ids (videos d)) \<subseteq> set (table_ids (videos d'))"
    and "\<And>v. v \<in> set (tbl_rows (videos d')) \<Longrightarrow> video_row_ok v \<and> fk_opt (stations d) (vf_station_id v)"
    and "distinct (map vf_content_hash (tbl_rows (videos d')))"
  shows "consistent d'"
proof -
  have "events_ok d'"
    using assms(1,3,4,7) by (auto simp: consistent_def db_ok_def events_ok_def list_all_iff fk_def)
  moreover have "videos_ok d'"
    using assms(2,8,9) by (simp add: videos_ok_def list_all_iff)
  moreover have "visits_ok d'"
    using assms(1-5) by (simp add: consistent_def db_ok_def visits_ok_def visit_fks_def)
  ultimately show ?thesis
    using assms(1-6) by (simp add: consistent_def db_wf_def db_ok_def stations_ok_def tractors_ok_def)
qed

lemma video_facts:
  assumes "consistent d"
  shows "table_wf (videos d)" "distinct (map vf_content_hash (tbl_rows (videos d)))"
    "v \<in> set (tbl_rows (videos d)) \<Longrightarrow> video_row_ok v"
    "v \<in> set (tbl_rows (videos d)) \<Longrightarrow> fk_opt (stations d) (vf_station_id v)"
  using assms by (auto simp: consistent_def db_wf_def db_ok_def videos_ok_def list_all_iff)

lemma video_stamp_simps [simp]:
  "video_row_ok (v\<lparr>updated_at := u\<rparr>) = video_row_ok v"
  "video_row_ok (v\<lparr>created_at := u\<rparr>) = video_row_ok v"
  "video_row_ok (v\<lparr>row_id := i\<rparr>) = video_row_ok v"
  by (simp_all add: video_checks)

lemma touch_video:
  fixes v v' :: video_file
  shows "video_row_ok (touch now v v') = video_row_ok v'"
    "vf_station_id (touch now v v') = vf_station_id v'" "vf_content_hash (touch now v v') = vf_content_hash v'"
    "vf_status (touch now v v') = vf_status v'" "vf_started_at (touch now v v') = vf_started_at v'"
    "vf_ended_at (touch now v v') = vf_ended_at v'" "vf_retry_count (touch now v v') = vf_retry_count v'"
    "vf_storage_uri (touch now v v') = vf_storage_uri v'" "vf_error_message (touch now v v') = vf_error_message v'"
  by (simp_all add: touch_def)

lemma stamp_new_video:
  fixes v :: video_file
  shows "video_row_ok (stamp_new now i v) = video_row_ok v"
    "vf_station_id (stamp_new now i v) = vf_station_id v" "vf_content_hash (stamp_new now i v) = vf_content_hash v"
    "vf_status (stamp_new now i v) = vf_status v" "vf_started_at (stamp_new now i v) = vf_started_at v"
    "vf_ended_at (stamp_new now i v) = vf_ended_at v" "vf_retry_count (stamp_new now i v) = vf_retry_count v"
    "vf_storage_uri (stamp_new now i v) = vf_storage_uri v"
  by (simp_all add: stamp_new_def)

text \<open>Changing a stored video by an operation that keeps its key and its hash.\<close>

lemma consistent_put_video:
  assumes c: "consistent d" and get: "table_get (videos d) i = Some v"
    and f: "\<And>r. row_id (f r) = row_id r" "\<And>r. vf_content_hash (f r) = vf_content_hash r"
    and ok: "video_row_ok (f v)" "fk_opt (stations d) (vf_station_id (f v))"
  shows "consistent (videos_update (table_update now i f) d)"
proof -
  have v: "v \<in> set (tbl_rows (videos d))" "row_id v = i" using get by (auto dest: table_get_Some)
  have only: "r = v" if "r \<in> set (tbl_rows (videos d))" "row_id r = i" for r
    using row_unique [OF video_facts(1) [OF c] that(1) v(1)] that(2) v(2) by simp
  let ?g = "\<lambda>r. if row_id r = i then touch now r (f r) else r"
  have rows: "tbl_rows (table_update now i f (videos d)) = map ?g (tbl_rows (videos d))"
    by (simp add: table_update_def)
  show ?thesis
  proof (rule consistent_videos [OF c])
    show "table_wf (videos (videos_update (table_update now i f) d))"
      using tab.wf_change [OF video_facts(1) [OF c] f(1)] by simp
    have "map vf_content_hash (map ?g (tbl_rows (videos d))) = map vf_content_hash (tbl_rows (videos d))"
      by (simp add: touch_video f)
    then show "distinct (map vf_content_hash (tbl_rows (videos (videos_update (table_update now i f) d))))"
      using video_facts(2) [OF c] by (simp add: rows del: map_map map_eq_conv)
    fix r
    assume "r \<in> set (tbl_rows (videos (videos_update (table_update now i f) d)))"
    then obtain r' where r': "r' \<in> set (tbl_rows (videos d))" "r = ?g r'" by (auto simp: rows)
    then show "video_row_ok r \<and> fk_opt (stations d) (vf_station_id r)"
      using only [OF r'(1)] ok video_facts(3,4) [OF c r'(1)] by (cases "row_id r' = i") (simp_all add: touch_video)
  qed (simp_all add: f(1))
qed

lemma put_video_run:
  assumes "consistent (working w)" and "table_get (videos (working w)) i = Some v"
    and "\<And>r. row_id (f r) = row_id r" "\<And>r. vf_content_hash (f r) = vf_content_hash r"
    and "video_row_ok (f v)" "fk_opt (stations (working w)) (vf_station_id (f v))"
  obtains w' where "repo_update VideoRepo i f w = (Inr (touch (txn_now w) v (f v)), w')"
    "consistent (working w')" "w' = w\<lparr>working := videos_update (table_update (txn_now w) i f) (working w)\<rparr>"
proof -
  let ?w = "w\<lparr>working := videos_update (table_update (txn_now w) i f) (working w)\<rparr>"
  have c: "consistent (working ?w)"
    using consistent_put_video [OF assms(1-3,4,5,6)] by simp
  moreover have "db_wf (working w)" using assms(1) by (simp add: consistent_def)
  ultimately have "repo_update VideoRepo i f w = (Inr (touch (txn_now w) v (f v)), ?w)"
    using video_model.repo_update_run [of w f i v] assms(2,3) by (simp add: Let_def consistent_def)
  then show ?thesis using c by (intro that [of ?w]) simp_all
qed

text \<open>Inserting a video whose hash is new.\<close>

lemma add_video_run:
  assumes c: "consistent (working w)" and ok: "video_row_ok v" "fk_opt (stations (working w)) (vf_station_id v)"
    and new: "vf_content_hash v \<notin> vf_content_hash ` set (tbl_rows (videos (working w)))"
  obtains w' where
    "repo_create VideoRepo v w = (Inr (stamp_new (txn_now w) (tbl_seq (videos (working w))) v), w')"
    "consistent (working w')"
    "w' = w\<lparr>working := videos_update (\<lambda>_. snd (table_insert (txn_now w) v (videos (working w)))) (working w)\<rparr>"
proof -
  let ?t = "videos (working w)"
  let ?d = "videos_update (\<lambda>_. snd (table_insert (txn_now w) v (videos (working w)))) (working w)"
  have c': "consistent ?d"
    using video_facts [OF c] ok new tab.wf_add [OF video_facts(1) [OF c], of "txn_now w" v]
    by (intro consistent_videos [OF c])
       (auto simp: table_insert_def table_ids_def stamp_new_video)
  have get: "table_get (videos ?d) (tbl_seq ?t) = Some (stamp_new (txn_now w) (tbl_seq ?t) v)"
    using table_get_insert [OF video_facts(1) [OF c], of "txn_now w" v "tbl_seq ?t"] by simp
  have "repo_create VideoRepo v w = (Inr (stamp_new (txn_now w) (tbl_seq ?t) v), w\<lparr>working := ?d\<rparr>)"
    using get consistentD(2) [OF c']
    by (simp add: repo_create_def video_model.add_row_run Let_def flush_def refresh_def repo_get_def
        bindM_run seqM_def)
  then show ?thesis using c' by (intro that [of "w\<lparr>working := ?d\<rparr>"]) simp_all
qed

lemma create_video_Inr:
  assumes c: "consistent (working w)" and run: "repo_create VideoRepo v w = (Inr r, w')"
  shows "r = stamp_new (txn_now w) (tbl_seq (videos (working w))) v"
    "r \<in> set (tbl_rows (videos (working w')))" "files w' = files w"
proof -
  let ?r = "stamp_new (txn_now w) (tbl_seq (videos (working w))) v"
  let ?w = "w\<lparr>working := videos_update (\<lambda>_. snd (table_insert (txn_now w) v (videos (working w)))) (working w)\<rparr>"
  have get: "table_get (videos (working ?w)) (tbl_seq (videos (working w))) = Some ?r"
    using table_get_insert [OF video_facts(1) [OF c], of "txn_now w" v] by simp
  then have "r = ?r \<and> w' = ?w"
    using run by (simp add: repo_create_def video_model.add_row_run Let_def flush_def refresh_def repo_get_def
        bindM_run seqM_def split: if_splits)
  then show "r = ?r" "r \<in> set (tbl_rows (videos (working w')))" "files w' = files w"
    by (simp_all add: table_insert_def)
qed

lemma get_by_hash_run:
  assumes "consistent (working w)"
  shows "get_by_hash h w = (Inr x, w) \<longleftrightarrow>
    (case x of None \<Rightarrow> h \<notin> vf_content_hash ` set (tbl_rows (videos (working w)))
     | Some v \<Rightarrow> v \<in> set (tbl_rows (videos (working w))) \<and> vf_content_hash v = h)"
proof -
  have "first_or_none (filter (\<lambda>v. vf_content_hash v = h) vs) = find (\<lambda>v. vf_content_hash v = h) vs" for vs
    by (induction vs) (auto simp: first_or_none_def)
  then have run: "get_by_hash h w = (Inr (find (\<lambda>v. vf_content_hash v = h) (tbl_rows (videos (working w)))), w)"
    by (simp add: get_by_hash_def)
  have "find (\<lambda>v. vf_content_hash v = h) vs = Some v \<longleftrightarrow> v \<in> set vs \<and> vf_content_hash v = h"
    if "distinct (map vf_content_hash vs)" for vs v
    using that by (induction vs) auto
  then show ?thesis
    using video_facts(2) [OF assms] unfolding run
    by (cases x) (auto simp: find_None_iff)
qed


section \<open>Registering a video\<close>

text \<open>What a successful registration stores.\<close>

definition registered :: "'h hasher \<Rightarrow> string \<Rightarrow> datetime \<Rightarrow> datetime \<Rightarrow> int option \<Rightarrow> world \<Rightarrow> video_file \<Rightarrow> bool" where
  "registered H uri s e st w v \<longleftrightarrow>
     vf_status v = CREATED \<and> vf_retry_count v = Some 0 \<and> vf_station_id v = st
     \<and> vf_started_at v = Naive (utc_us s) \<and> vf_ended_at v = Naive (utc_us e)
     \<and> vf_storage_uri v = path_str uri
     \<and> (\<exists>bytes. files w (path_str uri) = Some bytes \<and> vf_content_hash v = hash_large_file H 65536 bytes)
     \<and> row_id v = tbl_seq (videos (working w))"

lemma create_new_run:
  assumes c: "consistent (working w)" and t: "utc_us s < utc_us e"
    and f: "files w (path_str uri) = Some bytes"
    and new: "hash_large_file H 65536 bytes \<notin> vf_content_hash ` set (tbl_rows (videos (working w)))"
    and st: "fk_opt (stations (working w)) st"
    and dur: "case m_duration m of None \<Rightarrow> True | Some d \<Rightarrow> 0 < d"
  obtains v w' where "create_and_commit H uri s e st m w = (Inr v, w')" "consistent (working w')"
    "registered H uri s e st w v" "v \<in> set (tbl_rows (videos (working w')))" "files w' = files w"
proof -
  let ?v = "with_media m (new_video st (path_str uri) (hash_large_file H 65536 bytes)
    (to_naive_utc s) (to_naive_utc e) CREATED)"
  have v: "video_row_ok ?v" "fk_opt (stations (working w)) (vf_station_id ?v)" "vf_content_hash ?v = hash_large_file H 65536 bytes"
    using t dur st by (simp_all add: video_checks with_media_def new_video_def)
  obtain w' where w': "repo_create VideoRepo ?v w = (Inr (stamp_new (txn_now w) (tbl_seq (videos (working w))) ?v), w')"
    "consistent (working w')"
    "w' = w\<lparr>working := videos_update (\<lambda>_. snd (table_insert (txn_now w) ?v (videos (working w)))) (working w)\<rparr>"
    by (rule add_video_run [OF c v(1,2)]) (use new v(3) in simp)
  have "get_by_hash (hash_large_file H 65536 bytes) w = (Inr None, w)"
    using new by (simp add: get_by_hash_run [OF c])
  then have "create_and_commit H uri s e st m w = (Inr (stamp_new (txn_now w) (tbl_seq (videos (working w))) ?v), w')"
    using t f w'(1) by (simp add: create_and_commit_def Let_def)
  moreover have "registered H uri s e st w (stamp_new (txn_now w) (tbl_seq (videos (working w))) ?v)"
    using f by (simp add: registered_def stamp_new_video with_media_def new_video_def to_naive_utc_eq stamp_new_def)
  ultimately show ?thesis
    by (rule that [OF _ w'(2)]) (simp_all add: w'(3) table_insert_def)
qed

text \<open>
  C14: Registering a video: an empty or reversed time window and a missing file are refused
  with 422, a file whose content hash is known is refused with 406 naming the existing video,
  and otherwise a CREATED row with that hash and the UTC window is stored in a database that
  satisfies its constraints.
\<close>

theorem create_and_commit_outcome:
  assumes "consistent (working w)" and "fk_opt (stations (working w)) st"
  shows "(utc_us e \<le> utc_us s \<longrightarrow>
       create_and_commit H uri s e st no_media w = (Inl (http_422 ''started_at must be < ended_at''), w))
    \<and> (utc_us s < utc_us e \<and> files w (path_str uri) = None \<longrightarrow>
       create_and_commit H uri s e st no_media w = (Inl (http_422 (''Video file does not exist: '' @ uri)), w))
    \<and> (\<forall>bytes v. utc_us s < utc_us e \<and> files w (path_str uri) = Some bytes
         \<and> v \<in> set (tbl_rows (videos (working w))) \<and> vf_content_hash v = hash_large_file H 65536 bytes \<longrightarrow>
       create_and_commit H uri s e st no_media w = (Inl (duplicate_error v), w))
    \<and> (\<forall>bytes. utc_us s < utc_us e \<and> files w (path_str uri) = Some bytes
         \<and> hash_large_file H 65536 bytes \<notin> vf_content_hash ` set (tbl_rows (videos (working w))) \<longrightarrow>
       (\<exists>v w'. create_and_commit H uri s e st no_media w = (Inr v, w') \<and> consistent (working w')
          \<and> registered H uri s e st w v \<and> v \<in> set (tbl_rows (videos (working w')))))"
proof (intro conjI impI allI)
  show "create_and_commit H uri s e st no_media w = (Inl (duplicate_error v), w)"
    if "utc_us s < utc_us e \<and> files w (path_str uri) = Some bytes
         \<and> v \<in> set (tbl_rows (videos (working w))) \<and> vf_content_hash v = hash_large_file H 65536 bytes" for bytes v
  proof -
    have "get_by_hash (hash_large_file H 65536 bytes) w = (Inr (Some v), w)"
      using that by (simp add: get_by_hash_run [OF assms(1)])
    then show ?thesis using that by (simp add: create_and_commit_def Let_def)
  qed
  show "\<exists>v w'. create_and_commit H uri s e st no_media w = (Inr v, w') \<and> consistent (working w')
          \<and> registered H uri s e st w v \<and> v \<in> set (tbl_rows (videos (working w')))"
    if "utc_us s < utc_us e \<and> files w (path_str uri) = Some bytes
         \<and> hash_large_file H 65536 bytes \<notin> vf_content_hash ` set (tbl_rows (videos (working w)))" for bytes
    by (rule create_new_run [of w s e uri bytes H st no_media])
       (use that assms in \<open>auto simp: no_media_def\<close>)
qed (simp_all add: create_and_commit_def Let_def)

text \<open>A toy hash: the digest is the content itself.\<close>

definition plain_hasher :: "string hasher" where
  "plain_hasher = \<lparr>h_init = [], h_update = (@), h_digest = (\<lambda>h. h)\<rparr>"

lemma plain_incremental: "incremental plain_hasher"
  by (simp add: incremental_def plain_hasher_def)

lemma plain_hash: "hash_large_file plain_hasher 65536 s = s"
  by (simp add: hash_large_file_eq [OF plain_incremental]) (simp add: plain_hasher_def)

definition with_file :: "string \<Rightarrow> string \<Rightarrow> world \<Rightarrow> world" where
  "with_file p bytes w = w\<lparr>files := (files w)(path_str p := Some bytes)\<rparr>"

lemma empty_plant_consistent: "consistent (plant [])"
  by code_simp

lemma with_file_working [simp]: "working (with_file p b w) = working w" "committed (with_file p b w) = committed w"
  by (simp_all add: with_file_def)

theorem create_and_commit_outcome_witness:
  "\<exists>v w'. create_and_commit plain_hasher ''/videos/b.mp4'' (Naive 5) (Aware 9 0) (Some 1) no_media
       (with_file ''/videos/b.mp4'' ''bytes'' (world_of (plant []))) = (Inr v, w')
     \<and> consistent (working w') \<and> v \<in> set (tbl_rows (videos (working w')))"
proof -
  let ?w = "with_file ''/videos/b.mp4'' ''bytes'' (world_of (plant []))"
  have st: "fk_opt (stations (plant [])) (Some 1)" by code_simp
  have f: "files ?w (path_str ''/videos/b.mp4'') = Some ''bytes''" by (simp add: with_file_def)
  have "hash_large_file plain_hasher 65536 ''bytes'' \<notin> vf_content_hash ` set (tbl_rows (videos (plant [])))"
    by (simp add: plain_hash plant_def vf1_def)
  then show ?thesis
    using create_and_commit_outcome [of ?w "Some 1" "Aware 9 0" "Naive 5" plain_hasher "''/videos/b.mp4''"]
      empty_plant_consistent st f by auto
qed

text \<open>A file whose content was registered is refused whatever its path and time window.\<close>

lemma registering_twice_is_refused:
  assumes "consistent (working w)"
    and "create_and_commit H uri s e st m w = (Inr v, w')" and "consistent (working w')"
    and "path_str uri' \<in> dom (files w)" and "files w (path_str uri') = files w (path_str uri)"
    and "utc_us s' < utc_us e'"
  shows "create_and_commit H uri' s' e' st' m' w' = (Inl (duplicate_error v), w')"
proof -
  obtain bytes where b: "files w (path_str uri) = Some bytes" "files w (path_str uri') = Some bytes"
    using assms(4,5) by (cases "files w (path_str uri)") auto
  from assms(2) b(1) have run: "repo_create VideoRepo (with_media m (new_video st (path_str uri)
      (hash_large_file H 65536 bytes) (to_naive_utc s) (to_naive_utc e) CREATED)) w = (Inr v, w')"
    by (auto simp: create_and_commit_def Let_def bindM_eq_Inr get_by_hash_def split: if_splits option.splits)
  have hash: "vf_content_hash v = hash_large_file H 65536 bytes" "v \<in> set (tbl_rows (videos (working w')))"
    "files w' = files w"
    using create_video_Inr [OF assms(1) run] by (simp_all add: stamp_new_video with_media_def new_video_def)
  have "get_by_hash (hash_large_file H 65536 bytes) w' = (Inr (Some v), w')"
    using hash by (simp add: get_by_hash_run [OF assms(3)])
  then show ?thesis
    using assms(6) b(2) hash(3) by (simp add: create_and_commit_def Let_def)
qed


lemma registering_twice_is_refused_witness:
  "\<exists>v w'. create_and_commit plain_hasher ''/videos/b.mp4'' (Naive 5) (Naive 9) (Some 1) no_media
       (with_file ''/videos/b.mp4'' ''bytes'' (world_of (plant []))) = (Inr v, w')
     \<and> create_and_commit plain_hasher ''/videos//b.mp4'' (Naive 6) (Naive 7) None no_media w'
       = (Inl (duplicate_error v), w')"
proof -
  let ?w = "with_file ''/videos/b.mp4'' ''bytes'' (world_of (plant []))"
  have st: "fk_opt (stations (plant [])) (Some 1)" by code_simp
  have f: "files ?w (path_str ''/videos/b.mp4'') = Some ''bytes''" by (simp add: with_file_def)
  have p: "path_str ''/videos//b.mp4'' = path_str ''/videos/b.mp4''" by code_simp
  have c: "consistent (working ?w)" using empty_plant_consistent by simp
  obtain v w' where 1: "create_and_commit plain_hasher ''/videos/b.mp4'' (Naive 5) (Naive 9) (Some 1) no_media ?w = (Inr v, w')"
    "consistent (working w')"
    by (rule create_new_run [OF c _ f, of "Naive 5" "Naive 9" plain_hasher "Some 1" no_media])
       (use st in \<open>simp_all add: plain_hash no_media_def, simp add: plant_def vf1_def\<close>)
  have "create_and_commit plain_hasher ''/videos//b.mp4'' (Naive 6) (Naive 7) None no_media w' = (Inl (duplicate_error v), w')"
    by (rule registering_twice_is_refused [OF c 1]) (use f p in \<open>auto simp: dom_def\<close>)
  with 1(1) show ?thesis by blast
qed

section \<open>Status and retries\<close>

text \<open>
  C21: Marking a video for unlimited retries always raises IntegrityError, because retry_count
  is NOT NULL, and after the rollback the videos are as committed.
\<close>

theorem mark_unlimited_retry_always_fails:
  assumes "db_wf (working w)" and "table_get (videos (working w)) i = Some v"
  shows "fst (mark_unlimited_retry i w) = Inl integrity_error
    \<and> tbl_rows (videos (working (snd (seqM rollback (ret ()) (snd (mark_unlimited_retry i w))))))
        = tbl_rows (videos (committed w))"
proof -
  let ?f = "\<lambda>v. v\<lparr>vf_retry_count := None\<rparr>"
  let ?w = "w\<lparr>working := videos_update (table_update (txn_now w) i ?f) (working w)\<rparr>"
  have "touch (txn_now w) v (?f v) \<in> set (tbl_rows (videos (working ?w)))"
    using table_get_Some [OF assms(2)] by (force simp: table_update_def)
  moreover have "\<not> video_row_ok (touch (txn_now w) v (?f v))"
    by (simp add: touch_video video_checks)
  ultimately have "\<not> db_ok (working ?w)"
    by (auto simp: db_ok_def videos_ok_def list_all_iff)
  then have "mark_unlimited_retry i w = (Inl integrity_error, ?w)"
    using video_model.repo_update_by_id_run [OF assms(1) _ , of ?f i v] assms(2)
    by (simp add: mark_unlimited_retry_def Let_def)
  then show ?thesis by (simp add: rollback_def)
qed

theorem mark_unlimited_retry_always_fails_witness:
  "fst (mark_unlimited_retry 1 (world_of (plant []))) = Inl integrity_error"
proof -
  have "db_wf (plant [])" by code_simp
  moreover have "table_get (videos (plant [])) 1 = Some vf1" by (simp add: plant_def table_get_def vf1_def)
  ultimately show ?thesis
    using mark_unlimited_retry_always_fails [of "world_of (plant [])" 1 vf1] by simp
qed

lemma no_unlimited_videos:
  "consistent (working w) \<Longrightarrow> get_failed_videos_unlimited w = (Inr [], w)"
  using video_facts(3) [of "working w"]
  by (auto simp: get_failed_videos_unlimited_def filter_empty_conv video_row_ok_def)

section \<open>The edge sentinel\<close>

definition sentinel_at :: "'h hasher \<Rightarrow> string \<Rightarrow> db \<Rightarrow> video_file option" where
  "sentinel_at H code d = find (\<lambda>v. vf_content_hash v = edge_sentinel_hash H code) (tbl_rows (videos d))"

lemma sentinel_at_Some:
  assumes "consistent d"
  shows "sentinel_at H code d = Some v \<longleftrightarrow>
    v \<in> set (tbl_rows (videos d)) \<and> vf_content_hash v = edge_sentinel_hash H code"
proof -
  have "find (\<lambda>v. vf_content_hash v = h) vs = Some v \<longleftrightarrow> v \<in> set vs \<and> vf_content_hash v = h"
    if "distinct (map vf_content_hash vs)" for vs h
    using that by (induction vs) auto
  then show ?thesis using video_facts(2) [OF assms] by (simp add: sentinel_at_def)
qed

definition other_tables :: "db \<Rightarrow> db \<Rightarrow> bool" where
  "other_tables d d' \<longleftrightarrow>
     stations d' = stations d \<and> tractors d' = tractors d \<and> events d' = events d \<and> visits d' = visits d"

text \<open>The videos that are not the sentinel of a code.\<close>

definition other_videos :: "'h hasher \<Rightarrow> string \<Rightarrow> db \<Rightarrow> video_file list" where
  "other_videos H code d = filter (\<lambda>v. vf_content_hash v \<noteq> edge_sentinel_hash H code) (tbl_rows (videos d))"

lemma filter_map_unseen:
  "(\<And>x. x \<in> set xs \<Longrightarrow> g x = x \<or> \<not> P x \<and> \<not> P (g x)) \<Longrightarrow> filter P (map g xs) = filter P xs"
  by (induction xs) force+

lemma other_videos_update:
  assumes c: "consistent d" and v0: "v0 \<in> set (tbl_rows (videos d))" "vf_content_hash v0 = edge_sentinel_hash H code"
    and f: "\<And>v. row_id (f v) = row_id v" "\<And>v. vf_content_hash (f v) = vf_content_hash v"
  shows "other_videos H code (videos_update (table_update now (row_id v0) f) d) = other_videos H code d"
proof -
  have eq: "r = v0" if "r \<in> set (tbl_rows (videos d))" "row_id r = row_id v0" for r
    using trans [OF sym [OF table_get_in [OF video_facts(1) [OF c] v0(1)]]
        table_get_in [OF video_facts(1) [OF c] that(1), unfolded that(2)]] by simp
  let ?g = "\<lambda>r. if row_id r = row_id v0 then touch now r (f r) else r"
  have hash: "vf_content_hash (touch now v0 (f v0)) = edge_sentinel_hash H code" using v0(2) f(2) by (simp add: touch_def)
  have "?g r = r \<or> \<not> vf_content_hash r \<noteq> edge_sentinel_hash H code \<and> \<not> vf_content_hash (?g r) \<noteq> edge_sentinel_hash H code"
    if "r \<in> set (tbl_rows (videos d))" for r
  proof (cases "row_id r = row_id v0")
    case True
    then have "r = v0" by (rule eq [OF that])
    then show ?thesis using hash v0(2) by simp
  qed simp
  then have "filter (\<lambda>v. vf_content_hash v \<noteq> edge_sentinel_hash H code) (map ?g (tbl_rows (videos d)))
      = filter (\<lambda>v. vf_content_hash v \<noteq> edge_sentinel_hash H code) (tbl_rows (videos d))"
    by (rule filter_map_unseen)
  then show ?thesis by (simp add: other_videos_def table_update_def)
qed

lemma sentinel_run:
  assumes "consistent (working w)" and "fk (stations (working w)) sid" and "utc_us s < utc_us e"
  shows "\<exists>v new w'. get_or_create_edge_sentinel H sid code s e w = (Inr (v, new), w')
    \<and> consistent (working w') \<and> sentinel_at H code (working w') = Some v
    \<and> vf_station_id v = Some sid
    \<and> w' = w\<lparr>working := working w'\<rparr>
    \<and> other_tables (working w) (working w')
    \<and> utc_us (vf_started_at v) \<le> utc_us s \<and> utc_us e \<le> utc_us (vf_ended_at v)
    \<and> (case sentinel_at H code (working w) of
         None \<Rightarrow> new \<and> vf_status v = PROCESSING \<and> row_id v = tbl_seq (videos (working w))
           \<and> vf_storage_uri v = edge_sentinel_uri code
       | Some v0 \<Rightarrow> \<not> new \<and> row_id v = row_id v0 \<and> vf_status v = vf_status v0 \<and> vf_storage_uri v = vf_storage_uri v0
           \<and> utc_us (vf_started_at v) = min (utc_us (vf_started_at v0)) (utc_us s)
           \<and> utc_us (vf_ended_at v) = max (utc_us (vf_ended_at v0)) (utc_us e))
    \<and> other_videos H code (working w') = other_videos H code (working w)"
proof (cases "sentinel_at H code (working w)")
  case None
  let ?v = "new_video (Some sid) (edge_sentinel_uri code) (edge_sentinel_hash H code)
    (to_naive_utc s) (to_naive_utc e) PROCESSING"
  have v: "video_row_ok ?v" "fk_opt (stations (working w)) (vf_station_id ?v)"
    using assms(2,3) by (simp_all add: video_checks new_video_def fk_opt_def)
  have new: "vf_content_hash ?v \<notin> vf_content_hash ` set (tbl_rows (videos (working w)))"
    using None by (auto simp: sentinel_at_def find_None_iff new_video_def)
  obtain w' where w': "repo_create VideoRepo ?v w = (Inr (stamp_new (txn_now w) (tbl_seq (videos (working w))) ?v), w')"
    "consistent (working w')"
    "w' = w\<lparr>working := videos_update (\<lambda>_. snd (table_insert (txn_now w) ?v (videos (working w)))) (working w)\<rparr>"
    by (rule add_video_run [OF assms(1) v new])
  have "get_by_hash (edge_sentinel_hash H code) w = (Inr None, w)"
    using new by (simp add: get_by_hash_run [OF assms(1)] new_video_def)
  moreover have "sentinel_at H code (working w') = Some (stamp_new (txn_now w) (tbl_seq (videos (working w))) ?v)"
    unfolding sentinel_at_Some [OF w'(2)] by (simp add: w'(3) table_insert_def stamp_new_video new_video_def)
  moreover have "other_videos H code (working w') = other_videos H code (working w)"
    by (simp add: other_videos_def w'(3) table_insert_def stamp_new_video new_video_def)
  ultimately show ?thesis
    using w'(1,2,3) assms(3) None
    by (simp add: other_tables_def get_or_create_edge_sentinel_def Let_def stamp_new_video)
       (simp add: new_video_def stamp_new_def, rule exI [of _ True], simp)
next
  case (Some v0)
  let ?f = "extend_window sid (to_naive_utc s) (to_naive_utc e)"
  have v0: "v0 \<in> set (tbl_rows (videos (working w)))" "vf_content_hash v0 = edge_sentinel_hash H code"
    using Some by (simp_all add: sentinel_at_Some [OF assms(1)])
  have get: "table_get (videos (working w)) (row_id v0) = Some v0"
    by (rule table_get_in [OF video_facts(1) [OF assms(1)] v0(1)])
  have ok: "video_row_ok (?f v0)" "fk_opt (stations (working w)) (vf_station_id (?f v0))"
    using video_facts(3) [OF assms(1) v0(1)] assms(2,3)
    by (auto simp: video_checks extend_window_def fk_opt_def later_def earlier_def)
  obtain w' where w': "repo_update VideoRepo (row_id v0) ?f w = (Inr (touch (txn_now w) v0 (?f v0)), w')"
    "consistent (working w')"
    "w' = w\<lparr>working := videos_update (table_update (txn_now w) (row_id v0) ?f) (working w)\<rparr>"
    by (rule put_video_run [where f = ?f, OF assms(1) get _ _ ok]) (simp_all add: extend_window_def)
  have "get_by_hash (edge_sentinel_hash H code) w = (Inr (Some v0), w)"
    using v0 by (simp add: get_by_hash_run [OF assms(1)])
  moreover have "touch (txn_now w) v0 (?f v0) \<in> set (tbl_rows (videos (working w')))"
    using v0(1) by (force simp: w'(3) table_update_def)
  then have "sentinel_at H code (working w') = Some (touch (txn_now w) v0 (?f v0))"
    unfolding sentinel_at_Some [OF w'(2)] using v0(2) by (simp add: touch_video extend_window_def)
  moreover have "other_videos H code (working w') = other_videos H code (working w)"
    using other_videos_update [OF assms(1) v0, of ?f] by (simp add: w'(3) extend_window_def)
  ultimately show ?thesis
    using w'(1,2,3) assms(3) Some
    by (simp add: other_tables_def get_or_create_edge_sentinel_def Let_def touch_video) (simp add: extend_window_def later_def earlier_def, rule exI [of _ False], simp)
qed

text \<open>
  C18: The sentinel of an edge camera: the first batch creates one PROCESSING row for the
  station code, every later batch finds that row and only widens its time window to cover the
  batch.
\<close>

theorem edge_sentinel_is_unique_and_extends:
  assumes "consistent (working w)" and "fk (stations (working w)) sid" and "utc_us s < utc_us e"
  shows "\<exists>v new w'. get_or_create_edge_sentinel H sid code s e w = (Inr (v, new), w')
    \<and> consistent (working w') \<and> sentinel_at H code (working w') = Some v
    \<and> vf_station_id v = Some sid
    \<and> utc_us (vf_started_at v) \<le> utc_us s \<and> utc_us e \<le> utc_us (vf_ended_at v)
    \<and> (case sentinel_at H code (working w) of
         None \<Rightarrow> new \<and> vf_status v = PROCESSING \<and> row_id v = tbl_seq (videos (working w))
       | Some v0 \<Rightarrow> \<not> new \<and> row_id v = row_id v0 \<and> vf_status v = vf_status v0
           \<and> utc_us (vf_started_at v) = min (utc_us (vf_started_at v0)) (utc_us s)
           \<and> utc_us (vf_ended_at v) = max (utc_us (vf_ended_at v0)) (utc_us e))"
  using sentinel_run [OF assms, of H code] by - (elim exE conjE, intro exI conjI, assumption+, simp split: option.splits)

theorem edge_sentinel_is_unique_and_extends_witness:
  "\<exists>v new w'. get_or_create_edge_sentinel plain_hasher 1 ''gate-1'' (Naive 5) (Aware 9 0) (world_of (plant []))
      = (Inr (v, new), w')
    \<and> consistent (working w') \<and> sentinel_at plain_hasher ''gate-1'' (working w') = Some v"
proof -
  have "fk (stations (plant [])) 1" by code_simp
  then show ?thesis
    using edge_sentinel_is_unique_and_extends
      [of "world_of (plant [])" 1 "Naive 5" "Aware 9 0" plain_hasher "''gate-1''"] empty_plant_consistent
    by auto
qed

end
