(* ===== verification/HandlerProperties.thy ===== *)
theory HandlerProperties
  imports Scheduler VideoProperties VisitChecks
begin

text \<open>
  The properties of the video handler and of the retry scheduler: what a failing worker leaves
  behind, the bounded number of retries, the stale pass, the choice of what is retried.
\<close>

section \<open>Runs of the video service\<close>

text \<open>A video without its update stamp.\<close>

definition unstamp :: "video_file \<Rightarrow> video_file" where
  "unstamp v = v\<lparr>updated_at := None\<rparr>"

lemma unstamp_touch [simp]: "unstamp (touch now v v') = unstamp v'"
  by (simp add: unstamp_def touch_def)

lemma unstamp_sel [simp]:
  "vf_status (unstamp v) = vf_status v" "vf_retry_count (unstamp v) = vf_retry_count v"
  "vf_error_message (unstamp v) = vf_error_message v" "vf_station_id (unstamp v) = vf_station_id v"
  "vf_storage_uri (unstamp v) = vf_storage_uri v" "row_id (unstamp v) = row_id v"
  "video_row_ok (unstamp v) = video_row_ok v"
  by (simp_all add: unstamp_def)

definition put_video :: "datetime \<Rightarrow> int \<Rightarrow> (video_file \<Rightarrow> video_file) \<Rightarrow> db \<Rightarrow> db" where
  "put_video now i f = videos_update (table_update now i f)"

lemma put_video_tables [simp]:
  "stations (put_video now i f d) = stations d" "tractors (put_video now i f d) = tractors d"
  "events (put_video now i f d) = events d" "visits (put_video now i f d) = visits d"
  by (simp_all add: put_video_def)

text \<open>\<open>video_is d i u\<close>: the stored video \<open>i\<close> is \<open>u\<close> up to the update stamp.\<close>

definition video_is :: "db \<Rightarrow> int \<Rightarrow> video_file \<Rightarrow> bool" where
  "video_is d i u \<longleftrightarrow> (\<exists>v. table_get (videos d) i = Some v \<and> unstamp v = unstamp u)"

definition keeps_row :: "(video_file \<Rightarrow> video_file) \<Rightarrow> bool" where
  "keeps_row f \<longleftrightarrow> (\<forall>v. row_id (f v) = row_id v \<and> vf_content_hash (f v) = vf_content_hash v
     \<and> vf_station_id (f v) = vf_station_id v \<and> (video_row_ok v \<longrightarrow> video_row_ok (f v))
     \<and> unstamp (f v) = unstamp (f (unstamp v)))"

lemma keeps_row_status: "keeps_row (set_status s m)"
  by (simp add: keeps_row_def set_status_def video_checks unstamp_def split: option.split)

lemma keeps_row_counters: "keeps_row (set_counters a b c)"
  by (auto simp: keeps_row_def set_counters_def set_if_def video_checks unstamp_def split: option.split)

lemma keeps_row_retry: "keeps_row (\<lambda>v. v\<lparr>vf_retry_count := Some n\<rparr>)"
  by (simp add: keeps_row_def video_checks unstamp_def)

lemma keeps_row_uri: "keeps_row (\<lambda>v. v\<lparr>vf_storage_uri := p\<rparr>)"
  by (simp add: keeps_row_def video_checks unstamp_def)

lemma keeps_row_comp: "keeps_row f \<Longrightarrow> keeps_row g \<Longrightarrow> keeps_row (\<lambda>v. f (g v))"
  unfolding keeps_row_def by metis

lemma video_is_cong: "video_is d i u \<Longrightarrow> unstamp u = unstamp u' \<Longrightarrow> video_is d i u'"
  by (auto simp: video_is_def)

lemma put_run:
  assumes c: "consistent (working w)" and v: "video_is (working w) i u" and f: "keeps_row f"
  obtains v' where "repo_update VideoRepo i f w = (Inr v', w\<lparr>working := put_video (txn_now w) i f (working w)\<rparr>)"
    "repo_update_by_id VideoRepo i f w = (Inr v', w\<lparr>working := put_video (txn_now w) i f (working w)\<rparr>)"
    "consistent (put_video (txn_now w) i f (working w))"
    "video_is (put_video (txn_now w) i f (working w)) i (f u)"
proof -
  obtain v where get: "table_get (videos (working w)) i = Some v" and vu: "unstamp v = unstamp u"
    using v by (auto simp: video_is_def)
  have v_in: "v \<in> set (tbl_rows (videos (working w)))" using get by (auto dest: table_get_Some)
  have f1: "\<And>r. row_id (f r) = row_id r" "\<And>r. vf_content_hash (f r) = vf_content_hash r"
    using f by (simp_all add: keeps_row_def)
  have ok: "video_row_ok (f v)" "fk_opt (stations (working w)) (vf_station_id (f v))"
    using f video_facts(3,4) [OF c v_in] by (simp_all add: keeps_row_def)
  obtain w' where w': "repo_update VideoRepo i f w = (Inr (touch (txn_now w) v (f v)), w')"
    "consistent (working w')" "w' = w\<lparr>working := videos_update (table_update (txn_now w) i f) (working w)\<rparr>"
    by (rule put_video_run [where f = f, OF c get f1 ok])
  have "table_get (videos (put_video (txn_now w) i f (working w))) i = Some (touch (txn_now w) v (f v))"
    using tab.lookup_change [OF video_facts(1) [OF c], of f "txn_now w" i i] f1 get by (simp add: put_video_def)
  moreover have "unstamp (f v) = unstamp (f u)"
    using f vu unfolding keeps_row_def by metis
  ultimately have "video_is (put_video (txn_now w) i f (working w)) i (f u)"
    by (simp add: video_is_def)
  then show ?thesis
    using w' get by (intro that) (simp_all add: put_video_def repo_update_by_id_def repo_get_def bindM_run)
qed

lemma get_video_run:
  assumes "video_is (working w) i u"
  obtains v where "repo_get VideoRepo i w = (Inr (Some v), w)" "unstamp v = unstamp u"
  using assms by (auto simp: video_is_def repo_get_def)

lemma video_is_regenerate [simp]: "video_is (regenerate d) i u = video_is d i u"
  by (simp add: video_is_def)

lemma video_is_rewind [simp]: "video_is (rewind c d) i u = video_is c i u"
  by (simp add: video_is_def table_get_def)

lemma consistent_rewind: "consistent c \<Longrightarrow> consistent (rewind c d)"
  by (simp add: consistent_def db_wf_rewind)

lemma update_status_run:
  assumes "consistent (working w)" and "video_is (working w) i u"
  obtains v' w' where "update_status i s m w = (Inr v', w')" "consistent (working w')"
    "video_is (working w') i (set_status s m u)" "committed w' = committed w"
    "w' = w\<lparr>working := put_video (txn_now w) i (set_status s m) (working w)\<rparr>"
proof -
  obtain v' where "repo_update_by_id VideoRepo i (set_status s m) w =
      (Inr v', w\<lparr>working := put_video (txn_now w) i (set_status s m) (working w)\<rparr>)"
    "consistent (put_video (txn_now w) i (set_status s m) (working w))"
    "video_is (put_video (txn_now w) i (set_status s m) (working w)) i (set_status s m u)"
    by (rule put_run [OF assms keeps_row_status])
  then show ?thesis
    by (intro that [of v' "w\<lparr>working := put_video (txn_now w) i (set_status s m) (working w)\<rparr>"])
       (simp_all add: update_status_def)
qed


lemma commit_video_run:
  assumes "consistent (working w)" and "video_is (working w) i u"
  obtains w' where "commit w = (Inr (), w')" "consistent (committed w')" "working w' = committed w'"
    "video_is (committed w') i u" "committed w' = regenerate (working w)" "files w' = files w"
    "clock w' = clock w" "reads w' = reads w" "txn_now w' = Naive (clock w (reads w))"
proof -
  obtain w' where "commit w = (Inr (), w')" "consistent (committed w')" "working w' = committed w'"
    "committed w' = regenerate (working w)" "files w' = files w" "clock w' = clock w" "reads w' = reads w"
    "txn_now w' = Naive (clock w (reads w))"
    by (rule commit_run [OF assms(1)])
  then show ?thesis using assms(2) by (intro that [of w']) simp_all
qed

text \<open>What \<open>fail_video\<close> leaves behind.\<close>

definition failed_row :: "bool \<Rightarrow> exn \<Rightarrow> video_file \<Rightarrow> video_file" where
  "failed_row is_retry exc v =
     (if \<not> is_retry then set_status FAILED (Some (exn_str exc)) v
      else if is_retriable_without_limit exc then v
      else set_status FAILED (Some (''retry failed: '' @ exn_str exc))
             (v\<lparr>vf_retry_count := map_option (\<lambda>n. n + 1) (vf_retry_count v)\<rparr>))"

lemma increment_run:
  assumes c: "consistent (working w)" and v: "video_is (working w) i u"
  obtains r w' where "increment_retry_count i w = (Inr r, w')" "consistent (working w')"
    "video_is (working w') i (u\<lparr>vf_retry_count := map_option (\<lambda>n. n + 1) (vf_retry_count u)\<rparr>)"
    "committed w' = committed w"
proof -
  obtain v where get: "table_get (videos (working w)) i = Some v" and vu: "unstamp v = unstamp u"
    using v by (auto simp: video_is_def)
  have v_in: "v \<in> set (tbl_rows (videos (working w)))" "row_id v = i" using get by (auto dest: table_get_Some)
  then obtain n where n: "vf_retry_count v = Some n"
    using video_facts(3) [OF c] by (auto simp: video_row_ok_def)
  then have nu: "vf_retry_count u = Some n" using arg_cong [OF vu, of vf_retry_count] by simp
  obtain v' where "repo_update VideoRepo i (\<lambda>v. v\<lparr>vf_retry_count := Some (n + 1)\<rparr>) w =
      (Inr v', w\<lparr>working := put_video (txn_now w) i (\<lambda>v. v\<lparr>vf_retry_count := Some (n + 1)\<rparr>) (working w)\<rparr>)"
    "consistent (put_video (txn_now w) i (\<lambda>v. v\<lparr>vf_retry_count := Some (n + 1)\<rparr>) (working w))"
    "video_is (put_video (txn_now w) i (\<lambda>v. v\<lparr>vf_retry_count := Some (n + 1)\<rparr>) (working w)) i (u\<lparr>vf_retry_count := Some (n + 1)\<rparr>)"
    by (rule put_run [OF c v keeps_row_retry])
  then show ?thesis
    using get n nu v_in(2)
    by (intro that [of "Some v'" "w\<lparr>working := put_video (txn_now w) i (\<lambda>v. v\<lparr>vf_retry_count := Some (n + 1)\<rparr>) (working w)\<rparr>"])
       (simp_all add: increment_retry_count_def repo_get_def bindM_run)
qed

lemma fail_video_run:
  assumes c: "consistent (working w)" and v: "video_is (working w) i u"
  obtains w' where "fail_video i is_retry exc w = (Inr (), w')" "consistent (committed w')"
    "working w' = committed w'" "video_is (committed w') i (failed_row is_retry exc u)"
proof (cases "is_retry \<and> is_retriable_without_limit exc")
  case True
  obtain w' where "commit w = (Inr (), w')" "consistent (committed w')" "working w' = committed w'"
    "video_is (committed w') i u"
    by (rule commit_video_run [OF c v])
  then show ?thesis using True by (intro that [of w']) (simp_all add: fail_video_def failed_row_def)
next
  case False
  let ?m = "if is_retry then ''retry failed: '' @ exn_str exc else exn_str exc"
  let ?u = "if is_retry then u\<lparr>vf_retry_count := map_option (\<lambda>n. n + 1) (vf_retry_count u)\<rparr> else u"
  have row: "failed_row is_retry exc u = set_status FAILED (Some ?m) ?u"
    using False by (simp add: failed_row_def)
  obtain w1 where 1: "consistent (working w1)" "video_is (working w1) i ?u"
    "fail_video i is_retry exc w = bindM (update_status i FAILED (Some ?m)) (\<lambda>_. commit) w1"
  proof (cases is_retry)
    case r: True
    obtain x w1 where "increment_retry_count i w = (Inr x, w1)" "consistent (working w1)"
      "video_is (working w1) i (u\<lparr>vf_retry_count := map_option (\<lambda>n. n + 1) (vf_retry_count u)\<rparr>)"
      by (rule increment_run [OF c v])
    then show ?thesis using False r by (intro that [of w1]) (simp_all add: fail_video_def)
  qed (use c v in \<open>auto simp: fail_video_def intro: that [of w]\<close>)
  obtain v2 w2 where 2: "update_status i FAILED (Some ?m) w1 = (Inr v2, w2)" "consistent (working w2)"
    "video_is (working w2) i (set_status FAILED (Some ?m) ?u)"
    by (rule update_status_run [OF 1(1,2)])
  obtain w3 where 3: "commit w2 = (Inr (), w3)" "consistent (committed w3)" "working w3 = committed w3"
    "video_is (committed w3) i (set_status FAILED (Some ?m) ?u)"
    by (rule commit_video_run [OF 2(2,3)])
  show ?thesis
    by (rule that [of w3]) (use 1(3) 2(1) 3 row in simp_all)
qed

lemma fail_video_files: "files (snd (fail_video i is_retry exc w)) = files w"
proof -
  have "keeps (\<lambda>x. files x = files w) (fail_video i is_retry exc)"
    by (auto simp: fail_video_def increment_retry_count_def update_status_def repo_update_by_id_def
        repo_update_def set_row_def refresh_def repo_get_def flush_def commit_def keeps_def bindM_run seqM_def Let_def
        split: option.splits if_splits)
  then show ?thesis using keepsD by fastforce
qed

text \<open>The way to the recognition: PROCESSING is committed before the worker runs.\<close>

lemma to_processing_run:
  assumes c: "consistent (working w)" and v: "video_is (working w) i u"
  obtains w' station where
    "process_video_with_error_handling worker cfg env i uri is_retry w =
       except_exception
          (bindM (recognize_video worker cfg env i uri station) (\<lambda>_.
           bindM (update_status i COMPLETED None) (\<lambda>_. commit)))
          (\<lambda>exc. seqM rollback (seqM (fail_video i is_retry exc) (raise exc))) w'"
    "consistent (committed w')" "working w' = committed w'"
    "video_is (committed w') i (set_status PROCESSING None u)"
    "station = (case vf_station_id u of None \<Rightarrow> None | Some sid \<Rightarrow> table_get (stations (working w)) sid)"
    "files w' = files w" "clock w' = clock w"
    "committed w' = regenerate (put_video (txn_now w) i (set_status PROCESSING None) (working w))"
    "reads w' = reads w" "txn_now w' = Naive (clock w (reads w))"
proof -
  obtain v1 w1 where 1: "update_status i PROCESSING None w = (Inr v1, w1)" "consistent (working w1)"
    "video_is (working w1) i (set_status PROCESSING None u)"
    "w1 = w\<lparr>working := put_video (txn_now w) i (set_status PROCESSING None) (working w)\<rparr>"
    by (rule update_status_run [OF c v])
  obtain w2 where 2: "commit w1 = (Inr (), w2)" "consistent (committed w2)" "working w2 = committed w2"
    "video_is (committed w2) i (set_status PROCESSING None u)" "committed w2 = regenerate (working w1)"
    "files w2 = files w1" "clock w2 = clock w1" "reads w2 = reads w1" "txn_now w2 = Naive (clock w1 (reads w1))"
    by (rule commit_video_run [OF 1(2,3)])
  have w2v: "video_is (working w2) i (set_status PROCESSING None u)" using 2(3,4) by simp
  obtain v2 where v2: "repo_get VideoRepo i w2 = (Inr (Some v2), w2)" "unstamp v2 = unstamp (set_status PROCESSING None u)"
    by (rule get_video_run [OF w2v])
  have sid: "vf_station_id v2 = vf_station_id u"
    using arg_cong [OF v2(2), of vf_station_id] by (simp add: set_status_def)
  let ?st = "case vf_station_id u of None \<Rightarrow> None | Some sid \<Rightarrow> table_get (stations (working w)) sid"
  have "find_station (Some v2) w2 = (Inr ?st, w2)"
    using sid 2(3,5) 1(4) by (simp add: find_station_def repo_get_def split: option.split)
  then show ?thesis
    using 1(1,4) 2 v2(1)
    by (intro that [of ?st w2])
       (simp_all add: process_video_with_error_handling_def except_exception_def)
qed


section \<open>When the worker fails\<close>

lemma worker_failure_run:
  assumes c: "consistent (working w)" and v: "video_is (working w) i u"
    and bad: "\<And>roi. worker uri roi = Inl exc" and cls: "exn_class exc \<noteq> CancelledErr"
  obtains w' where
    "process_video_with_error_handling worker cfg env i uri is_retry w = (Inl exc, w')"
    "consistent (committed w')" "working w' = committed w'"
    "video_is (committed w') i (failed_row is_retry exc (set_status PROCESSING None u))"
    "files w' = files w"
proof -
  obtain w1 station where 1: "process_video_with_error_handling worker cfg env i uri is_retry w =
       except_exception
          (bindM (recognize_video worker cfg env i uri station) (\<lambda>_.
           bindM (update_status i COMPLETED None) (\<lambda>_. commit)))
          (\<lambda>exc. seqM rollback (seqM (fail_video i is_retry exc) (raise exc))) w1"
    "consistent (committed w1)" "working w1 = committed w1"
    "video_is (committed w1) i (set_status PROCESSING None u)" "files w1 = files w"
    by (rule to_processing_run [OF c v])
  have rec: "recognize_video worker cfg env i uri station w1 = (Inl exc, w1)"
    by (simp add: recognize_video_def run_video_in_process_pool_def bad)
  have "consistent (working (rolled_back w1))" "video_is (working (rolled_back w1)) i (set_status PROCESSING None u)"
    using 1(2,4) by (simp_all add: consistent_rewind)
  then obtain w2 where 2: "fail_video i is_retry exc (rolled_back w1) = (Inr (), w2)" "consistent (committed w2)"
    "working w2 = committed w2" "video_is (committed w2) i (failed_row is_retry exc (set_status PROCESSING None u))"
    by (rule fail_video_run)
  have fl: "files w2 = files w1"
    using fail_video_files [of i is_retry exc "rolled_back w1"] 2(1) by simp
  show ?thesis
    by (rule that [of w2]) (use 1(1,5) rec cls rollback_run [of w1] 2 fl in \<open>simp_all add: except_exception_def\<close>)
qed

text \<open>
  C2: When the recognition of a video fails, the error handling rolls the attempt back, re-
  raises the error and commits the outcome: FAILED with the message on a first attempt; FAILED
  with the retry counted on a retry; but on a retry with an error that may be retried without
  limit the video stays PROCESSING.
\<close>

theorem worker_failure_is_recorded:
  assumes "consistent (working w)" and "video_is (working w) i u"
    and "\<forall>roi. worker uri roi = Inl exc" and "exn_class exc \<noteq> CancelledErr"
  shows "\<exists>w'. process_video_with_error_handling worker cfg env i uri is_retry w = (Inl exc, w')
    \<and> consistent (committed w') \<and> working w' = committed w'
    \<and> video_is (committed w') i
        (if \<not> is_retry then u\<lparr>vf_status := FAILED, vf_error_message := Some (exn_str exc)\<rparr>
         else if is_retriable_without_limit exc then u\<lparr>vf_status := PROCESSING\<rparr>
         else u\<lparr>vf_retry_count := map_option (\<lambda>n. n + 1) (vf_retry_count u), vf_status := FAILED,
                vf_error_message := Some (''retry failed: '' @ exn_str exc)\<rparr>)"
proof -
  obtain w' where "process_video_with_error_handling worker cfg env i uri is_retry w = (Inl exc, w')"
    "consistent (committed w')" "working w' = committed w'"
    "video_is (committed w') i (failed_row is_retry exc (set_status PROCESSING None u))"
    by (rule worker_failure_run [OF assms(1,2) _ assms(4), where worker = worker and uri = uri])
       (use assms(3) in auto)
  then show ?thesis by (auto simp: failed_row_def set_status_def)
qed

definition broken_worker :: "exn \<Rightarrow> worker" where
  "broken_worker exc uri roi = Inl exc"

lemma sample_video_is: "video_is (plant []) 1 vf1"
  by (simp add: video_is_def plant_def table_get_def vf1_def)

theorem worker_failure_is_recorded_witness:
  "\<exists>w'. process_video_with_error_handling (broken_worker (Exn RuntimeErr ''Cannot open video: x''))
       default_visit_settings id 1 ''x'' True (world_of (plant [])) = (Inl (Exn RuntimeErr ''Cannot open video: x''), w')
    \<and> consistent (committed w') \<and> working w' = committed w'
    \<and> video_is (committed w') 1 (vf1\<lparr>vf_status := FAILED, vf_retry_count := Some 1,
        vf_error_message := Some ''retry failed: Cannot open video: x''\<rparr>)"
  using worker_failure_is_recorded [of "world_of (plant [])" 1 vf1 "broken_worker (Exn RuntimeErr ''Cannot open video: x'')"
      "''x''" "Exn RuntimeErr ''Cannot open video: x''" default_visit_settings id True]
    empty_plant_consistent sample_video_is
  by (simp add: broken_worker_def vf1_def)

section \<open>Retries\<close>

definition permanent_row :: "string \<Rightarrow> bool \<Rightarrow> video_file \<Rightarrow> video_file" where
  "permanent_row folder there v =
     v\<lparr>vf_status := INVALID, vf_error_message := Some ''max_retry_attempts exceeded'',
       vf_storage_uri := (if there then failed_path folder v else vf_storage_uri v)\<rparr>"

lemma keeps_row_permanent:
  "keeps_row (\<lambda>v. set_if mv (\<lambda>p v. v\<lparr>vf_storage_uri := p\<rparr>)
     (v\<lparr>vf_status := INVALID, vf_error_message := Some ''max_retry_attempts exceeded''\<rparr>))"
  by (simp add: keeps_row_def set_if_def video_checks unstamp_def split: option.split)

lemma move_to_failed_run:
  assumes c: "consistent (working w)" and v: "video_is (working w) i u" and id: "row_id u = i"
  obtains w' where
    "move_to_failed folder i w =
      (Inr (if files w (path_str (vf_storage_uri u)) = None then None else Some (failed_path folder u)), w')"
    "consistent (working w')"
    "video_is (working w') i
      (if files w (path_str (vf_storage_uri u)) = None then u else u\<lparr>vf_storage_uri := failed_path folder u\<rparr>)"
proof -
  obtain v where get: "repo_get VideoRepo i w = (Inr (Some v), w)" and vu: "unstamp v = unstamp u"
    by (rule get_video_run [OF v])
  have same: "vf_storage_uri v = vf_storage_uri u" "row_id v = i"
    using arg_cong [OF vu, of vf_storage_uri] arg_cong [OF vu, of row_id] id by simp_all
  then have dst: "failed_path folder v = failed_path folder u"
    using id by (simp add: failed_path_def)
  show ?thesis
  proof (cases "files w (path_str (vf_storage_uri u))")
    case None
    then show ?thesis using c v get same
      by (intro that [of w]) (simp_all add: move_to_failed_def path_exists_def)
  next
    case (Some bytes)
    let ?dst = "failed_path folder u"
    obtain w1 where w1: "move_file (vf_storage_uri v) ?dst w = (Inr (), w1)" "working w1 = working w"
      by (simp add: move_file_def)
    have "consistent (working w1)" "video_is (working w1) i u" using c v w1(2) by simp_all
    then obtain v' where "repo_update VideoRepo i (\<lambda>v. v\<lparr>vf_storage_uri := ?dst\<rparr>) w1 =
        (Inr v', w1\<lparr>working := put_video (txn_now w1) i (\<lambda>v. v\<lparr>vf_storage_uri := ?dst\<rparr>) (working w1)\<rparr>)"
      "consistent (put_video (txn_now w1) i (\<lambda>v. v\<lparr>vf_storage_uri := ?dst\<rparr>) (working w1))"
      "video_is (put_video (txn_now w1) i (\<lambda>v. v\<lparr>vf_storage_uri := ?dst\<rparr>) (working w1)) i (u\<lparr>vf_storage_uri := ?dst\<rparr>)"
      by (rule put_run [OF _ _ keeps_row_uri])
    then show ?thesis
      using Some get same dst w1(1)
      by (intro that [of "w1\<lparr>working := put_video (txn_now w1) i (\<lambda>v. v\<lparr>vf_storage_uri := ?dst\<rparr>) (working w1)\<rparr>"])
         (simp_all add: move_to_failed_def path_exists_def Let_def)
  qed
qed

lemma mark_permanently_failed_run:
  assumes c: "consistent (working w)" and v: "video_is (working w) i u" and id: "row_id u = i"
  obtains r w' where "mark_permanently_failed folder i INVALID w = (Inr r, w')" "consistent (working w')"
    "video_is (working w') i (permanent_row folder (files w (path_str (vf_storage_uri u)) \<noteq> None) u)"
proof -
  let ?none = "files w (path_str (vf_storage_uri u)) = None"
  let ?moved = "if ?none then None else Some (failed_path folder u)"
  let ?u = "if ?none then u else u\<lparr>vf_storage_uri := failed_path folder u\<rparr>"
  let ?f = "\<lambda>v. set_if ?moved (\<lambda>p v. v\<lparr>vf_storage_uri := p\<rparr>)
     (v\<lparr>vf_status := INVALID, vf_error_message := Some ''max_retry_attempts exceeded''\<rparr>)"
  obtain w1 where 1: "move_to_failed folder i w = (Inr ?moved, w1)" "consistent (working w1)"
    "video_is (working w1) i ?u"
    by (rule move_to_failed_run [OF c v id])
  obtain v1 where v1: "repo_get VideoRepo i w1 = (Inr (Some v1), w1)" "unstamp v1 = unstamp ?u"
    by (rule get_video_run [OF 1(3)])
  have "row_id v1 = i" using arg_cong [OF v1(2), of row_id] id by (simp split: if_splits)
  obtain v2 where 2: "repo_update VideoRepo i ?f w1 = (Inr v2, w1\<lparr>working := put_video (txn_now w1) i ?f (working w1)\<rparr>)"
    "consistent (put_video (txn_now w1) i ?f (working w1))"
    "video_is (put_video (txn_now w1) i ?f (working w1)) i (?f ?u)"
    by (rule put_run [OF 1(2,3) keeps_row_permanent [of ?moved]])
  have "video_is (put_video (txn_now w1) i ?f (working w1)) i (permanent_row folder (\<not> ?none) u)"
    by (rule video_is_cong [OF 2(3)]) (simp add: permanent_row_def set_if_def)
  then show ?thesis
    using 1(1) v1(1) 2(1,2) \<open>row_id v1 = i\<close>
    by (intro that [of "Some v2" "w1\<lparr>working := put_video (txn_now w1) i ?f (working w1)\<rparr>"])
       (simp_all add: mark_permanently_failed_def)
qed


text \<open>One failing retry, with an error that counts.\<close>

definition retried_row :: "scheduler_settings \<Rightarrow> bool \<Rightarrow> exn \<Rightarrow> video_file \<Rightarrow> video_file" where
  "retried_row cfg there exc u =
     (let r = failed_row True exc (set_status PROCESSING None u)
      in if max_retry_attempts cfg \<le> or_else (vf_retry_count r) 0
         then permanent_row (failed_videos_folder cfg) there r else r)"

lemma failed_row_frame [simp]:
  "row_id (failed_row b exc v) = row_id v" "vf_storage_uri (failed_row b exc v) = vf_storage_uri v"
  "vf_station_id (failed_row b exc v) = vf_station_id v"
  by (simp_all add: failed_row_def set_status_def)

lemma set_status_frame [simp]:
  "vf_storage_uri (set_status s m v) = vf_storage_uri v" "vf_retry_count (set_status s m v) = vf_retry_count v"
  "vf_status (set_status s m v) = s"
  by (simp_all add: set_status_def split: option.split)

lemma handle_failure_run:
  assumes c: "consistent (working w)" and cm: "working w = committed w" and v: "video_is (working w) (tg_video_id t) u"
    and id: "row_id u = tg_video_id t" and t: "\<not> tg_unlimited t" and exc: "\<not> is_retriable_without_limit exc"
  obtains w' where "handle_retry_failure cfg t exc w = (Inr (), w')" "consistent (committed w')"
    "video_is (committed w') (tg_video_id t)
      (if max_retry_attempts cfg \<le> or_else (vf_retry_count u) 0
       then permanent_row (failed_videos_folder cfg) (files w (path_str (vf_storage_uri u)) \<noteq> None) u else u)"
    "working w' = committed w'"
proof -
  obtain v0 where v0: "repo_get VideoRepo (tg_video_id t) w = (Inr (Some v0), w)" "unstamp v0 = unstamp u"
    by (rule get_video_run [OF v])
  have n: "vf_retry_count v0 = vf_retry_count u" using arg_cong [OF v0(2), of vf_retry_count] by simp
  show ?thesis
  proof (cases "max_retry_attempts cfg \<le> or_else (vf_retry_count u) 0")
    case False
    then show ?thesis using v0(1) n t exc c cm v
      by (intro that [of w]) (simp_all add: handle_retry_failure_def)
  next
    case True
    obtain r w1 where 1: "mark_permanently_failed (failed_videos_folder cfg) (tg_video_id t) INVALID w = (Inr r, w1)"
      "consistent (working w1)"
      "video_is (working w1) (tg_video_id t)
         (permanent_row (failed_videos_folder cfg) (files w (path_str (vf_storage_uri u)) \<noteq> None) u)"
      by (rule mark_permanently_failed_run [OF c v id])
    obtain w2 where 2: "commit w1 = (Inr (), w2)" "consistent (committed w2)" "working w2 = committed w2"
      "video_is (committed w2) (tg_video_id t)
         (permanent_row (failed_videos_folder cfg) (files w (path_str (vf_storage_uri u)) \<noteq> None) u)"
      by (rule commit_video_run [OF 1(2,3)])
    show ?thesis
      by (rule that [of w2]) (use True v0(1) n t exc 1(1) 2 in \<open>simp_all add: handle_retry_failure_def\<close>)
  qed
qed

lemma with_session_run:
  assumes "m (next_txn (w\<lparr>working := committed w\<rparr>)) = (r, w')"
  shows "with_session m w = (r, w'\<lparr>working := rewind (committed w') (working w'),
                                  committed := rewind (committed w') (working w')\<rparr>)"
  by (simp add: with_session_def assms)

lemma process_single_run:
  assumes c: "consistent (committed w)" and v: "video_is (committed w) (tg_video_id t) u"
    and id: "row_id u = tg_video_id t" and t: "\<not> tg_unlimited t"
    and bad: "\<And>roi. worker (tg_storage_uri t) roi = Inl exc"
    and exc: "\<not> is_retriable_without_limit exc" "exn_class exc \<noteq> CancelledErr"
  obtains w' there where "process_single worker vcfg env cfg t w = (Inr (), w')" "consistent (committed w')"
    "video_is (committed w') (tg_video_id t) (retried_row cfg there exc u)"
    "there \<longleftrightarrow> files w (path_str (vf_storage_uri u)) \<noteq> None"
proof -
  let ?w = "next_txn (w\<lparr>working := committed w\<rparr>)"
  let ?u = "failed_row True exc (set_status PROCESSING None u)"
  let ?there = "files w (path_str (vf_storage_uri u)) \<noteq> None"
  have "consistent (working ?w)" "video_is (working ?w) (tg_video_id t) u" using c v by simp_all
  then obtain w1 where 1: "process_video_with_error_handling worker vcfg env (tg_video_id t) (tg_storage_uri t) True ?w
      = (Inl exc, w1)" "consistent (committed w1)" "working w1 = committed w1"
    "video_is (committed w1) (tg_video_id t) ?u" "files w1 = files ?w"
    by (rule worker_failure_run [where worker = worker and uri = "tg_storage_uri t" and is_retry = True, OF _ _ bad exc(2)])
  have "consistent (working w1)" "video_is (working w1) (tg_video_id t) ?u" "row_id ?u = tg_video_id t"
    using 1 id by simp_all
  then obtain w2 where 2: "handle_retry_failure cfg t exc w1 = (Inr (), w2)" "consistent (committed w2)"
    "video_is (committed w2) (tg_video_id t)
      (if max_retry_attempts cfg \<le> or_else (vf_retry_count ?u) 0
       then permanent_row (failed_videos_folder cfg) (files w1 (path_str (vf_storage_uri ?u)) \<noteq> None) ?u else ?u)"
    by (rule handle_failure_run [where cfg = cfg, OF _ 1(3) _ _ t exc(1)])
  have run: "process_single worker vcfg env cfg t w = (Inr (), w2\<lparr>working := rewind (committed w2) (working w2),
      committed := rewind (committed w2) (working w2)\<rparr>)"
    unfolding process_single_def
    by (rule with_session_run) (use 1(1) 2(1) exc(2) in \<open>simp add: except_exception_def\<close>)
  have fl: "files w1 = files w" using 1(5) by simp
  have "video_is (committed w2) (tg_video_id t) (retried_row cfg ?there exc u)"
    using 2(3) unfolding retried_row_def Let_def failed_row_frame set_status_frame fl .
  then show ?thesis
    using 2(2) run by (intro that [of "w2\<lparr>working := rewind (committed w2) (working w2),
      committed := rewind (committed w2) (working w2)\<rparr>" ?there]) (simp_all add: consistent_rewind)
qed

section \<open>Stale videos\<close>

lemma put_video_other:
  assumes "consistent d" and "keeps_row f" and "j \<noteq> i"
  shows "video_is (put_video now i f d) j u = video_is d j u"
proof -
  have "\<And>r. row_id (f r) = row_id r" using assms(2) by (simp add: keeps_row_def)
  then have "table_get (videos (put_video now i f d)) j = table_get (videos d) j"
    using tab.lookup_change [OF video_facts(1) [OF assms(1)], of f now i j] assms(3) by (simp add: put_video_def)
  then show ?thesis by (simp add: video_is_def)
qed

definition mark_one :: "scheduler_settings \<Rightarrow> video_file \<Rightarrow> unit io" where
  "mark_one cfg vf = bindM (update_status (row_id vf) FAILED (Some (stuck_message cfg vf))) (\<lambda>_. ret ())"

definition stuck_row :: "scheduler_settings \<Rightarrow> video_file \<Rightarrow> video_file" where
  "stuck_row cfg v = set_status FAILED (Some (stuck_message cfg v)) v"

lemma mark_all_run:
  assumes "consistent (working w)" and "distinct (map row_id vs)"
    and "\<forall>v \<in> set vs. video_is (working w) (row_id v) v"
  shows "\<exists>w'. forM (mark_one cfg) vs w = (Inr (), w') \<and> consistent (working w')
    \<and> (\<forall>v \<in> set vs. video_is (working w') (row_id v) (stuck_row cfg v))
    \<and> (\<forall>i u. i \<notin> row_id ` set vs \<longrightarrow> video_is (working w) i u \<longrightarrow> video_is (working w') i u)"
  using assms
proof (induction vs arbitrary: w)
  case (Cons v vs)
  have "video_is (working w) (row_id v) v" using Cons.prems(3) by simp
  then obtain x w1 where 1: "update_status (row_id v) FAILED (Some (stuck_message cfg v)) w = (Inr x, w1)"
    "consistent (working w1)" "video_is (working w1) (row_id v) (stuck_row cfg v)"
    "w1 = w\<lparr>working := put_video (txn_now w) (row_id v) (set_status FAILED (Some (stuck_message cfg v))) (working w)\<rparr>"
    using update_status_run [OF Cons.prems(1)] unfolding stuck_row_def by metis
  have same: "video_is (working w1) j u = video_is (working w) j u" if "j \<noteq> row_id v" for j u
    using put_video_other [OF Cons.prems(1) keeps_row_status that] 1(4) by simp
  have "row_id v' \<noteq> row_id v" if "v' \<in> set vs" for v'
    using Cons.prems(2) imageI [OF that, of row_id] by auto
  then have "\<forall>v' \<in> set vs. video_is (working w1) (row_id v') v'"
    using Cons.prems(3) same by simp
  with Cons.IH [OF 1(2)] Cons.prems(2) obtain w2 where 2: "forM (mark_one cfg) vs w1 = (Inr (), w2)"
    "consistent (working w2)" "\<forall>v \<in> set vs. video_is (working w2) (row_id v) (stuck_row cfg v)"
    "\<forall>i u. i \<notin> row_id ` set vs \<longrightarrow> video_is (working w1) i u \<longrightarrow> video_is (working w2) i u"
    by auto
  have "video_is (working w2) (row_id v) (stuck_row cfg v)" using 2(4) 1(3) Cons.prems(2) by auto
  moreover have "mark_one cfg v w = (Inr (), w1)" using 1(1) by (simp add: mark_one_def)
  ultimately show ?case
    using 2 same by (intro exI [of _ w2]) simp
qed (auto intro: exI [of _ w])

definition cutoff :: "scheduler_settings \<Rightarrow> int \<Rightarrow> int" where
  "cutoff cfg now = now - timedelta_s (stale_threshold_minutes cfg * 60)"

definition is_stale :: "scheduler_settings \<Rightarrow> int \<Rightarrow> int \<Rightarrow> video_file \<Rightarrow> bool" where
  "is_stale cfg t1 t2 v \<longleftrightarrow>
     (vf_status v = CREATED \<and> updated_before (cutoff cfg t1) v)
     \<or> (vf_status v = PROCESSING \<and> updated_before (cutoff cfg t2) v)"

definition stale_list :: "scheduler_settings \<Rightarrow> video_status \<Rightarrow> int \<Rightarrow> db \<Rightarrow> video_file list" where
  "stale_list cfg s t d =
     sort_key row_id (filter (\<lambda>v. vf_status v = s \<and> updated_before (cutoff cfg t) v) (tbl_rows (videos d)))"

lemma get_stale_run:
  "get_stale_videos s (stale_threshold_minutes cfg) w =
    (Inr (stale_list cfg s (clock w (reads w)) (working w)), w\<lparr>reads := Suc (reads w)\<rparr>)"
  by (simp add: get_stale_videos_def py_now_run Let_def stale_list_def cutoff_def)

lemma set_stale_list [simp]:
  "v \<in> set (stale_list cfg s t d) \<longleftrightarrow>
     v \<in> set (tbl_rows (videos d)) \<and> vf_status v = s \<and> updated_before (cutoff cfg t) v"
  by (auto simp: stale_list_def)

lemma stale_distinct:
  assumes "consistent d"
  shows "distinct (map row_id (stale_list cfg CREATED t1 d @ stale_list cfg PROCESSING t2 d))"
proof -
  have d: "distinct (map row_id (tbl_rows (videos d)))"
    using video_facts(1) [OF assms] by (simp add: table_wf_def table_ids_def)
  have "distinct (map row_id (stale_list cfg s t d))" for s t
    using d by (simp add: stale_list_def distinct_map inj_on_def)
  moreover have "row_id v \<noteq> row_id v'"
    if "v \<in> set (stale_list cfg CREATED t1 d)" "v' \<in> set (stale_list cfg PROCESSING t2 d)" for v v'
    using row_unique [OF video_facts(1) [OF assms], of v v'] that by auto
  ultimately show ?thesis by fastforce
qed

lemma video_is_row: "table_wf (videos d) \<Longrightarrow> v \<in> set (tbl_rows (videos d)) \<Longrightarrow> video_is d (row_id v) v"
  by (auto simp: video_is_def table_get_in)

lemma filter_disj_length:
  "\<forall>x \<in> set xs. \<not> (P x \<and> Q x) \<Longrightarrow>
   length (filter (\<lambda>x. P x \<or> Q x) xs) = length (filter P xs) + length (filter Q xs)"
  by (induction xs) auto

text \<open>The run of the pass, in terms of the two lists it selects.\<close>

lemma mark_stale_run:
  fixes cfg :: scheduler_settings and w :: world
  assumes "consistent (committed w)"
  defines "stale \<equiv> stale_list cfg CREATED (clock w (reads w)) (committed w)
      @ stale_list cfg PROCESSING (clock w (Suc (reads w))) (committed w)"
  obtains w' where "mark_stale_videos cfg w = (Inr (length stale), w')" "consistent (committed w')"
    "\<forall>v \<in> set stale. video_is (committed w') (row_id v) (stuck_row cfg v)"
    "\<forall>i u. i \<notin> row_id ` set stale \<longrightarrow> video_is (committed w) i u \<longrightarrow> video_is (committed w') i u"
proof -
  let ?w = "(next_txn (w\<lparr>working := committed w\<rparr>))\<lparr>reads := Suc (Suc (reads w))\<rparr>"
  have "consistent (working ?w)" using assms(1) by simp
  moreover have "distinct (map row_id stale)"
    unfolding stale_def by (rule stale_distinct [OF assms(1)])
  moreover have "\<forall>v \<in> set stale. video_is (working ?w) (row_id v) v"
    using video_is_row [OF video_facts(1) [OF assms(1)]] by (auto simp: stale_def)
  ultimately obtain w1 where 1: "forM (mark_one cfg) stale ?w = (Inr (), w1)" "consistent (working w1)"
    "\<forall>v \<in> set stale. video_is (working w1) (row_id v) (stuck_row cfg v)"
    "\<forall>i u. i \<notin> row_id ` set stale \<longrightarrow> video_is (working ?w) i u \<longrightarrow> video_is (working w1) i u"
    using mark_all_run [of ?w stale cfg] by blast
  let ?body = "\<lambda>l. if l = [] then ret 0
      else seqM (forM (\<lambda>vf. bindM (update_status (row_id vf) FAILED (Some (stuck_message cfg vf)))
             (\<lambda>_. ret ())) l) (seqM commit (ret (length l)))"
  obtain w2 where 2: "?body stale ?w = (Inr (length stale), w2)" "consistent (committed w2)"
    "\<forall>i u. video_is (committed w2) i u = video_is (working w1) i u"
  proof (cases "stale = []")
    case True
    then show ?thesis using 1(1) assms by (intro that [of ?w]) auto
  next
    case False
    obtain w2 where "commit w1 = (Inr (), w2)" "consistent (committed w2)" "committed w2 = regenerate (working w1)"
      by (rule commit_run [OF 1(2)])
    then show ?thesis using 1(1) False by (intro that [of w2]) (simp_all add: mark_one_def [abs_def])
  qed
  have "mark_stale_videos cfg w = (Inr (length stale), w2\<lparr>working := rewind (committed w2) (working w2),
      committed := rewind (committed w2) (working w2)\<rparr>)"
    unfolding mark_stale_videos_def
    by (rule with_session_run)
       (use 2(1) [unfolded stale_def] in
        \<open>auto simp: except_exception_def tryM_def bindM_run get_stale_run stale_def Let_def split: if_splits\<close>)
  then show ?thesis
    using 1(3,4) 2(2,3)
    by (intro that [of "w2\<lparr>working := rewind (committed w2) (working w2),
      committed := rewind (committed w2) (working w2)\<rparr>"]) (simp_all add: consistent_rewind)
qed

text \<open>
  C16: Marking stale videos turns exactly the CREATED and PROCESSING videos not updated within
  the threshold to FAILED with a message naming the old status, leaves every other video as it
  was, and returns their number.
\<close>

theorem mark_stale_fails_exactly_the_stale:
  assumes "consistent (committed w)"
  shows "\<exists>w'. mark_stale_videos cfg w =
      (Inr (length (filter (is_stale cfg (clock w (reads w)) (clock w (Suc (reads w))))
              (tbl_rows (videos (committed w))))), w')
    \<and> consistent (committed w')
    \<and> (\<forall>v \<in> set (tbl_rows (videos (committed w))). video_is (committed w') (row_id v)
         (if is_stale cfg (clock w (reads w)) (clock w (Suc (reads w))) v
          then v\<lparr>vf_status := FAILED, vf_error_message := Some (stuck_message cfg v)\<rparr> else v))"
proof -
  let ?t1 = "clock w (reads w)" and ?t2 = "clock w (Suc (reads w))" and ?d = "committed w"
  let ?l = "stale_list cfg CREATED ?t1 ?d @ stale_list cfg PROCESSING ?t2 ?d"
  have wf: "table_wf (videos ?d)" by (rule video_facts(1) [OF assms])
  have cnt: "length ?l = length (filter (is_stale cfg ?t1 ?t2) (tbl_rows (videos ?d)))"
    unfolding is_stale_def by (subst filter_disj_length) (auto simp: stale_list_def)
  have st: "v \<in> set ?l \<longleftrightarrow> v \<in> set (tbl_rows (videos ?d)) \<and> is_stale cfg ?t1 ?t2 v" for v
    by (auto simp: is_stale_def)
  obtain w' where w': "mark_stale_videos cfg w = (Inr (length ?l), w')" "consistent (committed w')"
    "\<forall>v \<in> set ?l. video_is (committed w') (row_id v) (stuck_row cfg v)"
    "\<forall>i u. i \<notin> row_id ` set ?l \<longrightarrow> video_is ?d i u \<longrightarrow> video_is (committed w') i u"
    by (rule mark_stale_run [OF assms])
  have rows: "video_is (committed w') (row_id v)
      (if is_stale cfg ?t1 ?t2 v then v\<lparr>vf_status := FAILED, vf_error_message := Some (stuck_message cfg v)\<rparr> else v)"
    if v: "v \<in> set (tbl_rows (videos ?d))" for v
  proof (cases "is_stale cfg ?t1 ?t2 v")
    case True
    then have "v \<in> set ?l" using st v by blast
    then have "video_is (committed w') (row_id v) (stuck_row cfg v)" using w'(3) by blast
    then show ?thesis using True by (simp add: stuck_row_def set_status_def)
  next
    case False
    have "row_id v \<notin> row_id ` set ?l"
    proof
      assume "row_id v \<in> row_id ` set ?l"
      then obtain v' where v': "v' \<in> set ?l" "row_id v = row_id v'" by blast
      then have "v' \<in> set (tbl_rows (videos ?d))" "is_stale cfg ?t1 ?t2 v'" using st by blast+
      with row_unique [OF wf v] v'(2) False show False by blast
    qed
    then show ?thesis using w'(4) video_is_row [OF wf v] False by simp
  qed
  from w'(1,2) rows cnt show ?thesis by metis
qed

text \<open>The sample video has been processing for an hour.\<close>

definition late_world :: world where
  "late_world = (world_of (plant []))\<lparr>clock := (\<lambda>n. 3600000000 + int n)\<rparr>"

theorem mark_stale_fails_exactly_the_stale_witness:
  "\<exists>w'. mark_stale_videos default_scheduler_settings late_world = (Inr 1, w')
    \<and> consistent (committed w') \<and> video_is (committed w') 1
        (vf1\<lparr>vf_status := FAILED, vf_error_message := Some (stuck_message default_scheduler_settings vf1)\<rparr>)"
proof -
  have "is_stale default_scheduler_settings 3600000000 3600000001 vf1"
    by code_simp
  moreover have "committed late_world = plant []" "clock late_world = (\<lambda>n. 3600000000 + int n)" "reads late_world = 0"
    "tbl_rows (videos (plant [])) = [vf1]" "row_id vf1 = 1"
    by (simp_all add: late_world_def world_of_def plant_def vf1_def)
  ultimately show ?thesis
    using mark_stale_fails_exactly_the_stale [of late_world default_scheduler_settings] empty_plant_consistent
    by simp
qed

section \<open>What is retried\<close>

lemma failed_targets_run:
  assumes "consistent (working w)"
  shows "\<exists>ts. failed_targets cfg w = (Inr ts, w) \<and> distinct (map tg_video_id ts)
    \<and> (\<forall>i. i \<in> set (map tg_video_id ts) \<longleftrightarrow>
         (\<exists>v n. table_get (videos (working w)) i = Some v \<and> vf_status v = FAILED
            \<and> vf_retry_count v = Some n \<and> n < max_retry_attempts cfg))
    \<and> (\<forall>t \<in> set ts. \<not> tg_unlimited t)"
proof -
  let ?P = "\<lambda>v. vf_status v = FAILED \<and> below_cap (max_retry_attempts cfg) (vf_retry_count v)"
  let ?vs = "sort_key row_id (filter ?P (tbl_rows (videos (working w))))"
  have wf: "table_wf (videos (working w))" by (rule video_facts(1) [OF assms])
  have some: "vf_retry_count v \<noteq> None" if "v \<in> set (tbl_rows (videos (working w)))" for v
    using video_facts(3) [OF assms that] by (simp add: video_row_ok_def)
  have "failed_targets cfg w = (Inr (map target_of ?vs), w)"
    using no_unlimited_videos [OF assms]
    by (simp add: failed_targets_def get_failed_videos_within_limit_def)
  moreover have "distinct (map tg_video_id (map target_of ?vs))"
  proof -
    have "distinct (map row_id ?vs)"
      using wf by (simp add: table_wf_def table_ids_def distinct_map inj_on_def)
    then show ?thesis by (simp add: comp_def target_of_def)
  qed
  moreover have "i \<in> set (map tg_video_id (map target_of ?vs)) \<longleftrightarrow>
      (\<exists>v n. table_get (videos (working w)) i = Some v \<and> vf_status v = FAILED
         \<and> vf_retry_count v = Some n \<and> n < max_retry_attempts cfg)" for i
  proof -
    have "i \<in> set (map tg_video_id (map target_of ?vs)) \<longleftrightarrow>
        (\<exists>v \<in> set (tbl_rows (videos (working w))). ?P v \<and> row_id v = i)"
      by (auto simp: target_of_def)
    also have "\<dots> \<longleftrightarrow> (\<exists>v. table_get (videos (working w)) i = Some v \<and> ?P v)"
      using table_get_in [OF wf] table_get_Some [of "videos (working w)" i] by blast
    also have "\<dots> \<longleftrightarrow> (\<exists>v n. table_get (videos (working w)) i = Some v \<and> vf_status v = FAILED
         \<and> vf_retry_count v = Some n \<and> n < max_retry_attempts cfg)"
      using some table_get_Some [of "videos (working w)" i] unfolding below_cap_def
      by (metis (no_types, lifting) not_None_eq option.simps(5))
    finally show ?thesis .
  qed
  moreover have "\<forall>t \<in> set (map target_of ?vs). \<not> tg_unlimited t"
    using some by (auto simp: target_of_def)
  ultimately show ?thesis by blast
qed

text \<open>
  C17: The targets of a retry pass are exactly the FAILED videos whose retry count is below
  the cap, each once, and none of them is an unlimited retry.
\<close>

theorem retried_once_and_below_the_cap:
  assumes "consistent (working w)"
  shows "\<exists>ts. failed_targets cfg w = (Inr ts, w) \<and> distinct (map tg_video_id ts)
    \<and> (\<forall>i. i \<in> set (map tg_video_id ts) \<longleftrightarrow>
         (\<exists>v n. table_get (videos (working w)) i = Some v \<and> vf_status v = FAILED
            \<and> vf_retry_count v = Some n \<and> n < max_retry_attempts cfg))
    \<and> (\<forall>t \<in> set ts. \<not> tg_unlimited t)"
  by (rule failed_targets_run [OF assms])

definition failed_vf :: video_file where
  "failed_vf = vf1\<lparr>vf_status := FAILED, vf_retry_count := Some 2\<rparr>"

definition failed_plant :: db where
  "failed_plant = (plant [])\<lparr>videos := \<lparr>tbl_rows = [failed_vf], tbl_seq = 2\<rparr>\<rparr>"

theorem retried_once_and_below_the_cap_witness:
  "\<exists>ts. failed_targets default_scheduler_settings (world_of failed_plant) = (Inr ts, world_of failed_plant)
    \<and> 1 \<in> set (map tg_video_id ts)"
proof -
  have "consistent failed_plant" by code_simp
  moreover have "table_get (videos failed_plant) 1 = Some failed_vf" "vf_status failed_vf = FAILED"
    "vf_retry_count failed_vf = Some 2"
    by (simp_all add: failed_plant_def failed_vf_def vf1_def table_get_def)
  ultimately show ?thesis
    using retried_once_and_below_the_cap [of "world_of failed_plant" default_scheduler_settings]
    by (auto simp: default_scheduler_settings_def)
qed

end
