(* ===== verification/Mqtt.thy ===== *)
theory Mqtt
  imports VideoService VisitMachine
begin

text \<open>
  \<open>src/services/mqtt_client.py\<close> and \<open>src/config/mqtt.py\<close>: the broker URL, the topic of a station,
  the life of the connection and the subscription loop with its back-off. The client library and
  the network are the environment: what each connection attempt comes to (\<open>attempt\<close>) is an
  argument of the loop. A payload is the string of its bytes; \<open>json.dumps\<close> and \<open>json.loads\<close> are
  not modelled, JSON payloads are \<open>json\<close> values.
\<close>

section \<open>The broker URL\<close>

text \<open>
  \<open>urllib.parse.urlparse\<close> as far as \<open>_parse_url\<close> reads it: scheme, host and port. Bracketed IPv6
  hosts and the stripping of control characters are left out.
\<close>

definition is_letter :: "char \<Rightarrow> bool" where
  "is_letter c \<longleftrightarrow> (let n = of_char (lower_char c) :: nat in 97 \<le> n \<and> n \<le> 122)"

definition is_digit :: "char \<Rightarrow> bool" where
  "is_digit c \<longleftrightarrow> (let n = of_char c :: nat in 48 \<le> n \<and> n \<le> 57)"

definition is_scheme_char :: "char \<Rightarrow> bool" where
  "is_scheme_char c \<longleftrightarrow> is_letter c \<or> is_digit c \<or> c \<in> {CHR ''+'', CHR ''-'', CHR ''.''}"

record url =
  u_scheme :: string
  u_netloc :: string

definition url_rest :: "string \<Rightarrow> string" where
  "url_rest rest =
     (if take 2 rest = ''//''
      then takeWhile (\<lambda>c. c \<notin> {CHR ''/'', CHR ''?'', CHR ''#''}) (drop 2 rest) else [])"

definition urlparse :: "string \<Rightarrow> url" where
  "urlparse url =
     (let scheme = takeWhile (\<lambda>c. c \<noteq> CHR '':'') url
      in if scheme \<noteq> [] \<and> scheme \<noteq> url \<and> is_letter (hd url) \<and> list_all is_scheme_char scheme
         then \<lparr>u_scheme = lower scheme, u_netloc = url_rest (drop (length scheme + 1) url)\<rparr>
         else \<lparr>u_scheme = [], u_netloc = url_rest url\<rparr>)"

text \<open>\<open>netloc.rpartition("@")[2].partition(":")\<close>.\<close>

definition host_port :: "string \<Rightarrow> string \<times> string" where
  "host_port netloc =
     (let h = last (split_on CHR ''@'' netloc); name = takeWhile (\<lambda>c. c \<noteq> CHR '':'') h
      in (name, drop (length name + 1) h))"

definition url_hostname :: "url \<Rightarrow> string option" where
  "url_hostname u = (let h = fst (host_port (u_netloc u)) in if h = [] then None else Some (lower h))"

definition digits_value :: "string \<Rightarrow> nat" where
  "digits_value s = foldl (\<lambda>n c. 10 * n + (of_char c - 48)) 0 s"

definition url_port :: "url \<Rightarrow> exn + nat option" where
  "url_port u =
     (let p = snd (host_port (u_netloc u))
      in if p = [] then Inr None
         else if \<not> list_all is_digit p then Inl (Exn ValueErr ''Port could not be cast to integer value'')
         else if 65535 < digits_value p then Inl (Exn ValueErr ''Port out of range 0-65535'')
         else Inr (Some (digits_value p)))"

text \<open>A port of 0 is falsy and gives way to the default.\<close>

definition parse_url :: "string \<Rightarrow> exn + string \<times> nat \<times> bool" where
  "parse_url url =
     (let parsed = urlparse url; scheme = lower (u_scheme parsed)
      in if scheme \<notin> {''mqtt'', ''tcp'', ''mqtts''} then Inr (''localhost'', 1883, False)
         else (let tls = (scheme = ''mqtts'')
               in case url_port parsed of
                    Inl e \<Rightarrow> Inl e
                  | Inr port \<Rightarrow>
                      Inr (or_else (url_hostname parsed) ''localhost'',
                           (case port of None \<Rightarrow> (if tls then 8883 else 1883)
                            | Some p \<Rightarrow> if p = 0 then (if tls then 8883 else 1883) else p),
                           tls)))"

section \<open>Messages and topics\<close>

record mqtt_message =
  topic :: string
  payload :: string

definition station_code :: "mqtt_message \<Rightarrow> string option" where
  "station_code m =
     (let parts = split_on CHR ''/'' (topic m)
      in if 3 \<le> length parts \<and> hd parts = ''farm'' \<and> last parts = ''detections''
         then Some (parts ! 1) else None)"

section \<open>Settings\<close>

record mqtt_settings =
  broker_url :: string
  client_id :: string
  username :: "string option"
  password :: "string option"
  keepalive :: int
  qos :: int
  tls_insecure :: bool
  reconnect_initial_delay :: rat
  reconnect_max_delay :: rat
  detection_topic :: string

definition default_mqtt_settings :: mqtt_settings where
  "default_mqtt_settings =
     \<lparr>broker_url = ''mqtt://mosquitto:1883'', client_id = ''agro-tracking'', username = None,
      password = None, keepalive = 60, qos = 1, tls_insecure = False, reconnect_initial_delay = 1,
      reconnect_max_delay = 30, detection_topic = ''farm/+/detections''\<rparr>"

section \<open>The client\<close>

text \<open>\<open>_build_client\<close>: the arguments the library's client is made with; a bad URL raises.\<close>

record client_args =
  ca_hostname :: string
  ca_port :: nat
  ca_identifier :: string
  ca_username :: "string option"
  ca_password :: "string option"
  ca_keepalive :: int
  ca_verify_tls :: "bool option" \<comment> \<open>\<open>None\<close>: no TLS; otherwise whether certificates are verified\<close>

definition build_client :: "mqtt_settings \<Rightarrow> exn + client_args" where
  "build_client cfg =
     (case parse_url (broker_url cfg) of
        Inl e \<Rightarrow> Inl e
      | Inr (hostname, port, tls) \<Rightarrow> Inr
          \<lparr>ca_hostname = hostname, ca_port = port, ca_identifier = client_id cfg,
           ca_username = username cfg, ca_password = password cfg, ca_keepalive = keepalive cfg,
           ca_verify_tls = (if tls then Some (\<not> tls_insecure cfg) else None)\<rparr>)"

text \<open>
  The object: its settings after the overrides of \<open>__init__\<close>, the connection it holds and what it
  published. \<open>enter\<close> and \<open>exits\<close> say whether the library's \<open>__aenter__\<close> and \<open>__aexit__\<close> raise.
\<close>

record mqtt_client =
  mc_settings :: mqtt_settings
  mc_client :: "client_args option"
  mc_published :: "(string \<times> json \<times> int \<times> bool) list"

record overrides =
  o_broker_url :: "string option"
  o_client_id :: "string option"
  o_username :: "string option"
  o_password :: "string option"
  o_keepalive :: "int option"
  o_tls_insecure :: "bool option"
  o_initial_delay :: "rat option"
  o_max_delay :: "rat option"

text \<open>\<open>x or d\<close> on strings: an empty string is falsy.\<close>

definition str_or :: "string option \<Rightarrow> string \<Rightarrow> string" where
  "str_or x d = (case x of None \<Rightarrow> d | Some s \<Rightarrow> if s = [] then d else s)"

definition new_client :: "mqtt_settings \<Rightarrow> overrides \<Rightarrow> mqtt_client" where
  "new_client s v =
     \<lparr>mc_settings = s\<lparr>broker_url := str_or (o_broker_url v) (broker_url s),
                      client_id := str_or (o_client_id v) (client_id s),
                      username := (case o_username v of None \<Rightarrow> username s | Some u \<Rightarrow> Some u),
                      password := (case o_password v of None \<Rightarrow> password s | Some p \<Rightarrow> Some p),
                      keepalive := or_else (o_keepalive v) (keepalive s),
                      tls_insecure := or_else (o_tls_insecure v) (tls_insecure s),
                      reconnect_initial_delay := or_else (o_initial_delay v) (reconnect_initial_delay s),
                      reconnect_max_delay := or_else (o_max_delay v) (reconnect_max_delay s)\<rparr>,
      mc_client = None, mc_published = []\<rparr>"

definition mqtt_connect :: "exn option \<Rightarrow> (mqtt_client, exn, unit) prog" where
  "mqtt_connect enter = (\<lambda>c.
     case mc_client c of
       Some _ \<Rightarrow> (Inr (), c)
     | None \<Rightarrow>
         (case build_client (mc_settings c) of
            Inl e \<Rightarrow> (Inl e, c)
          | Inr args \<Rightarrow>
              (case enter of
                 Some e \<Rightarrow> (Inl e, c)
               | None \<Rightarrow> (Inr (), c\<lparr>mc_client := Some args\<rparr>))))"

definition mqtt_disconnect :: "exn option \<Rightarrow> (mqtt_client, exn, unit) prog" where
  "mqtt_disconnect exits = (\<lambda>c.
     case mc_client c of
       None \<Rightarrow> (Inr (), c)
     | Some _ \<Rightarrow>
         (case exits of
            None \<Rightarrow> (Inr (), c\<lparr>mc_client := None\<rparr>)
          | Some e \<Rightarrow> (Inl e, c\<lparr>mc_client := None\<rparr>)))"

definition not_connected :: exn where
  "not_connected = Exn RuntimeErr
     (''MqttClient is not connected; use '' @ [CHR 0x27] @ ''async with'' @ [CHR 0x27])"

definition mqtt_raw :: "(mqtt_client, exn, client_args) prog" where
  "mqtt_raw = (\<lambda>c. case mc_client c of None \<Rightarrow> (Inl not_connected, c) | Some a \<Rightarrow> (Inr a, c))"

text \<open>\<open>fails\<close>: the library's \<open>publish\<close> raises (a lost link).\<close>

definition mqtt_publish ::
  "exn option \<Rightarrow> string \<Rightarrow> json \<Rightarrow> int option \<Rightarrow> bool \<Rightarrow> (mqtt_client, exn, unit) prog" where
  "mqtt_publish fails to body q retain = (\<lambda>c.
     if mc_client c = None then (Inl not_connected, c)
     else (case fails of
             Some e \<Rightarrow> (Inl e, c)
           | None \<Rightarrow> (Inr (), c\<lparr>mc_published :=
               mc_published c @ [(to, body, or_else q (qos (mc_settings c)), retain)]\<rparr>)))"

section \<open>The subscription loop\<close>

text \<open>
  What one turn of \<open>run_forever\<close> meets: the connection or the subscription fails; or messages are
  delivered and then the iterator ends, the link is lost, or the handler sets the stop event before
  the next message. \<open>stopped_waiting\<close> says that the stop event is set during the wait that follows
  a failure, \<open>exit_raises\<close> that closing the connection raises.
\<close>

datatype ending = Finished | Failure exn | Cancelling

record attempt =
  at_connect :: "exn option"
  at_subscribe :: "exn option"
  at_messages :: "mqtt_message list"
  at_stop_after :: "nat option" \<comment> \<open>the stop event is set after so many messages\<close>
  at_ending :: ending
  stopped_waiting :: bool
  exit_raises :: "exn option"

record loop_state =
  lp_client :: mqtt_client
  lp_delay :: rat
  lp_waits :: "rat list"
  lp_handled :: "mqtt_message list"
  lp_stop :: bool

datatype loop_result = Turning | Returned | Raised exn

text \<open>The messages that reach the handler: the loop breaks on the first one after the stop.\<close>

definition delivered :: "attempt \<Rightarrow> mqtt_message list" where
  "delivered a = (case at_stop_after a of None \<Rightarrow> at_messages a | Some n \<Rightarrow> take n (at_messages a))"

definition stops_early :: "attempt \<Rightarrow> bool" where
  "stops_early a \<longleftrightarrow> (case at_stop_after a of None \<Rightarrow> False | Some n \<Rightarrow> n < length (at_messages a))"

text \<open>The body of the outer \<open>try\<close>; handler exceptions are logged and dropped.\<close>

definition subscribe_and_dispatch :: "attempt \<Rightarrow> (loop_state, exn, unit) prog" where
  "subscribe_and_dispatch a = (\<lambda>s.
     case mqtt_connect (at_connect a) (lp_client s) of
       (Inl e, c) \<Rightarrow> (Inl e, s\<lparr>lp_client := c\<rparr>)
     | (Inr _, c) \<Rightarrow>
         (case at_subscribe a of
            Some e \<Rightarrow> (Inl e, s\<lparr>lp_client := c\<rparr>)
          | None \<Rightarrow>
              (let s1 = s\<lparr>lp_client := c, lp_delay := reconnect_initial_delay (mc_settings c),
                          lp_handled := lp_handled s @ delivered a,
                          lp_stop := (lp_stop s \<or> at_stop_after a \<noteq> None)\<rparr>
               in (case (stops_early a, at_ending a) of
                     (False, Failure e) \<Rightarrow> (Inl e, s1)
                   | (False, Cancelling) \<Rightarrow> (Inl (Exn CancelledErr []), s1)
                   | _ \<Rightarrow>
                       (case mqtt_disconnect (exit_raises a) c of
                          (r, c') \<Rightarrow> (r, s1\<lparr>lp_client := c'\<rparr>))))))"

text \<open>
  The two \<open>except\<close> clauses, which do the same: disconnect, wait for the stop event up to \<open>delay\<close>,
  double the delay. A cancellation goes through.
\<close>

definition back_off :: "attempt \<Rightarrow> exn \<Rightarrow> loop_state \<Rightarrow> loop_result \<times> loop_state" where
  "back_off a e s =
     (if exn_class e = CancelledErr then (Raised e, s)
      else (case mqtt_disconnect (exit_raises a) (lp_client s) of
              (Inl e', c) \<Rightarrow> (Raised e', s\<lparr>lp_client := c\<rparr>)
            | (Inr _, c) \<Rightarrow>
                (let s1 = s\<lparr>lp_client := c, lp_waits := lp_waits s @ [lp_delay s]\<rparr>
                 in if lp_stop s \<or> stopped_waiting a then (Returned, s1\<lparr>lp_stop := True\<rparr>)
                    else (Turning,
                          s1\<lparr>lp_delay := min (lp_delay s * 2) (reconnect_max_delay (mc_settings c))\<rparr>))))"

definition loop_turn :: "attempt \<Rightarrow> loop_state \<Rightarrow> loop_result \<times> loop_state" where
  "loop_turn a s =
     (case subscribe_and_dispatch a s of
        (Inr _, s') \<Rightarrow> (Turning, s')
      | (Inl e, s') \<Rightarrow> back_off a e s')"

fun run_loop :: "attempt list \<Rightarrow> loop_state \<Rightarrow> loop_result \<times> loop_state" where
  "run_loop as s =
     (if lp_stop s then (Returned, s)
      else (case as of
              [] \<Rightarrow> (Turning, s)
            | a # as' \<Rightarrow>
                (case loop_turn a s of
                   (Turning, s') \<Rightarrow> run_loop as' s'
                 | (r, s') \<Rightarrow> (r, s'))))"

declare run_loop.simps [simp del]

definition run_forever :: "mqtt_client \<Rightarrow> bool \<Rightarrow> attempt list \<Rightarrow> loop_result \<times> loop_state" where
  "run_forever c stop as =
     run_loop as \<lparr>lp_client = c, lp_delay = reconnect_initial_delay (mc_settings c), lp_waits = [],
                  lp_handled = [], lp_stop = stop\<rparr>"

end
