(* ===== verification/MqttProperties.thy ===== *)
theory MqttProperties
  imports Mqtt
begin

text \<open>
  Properties of the MQTT client: the broker URL is read back, the back-off schedule of the
  subscription loop and its bound, the delivery of messages to the handler.
\<close>

section \<open>Facts about topics\<close>

lemma split_on_no [simp]: "c \<notin> set xs \<Longrightarrow> split_on c xs = [xs]"
  by (induction xs) auto

lemma split_on_append: "c \<notin> set xs \<Longrightarrow> split_on c (xs @ c # ys) = xs # split_on c ys"
  by (induction xs) auto

section \<open>Facts about URLs\<close>

lemma takeWhile_until: "c \<notin> set xs \<Longrightarrow> takeWhile (\<lambda>x. x \<noteq> c) (xs @ c # ys) = xs"
  by (induction xs) auto

lemma show_nat_digits: "list_all is_digit (show_nat n)"
proof (induction n rule: show_nat.induct)
  case (1 n)
  have d: "is_digit (char_of (48 + k))" if "k < 10" for k :: nat
    using that by (simp add: is_digit_def Let_def of_char_of)
  show ?case
    using 1 d [of n] d [of "n mod 10"] by (subst show_nat.simps) auto
qed

lemma show_nat_not_Nil [simp]: "show_nat n \<noteq> []"
  by (subst show_nat.simps) auto

lemma digits_value_snoc: "digits_value (s @ [c]) = 10 * digits_value s + (of_char c - 48)"
  by (simp add: digits_value_def)

lemma digits_value_show_nat [simp]: "digits_value (show_nat n) = n"
proof (induction n rule: show_nat.induct)
  case (1 n)
  show ?case
  proof (cases "n < 10")
    case True
    then show ?thesis by (subst show_nat.simps) (simp add: digits_value_def of_char_of)
  next
    case False
    then have "digits_value (show_nat n) = 10 * (n div 10) + n mod 10"
      using 1 by (subst show_nat.simps) (simp add: digits_value_snoc of_char_of)
    then show ?thesis by simp
  qed
qed

definition plain_host :: "string \<Rightarrow> bool" where
  "plain_host h \<longleftrightarrow> h \<noteq> [] \<and> list_all (\<lambda>c. is_letter c \<or> is_digit c \<or> c = CHR ''-'' \<or> c = CHR ''.'') h"

lemma not_digit_in: "\<not> is_digit c \<Longrightarrow> c \<notin> set (show_nat n)"
  using show_nat_digits [of n] by (auto simp: list_all_iff)

lemma special_chars [simp]:
  "\<not> is_digit CHR '':''" "\<not> is_digit CHR ''/''" "\<not> is_digit CHR ''@''" "\<not> is_digit CHR ''?''"
  "\<not> is_digit CHR ''#''" "\<not> is_letter CHR '':''" "\<not> is_letter CHR ''/''" "\<not> is_letter CHR ''@''"
  "\<not> is_letter CHR ''?''" "\<not> is_letter CHR ''#''"
  by (simp_all add: is_digit_def is_letter_def lower_char_def Let_def)

lemma plain_host_chars:
  "plain_host h \<Longrightarrow> c \<in> {CHR '':'', CHR ''/'', CHR ''@'', CHR ''?'', CHR ''#''} \<Longrightarrow> c \<notin> set h"
  by (auto simp: plain_host_def list_all_iff)

lemma host_port_plain:
  assumes h: "plain_host h"
  shows "host_port (h @ '':'' @ show_nat p) = (h, show_nat p)"
proof -
  have a: "CHR ''@'' \<notin> set (h @ '':'' @ show_nat p)"
    using plain_host_chars [OF h, of "CHR ''@''"] not_digit_in [of "CHR ''@''" p] by auto
  have c: "CHR '':'' \<notin> set h"
    using plain_host_chars [OF h, of "CHR '':''"] by auto
  show ?thesis
    using takeWhile_until [OF c, of "show_nat p"] a by (simp add: host_port_def Let_def)
qed

lemma netloc_plain:
  assumes h: "plain_host h"
  shows "url_rest (''//'' @ h @ '':'' @ show_nat p) = h @ '':'' @ show_nat p"
proof -
  have "c \<notin> {CHR ''/'', CHR ''?'', CHR ''#''}" if "c \<in> set (h @ '':'' @ show_nat p)" for c
    using that plain_host_chars [OF h, of c] not_digit_in [of c p] by auto
  then have "takeWhile (\<lambda>c. c \<notin> {CHR ''/'', CHR ''?'', CHR ''#''}) (h @ '':'' @ show_nat p)
      = h @ '':'' @ show_nat p"
    by (intro takeWhile_eq_all_conv [THEN iffD2]) blast
  then show ?thesis by (simp add: url_rest_def)
qed

lemma urlparse_scheme:
  assumes "scheme \<in> {''mqtt'', ''tcp'', ''mqtts''}"
  shows "urlparse (scheme @ '':'' @ rest) = \<lparr>u_scheme = scheme, u_netloc = url_rest rest\<rparr>"
proof -
  have "CHR '':'' \<notin> set scheme" using assms by auto
  then have t: "takeWhile (\<lambda>c. c \<noteq> CHR '':'') (scheme @ '':'' @ rest) = scheme"
    using takeWhile_until [of "CHR '':''" scheme rest] by simp
  show ?thesis
    using assms unfolding urlparse_def t
    by (auto simp: Let_def is_letter_def is_scheme_char_def is_digit_def lower_def lower_char_def)
qed

lemma url_round_trip:
  assumes s: "scheme \<in> {''mqtt'', ''tcp'', ''mqtts''}" and h: "plain_host h" and p: "0 < p" "p \<le> 65535"
  shows "parse_url (scheme @ ''://'' @ h @ '':'' @ show_nat p) = Inr (lower h, p, scheme = ''mqtts'')"
proof -
  have u: "urlparse (scheme @ ''://'' @ h @ '':'' @ show_nat p)
      = \<lparr>u_scheme = scheme, u_netloc = h @ '':'' @ show_nat p\<rparr>"
    using urlparse_scheme [OF s, of "''//'' @ h @ '':'' @ show_nat p"] netloc_plain [OF h] by simp
  have l: "lower scheme = scheme"
    using s by (auto simp: lower_def lower_char_def)
  have "h \<noteq> []" using h by (simp add: plain_host_def)
  then show ?thesis
    using p s show_nat_digits [of p] host_port_plain [OF h, of p]
    unfolding parse_url_def u by (auto simp add: l url_port_def url_hostname_def or_else_def Let_def)
qed

section \<open>Facts about the loop\<close>

text \<open>A turn that never gets a subscription: the attempt fails and the stop event stays unset.\<close>

definition no_link :: "attempt \<Rightarrow> bool" where
  "no_link a \<longleftrightarrow> (at_connect a \<noteq> None \<or> at_subscribe a \<noteq> None)
     \<and> (\<forall>e. at_connect a = Some e \<longrightarrow> exn_class e \<noteq> CancelledErr)
     \<and> (\<forall>e. at_subscribe a = Some e \<longrightarrow> exn_class e \<noteq> CancelledErr)
     \<and> \<not> stopped_waiting a \<and> exit_raises a = None"

lemma parse_url_not_cancelled: "parse_url u = Inl e \<Longrightarrow> exn_class e \<noteq> CancelledErr"
  by (auto simp: parse_url_def url_port_def Let_def split: if_splits sum.splits)

lemma build_client_not_cancelled: "build_client cfg = Inl e \<Longrightarrow> exn_class e \<noteq> CancelledErr"
  by (auto simp: build_client_def split: sum.splits dest: parse_url_not_cancelled)

lemma failing_turn:
  assumes a: "no_link a" and c: "mc_client (lp_client s) = None" and stop: "\<not> lp_stop s"
  shows "loop_turn a s = (Turning, s\<lparr>lp_waits := lp_waits s @ [lp_delay s],
           lp_delay := min (lp_delay s * 2) (reconnect_max_delay (mc_settings (lp_client s)))\<rparr>)"
proof -
  have n: "exit_raises a = None" "\<not> stopped_waiting a" using a by (simp_all add: no_link_def)
  have "\<exists>e c'. subscribe_and_dispatch a s = (Inl e, s\<lparr>lp_client := c'\<rparr>) \<and> exn_class e \<noteq> CancelledErr
     \<and> mqtt_disconnect None c' = (Inr (), lp_client s)"
  proof (cases "build_client (mc_settings (lp_client s))")
    case (Inl e)
    then show ?thesis
      using c build_client_not_cancelled [OF Inl]
      by (intro exI [of _ e] exI [of _ "lp_client s"])
         (simp add: subscribe_and_dispatch_def mqtt_connect_def mqtt_disconnect_def)
  next
    case (Inr args)
    show ?thesis
    proof (cases "at_connect a")
      case None
      then show ?thesis
        using a c Inr
        by (intro exI [of _ "the (at_subscribe a)"] exI [of _ "(lp_client s)\<lparr>mc_client := Some args\<rparr>"])
           (auto simp: subscribe_and_dispatch_def mqtt_connect_def mqtt_disconnect_def no_link_def)
    next
      case (Some e)
      then show ?thesis
        using a c Inr
        by (intro exI [of _ e] exI [of _ "lp_client s"])
           (simp add: subscribe_and_dispatch_def mqtt_connect_def mqtt_disconnect_def no_link_def)
    qed
  qed
  then obtain e c' where run: "subscribe_and_dispatch a s = (Inl e, s\<lparr>lp_client := c'\<rparr>)"
    and e: "exn_class e \<noteq> CancelledErr" and d: "mqtt_disconnect None c' = (Inr (), lp_client s)"
    by blast
  show ?thesis
    using stop e n by (simp add: loop_turn_def run back_off_def d Let_def)
qed

text \<open>The delay before the \<open>k\<close>-th wait since the last subscription.\<close>

definition delay_after :: "rat \<Rightarrow> rat \<Rightarrow> nat \<Rightarrow> rat" where
  "delay_after initial cap k = (if k = 0 then initial else min (initial * 2 ^ k) cap)"

lemma delay_after_Suc:
  "0 \<le> initial \<Longrightarrow> 0 \<le> cap \<Longrightarrow>
   min (delay_after initial cap k * 2) cap = delay_after initial cap (Suc k)"
  by (auto simp: delay_after_def min_def algebra_simps)

lemma failing_turns:
  assumes as: "list_all no_link as" and c: "mc_client (lp_client s) = None" and stop: "\<not> lp_stop s"
    and nonneg: "0 \<le> initial" "0 \<le> cap" and cap: "cap = reconnect_max_delay (mc_settings (lp_client s))"
    and delay: "lp_delay s = delay_after initial cap k"
  shows "run_loop as s = (Turning, s\<lparr>lp_waits := lp_waits s @ map (delay_after initial cap) [k..<k + length as],
           lp_delay := delay_after initial cap (k + length as)\<rparr>)"
  using as c stop cap delay
proof (induction as arbitrary: s k)
  case Nil
  then show ?case by (simp add: run_loop.simps)
next
  case (Cons a as)
  let ?s = "s\<lparr>lp_waits := lp_waits s @ [lp_delay s], lp_delay := delay_after initial cap (Suc k)\<rparr>"
  have t: "loop_turn a s = (Turning, ?s)"
    using Cons.prems failing_turn [of a s] delay_after_Suc [OF nonneg, of k] by simp
  have "run_loop (a # as) s = run_loop as ?s"
    using Cons.prems t by (subst run_loop.simps) simp
  also have "\<dots> = (Turning, ?s\<lparr>lp_waits := lp_waits ?s @ map (delay_after initial cap) [Suc k..<Suc k + length as],
           lp_delay := delay_after initial cap (Suc k + length as)\<rparr>)"
    using Cons.prems by (intro Cons.IH) auto
  finally show ?case
    using Cons.prems by (simp add: upt_conv_Cons del: upt_Suc)
qed

text \<open>What every turn keeps: the settings, and a bound on the delays.\<close>

definition loop_inv :: "mqtt_settings \<Rightarrow> loop_state \<Rightarrow> bool" where
  "loop_inv cfg s \<longleftrightarrow>
     (let bound = max (reconnect_initial_delay cfg) (reconnect_max_delay cfg)
      in mc_settings (lp_client s) = cfg \<and> lp_delay s \<le> bound \<and> list_all (\<lambda>d. d \<le> bound) (lp_waits s))"

lemma connect_settings [simp]: "mc_settings (snd (mqtt_connect x c)) = mc_settings c"
  by (simp add: mqtt_connect_def split: option.split sum.split)

lemma disconnect_settings [simp]: "mc_settings (snd (mqtt_disconnect x c)) = mc_settings c"
  by (simp add: mqtt_disconnect_def split: option.split)

lemma disconnect_closes [simp]: "mc_client (snd (mqtt_disconnect x c)) = None"
  by (simp add: mqtt_disconnect_def split: option.split)

lemma subscribe_inv: "loop_inv cfg s \<Longrightarrow> loop_inv cfg (snd (subscribe_and_dispatch a s))"
  using connect_settings [of "at_connect a" "lp_client s"]
  by (cases "mqtt_connect (at_connect a) (lp_client s)")
     (auto simp: subscribe_and_dispatch_def loop_inv_def Let_def case_prod_beta
       split: sum.splits option.splits bool.splits ending.splits)

lemma back_off_inv: "loop_inv cfg s \<Longrightarrow> loop_inv cfg (snd (back_off a e s))"
  using disconnect_settings [of "exit_raises a" "lp_client s"]
  by (cases "mqtt_disconnect (exit_raises a) (lp_client s)")
     (auto simp: back_off_def loop_inv_def Let_def split: sum.splits)

lemma turn_inv: "loop_inv cfg s \<Longrightarrow> loop_inv cfg (snd (loop_turn a s))"
  using subscribe_inv [of cfg s a] back_off_inv
  by (auto simp: loop_turn_def split: prod.splits sum.splits)

lemma run_inv: "loop_inv cfg s \<Longrightarrow> loop_inv cfg (snd (run_loop as s))"
proof (induction as arbitrary: s)
  case Nil
  then show ?case by (simp add: run_loop.simps)
next
  case (Cons a as)
  then show ?case
    using turn_inv [OF Cons.prems, of a]
    by (subst run_loop.simps) (auto split: prod.splits loop_result.splits)
qed

text \<open>No turn but a cancelled one leaves the connection open.\<close>

definition closed_or_cancelled :: "loop_result \<times> loop_state \<Rightarrow> bool" where
  "closed_or_cancelled r \<longleftrightarrow>
     mc_client (lp_client (snd r)) = None \<or> (\<exists>e. fst r = Raised e \<and> exn_class e = CancelledErr)"

lemma back_off_closes: "closed_or_cancelled (back_off a e s)"
  using disconnect_closes [of "exit_raises a" "lp_client s"]
  by (cases "mqtt_disconnect (exit_raises a) (lp_client s)")
     (auto simp: back_off_def closed_or_cancelled_def Let_def split: sum.splits)

lemma subscribe_closes:
  "subscribe_and_dispatch a s = (Inr u, s') \<Longrightarrow> mc_client (lp_client s') = None"
  by (auto simp: subscribe_and_dispatch_def mqtt_disconnect_def Let_def
      split: sum.splits option.splits bool.splits ending.splits prod.splits)

lemma turn_closes: "closed_or_cancelled (loop_turn a s)"
  using back_off_closes
  by (auto simp: loop_turn_def closed_or_cancelled_def dest: subscribe_closes split: prod.splits sum.splits)

lemma run_closes: "mc_client (lp_client s) = None \<Longrightarrow> closed_or_cancelled (run_loop as s)"
proof (induction as arbitrary: s)
  case Nil
  then show ?case by (simp add: run_loop.simps closed_or_cancelled_def)
next
  case (Cons a as)
  obtain r s' where t: "loop_turn a s = (r, s')" by fastforce
  have c: "closed_or_cancelled (r, s')" using turn_closes [of a s] t by simp
  show ?case
    using Cons c t
    by (subst run_loop.simps) (cases r, auto simp: closed_or_cancelled_def)
qed

text \<open>What one turn hands to the handler.\<close>

definition turn_messages :: "attempt \<Rightarrow> mqtt_client \<Rightarrow> mqtt_message list" where
  "turn_messages a c =
     (if at_connect a = None \<and> at_subscribe a = None \<and> (\<exists>x. build_client (mc_settings c) = Inr x)
      then delivered a else [])"

lemma disconnect_handled: "lp_handled (snd (back_off a e s)) = lp_handled s"
  by (auto simp: back_off_def Let_def split: prod.splits sum.splits)

lemma subscribe_handled:
  "mc_client (lp_client s) = None \<Longrightarrow>
   lp_handled (snd (subscribe_and_dispatch a s)) = lp_handled s @ turn_messages a (lp_client s)"
  by (auto simp: subscribe_and_dispatch_def turn_messages_def mqtt_connect_def Let_def
      split: sum.splits option.splits bool.splits ending.splits prod.splits)

lemma turn_handled:
  "mc_client (lp_client s) = None \<Longrightarrow>
   lp_handled (snd (loop_turn a s)) = lp_handled s @ turn_messages a (lp_client s)"
  using subscribe_handled [of s a] disconnect_handled
  by (auto simp: loop_turn_def split: prod.splits sum.splits)

lemma back_off_settings: "mc_settings (lp_client (snd (back_off a e s))) = mc_settings (lp_client s)"
  using disconnect_settings [of "exit_raises a" "lp_client s"]
  by (cases "mqtt_disconnect (exit_raises a) (lp_client s)")
     (auto simp: back_off_def Let_def split: sum.splits)

lemma subscribe_settings:
  "mc_settings (lp_client (snd (subscribe_and_dispatch a s))) = mc_settings (lp_client s)"
  using connect_settings [of "at_connect a" "lp_client s"]
  by (cases "mqtt_connect (at_connect a) (lp_client s)")
     (auto simp: subscribe_and_dispatch_def Let_def case_prod_beta
       split: sum.splits option.splits bool.splits ending.splits)

lemma turn_settings: "mc_settings (lp_client (snd (loop_turn a s))) = mc_settings (lp_client s)"
  using subscribe_settings [of a s] back_off_settings
  by (auto simp: loop_turn_def split: prod.splits sum.splits)

lemma run_handled:
  "mc_client (lp_client s) = None \<Longrightarrow>
   \<exists>k \<le> length as. lp_handled (snd (run_loop as s)) =
     lp_handled s @ concat (map (\<lambda>a. turn_messages a (lp_client s)) (take k as))"
proof (induction as arbitrary: s)
  case Nil
  then show ?case by (simp add: run_loop.simps)
next
  case (Cons a as)
  obtain r s' where t: "loop_turn a s = (r, s')" by fastforce
  have h: "lp_handled s' = lp_handled s @ turn_messages a (lp_client s)"
    using turn_handled [OF Cons.prems, of a] t by simp
  have set: "mc_settings (lp_client s') = mc_settings (lp_client s)"
    using turn_settings [of a s] t by simp
  then have tm: "turn_messages x (lp_client s') = turn_messages x (lp_client s)" for x
    by (simp add: turn_messages_def)
  show ?case
  proof (cases "lp_stop s")
    case True
    then show ?thesis by (intro exI [of _ 0]) (simp add: run_loop.simps)
  next
    case go: False
    show ?thesis
    proof (cases "r = Turning")
      case True
      then have "mc_client (lp_client s') = None"
        using turn_closes [of a s] t by (simp add: closed_or_cancelled_def)
      from Cons.IH [OF this] obtain k where "k \<le> length as"
        "lp_handled (snd (run_loop as s')) = lp_handled s' @ concat (map (\<lambda>a. turn_messages a (lp_client s')) (take k as))"
        by blast
      then show ?thesis
        using go True t h tm by (intro exI [of _ "Suc k"]) (simp add: run_loop.simps [of "a # as"])
    next
      case False
      then show ?thesis
        using go t h by (intro exI [of _ 1]) (cases r, simp_all add: run_loop.simps [of "a # as"])
    qed
  qed
qed

section \<open>Properties\<close>

lemma sample_host: "plain_host ''mosquitto''"
  by (simp add: plain_host_def is_letter_def is_digit_def lower_char_def Let_def)

text \<open>
  C22: While the broker cannot be reached, the waits of the subscription loop are the initial
  delay, then min(initial * 2^k, max) for the k-th further attempt, and the loop goes on.
\<close>

theorem backoff_schedule:
  assumes "list_all no_link as"
    and "0 \<le> reconnect_initial_delay (mc_settings (new_client cfg v))"
    and "0 \<le> reconnect_max_delay (mc_settings (new_client cfg v))"
  shows "let c = new_client cfg v;
             initial = reconnect_initial_delay (mc_settings c); cap = reconnect_max_delay (mc_settings c);
             r = run_forever c False as
         in fst r = Turning
            \<and> lp_waits (snd r) = map (\<lambda>k. if k = 0 then initial else min (initial * 2 ^ k) cap) [0..<length as]"
proof -
  let ?c = "new_client cfg v"
  let ?s = "\<lparr>lp_client = ?c, lp_delay = reconnect_initial_delay (mc_settings ?c), lp_waits = [],
             lp_handled = [], lp_stop = False\<rparr>"
  have "run_loop as ?s = (Turning, ?s\<lparr>lp_waits := lp_waits ?s @ map (delay_after
      (reconnect_initial_delay (mc_settings ?c)) (reconnect_max_delay (mc_settings ?c))) [0..<0 + length as],
      lp_delay := delay_after (reconnect_initial_delay (mc_settings ?c))
        (reconnect_max_delay (mc_settings ?c)) (0 + length as)\<rparr>)"
    by (rule failing_turns) (use assms in \<open>simp_all add: delay_after_def new_client_def\<close>)
  then show ?thesis
    by (simp add: run_forever_def Let_def delay_after_def [abs_def] cong: map_cong)
qed

definition no_overrides :: overrides where
  "no_overrides = \<lparr>o_broker_url = None, o_client_id = None, o_username = None, o_password = None,
     o_keepalive = None, o_tls_insecure = None, o_initial_delay = None, o_max_delay = None\<rparr>"

definition refused :: attempt where
  "refused = \<lparr>at_connect = Some (Exn MqttErr ''refused''), at_subscribe = None, at_messages = [],
     at_stop_after = None, at_ending = Finished, stopped_waiting = False, exit_raises = None\<rparr>"

lemma refused_no_link: "list_all no_link (replicate n refused)"
  by (induction n) (simp_all add: no_link_def refused_def)

theorem backoff_schedule_witness:
  "lp_waits (snd (run_forever (new_client default_mqtt_settings no_overrides) False (replicate 7 refused)))
     = [1, 2, 4, 8, 16, 30, 30]"
  using backoff_schedule [OF refused_no_link, of default_mqtt_settings no_overrides 7]
  by (simp add: new_client_def default_mqtt_settings_def no_overrides_def or_else_def Let_def
      upt_rec numeral_eq_Suc)

text \<open>No wait exceeds the larger of the two delays, whatever the attempts come to.\<close>

lemma backoff_is_bounded:
  "let c = new_client cfg v; w = lp_waits (snd (run_forever c stop as))
   in list_all (\<lambda>d. d \<le> max (reconnect_initial_delay (mc_settings c)) (reconnect_max_delay (mc_settings c))) w"
proof -
  let ?c = "new_client cfg v"
  have "loop_inv (mc_settings ?c) (snd (run_forever ?c stop as))"
    unfolding run_forever_def by (rule run_inv) (simp add: loop_inv_def Let_def)
  then show ?thesis by (simp add: loop_inv_def Let_def)
qed

text \<open>
  C23: Whatever the connection goes through, the messages handed to the handler are those
  delivered in the turns made so far, each once and in order, and unless the loop was
  cancelled no connection is left open.
\<close>

theorem messages_are_handled_once_in_order:
  "let c = new_client cfg v; r = run_forever c stop as
   in (\<exists>k. k \<le> length as \<and> lp_handled (snd r) = concat (map (\<lambda>a. turn_messages a c) (take k as)))
      \<and> (mc_client (lp_client (snd r)) = None \<or> (\<exists>e. fst r = Raised e \<and> exn_class e = CancelledErr))"
proof -
  let ?c = "new_client cfg v"
  have c: "mc_client ?c = None" by (simp add: new_client_def)
  show ?thesis
    using run_handled [of "\<lparr>lp_client = ?c, lp_delay = reconnect_initial_delay (mc_settings ?c),
        lp_waits = [], lp_handled = [], lp_stop = stop\<rparr>" as]
      run_closes [of "\<lparr>lp_client = ?c, lp_delay = reconnect_initial_delay (mc_settings ?c),
        lp_waits = [], lp_handled = [], lp_stop = stop\<rparr>" as] c
    by (auto simp: run_forever_def closed_or_cancelled_def Let_def)
qed

end
