(* ===== verification/DetectionProperties.thy ===== *)
theory DetectionProperties
  imports Detection
begin

text \<open>
  Properties of the detection pipeline: which frames give events, their order and range, and when
  the motion trigger fires. \<open>bench_cv\<close> is a small instance of the OpenCV parameter for the concrete
  instances: a frame is a number, which is the side of the only contour and marker in it.
\<close>

section \<open>A stream of frames\<close>

definition stream_events ::
  "detector_settings \<Rightarrow> ('f, 'bg, 'mask, 'c) cv2 \<Rightarrow> int list list option \<Rightarrow> 'bg \<Rightarrow> (int \<times> rat \<times> 'f) list \<Rightarrow>
   detection_event list" where
  "stream_events cfg cv polygon bg frs =
     concat (map (frame_events cfg cv (roi_polygon polygon)) (zip frs (triggers_of cfg cv bg (map (\<lambda>(n, t, f). f) frs))))"

lemma stream_events_Cons:
  "trigger_detect cfg cv bg f = (tr, bg') \<Longrightarrow>
   stream_events cfg cv polygon bg ((n, t, f) # frs) =
     frame_events cfg cv (roi_polygon polygon) ((n, t, f), triggered tr) @ stream_events cfg cv polygon bg' frs"
  by (simp add: stream_events_def)

lemma frame_events_number:
  "e \<in> set (frame_events cfg cv polygon ((n, t, f), hit)) \<Longrightarrow>
   de_frame_number e = n \<and> de_timestamp_in_video e = t"
  by (cases "aruco_detect cfg cv f"; cases hit) (auto simp: frame_events_def plain_event_def)

lemma frame_events_const:
  "map de_frame_number (frame_events cfg cv polygon ((n, t, f), hit)) =
     replicate (length (frame_events cfg cv polygon ((n, t, f), hit))) n"
proof (cases "aruco_detect cfg cv f")
  case (Inl e)
  then show ?thesis by (simp add: frame_events_def)
next
  case (Inr ds)
  then show ?thesis
    by (simp add: frame_events_def plain_event_def comp_def map_replicate_const)
qed

lemma stream_events_frames:
  "e \<in> set (stream_events cfg cv polygon bg frs) \<Longrightarrow>
   \<exists>f. (de_frame_number e, de_timestamp_in_video e, f) \<in> set frs"
  by (fastforce simp: stream_events_def dest: frame_events_number set_zip_leftD)

lemma stream_events_sorted:
  assumes "sorted (map fst frs)"
  shows "sorted (map de_frame_number (stream_events cfg cv polygon bg frs))"
  using assms
proof (induction frs arbitrary: bg)
  case Nil
  then show ?case by (simp add: stream_events_def)
next
  case (Cons fr frs)
  obtain n t f where fr: "fr = (n, t, f)" by (cases fr)
  obtain tr bg' where tr: "trigger_detect cfg cv bg f = (tr, bg')" by fastforce
  have "n \<le> de_frame_number e" if "e \<in> set (stream_events cfg cv polygon bg' frs)" for e
    using stream_events_frames [OF that] Cons.prems by (force simp: fr)
  then show ?case
    using Cons
    by (auto simp: fr stream_events_Cons [OF tr] sorted_append frame_events_const dest: frame_events_number)
qed

lemma process_video_spec:
  assumes "process_video cfg cv path polygon = Inr (evs, frames, triggers)"
  shows "\<exists>frs. extract_frames cfg cv path = Inr frs
    \<and> evs = stream_events cfg cv polygon (new_background cv) frs
    \<and> frames = int (length (cap_frames (video_capture cv path)))
    \<and> triggers = int (length (filter id (triggers_of cfg cv (new_background cv) (map (\<lambda>(n, t, f). f) frs))))"
  using assms process_frames_spec [of cfg cv "roi_polygon polygon" _ "pipeline_start cv"]
  by (fastforce simp: process_video_def extract_frames_def stream_events_def pipeline_start_def Let_def
      split: sum.splits if_splits)

text \<open>What comes out of a video is in frame order.\<close>

lemma process_video_ordered:
  assumes "process_video cfg cv path polygon = Inr (evs, frames, triggers)"
  shows "sorted (map de_frame_number evs) \<and> 0 \<le> triggers \<and> triggers \<le> frames
    \<and> list_all (\<lambda>e. 0 \<le> de_frame_number e \<and> de_frame_number e < frames
         \<and> de_timestamp_in_video e = of_int (de_frame_number e) / frame_rate (video_capture cv path)) evs"
proof -
  let ?cap = "video_capture cv path"
  let ?frs = "map (\<lambda>(i, frame). (int i, of_nat i / frame_rate ?cap, scaled cfg cv ?cap frame))
    (enumerate 0 (cap_frames ?cap))"
  have frs: "extract_frames cfg cv path = Inr ?frs" and opened: "process_frames cfg cv (roi_polygon polygon) ?frs (pipeline_start cv)
      = Inr s \<Longrightarrow> evs = p_events s \<and> frames = p_frames s \<and> triggers = p_triggers s" for s
    using assms by (auto simp: process_video_def extract_frames_def Let_def split: if_splits)
  obtain s where s: "process_frames cfg cv (roi_polygon polygon) ?frs (pipeline_start cv) = Inr s"
    using assms frs by (auto simp: process_video_def split: sum.splits)
  have spec: "evs = stream_events cfg cv polygon (new_background cv) ?frs"
    "frames = int (length ?frs)"
    "triggers = int (length (filter id (triggers_of cfg cv (new_background cv) (map (\<lambda>(n, t, f). f) ?frs))))"
    using process_frames_spec [OF s] opened [OF s] by (simp_all add: stream_events_def pipeline_start_def)
  have "map fst ?frs = map int [0..<length (cap_frames ?cap)]"
    by (intro nth_equalityI) (simp_all add: nth_enumerate_eq)
  then have sorted: "sorted (map fst ?frs)" by (simp add: sorted_map)
  have "length (filter id (triggers_of cfg cv (new_background cv) (map (\<lambda>(n, t, f). f) ?frs))) \<le> length ?frs"
    by (rule order_trans [OF length_filter_le]) simp
  moreover have "0 \<le> de_frame_number e \<and> de_frame_number e < frames
      \<and> de_timestamp_in_video e = of_int (de_frame_number e) / frame_rate ?cap" if "e \<in> set evs" for e
    using stream_events_frames [of e cfg cv polygon "new_background cv" ?frs] that spec(2)
    by (auto simp: spec(1) in_set_enumerate_eq)
  ultimately show ?thesis
    using stream_events_sorted [OF sorted, of cfg cv polygon "new_background cv"] spec
    by (auto simp: list_all_iff)
qed

section \<open>A small instance\<close>

definition bench_cv :: "(int, unit, int, int) cv2" where
  "bench_cv = \<lparr>video_capture = (\<lambda>_. \<lparr>is_opened = True, cap_fps = 10, cap_width = 320, cap_height = 240,
                                   cap_frames = [3, 80, 90]\<rparr>),
     resize = (\<lambda>f _ _. f), new_background = (), apply_background = (\<lambda>_ f. (f, ())),
     find_contours = (\<lambda>m. [m]), area_of = (\<lambda>c. of_int (c * c)), bounding_rect = (\<lambda>c. (0, 0, c, c)),
     detect_markers = (\<lambda>f. ([f], Some [7])), frame_area = (\<lambda>_. 76800),
     point_polygon_test = (\<lambda>_ _. 1)\<rparr>"

lemma bench_video:
  "\<exists>evs. process_video default_detector_settings bench_cv ''a.mp4'' None = Inr (evs, 3, 2)"
  by (simp add: process_video_def extract_frames_def bench_cv_def default_detector_settings_def
      process_frame_def trigger_detect_def aruco_detect_def larger_contour_def pipeline_start_def
      emit_def case_prod_beta enumerate_eq_zip scaled_def marker_confidence_def upt_rec Let_def)

section \<open>Properties\<close>

text \<open>
  C13: The events of a processed video are, frame by frame, the markers decoded in the frames
  whose motion trigger fired, the background model having seen every frame; the counters are
  the number of frames and of triggers.
\<close>

theorem process_video_is_the_triggered_frames:
  assumes "process_video cfg cv path polygon = Inr (evs, frames, triggers)"
  shows "\<exists>frs. extract_frames cfg cv path = Inr frs
    \<and> evs = stream_events cfg cv polygon (new_background cv) frs
    \<and> frames = int (length (cap_frames (video_capture cv path)))
    \<and> triggers = int (length (filter id (triggers_of cfg cv (new_background cv) (map (\<lambda>(n, t, f). f) frs))))"
  using assms by (rule process_video_spec)

theorem process_video_is_the_triggered_frames_witness:
  "\<exists>evs frs. process_video default_detector_settings bench_cv ''a.mp4'' None = Inr (evs, 3, 2)
     \<and> evs = stream_events default_detector_settings bench_cv None (new_background bench_cv) frs"
  using bench_video process_video_is_the_triggered_frames [of default_detector_settings bench_cv "''a.mp4''" None _ 3 2]
  by blast

text \<open>The trigger fires on the largest contour.\<close>

lemma trigger_fires_on_the_largest_contour:
  assumes "trigger_detect cfg cv bg frame = (tr, bg')" and "0 \<le> min_contour_area cfg"
  shows "let cs = find_contours cv (fst (apply_background cv bg frame))
         in (triggered tr \<longleftrightarrow> (\<exists>c \<in> set cs. min_contour_area cfg < area_of cv c))
            \<and> list_all (\<lambda>c. area_of cv c \<le> contour_area tr) cs
            \<and> (if triggered tr
               then \<exists>c \<in> set cs. area_of cv c = contour_area tr \<and> tr_bbox tr = Some (bounding_rect cv c)
               else tr_bbox tr = None)
            \<and> bg' = snd (apply_background cv bg frame)"
proof -
  obtain fg b where fg: "apply_background cv bg frame = (fg, b)" by fastforce
  obtain m bb where f: "fold (larger_contour cv) (find_contours cv fg) (0, None) = (m, bb)" by fastforce
  have tr: "tr = \<lparr>triggered = (min_contour_area cfg < m), contour_area = m,
      tr_bbox = (if min_contour_area cfg < m then bb else None)\<rparr>" "bg' = b"
    using assms by (simp_all add: trigger_detect_def fg f Let_def)
  show ?thesis
    using trigger_max [OF f] assms(2) by (force simp: fg tr Let_def list_all_iff)
qed

theorem trigger_fires_on_the_largest_contour_witness:
  "triggered (fst (trigger_detect default_detector_settings bench_cv () 80))"
  using trigger_fires_on_the_largest_contour [OF prod.collapse [symmetric], of default_detector_settings bench_cv "()" 80]
  by (simp add: Let_def default_detector_settings_def bench_cv_def)

end
