(* ===== verification/EdgePipeline.thy ===== *)
theory EdgePipeline
  imports Mqtt Detection
begin

text \<open>
  \<open>edge/main.py\<close> and \<open>edge/config.py\<close>: the process next to a camera, from frames to batches on
  MQTT. The camera and the monotonic clock are the environment: the frames read, each with the
  clock reading at the head of its loop turn, are arguments, and so is what \<open>publish\<close> meets.
  The coroutines of the process interleave only where they await; \<open>edge_step\<close> is that
  interleaving. The pacing sleeps have no effect on the state.
\<close>

section \<open>Settings and data\<close>

record edge_settings =
  es_rtsp_url :: string
  es_station_code :: string
  es_fps_target :: rat
  es_frame_skip :: int
  es_reconnect_delay :: rat
  es_publish_interval_sec :: rat
  es_publish_max_events :: int
  es_roi_polygon :: "int list list option"
  es_topic_prefix :: string

definition default_edge_settings :: edge_settings where
  "default_edge_settings =
     \<lparr>es_rtsp_url = ''rtsp://localhost:8554/cam'', es_station_code = ''STATION_EDGE'', es_fps_target = 10,
      es_frame_skip = 1, es_reconnect_delay = 2, es_publish_interval_sec = 5, es_publish_max_events = 500,
      es_roi_polygon = None, es_topic_prefix = ''farm''\<rparr>"

record edge_detection =
  ed_aruco_id :: "int option"
  ed_confidence :: rat
  ed_bbox :: "json option"
  ed_inside_roi :: bool
  ed_frame_number :: int
  ed_timestamp_in_video :: rat
  ed_detector_metadata :: json

text \<open>Command-line overrides on top of the settings (\<open>_settings_from_args\<close>, \<open>main\<close>).\<close>

record edge_args =
  ar_rtsp_url :: "string option"
  ar_station_code :: "string option"
  ar_fps_target :: "rat option"
  ar_frame_skip :: "int option"
  ar_reconnect_delay :: "rat option"
  ar_publish_interval_sec :: "rat option"
  ar_publish_max_events :: "int option"

definition settings_from_args :: "edge_args \<Rightarrow> edge_settings \<Rightarrow> edge_settings" where
  "settings_from_args a s =
     s\<lparr>es_rtsp_url := or_else (ar_rtsp_url a) (es_rtsp_url s),
       es_station_code := or_else (ar_station_code a) (es_station_code s),
       es_fps_target := or_else (ar_fps_target a) (es_fps_target s),
       es_frame_skip := or_else (ar_frame_skip a) (es_frame_skip s),
       es_reconnect_delay := or_else (ar_reconnect_delay a) (es_reconnect_delay s),
       es_publish_interval_sec := or_else (ar_publish_interval_sec a) (es_publish_interval_sec s),
       es_publish_max_events := or_else (ar_publish_max_events a) (es_publish_max_events s)\<rparr>"

section \<open>The pipeline object\<close>

record 'bg edge =
  eg_settings :: edge_settings
  eg_topic :: string
  eg_buffer :: "edge_detection list"
  eg_last_publish :: rat
  eg_frame_number :: int
  eg_started_at :: "rat option"
  eg_stop :: bool
  eg_bg :: 'bg
  eg_mqtt :: mqtt_client

definition edge_topic :: "string \<Rightarrow> string \<Rightarrow> string" where
  "edge_topic topic_prefix code = topic_prefix @ ''/'' @ code @ ''/detections''"

definition new_edge :: "edge_settings \<Rightarrow> 'bg \<Rightarrow> mqtt_client \<Rightarrow> rat \<Rightarrow> 'bg edge" where
  "new_edge s bg mqtt now =
     \<lparr>eg_settings = s\<lparr>es_frame_skip := max 1 (es_frame_skip s)\<rparr>,
      eg_topic = edge_topic (es_topic_prefix s) (es_station_code s), eg_buffer = [],
      eg_last_publish = now, eg_frame_number = 0, eg_started_at = None, eg_stop = False,
      eg_bg = bg, eg_mqtt = mqtt\<rparr>"

definition request_stop :: "'bg edge \<Rightarrow> 'bg edge" where
  "request_stop p = p\<lparr>eg_stop := True\<rparr>"

section \<open>Frames\<close>

definition edge_detection_of ::
  "('f, 'bg, 'mask, 'c) cv2 \<Rightarrow> int list list option \<Rightarrow> int \<Rightarrow> rat \<Rightarrow> aruco_detection \<Rightarrow> edge_detection" where
  "edge_detection_of cv polygon n t det =
     \<lparr>ed_aruco_id = ad_aruco_id det, ed_confidence = ad_confidence det,
      ed_bbox = (case ad_bbox det of
                   None \<Rightarrow> None
                 | Some (x, y, w, h) \<Rightarrow>
                     Some (JObj [(''x'', JInt x), (''y'', JInt y), (''w'', JInt w), (''h'', JInt h)])),
      ed_inside_roi = roi_is_inside cv (roi_polygon polygon) (ad_bbox det), ed_frame_number = n,
      ed_timestamp_in_video = t,
      ed_detector_metadata = JObj [(''triggered_by_mog2'', JBool True)]\<rparr>"

definition edge_process_frame ::
  "detector_settings \<Rightarrow> ('f, 'bg, 'mask, 'c) cv2 \<Rightarrow> 'f \<Rightarrow> rat \<Rightarrow> ('bg edge, exn, unit) prog" where
  "edge_process_frame cfg cv frame timestamp = (\<lambda>p.
     case trigger_detect cfg cv (eg_bg p) frame of
       (result, bg') \<Rightarrow>
         (let p1 = p\<lparr>eg_bg := bg'\<rparr>
          in if \<not> triggered result then (Inr (), p1)
             else (case aruco_detect cfg cv frame of
                     Inl e \<Rightarrow> (Inl e, p1)
                   | Inr ds \<Rightarrow>
                       (Inr (), p1\<lparr>eg_buffer := eg_buffer p1
                          @ map (edge_detection_of cv (es_roi_polygon (eg_settings p)) (eg_frame_number p) timestamp) ds\<rparr>))))"

text \<open>One turn of the loop over \<open>cap.read\<close>: the frame and the clock at the head of the turn.\<close>

definition edge_frame ::
  "detector_settings \<Rightarrow> ('f, 'bg, 'mask, 'c) cv2 \<Rightarrow> 'f \<times> rat \<Rightarrow> ('bg edge, exn, unit) prog" where
  "edge_frame cfg cv r = (case r of (frame, loop_start) \<Rightarrow>
     seqM (\<lambda>p. if eg_frame_number p mod es_frame_skip (eg_settings p) = 0
               then edge_process_frame cfg cv frame (loop_start - or_else (eg_started_at p) 0) p
               else (Inr (), p))
       (modify (\<lambda>p. p\<lparr>eg_frame_number := eg_frame_number p + 1\<rparr>)))"

text \<open>
  \<open>_consume_stream\<close>: \<open>frs\<close> are the frames until the stream fails or the stop event is set; an
  exception of the detectors leaves the method and is logged by \<open>run\<close>.
\<close>

definition open_stream :: "rat \<Rightarrow> 'bg edge \<Rightarrow> 'bg edge" where
  "open_stream now p = p\<lparr>eg_frame_number := 0, eg_started_at := Some now\<rparr>"

definition consume_stream ::
  "detector_settings \<Rightarrow> ('f, 'bg, 'mask, 'c) cv2 \<Rightarrow> bool \<Rightarrow> rat \<Rightarrow> ('f \<times> rat) list \<Rightarrow> ('bg edge, exn, unit) prog" where
  "consume_stream cfg cv opened now frs =
     (if \<not> opened then ret ()
      else seqM (modify (open_stream now)) (forM (edge_frame cfg cv) frs))"

definition run_turn ::
  "detector_settings \<Rightarrow> ('f, 'bg, 'mask, 'c) cv2 \<Rightarrow> bool \<Rightarrow> rat \<Rightarrow> ('f \<times> rat) list \<Rightarrow> ('bg edge, exn, unit) prog" where
  "run_turn cfg cv opened now frs =
     tryM (consume_stream cfg cv opened now frs)
       (\<lambda>e. if exn_class e = CancelledErr then raise e else ret ())"

section \<open>Batches\<close>

text \<open>\<open>asdict\<close>.\<close>

definition detection_json :: "edge_detection \<Rightarrow> json" where
  "detection_json d = JObj
     [(''aruco_id'', case ed_aruco_id d of None \<Rightarrow> JNull | Some a \<Rightarrow> JInt a),
      (''confidence'', JFloat (ed_confidence d)),
      (''bbox'', case ed_bbox d of None \<Rightarrow> JNull | Some b \<Rightarrow> b),
      (''inside_roi'', JBool (ed_inside_roi d)),
      (''frame_number'', JInt (ed_frame_number d)),
      (''timestamp_in_video'', JFloat (ed_timestamp_in_video d)),
      (''detector_metadata'', ed_detector_metadata d)]"

definition edge_payload :: "'bg edge \<Rightarrow> rat \<Rightarrow> edge_detection list \<Rightarrow> json" where
  "edge_payload p now batch = JObj
     [(''station_code'', JStr (es_station_code (eg_settings p))),
      (''started_at'', JFloat (or_else (eg_started_at p) now)),
      (''ended_at'', JFloat now),
      (''events'', JList (map detection_json batch))]"

text \<open>Under the lock: drain the buffer; nothing to do when it is empty, unless this is the last flush.\<close>

definition flush_take :: "bool \<Rightarrow> 'bg edge \<Rightarrow> edge_detection list option \<times> 'bg edge" where
  "flush_take final p =
     (if eg_buffer p = [] \<and> \<not> final then (None, p)
      else (Some (eg_buffer p), p\<lparr>eg_buffer := []\<rparr>))"

text \<open>After the lock: publish; an \<open>Exception\<close> is logged and the batch is dropped.\<close>

definition flush_publish :: "exn option \<Rightarrow> rat \<Rightarrow> edge_detection list \<Rightarrow> ('bg edge, exn, bool) prog" where
  "flush_publish fails now batch = (\<lambda>p.
     case mqtt_publish fails (eg_topic p) (edge_payload p now batch) None False (eg_mqtt p) of
       (Inr _, c) \<Rightarrow> (Inr True, p\<lparr>eg_mqtt := c, eg_last_publish := now\<rparr>)
     | (Inl e, c) \<Rightarrow>
         (if exn_class e = CancelledErr then (Inl e, p\<lparr>eg_mqtt := c\<rparr>)
          else (Inr False, p\<lparr>eg_mqtt := c\<rparr>)))"

definition edge_flush :: "bool \<Rightarrow> exn option \<Rightarrow> rat \<Rightarrow> ('bg edge, exn, unit) prog" where
  "edge_flush final fails now = (\<lambda>p.
     case flush_take final p of
       (None, p') \<Rightarrow> (Inr (), p')
     | (Some batch, p') \<Rightarrow> seqM (flush_publish fails now batch) (ret ()) p')"

section \<open>The interleaving of the coroutines\<close>

text \<open>
  The stream loop and the flush timer share the buffer. A frame is processed without an await and
  a flush takes the whole buffer before it awaits \<open>publish\<close>; meanwhile frames go on arriving. Only
  one flush is under way at a time: the timer's turns are sequential and the last flush comes after
  the timer is gone. \<open>sys_made\<close> and \<open>sys_batches\<close> record the history: what was detected, and each
  batch with whether it was published.
\<close>

record 'bg edge_system =
  sys_pipe :: "'bg edge"
  sys_in_flight :: "edge_detection list option"
  sys_made :: "edge_detection list"
  sys_batches :: "(edge_detection list \<times> bool) list"

definition edge_start :: "'bg edge \<Rightarrow> 'bg edge_system" where
  "edge_start p = \<lparr>sys_pipe = p, sys_in_flight = None, sys_made = [], sys_batches = []\<rparr>"

inductive edge_step ::
  "detector_settings \<Rightarrow> ('f, 'bg, 'mask, 'c) cv2 \<Rightarrow> 'bg edge_system \<Rightarrow> 'bg edge_system \<Rightarrow> bool"
  for cfg cv where
  opened: "edge_step cfg cv s (s\<lparr>sys_pipe := open_stream now (sys_pipe s)\<rparr>)"
| frame: "edge_frame cfg cv r (sys_pipe s) = (res, p') \<Longrightarrow>
    edge_step cfg cv s (s\<lparr>sys_pipe := p',
      sys_made := sys_made s @ drop (length (eg_buffer (sys_pipe s))) (eg_buffer p')\<rparr>)"
| take_batch: "sys_in_flight s = None \<Longrightarrow> flush_take final (sys_pipe s) = (Some batch, p') \<Longrightarrow>
    edge_step cfg cv s (s\<lparr>sys_pipe := p', sys_in_flight := Some batch\<rparr>)"
| publish_batch: "sys_in_flight s = Some batch \<Longrightarrow>
    flush_publish fails now batch (sys_pipe s) = (res, p') \<Longrightarrow>
    edge_step cfg cv s (s\<lparr>sys_pipe := p', sys_in_flight := None,
      sys_batches := sys_batches s @ [(batch, res = Inr True)]\<rparr>)"
| stopped: "edge_step cfg cv s (s\<lparr>sys_pipe := request_stop (sys_pipe s)\<rparr>)"

inductive_cases edge_step_cases: "edge_step cfg cv s s'"

end
