(* ===== verification/EdgeProperties.thy ===== *)
theory EdgeProperties
  imports EdgePipeline MqttProperties DetectionProperties
begin

text \<open>
  Properties of the edge pipeline: every detection leaves in exactly one batch and in order, the
  detections are those of the server's pipeline on the sampled frames, and the consumer reads the
  station code back from the topic.
\<close>

section \<open>Nothing is lost on the way to the broker\<close>

lemma process_frame_buffer:
  "edge_process_frame cfg cv f t p = (res, p') \<Longrightarrow>
   eg_buffer p' = eg_buffer p @ drop (length (eg_buffer p)) (eg_buffer p')
   \<and> eg_mqtt p' = eg_mqtt p \<and> eg_topic p' = eg_topic p"
  by (auto simp: edge_process_frame_def Let_def split: prod.splits if_splits sum.splits)

lemma frame_buffer:
  assumes "edge_frame cfg cv r p = (res, p')"
  shows "eg_buffer p' = eg_buffer p @ drop (length (eg_buffer p)) (eg_buffer p')
   \<and> eg_mqtt p' = eg_mqtt p \<and> eg_topic p' = eg_topic p"
proof -
  obtain f t where r: "r = (f, t)" by fastforce
  let ?t = "t - or_else (eg_started_at p) 0"
  obtain res1 p1 where run: "edge_process_frame cfg cv f ?t p = (res1, p1)" by fastforce
  show ?thesis
    using assms process_frame_buffer [OF run] run
    by (cases res1) (auto simp: edge_frame_def r seqM_def bindM_def split: if_splits)
qed

text \<open>The event list of a published payload.\<close>

fun payload_events :: "json \<Rightarrow> json option" where
  "payload_events (JObj kvs) = map_of kvs ''events''"
| "payload_events _ = None"

lemma payload_events_edge [simp]:
  "payload_events (edge_payload p now batch) = Some (JList (map detection_json batch))"
  by (simp add: edge_payload_def)

definition published_events :: "mqtt_client \<Rightarrow> (string \<times> json option) list" where
  "published_events c = map (\<lambda>(to, body, q, r). (to, payload_events body)) (mc_published c)"

definition sent_as :: "string \<Rightarrow> edge_detection list \<Rightarrow> string \<times> json option" where
  "sent_as to batch = (to, Some (JList (map detection_json batch)))"

definition edge_conserved :: "string \<Rightarrow> (string \<times> json option) list \<Rightarrow> 'bg edge_system \<Rightarrow> bool" where
  "edge_conserved to old s \<longleftrightarrow>
     sys_made s = concat (map fst (sys_batches s)) @ or_else (sys_in_flight s) [] @ eg_buffer (sys_pipe s)
     \<and> eg_topic (sys_pipe s) = to
     \<and> published_events (eg_mqtt (sys_pipe s)) =
         old @ map (\<lambda>(b, _). sent_as to b) (filter snd (sys_batches s))"

lemma publish_step:
  assumes "flush_publish fails now batch p = (res, p')"
  shows "eg_buffer p' = eg_buffer p \<and> eg_topic p' = eg_topic p
    \<and> published_events (eg_mqtt p') =
        published_events (eg_mqtt p) @ (if res = Inr True then [sent_as (eg_topic p) batch] else [])"
  using assms
  by (auto simp: flush_publish_def mqtt_publish_def published_events_def sent_as_def
      split: if_splits option.splits)

lemma conserved_step:
  assumes "edge_step cfg cv s s'" and "edge_conserved to old s"
  shows "edge_conserved to old s'"
  using assms
proof (induction rule: edge_step.induct)
  case (opened s now)
  then show ?case by (simp add: edge_conserved_def open_stream_def)
next
  case (frame r s res p')
  then show ?case
    using frame_buffer [OF frame.hyps] by (simp add: edge_conserved_def)
next
  case (take_batch s final batch p')
  then show ?case
    by (auto simp: edge_conserved_def flush_take_def or_else_def split: if_splits)
next
  case (publish_batch s batch fails now res p')
  then show ?case
    using publish_step [OF publish_batch.hyps(2)] by (simp add: edge_conserved_def or_else_def)
next
  case (stopped s)
  then show ?case by (simp add: edge_conserved_def request_stop_def)
qed

lemma conserved_reachable:
  "(edge_step cfg cv)\<^sup>*\<^sup>* s s' \<Longrightarrow> edge_conserved to old s \<Longrightarrow> edge_conserved to old s'"
  by (induction rule: rtranclp_induct) (auto intro: conserved_step)

section \<open>Sampling\<close>

text \<open>The frames a stream of reads hands to the detectors, with number and time since the opening.\<close>

fun sampled :: "int \<Rightarrow> int \<Rightarrow> rat \<Rightarrow> ('f \<times> rat) list \<Rightarrow> (int \<times> rat \<times> 'f) list" where
  "sampled skip n started [] = []"
| "sampled skip n started ((f, t) # frs) =
     (if n mod skip = 0 then [(n, t - started, f)] else []) @ sampled skip (n + 1) started frs"

lemma sampled_numbers: "x \<in> set (sampled skip n started frs) \<Longrightarrow> n \<le> fst x \<and> fst x mod skip = 0"
proof (induction skip n started frs rule: sampled.induct)
  case (2 skip n started f t frs)
  then show ?case by (fastforce split: if_splits)
qed simp

text \<open>A detection event of the server's pipeline in the shape the edge gives it.\<close>

definition edge_shape :: "detection_event \<Rightarrow> edge_detection" where
  "edge_shape e =
     \<lparr>ed_aruco_id = de_aruco_id e, ed_confidence = de_confidence e,
      ed_bbox = (case de_bbox e of
                   None \<Rightarrow> None
                 | Some (x, y, w, h) \<Rightarrow>
                     Some (JObj [(''x'', JInt x), (''y'', JInt y), (''w'', JInt w), (''h'', JInt h)])),
      ed_inside_roi = de_inside_roi e, ed_frame_number = de_frame_number e,
      ed_timestamp_in_video = de_timestamp_in_video e, ed_detector_metadata = de_metadata e\<rparr>"

lemma edge_shape_plain [simp]:
  "edge_shape (plain_event cv (roi_polygon polygon) n t d) = edge_detection_of cv polygon n t d"
  by (simp add: edge_shape_def plain_event_def edge_detection_of_def)

lemma edge_frames_run:
  assumes "forM (edge_frame cfg cv) frs p = (Inr u, p')" and "eg_started_at p = Some started"
  shows "eg_buffer p' = eg_buffer p @ map edge_shape (stream_events cfg cv (es_roi_polygon (eg_settings p))
      (eg_bg p) (sampled (es_frame_skip (eg_settings p)) (eg_frame_number p) started frs))
    \<and> eg_frame_number p' = eg_frame_number p + int (length frs)"
  using assms
proof (induction frs arbitrary: p)
  case Nil
  then show ?case by (simp add: stream_events_def)
next
  case (Cons r frs)
  obtain f t where r: "r = (f, t)" by fastforce
  from Cons.prems(1) obtain u1 p1 where one: "edge_frame cfg cv r p = (Inr u1, p1)"
    and rest: "forM (edge_frame cfg cv) frs p1 = (Inr u, p')"
    by (auto simp: seqM_eq_Inr)
  obtain tr bg' where tr: "trigger_detect cfg cv (eg_bg p) f = (tr, bg')" by fastforce
  let ?skip = "es_frame_skip (eg_settings p)" and ?poly = "es_roi_polygon (eg_settings p)"
  let ?n = "eg_frame_number p" and ?hit = "eg_frame_number p mod es_frame_skip (eg_settings p) = 0"
  have p1: "p1 = p\<lparr>eg_frame_number := ?n + 1, eg_bg := (if ?hit then bg' else eg_bg p),
     eg_buffer := eg_buffer p @ (if ?hit then map edge_shape
        (frame_events cfg cv (roi_polygon ?poly) ((?n, t - started, f), triggered tr)) else [])\<rparr>"
    using one Cons.prems(2) tr
    by (auto simp: edge_frame_def r seqM_def bindM_def edge_process_frame_def or_else_def frame_events_def
        Let_def comp_def split: if_splits sum.splits)
  have "eg_started_at p1 = Some started" using Cons.prems(2) by (simp add: p1)
  from Cons.IH [OF rest this] show ?case
    by (simp add: p1 r stream_events_Cons [OF tr])
qed

section \<open>Properties\<close>


definition bench_edge :: "unit edge" where
  "bench_edge = new_edge default_edge_settings () (new_client default_mqtt_settings no_overrides) 0"

definition bench_seen :: "unit edge" where
  "bench_seen = snd (edge_frame default_detector_settings bench_cv (80, 1) (open_stream 0 bench_edge))"

lemma bench_seen_buffer: "length (eg_buffer bench_seen) = 1"
  by (simp add: bench_seen_def edge_frame_def open_stream_def bench_edge_def new_edge_def default_edge_settings_def
      edge_process_frame_def trigger_detect_def bench_cv_def larger_contour_def default_detector_settings_def
      aruco_detect_def Let_def)


text \<open>
  C9: On the same frames, with the same clock readings and a fresh background model, the edge
  pipeline buffers exactly the events that the server's pipeline returns for the video, in the
  edge's shape.
\<close>

theorem edge_detects_what_the_server_detects:
  assumes "process_video cfg cv path (es_roi_polygon (eg_settings p)) = Inr (evs, frames, triggers)"
    and "extract_frames cfg cv path = Inr (sampled (es_frame_skip (eg_settings p)) 0 now frs)"
    and "eg_bg p = new_background cv"
    and "consume_stream cfg cv True now frs p = (Inr (), p')"
  shows "eg_buffer p' = eg_buffer p @ map edge_shape evs"
proof -
  from assms(4) have run: "forM (edge_frame cfg cv) frs (open_stream now p) = (Inr (), p')"
    by (simp add: consume_stream_def seqM_eq_Inr)
  have "evs = stream_events cfg cv (es_roi_polygon (eg_settings p)) (new_background cv)
      (sampled (es_frame_skip (eg_settings p)) 0 now frs)"
    using process_video_spec [OF assms(1)] assms(2) by simp
  then show ?thesis
    using edge_frames_run [OF run, of now] assms(3) by (simp add: open_stream_def)
qed

text \<open>The frames of the sample video, as a camera delivers them.\<close>

definition bench_reads :: "(int \<times> rat) list" where
  "bench_reads = [(3, 0), (80, 1 / 10), (90, 2 / 10)]"

lemma bench_extract:
  "extract_frames default_detector_settings bench_cv ''a.mp4'' = Inr (sampled 1 0 0 bench_reads)"
  by (simp add: extract_frames_def bench_cv_def default_detector_settings_def bench_reads_def
      frame_rate_def scaled_def enumerate_eq_zip upt_rec Let_def)

lemma bench_consume:
  "\<exists>p'. consume_stream default_detector_settings bench_cv True 0 bench_reads bench_edge = (Inr (), p')"
  by (simp add: consume_stream_def bench_reads_def seqM_def bindM_def edge_frame_def open_stream_def
      bench_edge_def new_edge_def default_edge_settings_def edge_process_frame_def trigger_detect_def
      bench_cv_def larger_contour_def default_detector_settings_def aruco_detect_def Let_def)

theorem edge_detects_what_the_server_detects_witness:
  "\<exists>evs p'. process_video default_detector_settings bench_cv ''a.mp4'' None = Inr (evs, 3, 2)
     \<and> consume_stream default_detector_settings bench_cv True 0 bench_reads bench_edge = (Inr (), p')
     \<and> eg_buffer p' = map edge_shape evs"
proof -
  obtain evs where v: "process_video default_detector_settings bench_cv ''a.mp4'' None = Inr (evs, 3, 2)"
    using bench_video by blast
  obtain p' where c: "consume_stream default_detector_settings bench_cv True 0 bench_reads bench_edge = (Inr (), p')"
    using bench_consume by blast
  have "es_roi_polygon (eg_settings bench_edge) = None" "es_frame_skip (eg_settings bench_edge) = 1"
    "eg_bg bench_edge = new_background bench_cv" "eg_buffer bench_edge = []"
    by (simp_all add: bench_edge_def new_edge_def default_edge_settings_def bench_cv_def)
  then have "eg_buffer p' = map edge_shape evs"
    using edge_detects_what_the_server_detects [OF _ _ _ c, of "''a.mp4''" evs 3 2] v bench_extract by simp
  with v c show ?thesis by blast
qed

text \<open>The consumer reads from the topic the station code that the edge put into it, for codes without a slash.\<close>

lemma topic_carries_the_station_code:
  "CHR ''/'' \<notin> set code \<Longrightarrow> station_code \<lparr>topic = edge_topic ''farm'' code, payload = body\<rparr> = Some code"
  by (simp add: station_code_def edge_topic_def split_on_append Let_def)

end
