(* ===== verification/EdgeIngest.thy ===== *)
theory EdgeIngest
  imports VideoHandler
begin

text \<open>
  \<open>src/schemas/edge_ingest.py\<close> and \<open>src/router/v1/events.py\<close>: the endpoint that stores a batch of
  detections from an edge camera. Pydantic's conversion of JSON to typed values is not modelled;
  \<open>batch_valid\<close> are the constraints that the schema adds to the types. A request runs in the
  request's session, and \<open>http_status\<close> is the status code of its outcome.
\<close>

section \<open>The schema\<close>

record edge_event_in =
  ei_aruco_id :: "int option"
  ei_confidence :: "rat option"
  ei_bbox :: "json option"
  ei_inside_roi :: bool
  ei_frame_number :: int
  ei_timestamp_in_video :: rat
  ei_detector_metadata :: "json option"

record edge_batch_in =
  eb_station_code :: string
  eb_started_at :: datetime
  eb_ended_at :: datetime
  eb_events :: "edge_event_in list"

record edge_batch_out =
  eo_video_file_id :: int
  eo_events_created :: nat
  eo_sentinel_created :: bool

definition event_in_valid :: "edge_event_in \<Rightarrow> bool" where
  "event_in_valid e \<longleftrightarrow> 0 \<le> ei_frame_number e \<and> 0 \<le> ei_timestamp_in_video e"

definition batch_valid :: "edge_batch_in \<Rightarrow> bool" where
  "batch_valid b \<longleftrightarrow>
     1 \<le> length (eb_station_code b) \<and> length (eb_station_code b) \<le> 64
     \<and> length (eb_events b) \<le> 10000 \<and> list_all event_in_valid (eb_events b)"

section \<open>The endpoint\<close>

text \<open>\<open>tractor_id\<close> is not among the arguments and keeps its default.\<close>

definition edge_event_create :: "int \<Rightarrow> datetime \<Rightarrow> edge_event_in \<Rightarrow> event_create" where
  "edge_event_create sentinel_id ended_at evt =
     \<lparr>ec_video_file_id = sentinel_id, ec_tractor_id = None, ec_aruco_id = ei_aruco_id evt,
      ec_event_type = DETECTED, ec_detector_method = ARUCO, ec_inside_roi = ei_inside_roi evt,
      ec_frame_number = ei_frame_number evt, ec_timestamp_in_video = ei_timestamp_in_video evt,
      ec_wall_clock_at = ended_at, ec_confidence = ei_confidence evt, ec_bbox = ei_bbox evt,
      ec_detector_metadata = ei_detector_metadata evt\<rparr>"

definition ingest_edge_batch :: "'h hasher \<Rightarrow> edge_batch_in \<Rightarrow> edge_batch_out io" where
  "ingest_edge_batch H p =
     bindM (get_by_code (eb_station_code p)) (\<lambda>station.
       case station of
         None \<Rightarrow> raise (Exn (HTTPErr 404) (''Station not found: '' @ eb_station_code p))
       | Some s \<Rightarrow>
           bindM (get_or_create_edge_sentinel H (row_id s) (eb_station_code p) (eb_started_at p) (eb_ended_at p))
             (\<lambda>(sentinel, created_now).
               if eb_events p = []
               then ret \<lparr>eo_video_file_id = row_id sentinel, eo_events_created = 0,
                         eo_sentinel_created = created_now\<rparr>
               else bindM (create_many (map (edge_event_create (row_id sentinel) (eb_ended_at p)) (eb_events p)))
                      (\<lambda>created. ret
                        \<lparr>eo_video_file_id = row_id sentinel, eo_events_created = length created,
                         eo_sentinel_created = created_now\<rparr>)))"

text \<open>
  A request in its session: the given code on success, the code of an \<open>HTTPException\<close>, 500 for
  everything else. A body that does not satisfy the schema is answered with 422 before the endpoint
  runs.
\<close>

definition http_status :: "nat \<Rightarrow> exn + 'a \<Rightarrow> int" where
  "http_status success r =
     (case r of
        Inr _ \<Rightarrow> int success
      | Inl e \<Rightarrow> (case exn_class e of HTTPErr c \<Rightarrow> c | _ \<Rightarrow> 500))"

definition request :: "nat \<Rightarrow> bool \<Rightarrow> 'a io \<Rightarrow> int io" where
  "request success valid endpoint = (\<lambda>w.
     if \<not> valid then (Inr 422, w)
     else (case get_async_session endpoint w of
             (r, w') \<Rightarrow> (Inr (http_status success r), w')))"

definition post_ingest :: "'h hasher \<Rightarrow> edge_batch_in \<Rightarrow> int io" where
  "post_ingest H p = request 201 (batch_valid p) (ingest_edge_batch H p)"

end
