(* ===== verification/Http.thy ===== *)
theory Http
  imports Database
begin

text \<open>
  HTTP requests as the clients of the API see them (\<open>httpx\<close> in \<open>mqtt_consumer/main.py\<close>, \<open>aiohttp\<close> in
  \<open>ingestion/main.py\<close>). The API is a parameter \<open>serve\<close> that answers a request with a status code and
  changes its own state. The network decides by a \<open>fate\<close> per request whether it reaches the API and
  whether its answer comes back.
\<close>

section \<open>Requests\<close>

text \<open>
  What becomes of a request: it is answered by the API; it is lost on the way; the API handles it
  and the answer is lost (a timeout); or a gateway answers in place of the API.
\<close>

datatype fate = Answered | Unsent exn | Unanswered exn | Gateway int

record 'w forwarding =
  fw_server :: 'w
  fw_posts :: nat
  fw_slept :: "rat list"
  fw_clock :: "nat \<Rightarrow> int"
  fw_reads :: nat

text \<open>An exception that leaves the application is answered with 500.\<close>

definition status_of :: "exn + int \<Rightarrow> int" where
  "status_of r = (case r of Inl _ \<Rightarrow> 500 | Inr c \<Rightarrow> c)"

definition http_post ::
  "('p \<Rightarrow> ('w, exn, int) prog) \<Rightarrow> (nat \<Rightarrow> fate) \<Rightarrow> 'p \<Rightarrow> ('w forwarding, exn, int) prog" where
  "http_post serve net p = (\<lambda>s.
     let s1 = s\<lparr>fw_posts := Suc (fw_posts s)\<rparr>
     in (case net (fw_posts s) of
           Unsent e \<Rightarrow> (Inl e, s1)
         | Gateway c \<Rightarrow> (Inr c, s1)
         | Answered \<Rightarrow> (case serve p (fw_server s) of (r, w) \<Rightarrow> (Inr (status_of r), s1\<lparr>fw_server := w\<rparr>))
         | Unanswered e \<Rightarrow> (case serve p (fw_server s) of (_, w) \<Rightarrow> (Inl e, s1\<lparr>fw_server := w\<rparr>))))"

definition success_code :: "int \<Rightarrow> bool" where
  "success_code c \<longleftrightarrow> 200 \<le> c \<and> c < 300"

definition client_error_code :: "int \<Rightarrow> bool" where
  "client_error_code c \<longleftrightarrow> 400 \<le> c \<and> c < 500"

end
