(* ===== verification/Consumer.thy ===== *)
theory Consumer
  imports EdgeIngest Mqtt Http
begin

text \<open>
  \<open>mqtt_consumer/main.py\<close> and \<open>mqtt_consumer/config.py\<close>: the process that hands the batches of the
  broker to the API. Three things are parameters: \<open>loads\<close>, the decoding of a payload to JSON;
  \<open>validate\<close>, pydantic's \<open>EdgeBatchIn.model_validate\<close> on a dictionary; and \<open>serve\<close>, the API of
  the theory \<open>Http\<close>. Log lines are not modelled; the outcome that
  they report is the value of \<open>handle_message\<close>.
\<close>

section \<open>Settings and the consumer object\<close>

record consumer_settings =
  cs_api_url :: string
  cs_ingest_path :: string
  cs_request_timeout :: rat
  cs_max_retries :: int
  cs_retry_backoff :: rat
  cs_client_id_prefix :: string

definition default_consumer_settings :: consumer_settings where
  "default_consumer_settings =
     \<lparr>cs_api_url = ''http://api:8000'', cs_ingest_path = ''/v1/events/ingest'', cs_request_timeout = 10,
      cs_max_retries = 3, cs_retry_backoff = 1, cs_client_id_prefix = ''agro-consumer''\<rparr>"

record consumer_overrides =
  ov_api_url :: "string option"
  ov_ingest_path :: "string option"
  ov_request_timeout :: "rat option"
  ov_max_retries :: "int option"
  ov_retry_backoff :: "rat option"

record mqtt_consumer =
  co_api_base :: string
  co_ingest_path :: string
  co_timeout :: rat
  co_max_retries :: int
  co_retry_backoff :: rat
  co_stopping :: bool
  co_ingest_url :: string

definition rstrip_slash :: "string \<Rightarrow> string" where
  "rstrip_slash s = rev (dropWhile (\<lambda>c. c = CHR ''/'') (rev s))"

definition new_consumer :: "consumer_settings \<Rightarrow> consumer_overrides \<Rightarrow> mqtt_consumer" where
  "new_consumer cs v =
     (let base = str_or (ov_api_url v) (cs_api_url cs); path = str_or (ov_ingest_path v) (cs_ingest_path cs)
      in \<lparr>co_api_base = base, co_ingest_path = path,
          co_timeout = or_else (ov_request_timeout v) (cs_request_timeout cs),
          co_max_retries = or_else (ov_max_retries v) (cs_max_retries cs),
          co_retry_backoff = or_else (ov_retry_backoff v) (cs_retry_backoff cs),
          co_stopping = False, co_ingest_url = rstrip_slash base @ path\<rparr>)"

definition consumer_request_stop :: "mqtt_consumer \<Rightarrow> mqtt_consumer" where
  "consumer_request_stop c = c\<lparr>co_stopping := True\<rparr>"

section \<open>Forwarding with retries\<close>

text \<open>The wait for the stop event, at most so many seconds; it does not end the retries.\<close>

definition maybe_sleep :: "rat \<Rightarrow> 'w forwarding \<Rightarrow> 'w forwarding" where
  "maybe_sleep seconds s = (if seconds \<le> 0 then s else s\<lparr>fw_slept := fw_slept s @ [seconds]\<rparr>)"

text \<open>The attempts that are left; on the last one a transport error is raised again.\<close>

fun attempts ::
  "('p \<Rightarrow> ('w, exn, int) prog) \<Rightarrow> (nat \<Rightarrow> fate) \<Rightarrow> 'p \<Rightarrow> nat \<Rightarrow> rat \<Rightarrow> ('w forwarding, exn, unit) prog" where
  "attempts serve net p 0 delay s = (Inr (), s)"
| "attempts serve net p (Suc n) delay s =
     (case http_post serve net p s of
        (Inl e, s1) \<Rightarrow>
          (if exn_class e \<noteq> HttpxErr \<or> n = 0 then (Inl e, s1)
           else attempts serve net p n (delay * 2) (maybe_sleep delay s1))
      | (Inr c, s1) \<Rightarrow>
          (if success_code c then (Inr (), s1)
           else if client_error_code c then (Inr (), s1)
           else if n = 0 then (Inr (), s1)
           else attempts serve net p n (delay * 2) (maybe_sleep delay s1)))"

definition forward_with_retries ::
  "mqtt_consumer \<Rightarrow> ('p \<Rightarrow> ('w, exn, int) prog) \<Rightarrow> (nat \<Rightarrow> fate) \<Rightarrow> 'p \<Rightarrow> ('w forwarding, exn, unit) prog" where
  "forward_with_retries c serve net p = attempts serve net p (nat (co_max_retries c)) (co_retry_backoff c)"

section \<open>Messages\<close>

text \<open>
  \<open>dict(payload)\<close> for a decoded payload that need not be an object: pairs and strings of length two
  make entries; entries whose key is a number or null are left out, no field has such a name.
  \<open>None\<close> is the \<open>TypeError\<close> or \<open>ValueError\<close>.
\<close>

fun dict_entry :: "json \<Rightarrow> (string \<times> json) list option" where
  "dict_entry (JList [JStr k, v]) = Some [(k, v)]"
| "dict_entry (JList [JList _, v]) = None"
| "dict_entry (JList [JObj _, v]) = None"
| "dict_entry (JList [k, v]) = Some []"
| "dict_entry (JStr [a, b]) = Some [([a], JStr [b])]"
| "dict_entry (JObj [(a, _), (b, _)]) = Some [(a, JStr b)]"
| "dict_entry _ = None"

fun dict_entries :: "json list \<Rightarrow> (string \<times> json) list option" where
  "dict_entries [] = Some []"
| "dict_entries (x # xs) =
     (case dict_entry x of
        None \<Rightarrow> None
      | Some e \<Rightarrow> map_option (\<lambda>es. e @ es) (dict_entries xs))"

fun py_dict :: "json \<Rightarrow> (string \<times> json) list option" where
  "py_dict (JObj kvs) = Some kvs"
| "py_dict (JList xs) = dict_entries xs"
| "py_dict (JStr s) = (if s = [] then Some [] else None)"
| "py_dict _ = None"

text \<open>The value of a key is that of its last entry.\<close>

definition json_get :: "string \<Rightarrow> (string \<times> json) list \<Rightarrow> json option" where
  "json_get k kvs = map_of (rev kvs) k"

fun is_number :: "json \<Rightarrow> bool" where
  "is_number (JInt _) = True"
| "is_number (JFloat _) = True"
| "is_number (JBool _) = True"
| "is_number _ = False"

text \<open>\<open>datetime.now(UTC)\<close>.\<close>

definition now_utc :: "('w forwarding, exn, datetime) prog" where
  "now_utc = (\<lambda>s. (Inr (Aware (fw_clock s (fw_reads s)) 0), s\<lparr>fw_reads := Suc (fw_reads s)\<rparr>))"

definition normalise_key ::
  "string \<Rightarrow> (string \<times> json) list \<Rightarrow> ('w forwarding, exn, (string \<times> json) list) prog" where
  "normalise_key k kvs =
     (case json_get k kvs of
        Some v \<Rightarrow> if is_number v then bindM now_utc (\<lambda>t. ret (kvs @ [(k, JStr (isoformat t))])) else ret kvs
      | None \<Rightarrow> ret kvs)"

definition normalise_timestamps ::
  "(string \<times> json) list \<Rightarrow> ('w forwarding, exn, (string \<times> json) list) prog" where
  "normalise_timestamps kvs = bindM (normalise_key ''started_at'' kvs) (normalise_key ''ended_at'')"

text \<open>An \<open>Exception\<close> of the forwarding is logged; a cancellation goes through.\<close>

datatype verdict = Malformed | Invalid | Forwarded | Failed exn

definition handle_message ::
  "mqtt_consumer \<Rightarrow> (string \<Rightarrow> json option) \<Rightarrow> ((string \<times> json) list \<Rightarrow> 'p option)
   \<Rightarrow> ('p \<Rightarrow> ('w, exn, int) prog) \<Rightarrow> (nat \<Rightarrow> fate) \<Rightarrow> mqtt_message \<Rightarrow> ('w forwarding, exn, verdict) prog" where
  "handle_message c loads validate serve net m =
     (case loads (payload m) of
        None \<Rightarrow> ret Malformed
      | Some j \<Rightarrow>
          (case py_dict j of
             None \<Rightarrow> ret Invalid
           | Some kvs \<Rightarrow>
               bindM (normalise_timestamps kvs) (\<lambda>kvs'.
                 case validate kvs' of
                   None \<Rightarrow> ret Invalid
                 | Some p \<Rightarrow>
                     tryM (seqM (forward_with_retries c serve net p) (ret Forwarded))
                       (\<lambda>e. if exn_class e = CancelledErr then raise e else ret (Failed e)))))"

text \<open>
  \<open>run\<close>: the messages that the MQTT loop hands over are handled one after the other.
\<close>

definition consumer_run ::
  "mqtt_consumer \<Rightarrow> (string \<Rightarrow> json option) \<Rightarrow> ((string \<times> json) list \<Rightarrow> 'p option)
   \<Rightarrow> ('p \<Rightarrow> ('w, exn, int) prog) \<Rightarrow> (nat \<Rightarrow> fate) \<Rightarrow> mqtt_client \<Rightarrow> attempt list
   \<Rightarrow> ('w forwarding, exn, verdict list) prog" where
  "consumer_run c loads validate serve net cl as =
     mapM (handle_message c loads validate serve net) (lp_handled (snd (run_forever cl (co_stopping c) as)))"

end
