(* ===== verification/EdgeIngestProperties.thy ===== *)
theory EdgeIngestProperties
  imports EdgeIngest VideoProperties HandlerProperties
begin

text \<open>
  The properties of the edge endpoint, and the lemmas on bulk inserts and on the request's session
  that they share: a session that returns commits its working copy, one that raises leaves the rows
  of every table as they were.
\<close>

section \<open>Writes to the event table\<close>

text \<open>The rows that \<open>create_many\<close> stores, with the ids of the sequence.\<close>

fun stored_events :: "datetime \<Rightarrow> int \<Rightarrow> event_create list \<Rightarrow> event list" where
  "stored_events now i [] = []"
| "stored_events now i (p # ps) = stamp_new now i (event_row p) # stored_events now (i + 1) ps"

definition with_events :: "datetime \<Rightarrow> event_create list \<Rightarrow> db \<Rightarrow> db" where
  "with_events now ps d = events_update (\<lambda>t.
     t\<lparr>tbl_rows := tbl_rows t @ stored_events now (tbl_seq t) ps, tbl_seq := tbl_seq t + int (length ps)\<rparr>) d"

lemma with_events_tables [simp]:
  "stations (with_events now ps d) = stations d" "tractors (with_events now ps d) = tractors d"
  "videos (with_events now ps d) = videos d" "visits (with_events now ps d) = visits d"
  by (simp_all add: with_events_def)

lemma with_events_rows:
  "tbl_rows (events (with_events now ps d)) = tbl_rows (events d) @ stored_events now (tbl_seq (events d)) ps"
  "tbl_seq (events (with_events now ps d)) = tbl_seq (events d) + int (length ps)"
  by (simp_all add: with_events_def)

lemma with_events_Nil [simp]: "with_events now [] d = d"
  by (simp add: with_events_def)

lemma with_events_Cons:
  "with_events now (p # ps) d =
     with_events now ps (events_update (\<lambda>t. snd (table_insert now (event_row p) t)) d)"
  by (simp add: with_events_def table_insert_def comp_def algebra_simps)

lemma length_stored [simp]: "length (stored_events now i ps) = length ps"
  by (induction ps arbitrary: i) auto

lemma stored_ids: "map row_id (stored_events now i ps) = map (\<lambda>k. i + int k) [0..<length ps]"
proof (induction ps arbitrary: i)
  case (Cons p ps)
  have "map (\<lambda>k. i + int k) [0..<Suc (length ps)] = i # map (\<lambda>k. i + 1 + int k) [0..<length ps]"
    by (simp add: upt_conv_Cons map_Suc_upt [symmetric] comp_def del: upt_Suc)
  then show ?case using Cons by simp
qed simp

lemma stored_event: "e \<in> set (stored_events now i ps) \<Longrightarrow>
  \<exists>p \<in> set ps. \<exists>j. e = stamp_new now j (event_row p) \<and> i \<le> j \<and> j < i + int (length ps)"
  by (induction ps arbitrary: i) fastforce+

lemma add_rows_run:
  "mapM (\<lambda>p. add_row EventRepo (event_row p)) ps w =
     (Inr (map row_id (stored_events (txn_now w) (tbl_seq (events (working w))) ps)),
      w\<lparr>working := with_events (txn_now w) ps (working w)\<rparr>)"
proof (induction ps arbitrary: w)
  case Nil
  then show ?case by simp
next
  case (Cons p ps)
  let ?w = "w\<lparr>working := events_update (\<lambda>t. snd (table_insert (txn_now w) (event_row p) t)) (working w)\<rparr>"
  have "add_row EventRepo (event_row p) w = (Inr (tbl_seq (events (working w))), ?w)"
    by (simp add: event_model.add_row_run Let_def)
  then show ?case
    using Cons [of ?w] by (simp add: with_events_Cons table_insert_def bindM_run)
qed

lemma refresh_rows_run:
  "(\<And>e. e \<in> set es \<Longrightarrow> table_get (events (working w)) (row_id e) = Some e) \<Longrightarrow>
   mapM (refresh EventRepo) (map row_id es) w = (Inr es, w)"
  by (induction es) (simp_all add: refresh_def repo_get_def bindM_run)

definition event_fks :: "db \<Rightarrow> event \<Rightarrow> bool" where
  "event_fks d e \<longleftrightarrow> event_row_ok e \<and> fk (videos d) (e_video_file_id e) \<and> fk_opt (tractors d) (e_tractor_id e)"

lemma event_fks_stamp [simp]: "event_fks d (stamp_new now i e) = event_fks d e"
  by (simp add: event_fks_def stamp_new_def event_row_ok_def)

lemma consistent_with_events:
  assumes c: "consistent d" and ps: "list_all (\<lambda>p. event_fks d (event_row p)) ps"
  shows "consistent (with_events now ps d)"
proof -
  let ?d = "with_events now ps d"
  have wf: "table_wf (events d)" using c by (simp add: consistent_def db_wf_def)
  have ids: "table_ids (events ?d) = table_ids (events d) @ map (\<lambda>k. tbl_seq (events d) + int k) [0..<length ps]"
    by (simp add: table_ids_def with_events_rows stored_ids)
  have "distinct (map (\<lambda>k. tbl_seq (events d) + int k) [0..<length ps])"
    by (simp add: distinct_map inj_on_def)
  then have "table_wf (events ?d)"
    using wf by (auto simp: table_wf_def ids list_all_iff with_events_rows(2))
  then have "db_wf ?d" using c by (simp add: consistent_def db_wf_def)
  moreover have "events_ok ?d"
    using c ps
    by (auto simp: consistent_def db_ok_def events_ok_def list_all_iff with_events_rows event_fks_def
        stamp_new_def event_row_ok_def dest!: stored_event)
  moreover have "fk (events d) i \<Longrightarrow> fk (events ?d) i" for i by (simp add: fk_def ids)
  then have "visits_ok ?d"
    using c by (auto simp: consistent_def db_ok_def visits_ok_def visit_fks_def list_all_iff fk_opt_def
        split: option.splits)
  ultimately show ?thesis
    using c by (simp add: consistent_def db_ok_def stations_ok_def tractors_ok_def videos_ok_def)
qed

text \<open>A bulk insert stores every payload, in order, and returns the stored rows.\<close>

lemma create_many_run:
  assumes c: "consistent (working w)" and ps: "list_all (\<lambda>p. event_fks (working w) (event_row p)) ps"
  shows "create_many ps w =
    (Inr (stored_events (txn_now w) (tbl_seq (events (working w))) ps),
     w\<lparr>working := with_events (txn_now w) ps (working w)\<rparr>)"
proof (cases "ps = []")
  case True
  then show ?thesis by (simp add: create_many_def)
next
  case False
  let ?w = "w\<lparr>working := with_events (txn_now w) ps (working w)\<rparr>"
  have c': "consistent (working ?w)" using consistent_with_events [OF c ps] by simp
  have "table_get (events (working ?w)) (row_id e) = Some e"
    if "e \<in> set (stored_events (txn_now w) (tbl_seq (events (working w))) ps)" for e
    using c' that by (intro table_get_in) (simp_all add: consistent_def db_wf_def with_events_rows)
  then show ?thesis
    using False refresh_rows_run [of _ ?w] consistentD(2) [OF c']
    by (simp add: create_many_def add_rows_run bindM_run seqM_def flush_def)
qed

section \<open>The endpoint\<close>

lemma get_by_code_run:
  assumes "consistent (working w)"
  shows "get_by_code code w = (Inr (find (\<lambda>s. st_code s = code) (tbl_rows (stations (working w)))), w)"
proof -
  have "first_or_none (filter P xs) = find P xs" for P and xs :: "station list"
    by (induction xs) (auto simp: first_or_none_def)
  then show ?thesis by (simp add: get_by_code_def)
qed

lemma station_fk: "s \<in> set (tbl_rows (stations d)) \<Longrightarrow> fk (stations d) (row_id s)"
  by (auto simp: fk_def table_ids_def)

lemma edge_event_fks:
  assumes "event_in_valid e" and "fk (videos d) i"
  shows "event_fks d (event_row (edge_event_create i ended e))"
  using assms by (simp add: event_fks_def event_row_ok_def event_row_def edge_event_create_def
      event_in_valid_def fk_opt_def)

lemma video_fk: "sentinel_at H code d = Some v \<Longrightarrow> consistent d \<Longrightarrow> fk (videos d) (row_id v)"
  by (auto simp: sentinel_at_Some fk_def table_ids_def)

text \<open>The endpoint in its session: what is in the working copy before the commit.\<close>

lemma ingest_run:
  assumes c: "consistent (working w)" and ok: "batch_valid p"
    and s: "find (\<lambda>s. st_code s = eb_station_code p) (tbl_rows (stations (working w))) = Some s"
    and t: "utc_us (eb_started_at p) < utc_us (eb_ended_at p)"
  shows "\<exists>v new d. ingest_edge_batch H p w =
      (Inr \<lparr>eo_video_file_id = row_id v, eo_events_created = length (eb_events p), eo_sentinel_created = new\<rparr>,
       w\<lparr>working := with_events (txn_now w) (map (edge_event_create (row_id v) (eb_ended_at p)) (eb_events p)) d\<rparr>)
    \<and> consistent d \<and> stations d = stations (working w) \<and> tractors d = tractors (working w)
    \<and> events d = events (working w) \<and> visits d = visits (working w)
    \<and> sentinel_at H (eb_station_code p) d = Some v
    \<and> new = (sentinel_at H (eb_station_code p) (working w) = None)
    \<and> other_videos H (eb_station_code p) d = other_videos H (eb_station_code p) (working w)
    \<and> (case sentinel_at H (eb_station_code p) (working w) of
         None \<Rightarrow> vf_status v = PROCESSING \<and> vf_storage_uri v = edge_sentinel_uri (eb_station_code p)
       | Some v0 \<Rightarrow> row_id v = row_id v0 \<and> vf_status v = vf_status v0 \<and> vf_storage_uri v = vf_storage_uri v0)"
proof -
  have s_in: "s \<in> set (tbl_rows (stations (working w)))" using s by (auto simp: find_Some_iff)
  obtain v new w1 where run: "get_or_create_edge_sentinel H (row_id s) (eb_station_code p) (eb_started_at p) (eb_ended_at p) w
      = (Inr (v, new), w1)" and c1: "consistent (working w1)"
    and v: "sentinel_at H (eb_station_code p) (working w1) = Some v"
    and w1: "w1 = w\<lparr>working := working w1\<rparr>" "other_tables (working w) (working w1)"
    and new: "new = (sentinel_at H (eb_station_code p) (working w) = None)"
      "other_videos H (eb_station_code p) (working w1) = other_videos H (eb_station_code p) (working w)"
      "case sentinel_at H (eb_station_code p) (working w) of
         None \<Rightarrow> vf_status v = PROCESSING \<and> vf_storage_uri v = edge_sentinel_uri (eb_station_code p)
       | Some v0 \<Rightarrow> row_id v = row_id v0 \<and> vf_status v = vf_status v0 \<and> vf_storage_uri v = vf_storage_uri v0"
    using sentinel_run [OF c station_fk [OF s_in] t, of H "eb_station_code p"] by (auto split: option.splits)
  have ps: "list_all (\<lambda>q. event_fks (working w1) (event_row q))
      (map (edge_event_create (row_id v) (eb_ended_at p)) (eb_events p))"
    using ok edge_event_fks video_fk [OF v c1] by (auto simp: batch_valid_def list_all_iff)
  have txn: "txn_now w1 = txn_now w" by (subst w1(1)) simp
  have "ingest_edge_batch H p w =
      (Inr \<lparr>eo_video_file_id = row_id v, eo_events_created = length (eb_events p), eo_sentinel_created = new\<rparr>,
       w1\<lparr>working := with_events (txn_now w) (map (edge_event_create (row_id v) (eb_ended_at p)) (eb_events p)) (working w1)\<rparr>)"
    using create_many_run [OF c1 ps] run txn
    by (simp add: ingest_edge_batch_def get_by_code_run [OF c] s bindM_run)
  also have "w1\<lparr>working := d\<rparr> = w\<lparr>working := d\<rparr>" for d
    by (subst w1(1)) simp
  finally show ?thesis
    using c1 v w1(2) new by (intro exI [of _ v] exI [of _ new] exI [of _ "working w1"]) (simp add: other_tables_def)
qed

text \<open>A request that returns is committed; one that raises leaves the rows as they were.\<close>

definition same_rows :: "db \<Rightarrow> db \<Rightarrow> bool" where
  "same_rows d d' \<longleftrightarrow> tbl_rows (stations d') = tbl_rows (stations d) \<and> tbl_rows (tractors d') = tbl_rows (tractors d)
     \<and> tbl_rows (videos d') = tbl_rows (videos d) \<and> tbl_rows (events d') = tbl_rows (events d)
     \<and> tbl_rows (visits d') = tbl_rows (visits d)"

lemma same_rows_rewind [simp]: "same_rows d (rewind d d')"
  by (simp add: same_rows_def)

definition opened :: "world \<Rightarrow> world" where
  "opened w = next_txn (w\<lparr>working := committed w\<rparr>)"

lemma opened_simps [simp]: "working (opened w) = committed w" "committed (opened w) = committed w"
  by (simp_all add: opened_def)

lemma request_returns:
  assumes run: "m (opened w) = (Inr a, w1)" and c: "consistent (working w1)"
  obtains w' where "get_async_session m w = (Inr a, w')" "consistent (committed w')"
    "same_rows (regenerate (working w1)) (committed w')"
proof -
  obtain w2 where w2: "commit w1 = (Inr (), w2)" "consistent (committed w2)" "working w2 = committed w2"
    "committed w2 = regenerate (working w1)"
    by (rule commit_run [OF c])
  define w3 where "w3 = w2\<lparr>working := rewind (committed w2) (working w2),
      committed := rewind (committed w2) (working w2)\<rparr>"
  have "get_async_session m w = (Inr a, w3)"
    unfolding get_async_session_def w3_def
    by (rule with_session_run) (use run w2(1) in \<open>simp add: opened_def\<close>)
  moreover have "consistent (committed w3)" "same_rows (regenerate (working w1)) (committed w3)"
    using w2 by (simp_all add: w3_def consistent_rewind)
  ultimately show ?thesis by (rule that)
qed

lemma request_raises:
  assumes run: "m (opened w) = (Inl e, w1)" and c: "committed w1 = committed w"
    and con: "consistent (committed w)"
  obtains w' where "get_async_session m w = (Inl e, w')" "same_rows (committed w) (committed w')"
    "consistent (committed w')"
proof -
  define w2 where "w2 = rolled_back w1"
  define w3 where "w3 = w2\<lparr>working := rewind (committed w2) (working w2),
      committed := rewind (committed w2) (working w2)\<rparr>"
  have "get_async_session m w = (Inl e, w3)"
    unfolding get_async_session_def w3_def w2_def
    by (rule with_session_run) (use run in \<open>simp add: opened_def rollback_run\<close>)
  moreover have c2: "committed w2 = committed w" using c by (simp add: w2_def)
  moreover have "same_rows (committed w) (committed w3)" by (simp add: w3_def c2)
  moreover have "consistent (committed w3)"
    using consistent_rewind [OF con] by (simp add: w3_def c2)
  ultimately show ?thesis by (intro that [of w3])
qed


lemma events_regenerate [simp]: "events (regenerate d) = events d" "stations (regenerate d) = stations d"
  "tractors (regenerate d) = tractors d" "videos (regenerate d) = videos d"
  by (simp_all add: regenerate_def)

lemma consistent_opened [simp]: "consistent (working (opened w)) = consistent (committed w)"
  by simp

lemma post_run:
  assumes c: "consistent (committed w)" and ok: "batch_valid p"
    and s: "find (\<lambda>s. st_code s = eb_station_code p) (tbl_rows (stations (committed w))) = Some s"
    and t: "utc_us (eb_started_at p) < utc_us (eb_ended_at p)"
  shows "\<exists>v w'. post_ingest H p w = (Inr 201, w') \<and> consistent (committed w')
    \<and> sentinel_at H (eb_station_code p) (committed w') = Some v
    \<and> tbl_rows (events (committed w')) = tbl_rows (events (committed w))
        @ stored_events (txn_now (opened w)) (tbl_seq (events (committed w)))
            (map (edge_event_create (row_id v) (eb_ended_at p)) (eb_events p))
    \<and> tbl_rows (stations (committed w')) = tbl_rows (stations (committed w))
    \<and> tbl_rows (tractors (committed w')) = tbl_rows (tractors (committed w))
    \<and> tbl_rows (visits (committed w')) = tbl_rows (visits (regenerate (committed w)))"
proof -
  let ?ps = "\<lambda>v. map (edge_event_create (row_id v) (eb_ended_at p)) (eb_events p)"
  obtain v new d where run: "ingest_edge_batch H p (opened w) =
      (Inr \<lparr>eo_video_file_id = row_id v, eo_events_created = length (eb_events p), eo_sentinel_created = new\<rparr>,
       (opened w)\<lparr>working := with_events (txn_now (opened w)) (?ps v) d\<rparr>)"
    and d: "consistent d" "stations d = stations (committed w)" "tractors d = tractors (committed w)"
      "events d = events (committed w)" "visits d = visits (committed w)"
      "sentinel_at H (eb_station_code p) d = Some v"
    using ingest_run [of "opened w" p _ H] assms by auto
  have ps: "list_all (\<lambda>q. event_fks d (event_row q)) (?ps v)"
    using ok edge_event_fks video_fk [OF d(6,1)] by (auto simp: batch_valid_def list_all_iff)
  obtain w' where w': "get_async_session (ingest_edge_batch H p) w =
      (Inr \<lparr>eo_video_file_id = row_id v, eo_events_created = length (eb_events p), eo_sentinel_created = new\<rparr>, w')"
      "consistent (committed w')"
      "same_rows (regenerate (with_events (txn_now (opened w)) (?ps v) d)) (committed w')"
    using request_returns [where m = "ingest_edge_batch H p" and w = w, OF run] consistent_with_events [OF d(1) ps] by auto
  have "sentinel_at H (eb_station_code p) (committed w') = Some v"
    using w'(3) d(6) by (simp add: same_rows_def sentinel_at_def)
  then show ?thesis
    using w' ok d(2-5)
    by (intro exI [of _ v] exI [of _ w'])
       (simp add: post_ingest_def request_def http_status_def same_rows_def with_events_rows regenerate_def)
qed

lemma post_refused:
  assumes c: "consistent (committed w)" and run: "ingest_edge_batch H p (opened w) = (Inl e, w1)"
    and keep: "committed w1 = committed w" and ok: "batch_valid p"
  shows "\<exists>w'. post_ingest H p w = (Inr (http_status 201 (Inl e :: exn + unit)), w')
    \<and> same_rows (committed w) (committed w') \<and> consistent (committed w')"
proof -
  obtain w' where "get_async_session (ingest_edge_batch H p) w = (Inl e, w')"
    "same_rows (committed w) (committed w')" "consistent (committed w')"
    by (rule request_raises [where m = "ingest_edge_batch H p" and w = w, OF run keep c])
  then show ?thesis using ok by (simp add: post_ingest_def request_def http_status_def)
qed

lemma post_refusal:
  assumes "consistent (committed w)"
    and "batch_valid p \<longrightarrow>
      find (\<lambda>s. st_code s = eb_station_code p) (tbl_rows (stations (committed w))) = None
      \<or> utc_us (eb_ended_at p) \<le> utc_us (eb_started_at p)"
  shows "\<exists>w'. post_ingest H p w = (Inr (if batch_valid p
        \<and> find (\<lambda>s. st_code s = eb_station_code p) (tbl_rows (stations (committed w))) = None
      then 404 else 422), w')
    \<and> same_rows (committed w) (committed w') \<and> consistent (committed w')"
proof (cases "batch_valid p")
  case False
  then show ?thesis using assms(1) by (simp add: post_ingest_def request_def same_rows_def)
next
  case True
  have code: "get_by_code (eb_station_code p) (opened w) =
      (Inr (find (\<lambda>s. st_code s = eb_station_code p) (tbl_rows (stations (committed w)))), opened w)"
    using get_by_code_run [of "opened w"] assms(1) by simp
  show ?thesis
  proof (cases "find (\<lambda>s. st_code s = eb_station_code p) (tbl_rows (stations (committed w)))")
    case None
    have "ingest_edge_batch H p (opened w) =
        (Inl (Exn (HTTPErr 404) (''Station not found: '' @ eb_station_code p)), opened w)"
      using code None by (simp add: ingest_edge_batch_def bindM_run raise_def)
    from post_refused [OF assms(1) this _ True] None True show ?thesis by (simp add: http_status_def)
  next
    case (Some s)
    then have "utc_us (eb_ended_at p) \<le> utc_us (eb_started_at p)" using assms(2) True by simp
    then have "ingest_edge_batch H p (opened w) =
        (Inl (http_422 ''started_at must be < ended_at''), opened w)"
      using code Some
      by (simp add: ingest_edge_batch_def get_or_create_edge_sentinel_def Let_def bindM_run raise_def utc_us_def)
    from post_refused [OF assms(1) this _ True] Some True show ?thesis by (simp add: http_status_def http_422_def)
  qed
qed

text \<open>Every request ends in one of three status codes.\<close>

definition all_rows :: "db \<Rightarrow> station list \<times> tractor list \<times> video_file list \<times> event list \<times> visit list" where
  "all_rows d = (tbl_rows (stations d), tbl_rows (tractors d), tbl_rows (videos d), tbl_rows (events d), tbl_rows (visits d))"

lemma same_rows_all: "same_rows d d' \<longleftrightarrow> all_rows d' = all_rows d"
  by (auto simp: same_rows_def all_rows_def)

definition acceptable :: "edge_batch_in \<Rightarrow> db \<Rightarrow> bool" where
  "acceptable p d \<longleftrightarrow> batch_valid p \<and> utc_us (eb_started_at p) < utc_us (eb_ended_at p)
     \<and> find (\<lambda>s. st_code s = eb_station_code p) (tbl_rows (stations d)) \<noteq> None"

lemma post_cases:
  assumes c: "consistent (committed w)" and run: "post_ingest H p w = (r, w')"
  shows "consistent (committed w') \<and>
    (if acceptable p (committed w)
     then r = Inr 201 \<and> tbl_rows (stations (committed w')) = tbl_rows (stations (committed w))
       \<and> (\<exists>i. tbl_rows (events (committed w')) = tbl_rows (events (committed w))
            @ stored_events (txn_now (opened w)) (tbl_seq (events (committed w)))
                (map (edge_event_create i (eb_ended_at p)) (eb_events p)))
     else r \<in> {Inr 404, Inr 422} \<and> all_rows (committed w') = all_rows (committed w))"
proof (cases "acceptable p (committed w)")
  case True
  then obtain s where "find (\<lambda>s. st_code s = eb_station_code p) (tbl_rows (stations (committed w))) = Some s"
    by (auto simp: acceptable_def)
  from post_run [OF c _ this, of H] True run show ?thesis by (auto simp: acceptable_def)
next
  case False
  from post_refusal [OF c, of p H] False run show ?thesis
    by (auto simp: acceptable_def same_rows_all not_less split: if_splits)
qed

section \<open>Properties\<close>


definition sample_batch :: edge_batch_in where
  "sample_batch = \<lparr>eb_station_code = ''gate-1'', eb_started_at = Aware 5 0, eb_ended_at = Aware 9 0,
     eb_events = [\<lparr>ei_aruco_id = Some 7, ei_confidence = None, ei_bbox = None, ei_inside_roi = True,
       ei_frame_number = 3, ei_timestamp_in_video = 1, ei_detector_metadata = None\<rparr>]\<rparr>"

lemma sample_batch_accepted:
  "batch_valid sample_batch" "utc_us (eb_started_at sample_batch) < utc_us (eb_ended_at sample_batch)"
  "find (\<lambda>s. st_code s = eb_station_code sample_batch) (tbl_rows (stations (plant vs))) = Some st1"
  by (simp_all add: sample_batch_def batch_valid_def event_in_valid_def plant_def st1_def)


text \<open>
  C26: A batch that violates the schema or whose window is empty is answered with 422, one of
  an unknown station with 404, and no row of any table changes.
\<close>

theorem edge_batch_refused:
  assumes "consistent (committed w)"
    and "batch_valid p \<longrightarrow>
      find (\<lambda>s. st_code s = eb_station_code p) (tbl_rows (stations (committed w))) = None
      \<or> utc_us (eb_ended_at p) \<le> utc_us (eb_started_at p)"
  shows "\<exists>w'. post_ingest H p w = (Inr (if batch_valid p
        \<and> find (\<lambda>s. st_code s = eb_station_code p) (tbl_rows (stations (committed w))) = None
      then 404 else 422), w')
    \<and> same_rows (committed w) (committed w') \<and> consistent (committed w')"
  by (rule post_refusal [OF assms])

theorem edge_batch_refused_witness:
  "\<exists>w'. post_ingest plain_hasher (sample_batch\<lparr>eb_station_code := ''gate-2''\<rparr>) (world_of (plant [])) = (Inr 404, w')
     \<and> tbl_rows (events (committed w')) = tbl_rows (events (plant []))"
proof -
  have "consistent (committed (world_of (plant [])))" by (simp add: empty_plant_consistent)
  from edge_batch_refused [OF this, of "sample_batch\<lparr>eb_station_code := ''gate-2''\<rparr>" plain_hasher]
  show ?thesis
    by (auto simp: sample_batch_def batch_valid_def event_in_valid_def plant_def st1_def same_rows_def)
qed

end
