(* ===== verification/ConsumerProperties.thy ===== *)
theory ConsumerProperties
  imports Consumer EdgeIngestProperties
begin

text \<open>
  The properties of the MQTT consumer. \<open>ingest_service\<close> is the contract between the forwarding loop
  and the API; it is proved for the endpoint of \<open>EdgeIngest\<close>, whose refusals leave every table as it
  was.
\<close>

section \<open>The schedule of the attempts\<close>

definition waits :: "rat \<Rightarrow> nat \<Rightarrow> rat list" where
  "waits delay m = map (\<lambda>k. delay * 2 ^ k) [0..<m]"

lemma waits_0 [simp]: "waits delay 0 = []"
  by (simp add: waits_def)

lemma waits_Suc: "waits delay (Suc m) = delay # waits (delay * 2) m"
  by (simp add: waits_def upt_conv_Cons map_Suc_upt [symmetric] comp_def mult.assoc del: upt_Suc)

lemma http_post_frame:
  assumes "http_post serve net p s = (r, s')"
  shows "fw_posts s' = Suc (fw_posts s)" "fw_slept s' = fw_slept s" "fw_clock s' = fw_clock s"
    "fw_reads s' = fw_reads s"
  using assms by (auto simp: http_post_def Let_def split: fate.splits prod.splits)

lemma maybe_sleep_simps [simp]:
  "fw_posts (maybe_sleep d s) = fw_posts s" "fw_server (maybe_sleep d s) = fw_server s"
  "0 < d \<Longrightarrow> fw_slept (maybe_sleep d s) = fw_slept s @ [d]"
  by (simp_all add: maybe_sleep_def)

lemma attempts_schedule:
  assumes "0 < delay" and "attempts serve net p (Suc n) delay s = (r, s')"
  shows "\<exists>m \<le> n. fw_posts s' = fw_posts s + Suc m \<and> fw_slept s' = fw_slept s @ waits delay m"
  using assms
proof (induction n arbitrary: delay s)
  case 0
  then show ?case by (auto dest: http_post_frame split: prod.splits sum.splits if_splits)
next
  case (Suc n)
  obtain q s1 where post: "http_post serve net p s = (q, s1)" by (cases "http_post serve net p s")
  note s1 = http_post_frame [OF post]
  have again: ?case if rec: "attempts serve net p (Suc n) (delay * 2) (maybe_sleep delay s1) = (r, s')"
  proof -
    obtain m where "m \<le> n" "fw_posts s' = fw_posts s1 + Suc m" "fw_slept s' = (fw_slept s1 @ [delay]) @ waits (delay * 2) m"
      using Suc.IH [OF _ rec] Suc.prems(1) by auto
    then show ?thesis using s1 by (intro exI [of _ "Suc m"]) (simp add: waits_Suc)
  qed
  have ended: ?case if "s' = s1"
    using s1 that by (intro exI [of _ 0]) simp
  show ?case
    using Suc.prems(2) post again ended
    by (cases q) (auto simp del: attempts.simps(2) simp: attempts.simps(2) [of serve net p "Suc n"] split: if_splits)
qed

section \<open>At most once\<close>

text \<open>
  What forwarding relies on from the API: an invariant of its state, and that a request without a
  success status changes nothing observable.
\<close>

locale ingest_service =
  fixes serve :: "'p \<Rightarrow> ('w, exn, int) prog" and inv :: "'w \<Rightarrow> bool" and obs :: "'w \<Rightarrow> 'o"
  assumes serve_inv: "inv w \<Longrightarrow> serve p w = (r, w') \<Longrightarrow> inv w'"
    and serve_refused: "inv w \<Longrightarrow> serve p w = (r, w') \<Longrightarrow> \<not> success_code (status_of r) \<Longrightarrow> obs w' = obs w"
begin

definition stored_once :: "'p \<Rightarrow> 'w \<Rightarrow> 'w \<Rightarrow> bool" where
  "stored_once p w w' \<longleftrightarrow> (\<exists>w0 r. inv w0 \<and> obs w0 = obs w \<and> serve p w0 = (r, w') \<and> success_code (status_of r))"

lemma attempts_inv: "inv (fw_server s) \<Longrightarrow> attempts serve net p n delay s = (r, s') \<Longrightarrow> inv (fw_server s')"
proof (induction n arbitrary: delay s)
  case (Suc n)
  obtain q s1 where post: "http_post serve net p s = (q, s1)" by (cases "http_post serve net p s")
  have "inv (fw_server s1)"
    using Suc.prems(1) post serve_inv [of "fw_server s" p]
    by (auto simp: http_post_def Let_def split: fate.splits prod.splits)
  then have "inv (fw_server (maybe_sleep delay s1))" by simp
  then show ?case
    using Suc.prems(2) Suc.IH [of "maybe_sleep delay s1" "delay * 2"] \<open>inv (fw_server s1)\<close> post
    by (cases q) (auto split: if_splits)
qed simp

lemma at_most_once:
  assumes "inv (fw_server s)" and "\<And>k e. fw_posts s \<le> k \<Longrightarrow> k < fw_posts s + n \<Longrightarrow> net k \<noteq> Unanswered e"
    and "attempts serve net p n delay s = (r, s')"
  shows "obs (fw_server s') = obs (fw_server s) \<or> stored_once p (fw_server s) (fw_server s')"
  using assms
proof (induction n arbitrary: delay s)
  case (Suc n)
  obtain q s1 where post: "http_post serve net p s = (q, s1)" by (cases "http_post serve net p s")
  have s1: "fw_posts s1 = Suc (fw_posts s)" using http_post_frame [OF post] by simp
  have fate: "net (fw_posts s) \<noteq> Unanswered e" for e by (rule Suc.prems(2)) simp_all
  show ?case
  proof (cases "(case q of Inr c \<Rightarrow> success_code c | _ \<Rightarrow> False) \<and> net (fw_posts s) = Answered")
    case True
    then have "stored_once p (fw_server s) (fw_server s1)"
      using post Suc.prems(1) by (auto simp: stored_once_def http_post_def Let_def split: prod.splits)
    then show ?thesis using True post Suc.prems(3) by (auto split: sum.splits)
  next
    case False
    then have same: "obs (fw_server s1) = obs (fw_server s)" and i: "inv (fw_server s1)"
      using post fate Suc.prems(1) serve_refused [OF Suc.prems(1), of p] serve_inv [OF Suc.prems(1), of p]
      by (auto simp: http_post_def Let_def split: fate.splits prod.splits)
    have "obs (fw_server s') = obs (fw_server s1) \<or> stored_once p (fw_server s1) (fw_server s')"
      if rec: "attempts serve net p n (delay * 2) (maybe_sleep delay s1) = (r, s')"
      using Suc.IH [OF _ _ rec] i s1 Suc.prems(2) by auto
    then show ?thesis
      using same Suc.prems(3) post by (cases q) (auto simp: stored_once_def split: if_splits)
  qed
qed simp

lemmas at_most_once_explicit = at_most_once [unfolded stored_once_def]

end

section \<open>The API as the service\<close>

interpretation ingest: ingest_service "post_ingest H" "\<lambda>w. consistent (committed w)" "\<lambda>w. all_rows (committed w)"
  for H :: "'h hasher"
proof
  fix w w' :: world and p :: edge_batch_in and r :: "exn + int"
  assume c: "consistent (committed w)" and run: "post_ingest H p w = (r, w')"
  note cases = post_cases [OF c run]
  show "consistent (committed w')" using cases by simp
  show "all_rows (committed w') = all_rows (committed w)" if "\<not> success_code (status_of r)"
    using cases that by (auto simp: success_code_def status_of_def split: if_splits)
qed

definition batch_events :: "int \<Rightarrow> edge_batch_in \<Rightarrow> event_create list" where
  "batch_events i p = map (edge_event_create i (eb_ended_at p)) (eb_events p)"

text \<open>
  C27: Whatever requests are lost and whatever gateways answer, as long as no answer of the
  API is lost the forwarding loop leaves the API's tables as they were or with the events of
  the batch appended exactly once.
\<close>

theorem batch_is_stored_at_most_once:
  assumes "consistent (committed (fw_server s))"
    and "\<forall>k e. net k \<noteq> Unanswered e"
    and "forward_with_retries c (post_ingest H) net p s = (r, s')"
  shows "consistent (committed (fw_server s'))
    \<and> (all_rows (committed (fw_server s')) = all_rows (committed (fw_server s))
      \<or> (\<exists>now seq i. tbl_rows (events (committed (fw_server s'))) =
            tbl_rows (events (committed (fw_server s))) @ stored_events now seq (batch_events i p)))"
proof -
  have run: "attempts (post_ingest H) net p (nat (co_max_retries c)) (co_retry_backoff c) s = (r, s')"
    using assms(3) by (simp add: forward_with_retries_def)
  have "consistent (committed (fw_server s'))" by (rule ingest.attempts_inv [OF assms(1) run])
  moreover consider "all_rows (committed (fw_server s')) = all_rows (committed (fw_server s))"
    | w0 q where "consistent (committed w0)" "all_rows (committed w0) = all_rows (committed (fw_server s))"
      "post_ingest H p w0 = (q, fw_server s')" "success_code (status_of q)"
    using ingest.at_most_once_explicit [OF assms(1) _ run] assms(2) by blast
  then have "all_rows (committed (fw_server s')) = all_rows (committed (fw_server s))
      \<or> (\<exists>now seq i. tbl_rows (events (committed (fw_server s'))) =
            tbl_rows (events (committed (fw_server s))) @ stored_events now seq (batch_events i p))"
  proof cases
    case w0: (2 w0 q)
    have "q = Inr 404 \<or> q = Inr 422 \<Longrightarrow> False"
      using w0(4) by (auto simp: success_code_def status_of_def)
    moreover have "tbl_rows (events (committed w0)) = tbl_rows (events (committed (fw_server s)))"
      using w0(2) by (simp add: all_rows_def)
    ultimately show ?thesis
      using post_cases [OF w0(1,3)] by (auto simp: batch_events_def split: if_splits)
  qed simp
  ultimately show ?thesis by simp
qed

definition sample_consumer :: mqtt_consumer where
  "sample_consumer = new_consumer default_consumer_settings
     \<lparr>ov_api_url = None, ov_ingest_path = None, ov_request_timeout = None, ov_max_retries = None,
      ov_retry_backoff = None\<rparr>"

definition sample_forwarding :: "world forwarding" where
  "sample_forwarding = \<lparr>fw_server = world_of (plant []), fw_posts = 0, fw_slept = [],
     fw_clock = (\<lambda>n. 7000000), fw_reads = 0\<rparr>"

theorem batch_is_stored_at_most_once_witness:
  "case forward_with_retries sample_consumer (post_ingest plain_hasher)
       (\<lambda>k. if k = 0 then Gateway 502 else Answered) sample_batch sample_forwarding of
     (r, s') \<Rightarrow> consistent (committed (fw_server s'))
       \<and> (all_rows (committed (fw_server s')) = all_rows (plant [])
         \<or> (\<exists>now seq i. tbl_rows (events (committed (fw_server s'))) =
              tbl_rows (events (plant [])) @ stored_events now seq (batch_events i sample_batch)))"
proof -
  obtain r s' where run: "forward_with_retries sample_consumer (post_ingest plain_hasher)
       (\<lambda>k. if k = 0 then Gateway 502 else Answered) sample_batch sample_forwarding = (r, s')"
    by fastforce
  have "consistent (committed (fw_server sample_forwarding))"
    by (simp add: sample_forwarding_def empty_plant_consistent)
  from batch_is_stored_at_most_once [OF this _ run] show ?thesis
    by (simp add: run) (simp add: sample_forwarding_def)
qed

text \<open>
  C28: Forwarding a batch makes at least one and at most max_retries requests, and the waits
  between them are the configured back-off doubled each time.
\<close>

theorem retries_follow_the_schedule:
  assumes "0 < co_retry_backoff c" and "0 < co_max_retries c"
    and "forward_with_retries c serve net p s = (r, s')"
  shows "\<exists>m. int m < co_max_retries c \<and> fw_posts s' = fw_posts s + Suc m
    \<and> fw_slept s' = fw_slept s @ map (\<lambda>k. co_retry_backoff c * 2 ^ k) [0..<m]"
proof -
  obtain n where n: "nat (co_max_retries c) = Suc n" using assms(2) by (cases "nat (co_max_retries c)") auto
  then obtain m where "m \<le> n" "fw_posts s' = fw_posts s + Suc m"
    "fw_slept s' = fw_slept s @ waits (co_retry_backoff c) m"
    using attempts_schedule [of _ serve net p n s r s'] assms(1,3) by (auto simp: forward_with_retries_def)
  then show ?thesis using n by (intro exI [of _ m]) (simp add: waits_def)
qed

theorem retries_follow_the_schedule_witness:
  "\<exists>m. int m < 3 \<and> fw_posts (snd (forward_with_retries sample_consumer (\<lambda>_. raise (Exn RuntimeErr []))
       (\<lambda>_. Gateway 503) () (sample_forwarding\<lparr>fw_posts := 4\<rparr>))) = 4 + Suc m"
proof -
  obtain r s' where run: "forward_with_retries sample_consumer (\<lambda>_. raise (Exn RuntimeErr []))
       (\<lambda>_. Gateway 503) () (sample_forwarding\<lparr>fw_posts := 4\<rparr>) = (r, s')"
    by fastforce
  have "0 < co_retry_backoff sample_consumer" "0 < co_max_retries sample_consumer" "co_max_retries sample_consumer = 3"
    by (simp_all add: sample_consumer_def new_consumer_def default_consumer_settings_def or_else_def Let_def)
  with retries_follow_the_schedule [OF _ _ run] show ?thesis by (auto simp: run)
qed

text \<open>
  C29: When the answer to a stored batch is lost, the retry stores its events a second time:
  forwarding is not idempotent.
\<close>

theorem lost_answer_stores_the_batch_twice:
  assumes "consistent (committed (fw_server s))" and "acceptable p (committed (fw_server s))"
    and "2 \<le> co_max_retries c"
    and "net (fw_posts s) = Unanswered e" and "exn_class e = HttpxErr" and "net (Suc (fw_posts s)) = Answered"
  shows "\<exists>s' now now' seq seq' i i'. forward_with_retries c (post_ingest H) net p s = (Inr (), s')
    \<and> tbl_rows (events (committed (fw_server s'))) = tbl_rows (events (committed (fw_server s)))
        @ stored_events now seq (batch_events i p) @ stored_events now' seq' (batch_events i' p)"
proof -
  define n where "n = nat (co_max_retries c - 2)"
  have n: "nat (co_max_retries c) = Suc (Suc n)" using assms(3) by (simp add: n_def)
  obtain r1 w1 where 1: "post_ingest H p (fw_server s) = (r1, w1)" by fastforce
  obtain r2 w2 where 2: "post_ingest H p w1 = (r2, w2)" by fastforce
  note c1 = post_cases [OF assms(1) 1]
  then have a1: "acceptable p (committed w1)" using assms(2) by (auto simp: acceptable_def)
  note c2 = post_cases [OF conjunct1 [OF c1] 2]
  obtain i i' where ev: "tbl_rows (events (committed w2)) = tbl_rows (events (committed (fw_server s)))
        @ stored_events (txn_now (opened (fw_server s))) (tbl_seq (events (committed (fw_server s)))) (batch_events i p)
        @ stored_events (txn_now (opened w1)) (tbl_seq (events (committed w1))) (batch_events i' p)"
    using c1 c2 a1 assms(2) by (auto simp: batch_events_def)
  have r2: "r2 = Inr 201" using c2 a1 by simp
  let ?s = "maybe_sleep (co_retry_backoff c) (s\<lparr>fw_posts := Suc (fw_posts s), fw_server := w1\<rparr>)"
  have "forward_with_retries c (post_ingest H) net p s =
      (Inr (), ?s\<lparr>fw_posts := Suc (Suc (fw_posts s)), fw_server := w2\<rparr>)"
    using 1 2 assms(4-6) r2
    by (simp add: forward_with_retries_def n http_post_def Let_def status_of_def success_code_def)
  then show ?thesis using ev by fastforce
qed

theorem lost_answer_stores_the_batch_twice_witness:
  "\<exists>s'. forward_with_retries sample_consumer (post_ingest plain_hasher)
       (\<lambda>k. if k = 0 then Unanswered (Exn HttpxErr ''ReadTimeout'') else Answered) sample_batch sample_forwarding
     = (Inr (), s')
     \<and> length (tbl_rows (events (committed (fw_server s')))) = 5"
proof -
  have "consistent (committed (fw_server sample_forwarding))"
    "acceptable sample_batch (committed (fw_server sample_forwarding))" "2 \<le> co_max_retries sample_consumer"
    using sample_batch_accepted
    by (simp_all add: sample_forwarding_def empty_plant_consistent acceptable_def sample_consumer_def
        new_consumer_def default_consumer_settings_def or_else_def Let_def)
  from lost_answer_stores_the_batch_twice [OF this, of "\<lambda>k. if k = 0 then Unanswered (Exn HttpxErr ''ReadTimeout'') else Answered"
      "Exn HttpxErr ''ReadTimeout''" plain_hasher]
  obtain s' now now' seq seq' i i' where "forward_with_retries sample_consumer (post_ingest plain_hasher)
       (\<lambda>k. if k = 0 then Unanswered (Exn HttpxErr ''ReadTimeout'') else Answered) sample_batch sample_forwarding
     = (Inr (), s')"
    "tbl_rows (events (committed (fw_server s'))) = tbl_rows (events (plant []))
        @ stored_events now seq (batch_events i sample_batch) @ stored_events now' seq' (batch_events i' sample_batch)"
    by (auto simp: sample_forwarding_def)
  then show ?thesis by (intro exI [of _ s']) (simp add: plant_def batch_events_def sample_batch_def)
qed

section \<open>Times\<close>

lemma json_get_snoc: "json_get k (kvs @ [(k', v)]) = (if k = k' then Some v else json_get k kvs)"
  by (simp add: json_get_def)

lemma normalise_numbers:
  assumes "json_get ''started_at'' kvs = Some a" "is_number a" "json_get ''ended_at'' kvs = Some b" "is_number b"
  shows "normalise_timestamps kvs s =
    (Inr (kvs @ [(''started_at'', JStr (isoformat (Aware (fw_clock s (fw_reads s)) 0))),
                 (''ended_at'', JStr (isoformat (Aware (fw_clock s (Suc (fw_reads s))) 0)))]),
     s\<lparr>fw_reads := Suc (Suc (fw_reads s))\<rparr>)"
  using assms by (simp add: normalise_timestamps_def normalise_key_def now_utc_def bindM_run json_get_snoc)

text \<open>
  C30: The edge's numeric times are replaced by two readings of the consumer's clock; when the
  two readings are equal the window is empty, the API refuses the batch and its detections are
  dropped without a retry.
\<close>

theorem equal_readings_drop_the_batch:
  assumes "consistent (committed (fw_server s))"
    and "loads (payload m) = Some (JObj kvs)"
    and "json_get ''started_at'' kvs = Some a" "is_number a" "json_get ''ended_at'' kvs = Some b" "is_number b"
    and "fw_clock s (fw_reads s) = t" "fw_clock s (Suc (fw_reads s)) = t"
    and iso: "\<And>kvs' p. validate kvs' = Some p \<Longrightarrow>
        (json_get ''started_at'' kvs' = Some (JStr (isoformat (Aware t 0))) \<longrightarrow> eb_started_at p = Aware t 0)
        \<and> (json_get ''ended_at'' kvs' = Some (JStr (isoformat (Aware t 0))) \<longrightarrow> eb_ended_at p = Aware t 0)"
    and "0 < co_max_retries c" and "net (fw_posts s) = Answered"
  shows "\<exists>v s'. handle_message c loads validate (post_ingest H) net m s = (Inr v, s')
    \<and> (v = Invalid \<or> v = Forwarded \<and> fw_posts s' = Suc (fw_posts s))
    \<and> all_rows (committed (fw_server s')) = all_rows (committed (fw_server s))"
proof -
  define kvs' where "kvs' = kvs @ [(''started_at'', JStr (isoformat (Aware t 0))), (''ended_at'', JStr (isoformat (Aware t 0)))]"
  let ?s = "s\<lparr>fw_reads := Suc (Suc (fw_reads s))\<rparr>"
  have norm: "normalise_timestamps kvs s = (Inr kvs', ?s)"
    using normalise_numbers [OF assms(3-6), of s] assms(7,8) by (simp add: kvs'_def)
  have keys: "json_get ''started_at'' kvs' = Some (JStr (isoformat (Aware t 0)))"
    "json_get ''ended_at'' kvs' = Some (JStr (isoformat (Aware t 0)))"
    by (simp_all add: kvs'_def json_get_def)
  show ?thesis
  proof (cases "validate kvs'")
    case None
    then show ?thesis using norm assms(2) by (simp add: handle_message_def bindM_run)
  next
    case (Some p)
    then have "eb_started_at p = eb_ended_at p" using iso [OF Some] keys by simp
    then have na: "\<not> acceptable p (committed (fw_server s))" by (simp add: acceptable_def)
    obtain r w where post: "post_ingest H p (fw_server s) = (r, w)" by fastforce
    have r: "r = Inr 404 \<or> r = Inr 422" "all_rows (committed w) = all_rows (committed (fw_server s))"
      using post_cases [OF assms(1) post] na by simp_all
    obtain n where n: "nat (co_max_retries c) = Suc n" using assms(10) by (cases "nat (co_max_retries c)") auto
    have "forward_with_retries c (post_ingest H) net p ?s = (Inr (), ?s\<lparr>fw_posts := Suc (fw_posts s), fw_server := w\<rparr>)"
      using post r(1) assms(11)
      by (auto simp: forward_with_retries_def n http_post_def Let_def status_of_def success_code_def client_error_code_def)
    then show ?thesis using norm assms(2) Some r(2) by (simp add: handle_message_def bindM_run seqM_def tryM_def)
  qed
qed

definition timed_batch :: "int \<Rightarrow> (string \<times> json) list \<Rightarrow> edge_batch_in option" where
  "timed_batch t kvs =
     (if json_get ''started_at'' kvs = Some (JStr (isoformat (Aware t 0)))
       \<and> json_get ''ended_at'' kvs = Some (JStr (isoformat (Aware t 0)))
      then Some (sample_batch\<lparr>eb_started_at := Aware t 0, eb_ended_at := Aware t 0\<rparr>) else None)"

lemma timed_batch_reads_iso:
  "timed_batch t kvs = Some p \<Longrightarrow>
     (json_get ''started_at'' kvs = Some (JStr (isoformat (Aware t 0))) \<longrightarrow> eb_started_at p = Aware t 0)
     \<and> (json_get ''ended_at'' kvs = Some (JStr (isoformat (Aware t 0))) \<longrightarrow> eb_ended_at p = Aware t 0)"
  by (auto simp: timed_batch_def simp del: isoformat.simps split: if_splits)

theorem equal_readings_drop_the_batch_witness:
  "\<exists>v s'. handle_message sample_consumer
       (\<lambda>_. Some (JObj [(''started_at'', JFloat 1), (''ended_at'', JFloat 2)])) (timed_batch 7000000)
       (post_ingest plain_hasher) (\<lambda>_. Answered) \<lparr>topic = ''farm/gate-1/detections'', payload = []\<rparr> sample_forwarding
     = (Inr v, s')
     \<and> all_rows (committed (fw_server s')) = all_rows (plant [])"
proof -
  let ?kvs = "[(''started_at'', JFloat 1), (''ended_at'', JFloat 2)]"
  have s: "consistent (committed (fw_server sample_forwarding))" "0 < co_max_retries sample_consumer"
    "fw_clock sample_forwarding n = 7000000" for n
    by (simp_all add: sample_forwarding_def empty_plant_consistent sample_consumer_def new_consumer_def
        default_consumer_settings_def or_else_def Let_def)
  have kvs: "json_get ''started_at'' ?kvs = Some (JFloat 1)" "json_get ''ended_at'' ?kvs = Some (JFloat 2)"
    "is_number (JFloat 1)" "is_number (JFloat 2)"
    by (simp_all add: json_get_def)
  have "\<exists>v s'. handle_message sample_consumer (\<lambda>_. Some (JObj ?kvs)) (timed_batch 7000000)
       (post_ingest plain_hasher) (\<lambda>_. Answered) \<lparr>topic = ''farm/gate-1/detections'', payload = []\<rparr> sample_forwarding
     = (Inr v, s')
    \<and> (v = Invalid \<or> v = Forwarded \<and> fw_posts s' = Suc (fw_posts sample_forwarding))
    \<and> all_rows (committed (fw_server s')) = all_rows (committed (fw_server sample_forwarding))"
    by (rule equal_readings_drop_the_batch
        [OF s(1) refl kvs(1,3,2,4) s(3) s(3) timed_batch_reads_iso s(2) refl])
  then show ?thesis by (simp only: sample_forwarding_def forwarding.simps sample_working) blast
qed

end
