(* ===== verification/VideoExecutor.thy ===== *)
theory VideoExecutor
  imports VideoHandler "HOL-Library.Multiset"
begin

text \<open>
  \<open>src/services/video_executor.py\<close>: batches of videos on the shared process pool or thread pool. A
  schedule is a list of moves: the next job passes the semaphore and is submitted to the pool, a
  free worker takes the oldest submitted job, a running job finishes. \<open>asyncio.gather\<close> waits for all
  results, or raises the first error. Creating and shutting down operating system processes is
  reduced to which pools exist.
\<close>

section \<open>Jobs and pools\<close>

record video_job =
  vj_video_path :: string
  vj_roi_polygon :: "int list list option"

record video_job_result =
  vr_job :: video_job
  vr_events :: "detection_event list"
  vr_frames_processed :: int
  vr_triggers_fired :: int
  vr_error :: "exn option"

text \<open>The two module-level singletons, each with its number of workers.\<close>

record executor_pools =
  ep_process :: "nat option"
  ep_thread :: "nat option"

definition get_process_pool :: "nat \<Rightarrow> executor_pools \<Rightarrow> nat \<times> executor_pools" where
  "get_process_pool max_workers s =
     (case ep_process s of Some n \<Rightarrow> (n, s) | None \<Rightarrow> (max_workers, s\<lparr>ep_process := Some max_workers\<rparr>))"

definition get_thread_pool :: "nat \<Rightarrow> executor_pools \<Rightarrow> nat \<times> executor_pools" where
  "get_thread_pool max_workers s =
     (case ep_thread s of Some n \<Rightarrow> (n, s) | None \<Rightarrow> (max_workers, s\<lparr>ep_thread := Some max_workers\<rparr>))"

definition reset_executors :: "executor_pools \<Rightarrow> executor_pools" where
  "reset_executors s = s\<lparr>ep_process := None, ep_thread := None\<rparr>"

section \<open>Workers\<close>

definition process_video_worker :: "detector_settings \<Rightarrow> ('f, 'bg, 'mask, 'c) cv2 \<Rightarrow> worker" where
  "process_video_worker cfg cv video_path polygon = process_video cfg cv video_path polygon"

definition dispatch_job :: "worker \<Rightarrow> video_job \<Rightarrow> exn + video_job_result" where
  "dispatch_job work j =
     (case work (vj_video_path j) (vj_roi_polygon j) of
        Inl e \<Rightarrow> Inl e
      | Inr (evs, frames, triggers) \<Rightarrow>
          Inr \<lparr>vr_job = j, vr_events = evs, vr_frames_processed = frames, vr_triggers_fired = triggers,
               vr_error = None\<rparr>)"

text \<open>The adapter of the thread pool: errors are values.\<close>

definition wrap_job :: "worker \<Rightarrow> video_job \<Rightarrow> exn + video_job_result" where
  "wrap_job work j =
     (case dispatch_job work j of
        Inr r \<Rightarrow> Inr r
      | Inl e \<Rightarrow> Inr \<lparr>vr_job = j, vr_events = [], vr_frames_processed = 0, vr_triggers_fired = 0,
                      vr_error = Some e\<rparr>)"

section \<open>Schedules\<close>

record 'r execution =
  ex_submitted :: nat \<comment> \<open>so many jobs have passed the semaphore\<close>
  ex_queue :: "nat list"
  ex_running :: "nat list"
  ex_done :: "(nat \<times> (exn + 'r)) list" \<comment> \<open>in the order in which they finished\<close>

datatype move = Submit | Begin | Finish nat

definition execution_start :: "'r execution" where
  "execution_start = \<lparr>ex_submitted = 0, ex_queue = [], ex_running = [], ex_done = []\<rparr>"

text \<open>A permit of the semaphore is held from the submission to the result.\<close>

definition permit_free :: "nat option \<Rightarrow> 'r execution \<Rightarrow> bool" where
  "permit_free cap s \<longleftrightarrow>
     (case cap of None \<Rightarrow> True | Some c \<Rightarrow> length (ex_queue s) + length (ex_running s) < c)"

fun exec_move ::
  "('j \<Rightarrow> exn + 'r) \<Rightarrow> nat option \<Rightarrow> nat \<Rightarrow> 'j list \<Rightarrow> move \<Rightarrow> 'r execution \<Rightarrow> 'r execution option" where
  "exec_move work cap workers jobs Submit s =
     (if ex_submitted s < length jobs \<and> permit_free cap s
      then Some (s\<lparr>ex_submitted := Suc (ex_submitted s), ex_queue := ex_queue s @ [ex_submitted s]\<rparr>)
      else None)"
| "exec_move work cap workers jobs Begin s =
     (case ex_queue s of
        [] \<Rightarrow> None
      | i # q \<Rightarrow> if length (ex_running s) < workers
                then Some (s\<lparr>ex_queue := q, ex_running := ex_running s @ [i]\<rparr>) else None)"
| "exec_move work cap workers jobs (Finish i) s =
     (if i \<in> set (ex_running s)
      then Some (s\<lparr>ex_running := remove1 i (ex_running s), ex_done := ex_done s @ [(i, work (jobs ! i))]\<rparr>)
      else None)"

fun exec_run ::
  "('j \<Rightarrow> exn + 'r) \<Rightarrow> nat option \<Rightarrow> nat \<Rightarrow> 'j list \<Rightarrow> move list \<Rightarrow> 'r execution \<Rightarrow> 'r execution option" where
  "exec_run work cap workers jobs [] s = Some s"
| "exec_run work cap workers jobs (m # ms) s =
     (case exec_move work cap workers jobs m s of
        None \<Rightarrow> None
      | Some s' \<Rightarrow> exec_run work cap workers jobs ms s')"

text \<open>\<open>asyncio.gather\<close> without \<open>return_exceptions\<close>; \<open>None\<close> while it waits.\<close>

fun first_error :: "(nat \<times> (exn + 'r)) list \<Rightarrow> exn option" where
  "first_error [] = None"
| "first_error ((i, Inl e) # ds) = Some e"
| "first_error ((i, Inr r) # ds) = first_error ds"

fun result_at :: "nat \<Rightarrow> (nat \<times> (exn + 'r)) list \<Rightarrow> 'r option" where
  "result_at i ds = (case map_of ds i of Some (Inr r) \<Rightarrow> Some r | _ \<Rightarrow> None)"

definition gather :: "nat \<Rightarrow> 'r execution \<Rightarrow> (exn + 'r list) option" where
  "gather n s =
     (case first_error (ex_done s) of
        Some e \<Rightarrow> Some (Inl e)
      | None \<Rightarrow> map_option Inr (those (map (\<lambda>i. result_at i (ex_done s)) [0..<n])))"

text \<open>\<open>if max_concurrent\<close>: zero is no semaphore; a negative number is refused by \<open>Semaphore\<close>.\<close>

definition run_videos_in_parallel ::
  "worker \<Rightarrow> nat \<Rightarrow> int option \<Rightarrow> video_job list \<Rightarrow> move list \<Rightarrow> (exn + video_job_result list) option" where
  "run_videos_in_parallel work workers max_concurrent jobs ms =
     (if jobs = [] then Some (Inr [])
      else (case max_concurrent of
              Some c \<Rightarrow> if c < 0 then Some (Inl (Exn ValueErr ''Semaphore initial value must be >= 0''))
                        else Option.bind (exec_run (dispatch_job work) (if c = 0 then None else Some (nat c)) workers jobs ms
                               execution_start) (gather (length jobs))
            | None \<Rightarrow> Option.bind (exec_run (dispatch_job work) None workers jobs ms execution_start)
                        (gather (length jobs))))"

definition run_videos_in_thread_pool ::
  "worker \<Rightarrow> nat \<Rightarrow> video_job list \<Rightarrow> move list \<Rightarrow> (exn + video_job_result list) option" where
  "run_videos_in_thread_pool work workers jobs ms =
     (if jobs = [] then Some (Inr [])
      else Option.bind (exec_run (wrap_job work) None workers jobs ms execution_start) (gather (length jobs)))"

end
