(* ===== verification/ExecutorProperties.thy ===== *)
theory ExecutorProperties
  imports VideoExecutor DetectionProperties
begin

text \<open>
  The properties of the executor: an invariant of every schedule, and what it gives for the results.
\<close>

section \<open>The invariant of a schedule\<close>

definition exec_inv :: "('j \<Rightarrow> exn + 'r) \<Rightarrow> nat option \<Rightarrow> nat \<Rightarrow> 'j list \<Rightarrow> 'r execution \<Rightarrow> bool" where
  "exec_inv work cap workers jobs s \<longleftrightarrow>
     ex_submitted s \<le> length jobs
     \<and> mset (ex_queue s @ ex_running s @ map fst (ex_done s)) = mset [0..<ex_submitted s]
     \<and> list_all (\<lambda>(i, r). r = work (jobs ! i)) (ex_done s)
     \<and> length (ex_running s) \<le> workers
     \<and> (\<forall>c. cap = Some c \<longrightarrow> length (ex_queue s) + length (ex_running s) \<le> c)"

lemma exec_inv_start: "exec_inv work cap workers jobs execution_start"
  by (simp add: exec_inv_def execution_start_def split: option.split)

lemma exec_inv_move:
  assumes "exec_inv work cap workers jobs s" and "exec_move work cap workers jobs m s = Some s'"
  shows "exec_inv work cap workers jobs s'"
proof (cases m)
  case Submit
  then show ?thesis
    using assms by (auto simp: exec_inv_def permit_free_def simp del: mset_upt split: if_splits option.splits)
next
  case Begin
  then show ?thesis
    using assms by (auto simp: exec_inv_def split: if_splits option.splits list.splits)
next
  case (Finish i)
  then have i: "i \<in> set (ex_running s)" "s' = s\<lparr>ex_running := remove1 i (ex_running s), ex_done := ex_done s @ [(i, work (jobs ! i))]\<rparr>"
    using assms(2) by (auto split: if_splits)
  then obtain R where R: "mset (ex_running s) = add_mset i R"
    by (metis multi_member_split set_mset_mset)
  have "length (remove1 i (ex_running s)) \<le> length (ex_running s)" by (simp add: length_remove1)
  then show ?thesis
    using assms(1) i(2) R by (auto simp: exec_inv_def simp del: mset_upt)
qed

lemma exec_inv_run:
  "exec_inv work cap workers jobs s \<Longrightarrow> exec_run work cap workers jobs ms s = Some s' \<Longrightarrow>
   exec_inv work cap workers jobs s'"
  by (induction ms arbitrary: s) (auto split: option.splits dest: exec_inv_move)


text \<open>Every move starts, begins or ends one job.\<close>

definition exec_work :: "'r execution \<Rightarrow> nat" where
  "exec_work s = ex_submitted s + length (ex_running s) + 2 * length (ex_done s)"

lemma exec_move_work:
  "exec_move work cap workers jobs m s = Some s' \<Longrightarrow> exec_work s' = Suc (exec_work s)"
  by (cases m) (auto simp: exec_work_def length_remove1 Suc_pred [OF length_pos_if_in_set] split: if_splits list.splits)

lemma exec_run_work:
  "exec_run work cap workers jobs ms s = Some s' \<Longrightarrow> exec_work s' = exec_work s + length ms"
  by (induction ms arbitrary: s) (auto split: option.splits dest: exec_move_work)

lemma exec_work_bound: "exec_inv work cap workers jobs s \<Longrightarrow> exec_work s \<le> 3 * length jobs"
proof -
  assume i: "exec_inv work cap workers jobs s"
  then have "size (mset (ex_queue s @ ex_running s @ map fst (ex_done s))) = ex_submitted s"
    by (simp only: exec_inv_def) simp
  then show ?thesis using i by (simp add: exec_work_def exec_inv_def)
qed

lemma first_error_None:
  "first_error ds = None \<Longrightarrow> map_of ds i = Some r \<Longrightarrow> \<exists>x. r = Inr x"
  by (induction ds rule: first_error.induct) (auto split: if_splits)

lemma first_error_Some: "first_error ds = Some e \<Longrightarrow> \<exists>i. (i, Inl e) \<in> set ds"
  by (induction ds rule: first_error.induct) auto

lemma those_Some: "those xs = Some ys \<Longrightarrow> xs = map Some ys"
  by (induction xs arbitrary: ys) (auto split: option.splits)

lemma those_all: "(\<And>x. x \<in> set xs \<Longrightarrow> x \<noteq> None) \<Longrightarrow> those xs \<noteq> None"
  by (induction xs) (auto split: option.splits)

lemma done_indices: "exec_inv work cap workers jobs s \<Longrightarrow> fst ` set (ex_done s) \<subseteq> {0..<length jobs}"
proof -
  assume i: "exec_inv work cap workers jobs s"
  then have "set_mset (mset (ex_queue s @ ex_running s @ map fst (ex_done s))) = {0..<ex_submitted s}"
    by (simp only: exec_inv_def set_mset_mset) simp
  then have "fst ` set (ex_done s) \<subseteq> {0..<ex_submitted s}" by auto
  moreover have "ex_submitted s \<le> length jobs" using i by (simp add: exec_inv_def)
  ultimately show ?thesis by fastforce
qed

lemma gather_sound:
  assumes i: "exec_inv work cap workers jobs s" and g: "gather (length jobs) s = Some r"
  shows "case r of Inr rs \<Rightarrow> map work jobs = map Inr rs | Inl e \<Rightarrow> \<exists>j \<in> set jobs. work j = Inl e"
proof (cases "first_error (ex_done s)")
  case (Some e)
  then obtain k where "(k, Inl e) \<in> set (ex_done s)" using first_error_Some by blast
  then have "work (jobs ! k) = Inl e" "k < length jobs"
    using i done_indices [OF i] by (force simp: exec_inv_def list_all_iff)+
  then show ?thesis using Some g by (auto simp: gather_def intro!: bexI [of _ "jobs ! k"])
next
  case None
  then obtain rs where rs: "those (map (\<lambda>k. result_at k (ex_done s)) [0..<length jobs]) = Some rs" "r = Inr rs"
    using g by (auto simp: gather_def)
  then have all: "map (\<lambda>k. result_at k (ex_done s)) [0..<length jobs] = map Some rs" by (simp add: those_Some)
  then have len: "length rs = length jobs" by (metis length_map length_upt minus_nat.diff_0)
  have "work (jobs ! k) = Inr (rs ! k)" if "k < length jobs" for k
  proof -
    have "result_at k (ex_done s) = Some (rs ! k)"
      using arg_cong [OF all, of "\<lambda>xs. xs ! k"] that len by simp
    then have "(k, Inr (rs ! k)) \<in> set (ex_done s)" by (auto split: option.splits sum.splits dest: map_of_SomeD)
    then show ?thesis using i by (auto simp: exec_inv_def list_all_iff)
  qed
  then have "map work jobs = map Inr rs" using len by (intro nth_equalityI) auto
  then show ?thesis using rs(2) by simp
qed

lemma gather_progress:
  assumes i: "exec_inv work cap workers jobs s" and w: "0 < workers" and c: "cap \<noteq> Some 0"
    and g: "gather (length jobs) s = None"
  shows "\<exists>m s'. exec_move work cap workers jobs m s = Some s'"
proof (cases "ex_running s")
  case (Cons k ks)
  then show ?thesis by (intro exI [of _ "Finish k"]) simp
next
  case no_running: Nil
  show ?thesis
  proof (cases "ex_queue s")
    case (Cons k ks)
    then show ?thesis using w no_running by (intro exI [of _ Begin]) simp
  next
    case Nil
    have "ex_submitted s < length jobs"
    proof (rule ccontr)
      assume "\<not> ex_submitted s < length jobs"
      then have "mset (map fst (ex_done s)) = mset [0..<length jobs]"
        using i no_running Nil by (simp add: exec_inv_def)
      then have "set (map fst (ex_done s)) = {0..<length jobs}"
        by (metis set_mset_mset set_upt)
      then have ex: "map_of (ex_done s) k \<noteq> None" if "k < length jobs" for k
        using that by (simp add: map_of_eq_None_iff)
      have fe: "first_error (ex_done s) = None" using g by (simp add: gather_def split: option.splits)
      have "result_at k (ex_done s) \<noteq> None" if "k < length jobs" for k
        using ex [OF that] first_error_None [OF fe, of k] by (auto split: option.splits sum.splits)
      then have "those (map (\<lambda>k. result_at k (ex_done s)) [0..<length jobs]) \<noteq> None"
        by (intro those_all) auto
      then show False using g fe by (simp add: gather_def)
    qed
    then show ?thesis using c no_running Nil
      by (intro exI [of _ Submit]) (auto simp: permit_free_def split: option.splits)
  qed
qed

lemma schedule_inv: "exec_run work cap workers jobs ms execution_start = Some s \<Longrightarrow> exec_inv work cap workers jobs s"
  by (rule exec_inv_run [OF exec_inv_start])

lemma batch_run:
  assumes "Option.bind (exec_run work cap workers jobs ms execution_start) (gather (length jobs)) = Some r"
  shows "case r of Inr rs \<Rightarrow> map work jobs = map Inr rs | Inl e \<Rightarrow> \<exists>j \<in> set jobs. work j = Inl e"
proof -
  obtain s where "exec_run work cap workers jobs ms execution_start = Some s" "gather (length jobs) s = Some r"
    using assms by (auto simp: bind_eq_Some_conv)
  then show ?thesis using gather_sound schedule_inv by blast
qed

lemma parallel_run:
  assumes "run_videos_in_parallel work workers mc jobs ms = Some r" and "\<forall>c. mc = Some c \<longrightarrow> 0 \<le> c"
  shows "case r of Inr rs \<Rightarrow> map (dispatch_job work) jobs = map Inr rs
    | Inl e \<Rightarrow> \<exists>j \<in> set jobs. dispatch_job work j = Inl e"
proof (cases "jobs = []")
  case True
  then show ?thesis using assms(1) by (auto simp: run_videos_in_parallel_def)
next
  case False
  then obtain cap where "Option.bind (exec_run (dispatch_job work) cap workers jobs ms execution_start) (gather (length jobs)) = Some r"
    using assms by (auto simp: run_videos_in_parallel_def split: option.splits if_splits)
  then show ?thesis by (rule batch_run)
qed

text \<open>With threads no job raises.\<close>

lemma thread_pool_run:
  assumes "run_videos_in_thread_pool work workers jobs ms = Some r"
  shows "\<exists>rs. r = Inr rs \<and> map (wrap_job work) jobs = map Inr rs"
proof (cases "jobs = []")
  case False
  then have "case r of Inr rs \<Rightarrow> map (wrap_job work) jobs = map Inr rs | Inl e \<Rightarrow> \<exists>j \<in> set jobs. wrap_job work j = Inl e"
    using assms by (intro batch_run) (simp add: run_videos_in_thread_pool_def)
  moreover have "wrap_job work j \<noteq> Inl e" for j e
    by (cases "dispatch_job work j") (simp_all add: wrap_job_def)
  ultimately show ?thesis by (cases r) auto
qed (use assms in \<open>auto simp: run_videos_in_thread_pool_def\<close>)

section \<open>Properties\<close>

text \<open>
  C33: However the jobs of a batch are scheduled, a batch that returns gives, in the order of
  the jobs, exactly what processing them one after the other gives, and a batch that raises
  raises the error of one of its jobs.
\<close>

theorem parallel_results_are_sequential:
  assumes "run_videos_in_parallel work workers mc jobs ms = Some r" and "\<forall>c. mc = Some c \<longrightarrow> 0 \<le> c"
  shows "case r of Inr rs \<Rightarrow> map (dispatch_job work) jobs = map Inr rs
    | Inl e \<Rightarrow> \<exists>j \<in> set jobs. dispatch_job work j = Inl e"
  using parallel_run [OF assms] .

definition sample_worker :: worker where
  "sample_worker path polygon = (if path = ''bad'' then Inl (Exn VideoProcessErr path) else Inr ([], int (length path), 0))"

definition sample_jobs :: "video_job list" where
  "sample_jobs = [\<lparr>vj_video_path = ''a'', vj_roi_polygon = None\<rparr>, \<lparr>vj_video_path = ''bb'', vj_roi_polygon = None\<rparr>]"

lemma sample_batch_run:
  "run_videos_in_parallel sample_worker 4 (Some 2) sample_jobs [Submit, Submit, Begin, Begin, Finish 1, Finish 0]
   = Some (Inr [\<lparr>vr_job = sample_jobs ! 0, vr_events = [], vr_frames_processed = 1, vr_triggers_fired = 0, vr_error = None\<rparr>,
      \<lparr>vr_job = sample_jobs ! 1, vr_events = [], vr_frames_processed = 2, vr_triggers_fired = 0, vr_error = None\<rparr>])"
  by (simp add: run_videos_in_parallel_def sample_jobs_def execution_start_def permit_free_def gather_def
      dispatch_job_def sample_worker_def upt_rec)

theorem parallel_results_are_sequential_witness:
  "map (dispatch_job sample_worker) sample_jobs =
     map Inr [\<lparr>vr_job = sample_jobs ! 0, vr_events = [], vr_frames_processed = 1, vr_triggers_fired = 0, vr_error = None\<rparr>,
       \<lparr>vr_job = sample_jobs ! 1, vr_events = [], vr_frames_processed = 2, vr_triggers_fired = 0, vr_error = None\<rparr>]"
  using parallel_results_are_sequential [OF sample_batch_run] by simp



end
