(* ===== verification/Registry.thy ===== *)
theory Registry
  imports EdgeIngest Scheduler
begin

text \<open>
  The registry of stations and tractors: \<open>src/schemas/station.py\<close>, \<open>src/schemas/tractor.py\<close>, the two
  services and their routers, and the generic router of \<open>src/router/factory.py\<close>. A field of an
  update or a filter is \<open>None\<close> when the body leaves it out (\<open>exclude_unset\<close>), \<open>Some None\<close> when it
  is an explicit null. A column that is NOT NULL cannot hold such a null: the flush raises
  \<open>IntegrityError\<close>. \<open>limit\<close> and \<open>offset\<close> are natural numbers; for negative ones the database raises.
\<close>

section \<open>Schemas\<close>

record station_create =
  sc_code :: string
  sc_name :: string
  sc_location :: "string option"
  sc_video_dir :: string
  sc_roi_polygon :: "int list list option"
  sc_is_entry_zone :: bool
  sc_is_active :: bool

definition station_create_valid :: "station_create \<Rightarrow> bool" where
  "station_create_valid p \<longleftrightarrow>
     length (sc_code p) \<le> 32 \<and> length (sc_name p) \<le> 255 \<and> length (sc_video_dir p) \<le> 512"

definition station_row :: "station_create \<Rightarrow> station" where
  "station_row p =
     \<lparr>row_id = 0, created_at = None, updated_at = None, deleted_at = None, st_code = sc_code p,
      st_name = sc_name p, st_location = sc_location p, st_video_dir = sc_video_dir p,
      st_roi_polygon = sc_roi_polygon p, st_is_entry_zone = sc_is_entry_zone p,
      st_is_active = sc_is_active p\<rparr>"

type_synonym 'a field = "'a option option"

record station_update =
  su_code :: "string field"
  su_name :: "string field"
  su_location :: "string field"
  su_video_dir :: "string field"
  su_roi_polygon :: "int list list field"
  su_is_entry_zone :: "bool field"
  su_is_active :: "bool field"

fun max_len :: "nat \<Rightarrow> string field \<Rightarrow> bool" where
  "max_len n (Some (Some s)) = (length s \<le> n)"
| "max_len n _ = True"

definition station_update_valid :: "station_update \<Rightarrow> bool" where
  "station_update_valid u \<longleftrightarrow> max_len 32 (su_code u) \<and> max_len 255 (su_name u) \<and> max_len 512 (su_video_dir u)"

text \<open>A column that may be NULL takes the field as it is, one that may not takes its value.\<close>

definition set_field :: "'a option \<Rightarrow> 'a \<Rightarrow> 'a" where
  "set_field x old = (case x of None \<Rightarrow> old | Some v \<Rightarrow> v)"

definition set_value :: "'a field \<Rightarrow> 'a \<Rightarrow> 'a" where
  "set_value x old = (case x of Some (Some v) \<Rightarrow> v | _ \<Rightarrow> old)"

definition apply_station_update :: "station_update \<Rightarrow> station \<Rightarrow> station" where
  "apply_station_update u s =
     s\<lparr>st_code := set_value (su_code u) (st_code s), st_name := set_value (su_name u) (st_name s),
       st_location := set_field (su_location u) (st_location s),
       st_video_dir := set_value (su_video_dir u) (st_video_dir s),
       st_roi_polygon := set_field (su_roi_polygon u) (st_roi_polygon s),
       st_is_entry_zone := set_value (su_is_entry_zone u) (st_is_entry_zone s),
       st_is_active := set_value (su_is_active u) (st_is_active s)\<rparr>"

text \<open>The update writes NULL into a column that forbids it.\<close>

definition station_update_nulls :: "station_update \<Rightarrow> bool" where
  "station_update_nulls u \<longleftrightarrow>
     su_code u = Some None \<or> su_name u = Some None \<or> su_video_dir u = Some None
     \<or> su_is_entry_zone u = Some None \<or> su_is_active u = Some None"

record station_filter =
  sf_code :: "string field"
  sf_name :: "string field"
  sf_is_active :: "bool field"

definition dump_field :: "string \<Rightarrow> ('a \<Rightarrow> json) \<Rightarrow> 'a field \<Rightarrow> (string \<times> json) list" where
  "dump_field name f x = (case x of None \<Rightarrow> [] | Some v \<Rightarrow> [(name, opt_json f v)])"

definition station_filter_options :: "station_filter \<Rightarrow> (string \<times> json) list" where
  "station_filter_options f =
     dump_field ''code'' JStr (sf_code f) @ dump_field ''name'' JStr (sf_name f)
     @ dump_field ''is_active'' JBool (sf_is_active f)"

record station_public =
  sp_id :: int
  sp_code :: string
  sp_name :: string
  sp_location :: "string option"
  sp_video_dir :: string
  sp_roi_polygon :: "int list list option"
  sp_is_entry_zone :: bool
  sp_is_active :: bool

definition station_to_public :: "station \<Rightarrow> station_public" where
  "station_to_public s =
     \<lparr>sp_id = row_id s, sp_code = st_code s, sp_name = st_name s, sp_location = st_location s,
      sp_video_dir = st_video_dir s, sp_roi_polygon = st_roi_polygon s,
      sp_is_entry_zone = st_is_entry_zone s, sp_is_active = st_is_active s\<rparr>"

record tractor_create =
  tc_name :: string
  tc_model :: "string option"
  tc_notes :: "string option"
  tc_is_active :: bool
  tc_aruco_ids :: "int list"

definition tractor_create_valid :: "tractor_create \<Rightarrow> bool" where
  "tractor_create_valid p \<longleftrightarrow>
     length (tc_name p) \<le> 255 \<and> (case tc_model p of None \<Rightarrow> True | Some m \<Rightarrow> length m \<le> 255)
     \<and> 1 \<le> length (tc_aruco_ids p)"

definition tractor_row :: "tractor_create \<Rightarrow> tractor" where
  "tractor_row p =
     \<lparr>row_id = 0, created_at = None, updated_at = None, deleted_at = None, tr_name = tc_name p,
      tr_model = tc_model p, tr_notes = tc_notes p, tr_is_active = tc_is_active p,
      tr_aruco_ids = tc_aruco_ids p\<rparr>"

record tractor_update =
  tu_name :: "string field"
  tu_model :: "string field"
  tu_notes :: "string field"
  tu_is_active :: "bool field"
  tu_aruco_ids :: "int list field"

definition tractor_update_valid :: "tractor_update \<Rightarrow> bool" where
  "tractor_update_valid u \<longleftrightarrow>
     (case tu_aruco_ids u of Some (Some xs) \<Rightarrow> 1 \<le> length xs | _ \<Rightarrow> True)"

definition apply_tractor_update :: "tractor_update \<Rightarrow> tractor \<Rightarrow> tractor" where
  "apply_tractor_update u t =
     t\<lparr>tr_name := set_value (tu_name u) (tr_name t), tr_model := set_field (tu_model u) (tr_model t),
       tr_notes := set_field (tu_notes u) (tr_notes t),
       tr_is_active := set_value (tu_is_active u) (tr_is_active t),
       tr_aruco_ids := set_value (tu_aruco_ids u) (tr_aruco_ids t)\<rparr>"

definition tractor_update_nulls :: "tractor_update \<Rightarrow> bool" where
  "tractor_update_nulls u \<longleftrightarrow>
     tu_name u = Some None \<or> tu_is_active u = Some None \<or> tu_aruco_ids u = Some None"

record tractor_filter =
  tf_name :: "string field"
  tf_is_active :: "bool field"

definition tractor_filter_options :: "tractor_filter \<Rightarrow> (string \<times> json) list" where
  "tractor_filter_options f =
     dump_field ''name'' JStr (tf_name f) @ dump_field ''is_active'' JBool (tf_is_active f)"

record tractor_public =
  tp_id :: int
  tp_aruco_ids :: "int list"
  tp_primary_aruco_id :: int
  tp_name :: string
  tp_model :: "string option"
  tp_notes :: "string option"
  tp_is_active :: bool
  tp_created_at :: "string option"

definition tractor_to_public :: "tractor \<Rightarrow> tractor_public" where
  "tractor_to_public t =
     \<lparr>tp_id = row_id t, tp_aruco_ids = tr_aruco_ids t,
      tp_primary_aruco_id = or_else (primary_aruco_id t) 0, tp_name = tr_name t, tp_model = tr_model t,
      tp_notes = tr_notes t, tp_is_active = tr_is_active t,
      tp_created_at = map_option isoformat (created_at t)\<rparr>"

section \<open>Services\<close>

definition http_404 :: "string \<Rightarrow> exn" where
  "http_404 m = Exn (HTTPErr 404) m"

definition http_409 :: "string \<Rightarrow> exn" where
  "http_409 m = Exn (HTTPErr 409) m"

definition on_integrity_error :: "'a io \<Rightarrow> exn \<Rightarrow> 'a io" where
  "on_integrity_error m e' = tryM m (\<lambda>e. if exn_class e = IntegrityErr then raise e' else raise e)"

definition station_service_create :: "station_create \<Rightarrow> station io" where
  "station_service_create p =
     bindM (get_by_code (sc_code p)) (\<lambda>existing. case existing of
         Some _ \<Rightarrow> raise (http_409 (''Station with code='' @ sc_code p @ '' already exists''))
       | None \<Rightarrow> repo_create StationRepo (station_row p))"

definition station_service_update :: "int \<Rightarrow> station_update \<Rightarrow> station io" where
  "station_service_update i u =
     bindM (repo_get StationRepo i) (\<lambda>s. case s of
         None \<Rightarrow> raise (http_404 (not_found_msg ''Station'' i))
       | Some _ \<Rightarrow> if station_update_nulls u then raise integrity_error
                  else repo_update StationRepo i (apply_station_update u))"

definition station_service_delete :: "int \<Rightarrow> unit io" where
  "station_service_delete i =
     bindM (repo_get StationRepo i) (\<lambda>s. case s of
         None \<Rightarrow> raise (http_404 ''Not Found'')
       | Some _ \<Rightarrow> repo_delete StationRepo i)"

definition marker_registered :: "int list \<Rightarrow> string" where
  "marker_registered xs = ''Primary ArUco ID='' @ show_int (hd xs) @ '' already registered''"

definition tractor_service_create :: "tractor_create \<Rightarrow> tractor io" where
  "tractor_service_create p =
     (if tc_aruco_ids p = [] then raise (http_422 ''aruco_ids must contain at least 1 element'')
      else on_integrity_error (repo_create TractorRepo (tractor_row p))
             (http_409 (marker_registered (tc_aruco_ids p))))"

definition tractor_service_update :: "int \<Rightarrow> tractor_update \<Rightarrow> tractor io" where
  "tractor_service_update i u =
     bindM (repo_get TractorRepo i) (\<lambda>t. case t of
         None \<Rightarrow> raise (http_404 (not_found_msg ''Tractor'' i))
       | Some _ \<Rightarrow> on_integrity_error
           (if tractor_update_nulls u then raise integrity_error
            else repo_update TractorRepo i (apply_tractor_update u))
           (http_409 ''Primary ArUco ID conflict with another tractor''))"

definition tractor_service_delete :: "int \<Rightarrow> unit io" where
  "tractor_service_delete i =
     bindM (repo_get TractorRepo i) (\<lambda>t. case t of
         None \<Rightarrow> raise (http_404 ''Not Found'')
       | Some _ \<Rightarrow> repo_delete TractorRepo i)"

definition tractor_by_any_aruco_id :: "int \<Rightarrow> tractor option io" where
  "tractor_by_any_aruco_id a = get_by_any_aruco_id a"

section \<open>Endpoints\<close>

definition list_stations :: "nat \<Rightarrow> nat \<Rightarrow> station_public list io" where
  "list_stations limit offset =
     bindM (repo_list StationRepo limit offset None None) (\<lambda>ss. ret (map station_to_public ss))"

definition filter_stations :: "station_filter \<Rightarrow> nat \<Rightarrow> nat \<Rightarrow> station_public list io" where
  "filter_stations f limit offset =
     bindM (repo_get_filtered StationRepo (station_filter_options f) limit offset False [] [] None None)
       (\<lambda>ss. ret (map station_to_public ss))"

definition get_station :: "int \<Rightarrow> station_public io" where
  "get_station i =
     bindM (repo_get StationRepo i) (\<lambda>s. case s of
         None \<Rightarrow> raise (http_404 (not_found_msg ''Station'' i))
       | Some s \<Rightarrow> ret (station_to_public s))"

definition create_station :: "station_create \<Rightarrow> station_public io" where
  "create_station p =
     bindM (on_integrity_error (station_service_create p) (http_409 (''Station code='' @ sc_code p @ '' already exists'')))
       (\<lambda>s. ret (station_to_public s))"

definition update_station :: "int \<Rightarrow> station_update \<Rightarrow> station_public io" where
  "update_station i u = bindM (station_service_update i u) (\<lambda>s. ret (station_to_public s))"

definition delete_station :: "int \<Rightarrow> unit io" where
  "delete_station i = station_service_delete i"

definition list_tractors :: "nat \<Rightarrow> nat \<Rightarrow> tractor_public list io" where
  "list_tractors limit offset =
     bindM (repo_list TractorRepo limit offset None None) (\<lambda>ts. ret (map tractor_to_public ts))"

definition filter_tractors :: "tractor_filter \<Rightarrow> nat \<Rightarrow> nat \<Rightarrow> tractor_public list io" where
  "filter_tractors f limit offset =
     bindM (repo_get_filtered TractorRepo (tractor_filter_options f) limit offset False [] [] None None)
       (\<lambda>ts. ret (map tractor_to_public ts))"

definition get_tractor :: "int \<Rightarrow> tractor_public io" where
  "get_tractor i =
     bindM (repo_get TractorRepo i) (\<lambda>t. case t of
         None \<Rightarrow> raise (http_404 (not_found_msg ''Tractor'' i))
       | Some t \<Rightarrow> ret (tractor_to_public t))"

definition create_tractor :: "tractor_create \<Rightarrow> tractor_public io" where
  "create_tractor p =
     bindM (on_integrity_error (tractor_service_create p) (http_409 (marker_registered (tc_aruco_ids p))))
       (\<lambda>t. ret (tractor_to_public t))"

definition update_tractor :: "int \<Rightarrow> tractor_update \<Rightarrow> tractor_public io" where
  "update_tractor i u = bindM (tractor_service_update i u) (\<lambda>t. ret (tractor_to_public t))"

definition delete_tractor :: "int \<Rightarrow> unit io" where
  "delete_tractor i = tractor_service_delete i"

section \<open>The generic router\<close>

text \<open>
  \<open>crud_router\<close> over the model class \<open>R\<close>: how a creation body makes a row, and how an update body
  changes one, are its parameters \<open>mk\<close> and \<open>app\<close>.
\<close>

definition crud_list :: "('a row) repo \<Rightarrow> nat \<Rightarrow> nat \<Rightarrow> 'a row list io" where
  "crud_list R limit offset = repo_list R limit offset None None"

definition crud_filter ::
  "('a row) repo \<Rightarrow> (string \<times> json) list \<Rightarrow> nat \<Rightarrow> nat \<Rightarrow> bool \<Rightarrow> 'a row list io" where
  "crud_filter R options limit offset descending =
     repo_get_filtered R options limit offset descending [] [] None None"

definition crud_get :: "('a row) repo \<Rightarrow> int \<Rightarrow> 'a row io" where
  "crud_get R i =
     bindM (repo_get R i) (\<lambda>r. case r of
         None \<Rightarrow> raise (http_404 (not_found_msg (rp_name R) i))
       | Some r \<Rightarrow> ret r)"

definition crud_create :: "('a row) repo \<Rightarrow> ('c \<Rightarrow> 'a row) \<Rightarrow> 'c \<Rightarrow> 'a row io" where
  "crud_create R mk p = repo_create R (mk p)"

definition crud_update :: "('a row) repo \<Rightarrow> ('u \<Rightarrow> 'a row \<Rightarrow> 'a row) \<Rightarrow> int \<Rightarrow> 'u \<Rightarrow> 'a row io" where
  "crud_update R app i u =
     bindM (repo_get R i) (\<lambda>r. case r of
         None \<Rightarrow> raise (http_404 ''Not Found'')
       | Some r \<Rightarrow> repo_update R (row_id r) (app u))"

definition crud_delete :: "('a row) repo \<Rightarrow> int \<Rightarrow> unit io" where
  "crud_delete R i =
     bindM (repo_get R i) (\<lambda>r. case r of
         None \<Rightarrow> raise (http_404 ''Not Found'')
       | Some r \<Rightarrow> repo_delete R (row_id r))"

end
