(* ===== verification/VideoApi.thy ===== *)
theory VideoApi
  imports EdgeIngest Scheduler Registry
begin

text \<open>
  The remaining endpoints of the API: \<open>src/router/v1/video.py\<close> (listing, upload and registration of
  videos), \<open>status.py\<close>, \<open>scheduler.py\<close> and the health check of \<open>src/main.py\<close>. Each is the handler in
  its session; \<open>request\<close> of \<open>EdgeIngest\<close> makes a response of it. A random file name, a task id and
  the outcome of connecting to the database are parameters.
\<close>

section \<open>Videos\<close>

record video_public =
  vp_id :: int
  vp_station_id :: "int option"
  vp_storage_uri :: string
  vp_started_at :: string
  vp_ended_at :: string
  vp_fps :: "rat option"
  vp_width :: "int option"
  vp_height :: "int option"
  vp_duration_seconds :: "rat option"
  vp_status :: string
  vp_retry_count :: "int option"
  vp_error_message :: "string option"
  vp_frames_processed :: int
  vp_triggers_fired :: int
  vp_created_at :: "string option"
  vp_updated_at :: "string option"

definition video_to_public :: "video_file \<Rightarrow> video_public" where
  "video_to_public v =
     \<lparr>vp_id = row_id v, vp_station_id = vf_station_id v, vp_storage_uri = vf_storage_uri v,
      vp_started_at = isoformat (vf_started_at v), vp_ended_at = isoformat (vf_ended_at v),
      vp_fps = vf_fps v, vp_width = vf_width v, vp_height = vf_height v,
      vp_duration_seconds = vf_duration_seconds v, vp_status = video_status_value (vf_status v),
      vp_retry_count = vf_retry_count v, vp_error_message = vf_error_message v,
      vp_frames_processed = vf_frames_processed v, vp_triggers_fired = vf_triggers_fired v,
      vp_created_at = map_option isoformat (created_at v), vp_updated_at = map_option isoformat (updated_at v)\<rparr>"

definition list_videos :: "nat \<Rightarrow> nat \<Rightarrow> video_public list io" where
  "list_videos limit offset =
     bindM (repo_list VideoRepo limit offset None None) (\<lambda>vs. ret (map video_to_public vs))"

definition get_video :: "int \<Rightarrow> video_public io" where
  "get_video i =
     bindM (repo_get VideoRepo i) (\<lambda>v. case v of
         None \<Rightarrow> raise (http_404 (not_found_msg ''VideoFile'' i))
       | Some v \<Rightarrow> ret (video_to_public v))"

text \<open>\<open>Path(p).suffix\<close>: from the last dot of the name, unless the name starts or ends with it.\<close>

definition path_suffix :: "string \<Rightarrow> string" where
  "path_suffix p =
     (let name = path_name p; ext = rev (takeWhile (\<lambda>c. c \<noteq> CHR ''.'') (rev name));
          start_len = length name - length ext
      in if start_len \<le> 1 \<or> ext = [] then [] else ''.'' @ ext)"

definition write_file :: "string \<Rightarrow> string \<Rightarrow> unit io" where
  "write_file p content = modify (\<lambda>w. w\<lparr>files := (files w)(path_str p := Some content)\<rparr>)"

text \<open>\<open>unlink(missing_ok=True)\<close>.\<close>

definition unlink_file :: "string \<Rightarrow> unit io" where
  "unlink_file p = modify (\<lambda>w. w\<lparr>files := (files w)(path_str p := None)\<rparr>)"

definition upload_extensions :: "string list" where
  "upload_extensions = [''.mp4'', ''.avi'', ''.mov'', ''.mkv'']"

text \<open>
  \<open>upload_video\<close>: the result is the public row and what is handed to \<open>BackgroundTasks\<close>. The
  temporary file is removed when anything but a cancellation is raised.
\<close>

definition upload_video ::
  "'h hasher \<Rightarrow> string \<Rightarrow> string \<Rightarrow> string \<Rightarrow> string \<Rightarrow> int option \<Rightarrow> datetime \<Rightarrow> datetime
   \<Rightarrow> (video_public \<times> (int \<times> string)) io" where
  "upload_video H storage uuid filename content station_id started_at ended_at =
     (let ext = lower (path_suffix filename); tmp = path_join storage (''tmp_'' @ uuid @ ext)
      in if filename = [] then raise (http_422 ''file.filename required'')
         else if ext \<notin> set upload_extensions then raise (http_422 (''Unsupported extension: '' @ ext))
         else except_exception
           (seqM (write_file tmp content)
              (bindM (create_and_commit H tmp started_at ended_at station_id no_media) (\<lambda>vf.
                 let final = path_join storage (hex (vf_content_hash vf) @ ext)
                 in bindM (path_exists final) (\<lambda>there.
                      seqM (if there then unlink_file tmp else move_file tmp final)
                        (bindM (if final \<noteq> path_str (vf_storage_uri vf)
                                then repo_update VideoRepo (row_id vf) (\<lambda>v. v\<lparr>vf_storage_uri := final\<rparr>)
                                else ret vf)
                           (\<lambda>vf'. ret (video_to_public vf', row_id vf', final)))))))
           (\<lambda>e. seqM (unlink_file tmp) (raise e)))"

text \<open>\<open>_background_process\<close>, in the session of \<open>process_video_background\<close>.\<close>

definition background_process ::
  "worker \<Rightarrow> visit_settings \<Rightarrow> (world \<Rightarrow> world) \<Rightarrow> int \<times> string \<Rightarrow> unit io" where
  "background_process worker cfg env t = process_video_background worker cfg env (fst t) (snd t)"

definition handle_video_endpoint ::
  "'h hasher \<Rightarrow> worker \<Rightarrow> visit_settings \<Rightarrow> (world \<Rightarrow> world) \<Rightarrow> string \<Rightarrow> string \<Rightarrow> int option
   \<Rightarrow> string option \<Rightarrow> datetime \<Rightarrow> datetime \<Rightarrow> (handled \<times> (int \<times> string) list) io" where
  "handle_video_endpoint H worker cfg env task filepath station_id code started_at ended_at =
     (let go = (\<lambda>sid. handle_video H worker cfg env task None filepath sid started_at ended_at True)
      in case (station_id, code) of
           (None, Some c) \<Rightarrow>
             if c = [] then go None
             else bindM (get_by_code c) (\<lambda>s. case s of
                 None \<Rightarrow> raise (http_422 (''Unknown station_code='' @ [CHR 0x27] @ c @ [CHR 0x27]))
               | Some s \<Rightarrow> go (Some (row_id s)))
         | _ \<Rightarrow> go station_id)"

section \<open>Status\<close>

record visit_public =
  xp_id :: int
  xp_tractor_id :: int
  xp_station_id :: int
  xp_state :: visit_state
  xp_arrived_at :: "datetime option"
  xp_departed_at :: "datetime option"
  xp_last_seen_at :: "datetime option"
  xp_duration_seconds :: "rat option"
  xp_entry_event_id :: "int option"
  xp_exit_event_id :: "int option"
  xp_last_event_id :: "int option"
  xp_created_at :: "datetime option"
  xp_updated_at :: "datetime option"

definition visit_to_public :: "visit \<Rightarrow> visit_public" where
  "visit_to_public v =
     \<lparr>xp_id = row_id v, xp_tractor_id = v_tractor_id v, xp_station_id = v_station_id v, xp_state = v_state v,
      xp_arrived_at = v_arrived_at v, xp_departed_at = v_departed_at v, xp_last_seen_at = v_last_seen_at v,
      xp_duration_seconds = v_duration_seconds v, xp_entry_event_id = v_entry_event_id v,
      xp_exit_event_id = v_exit_event_id v, xp_last_event_id = v_last_event_id v,
      xp_created_at = created_at v, xp_updated_at = updated_at v\<rparr>"

definition visits_history_valid :: "int \<Rightarrow> int \<Rightarrow> bool" where
  "visits_history_valid limit offset \<longleftrightarrow> 1 \<le> limit \<and> limit \<le> 500 \<and> 0 \<le> offset"

definition visits_history :: "int option \<Rightarrow> int option \<Rightarrow> int \<Rightarrow> int \<Rightarrow> visit_public list io" where
  "visits_history tractor_id station_id limit offset =
     bindM (get_history tractor_id station_id (nat limit) (nat offset)) (\<lambda>vs. ret (map visit_to_public vs))"

section \<open>Administration\<close>

text \<open>\<open>tick_now\<close> answers with the counts of one pass of the scheduler.\<close>

definition tick_now ::
  "worker \<Rightarrow> visit_settings \<Rightarrow> (world \<Rightarrow> world) \<Rightarrow> scheduler_settings \<Rightarrow> (string \<times> json) list io" where
  "tick_now worker vcfg env cfg =
     bindM (tick worker vcfg env cfg) (\<lambda>(stale, retried).
       ret [(''status'', JStr ''ok''), (''stale_marked'', JInt (int stale)), (''retried'', JInt (int retried))])"

text \<open>The status code and body of the health check; \<open>Some e\<close> is the \<open>SQLAlchemyError\<close> of the query.\<close>

definition health :: "string option \<Rightarrow> int \<times> (string \<times> string) list" where
  "health failure =
     (case failure of
        None \<Rightarrow> (200, [(''status'', ''ok''), (''db'', ''ok'')])
      | Some e \<Rightarrow> (503, [(''status'', ''degraded''), (''db'', ''unreachable''), (''detail'', e)]))"

end
