(* ===== verification/Ingestion.thy ===== *)
theory Ingestion
  imports VideoApi Http
begin

text \<open>
  The ingestion process (\<open>ingestion/\<close>): it watches the folders \<open>STATION_XX\<close> of the cameras, copies
  each clip into the cold storage, registers it with the API and then removes it from the queue. It
  shares the file system with the API: its state is the API's world, reached through \<open>Http\<close>. What
  listing a directory returns and how a path resolves are parameters. The producers of all folders
  together, with the semaphore that they share, are the theory \<open>IngestionSystem\<close>.
\<close>

section \<open>Settings\<close>

record ingestion_settings =
  ig_stations_root :: string
  ig_videos_storage :: string
  ig_api_url :: string
  ig_timestamp_format :: string
  ig_cursor_sleep :: rat
  ig_watcher_sleep :: rat
  ig_error_sleep :: rat
  ig_default_duration :: rat
  ig_num_concurrent_requests :: int
  ig_allowed_extensions :: "string list"
  ig_request_timeout :: rat
  ig_consumer_sleep_on_error :: rat

definition default_ingestion_settings :: ingestion_settings where
  "default_ingestion_settings =
     \<lparr>ig_stations_root = ''data/queue'', ig_videos_storage = ''data/videos'',
      ig_api_url = ''http://localhost:8000/v1/videos/handle'', ig_timestamp_format = ''%Y%m%d_%H%M%S'',
      ig_cursor_sleep = 5, ig_watcher_sleep = 60, ig_error_sleep = 60, ig_default_duration = 60,
      ig_num_concurrent_requests = 4, ig_allowed_extensions = [''.mp4'', ''.avi'', ''.mov'', ''.mkv''],
      ig_request_timeout = 1800, ig_consumer_sleep_on_error = 5\<rparr>"

section \<open>Timestamps in file names\<close>

text \<open>
  \<open>datetime.strptime\<close> for the directives that a name may use. Each directive gives the values it can
  read at the front of the text, in the order in which Python's regular expression tries them; the
  first reading of the whole format counts, and it must use up the text. \<open>None\<close> is \<open>ValueError\<close>.
\<close>

definition digit_value :: "char \<Rightarrow> int option" where
  "digit_value c = (let n = of_char c :: int in if 48 \<le> n \<and> n \<le> 57 then Some (n - 48) else None)"

fun number_value :: "string \<Rightarrow> int \<Rightarrow> int option" where
  "number_value [] acc = Some acc"
| "number_value (c # cs) acc =
     (case digit_value c of None \<Rightarrow> None | Some d \<Rightarrow> number_value cs (10 * acc + d))"

definition read_digits :: "nat \<Rightarrow> int \<Rightarrow> int \<Rightarrow> string \<Rightarrow> (int \<times> string) list" where
  "read_digits n lo hi s =
     (if length s < n then []
      else (case number_value (take n s) 0 of
              Some v \<Rightarrow> if lo \<le> v \<and> v \<le> hi then [(v, drop n s)] else []
            | None \<Rightarrow> []))"

definition read_directive :: "char \<Rightarrow> string \<Rightarrow> (int \<times> string) list" where
  "read_directive d s =
     (if d = CHR ''Y'' then read_digits 4 0 9999 s
      else if d = CHR ''m'' then read_digits 2 1 12 s @ read_digits 1 1 9 s
      else if d = CHR ''d'' then read_digits 2 1 31 s @ read_digits 1 1 9 s
        @ (if take 1 s = '' '' then read_digits 1 1 9 (drop 1 s) else [])
      else if d = CHR ''H'' then read_digits 2 0 23 s @ read_digits 1 0 9 s
      else if d = CHR ''M'' then read_digits 2 0 59 s @ read_digits 1 0 9 s
      else if d = CHR ''S'' then read_digits 2 0 61 s @ read_digits 1 0 9 s
      else [])"

type_synonym fields_read = "(char \<times> int) list"

fun read_format :: "string \<Rightarrow> string \<Rightarrow> (fields_read \<times> string) list" where
  "read_format [] s = [([], s)]"
| "read_format [c] s = (if take 1 s = [c] \<and> c \<noteq> CHR ''%'' then [([], drop 1 s)] else [])"
| "read_format (c # d # fmt) s =
     (if c = CHR ''%''
      then concat (map (\<lambda>(v, rest). map (\<lambda>(fs, r). ((d, v) # fs, r)) (read_format fmt rest)) (read_directive d s))
      else if take 1 s = [c] then read_format (d # fmt) (drop 1 s) else [])"

definition is_leap :: "int \<Rightarrow> bool" where
  "is_leap y \<longleftrightarrow> y mod 4 = 0 \<and> (y mod 100 \<noteq> 0 \<or> y mod 400 = 0)"

definition days_in_month :: "int \<Rightarrow> int \<Rightarrow> int" where
  "days_in_month y m =
     (if m = 2 then (if is_leap y then 29 else 28) else if m \<in> {4, 6, 9, 11} then 30 else 31)"

text \<open>Days since 1970-01-01 of a civil date.\<close>

definition days_of_civil :: "int \<Rightarrow> int \<Rightarrow> int \<Rightarrow> int" where
  "days_of_civil y m d =
     (let y' = (if m \<le> 2 then y - 1 else y); era = y' div 400; yoe = y' mod 400;
          doy = (153 * (if 2 < m then m - 3 else m + 9) + 2) div 5 + d - 1;
          doe = yoe * 365 + yoe div 4 - yoe div 100 + doy
      in era * 146097 + doe - 719468)"

definition field_or :: "char \<Rightarrow> int \<Rightarrow> fields_read \<Rightarrow> int" where
  "field_or c dflt fs = or_else (map_of fs c) dflt"

definition make_datetime :: "fields_read \<Rightarrow> datetime option" where
  "make_datetime fs =
     (let y = field_or CHR ''Y'' 1900 fs; m = field_or CHR ''m'' 1 fs; d = field_or CHR ''d'' 1 fs;
          h = field_or CHR ''H'' 0 fs; mi = field_or CHR ''M'' 0 fs; sc = field_or CHR ''S'' 0 fs
      in if 1 \<le> y \<and> d \<le> days_in_month y m \<and> sc \<le> 59
         then Some (Naive (((days_of_civil y m d * 24 + h) * 60 + mi) * 60000000 + sc * 1000000))
         else None)"

definition strptime :: "string \<Rightarrow> string \<Rightarrow> datetime option" where
  "strptime s fmt =
     (case read_format fmt s of
        (fs, []) # _ \<Rightarrow> make_datetime fs
      | _ \<Rightarrow> None)"

text \<open>\<open>Path(p).stem\<close>.\<close>

definition path_stem :: "string \<Rightarrow> string" where
  "path_stem p = take (length (path_name p) - length (path_suffix p)) (path_name p)"

section \<open>One clip\<close>

record station_video_file =
  sv_file_path :: string
  sv_station_code :: string
  sv_content_hash :: string
  sv_begin_ts :: datetime

definition file_not_found :: "string \<Rightarrow> exn" where
  "file_not_found p = Exn OSErr (''No such file or directory: '' @ p)"

definition build_entry ::
  "'h hasher \<Rightarrow> ingestion_settings \<Rightarrow> string \<Rightarrow> string \<Rightarrow> station_video_file io" where
  "build_entry H cfg file_path code =
     bindM (gets (\<lambda>w. files w (path_str file_path))) (\<lambda>content. case content of
         None \<Rightarrow> raise (file_not_found file_path)
       | Some bytes \<Rightarrow>
           (case strptime (path_stem file_path) (ig_timestamp_format cfg) of
              None \<Rightarrow> raise (Exn ValueErr ''time data does not match format'')
            | Some t \<Rightarrow> ret \<lparr>sv_file_path = file_path, sv_station_code = code,
                            sv_content_hash = hash_large_file H 65536 bytes, sv_begin_ts = t\<rparr>))"

definition entry_is_valid :: "ingestion_settings \<Rightarrow> string \<Rightarrow> bool" where
  "entry_is_valid cfg file_path \<longleftrightarrow>
     lower (path_suffix file_path) \<in> set (ig_allowed_extensions cfg)
     \<and> strptime (path_stem file_path) (ig_timestamp_format cfg) \<noteq> None"

definition storage_path :: "ingestion_settings \<Rightarrow> station_video_file \<Rightarrow> string" where
  "storage_path cfg item =
     path_join (ig_videos_storage cfg) (hex (sv_content_hash item) @ lower (path_suffix (sv_file_path item)))"

text \<open>\<open>shutil.copyfile\<close>.\<close>

definition copy_to_cold_storage :: "ingestion_settings \<Rightarrow> station_video_file \<Rightarrow> string io" where
  "copy_to_cold_storage cfg item =
     (let src = sv_file_path item; dst = storage_path cfg item
      in bindM (gets (\<lambda>w. files w (path_str src))) (\<lambda>content. case content of
           None \<Rightarrow> raise (file_not_found src)
         | Some bytes \<Rightarrow>
             if path_str src = path_str dst then raise (Exn OSErr ''SameFileError'')
             else seqM (write_file dst bytes) (ret dst)))"

definition unlink_entry :: "station_video_file \<Rightarrow> unit io" where
  "unlink_entry item = unlink_file (sv_file_path item)"

section \<open>Forwarding a clip\<close>

record video_post =
  po_filepath :: string
  po_station_code :: string
  po_started_at :: string
  po_ended_at :: string

definition to_utc_iso :: "datetime \<Rightarrow> string" where
  "to_utc_iso dt = isoformat (case dt of Naive t \<Rightarrow> Aware t 0 | Aware t off \<Rightarrow> Aware (t - off) 0)"

definition post_of :: "ingestion_settings \<Rightarrow> station_video_file \<Rightarrow> video_post" where
  "post_of cfg item =
     \<lparr>po_filepath = storage_path cfg item, po_station_code = sv_station_code item,
      po_started_at = to_utc_iso (sv_begin_ts item),
      po_ended_at = to_utc_iso (dt_add (sv_begin_ts item) (timedelta_s (ig_default_duration cfg)))\<rparr>"

type_synonym 'a ing = "(world forwarding, exn, 'a) prog"

text \<open>A step on the files alone.\<close>

definition on_files :: "'a io \<Rightarrow> 'a ing" where
  "on_files m = (\<lambda>s. case m (fw_server s) of (r, w) \<Rightarrow> (r, s\<lparr>fw_server := w\<rparr>))"

definition api_error :: "string \<Rightarrow> exn" where
  "api_error m = Exn RecognitionApiErr m"

definition forward_video_to_api ::
  "ingestion_settings \<Rightarrow> (video_post \<Rightarrow> int io) \<Rightarrow> (nat \<Rightarrow> fate) \<Rightarrow> station_video_file \<Rightarrow> unit ing" where
  "forward_video_to_api cfg serve net item =
     bindM (tryM (http_post serve net (post_of cfg item))
              (\<lambda>e. if exn_class e = TimeoutErr
                   then raise (api_error (''API request timeout for '' @ storage_path cfg item))
                   else if exn_class e = ClientErr
                   then raise (api_error (''API client error while forwarding '' @ storage_path cfg item))
                   else raise e))
       (\<lambda>status.
          if status = 406 then raise (Exn VideoAlreadyExistsErr (''Video already exists for '' @ storage_path cfg item))
          else if 400 \<le> status
          then raise (api_error (''API error '' @ show_int status @ '' for '' @ storage_path cfg item))
          else ret ())"

text \<open>
  One turn of the inner loop of \<open>produce_for_directory\<close>: copy, forward, and remove the source unless
  the API refused the clip.
\<close>

definition produce_item ::
  "ingestion_settings \<Rightarrow> (video_post \<Rightarrow> int io) \<Rightarrow> (nat \<Rightarrow> fate) \<Rightarrow> station_video_file \<Rightarrow> unit ing" where
  "produce_item cfg serve net item =
     seqM (on_files (copy_to_cold_storage cfg item))
       (bindM (tryM (bindM (forward_video_to_api cfg serve net item) (\<lambda>_. ret True))
                 (\<lambda>e. if exn_class e = VideoAlreadyExistsErr then ret True
                      else if exn_class e = RecognitionApiErr then ret False
                      else raise e))
          (\<lambda>done. if done then on_files (unlink_entry item) else ret ()))"

section \<open>A directory\<close>

record station_directory =
  sd_path :: string
  sd_station_code :: string

definition new_station_directory :: "bool \<Rightarrow> string \<Rightarrow> exn + station_directory" where
  "new_station_directory exists path =
     (if exists then Inr \<lparr>sd_path = path, sd_station_code = path_name path\<rparr>
      else Inl (Exn StationDirectoryErr path))"

text \<open>
  One pass of \<open>aget_contiguous_iterator\<close> with the consumer of its items. \<open>names\<close> is the sorted result
  of \<open>iterdir\<close>; \<open>True\<close> when a clip was found. A name that is no longer a file is skipped.
\<close>

fun produce_names ::
  "'h hasher \<Rightarrow> ingestion_settings \<Rightarrow> (video_post \<Rightarrow> int io) \<Rightarrow> (nat \<Rightarrow> fate) \<Rightarrow> station_directory \<Rightarrow>
   string list \<Rightarrow> bool ing" where
  "produce_names H cfg serve net d [] = ret False"
| "produce_names H cfg serve net d (p # ps) =
     bindM (on_files (path_exists p)) (\<lambda>is_file.
       if \<not> is_file \<or> \<not> entry_is_valid cfg p then produce_names H cfg serve net d ps
       else bindM (on_files (build_entry H cfg p (sd_station_code d))) (\<lambda>item.
            seqM (produce_item cfg serve net item)
              (bindM (produce_names H cfg serve net d ps) (\<lambda>_. ret True))))"

definition ing_sleep :: "rat \<Rightarrow> unit ing" where
  "ing_sleep secs = modify (\<lambda>s. s\<lparr>fw_slept := fw_slept s @ [secs]\<rparr>)"

text \<open>
  A turn of the outer loop of \<open>produce_for_directory\<close>; \<open>listing\<close> is \<open>None\<close> when the directory is gone,
  and then \<open>iterdir\<close> raises \<open>FileNotFoundError\<close>. The value says whether the producer goes on.
\<close>

definition produce_turn ::
  "'h hasher \<Rightarrow> ingestion_settings \<Rightarrow> (video_post \<Rightarrow> int io) \<Rightarrow> (nat \<Rightarrow> fate) \<Rightarrow> station_directory \<Rightarrow>
   string list option \<Rightarrow> bool ing" where
  "produce_turn H cfg serve net d listing =
     tryM
       (bindM (case listing of None \<Rightarrow> raise (file_not_found (sd_path d)) | Some names \<Rightarrow> ret names) (\<lambda>names.
        bindM (produce_names H cfg serve net d names) (\<lambda>found.
          seqM (if found then ret () else ing_sleep (ig_cursor_sleep cfg)) (ret True))))
       (\<lambda>e. if exn_class e = StationDirectoryErr then ret False
            else if exn_class e = CancelledErr then raise e
            else seqM (ing_sleep (ig_error_sleep cfg)) (ret True))"

fun produce_for_directory ::
  "'h hasher \<Rightarrow> ingestion_settings \<Rightarrow> (video_post \<Rightarrow> int io) \<Rightarrow> (nat \<Rightarrow> fate) \<Rightarrow> station_directory \<Rightarrow>
   string list option list \<Rightarrow> bool ing" where
  "produce_for_directory H cfg serve net d [] = ret True"
| "produce_for_directory H cfg serve net d (l # ls) =
     bindM (produce_turn H cfg serve net d l) (\<lambda>on.
       if on then produce_for_directory H cfg serve net d ls else ret False)"

section \<open>The watcher\<close>

definition collect_station_directories ::
  "(string \<Rightarrow> string) \<Rightarrow> (string \<times> bool) list option \<Rightarrow> string set \<Rightarrow> string set \<times> string set \<times> string set" where
  "collect_station_directories real_path listing current =
     (case listing of
        None \<Rightarrow> ({}, current, current)
      | Some entries \<Rightarrow>
          (let new_dirs = real_path ` fst ` set (filter (\<lambda>(p, is_dir). is_dir \<and> take 8 (path_name p) = ''STATION_'') entries);
               cur = real_path ` current
           in (new_dirs - cur, cur - new_dirs, new_dirs)))"

record watcher =
  wa_active :: "string set" \<comment> \<open>the folders with a running producer\<close>
  wa_current :: "string set"

text \<open>A turn of the watcher; \<open>exists\<close> says which of the new folders are still there.\<close>

definition watch_turn ::
  "(string \<Rightarrow> string) \<Rightarrow> (string \<Rightarrow> bool) \<Rightarrow> (string \<times> bool) list option \<Rightarrow> watcher \<Rightarrow> watcher" where
  "watch_turn real_path exists listing s =
     (case collect_station_directories real_path listing (wa_current s) of
        (new, removed, _) \<Rightarrow>
          (let active = (wa_active s - removed) \<union> {d \<in> new. exists d}
           in s\<lparr>wa_active := active, wa_current := active\<rparr>))"

definition watch_shutdown :: "watcher \<Rightarrow> watcher" where
  "watch_shutdown s = s\<lparr>wa_active := {}\<rparr>"

section \<open>The API that the clips are posted to\<close>

text \<open>
  \<open>POST /v1/videos/handle\<close>; \<open>parse\<close> is the conversion of the form fields to datetimes, 422 where it
  fails. What the request hands to \<open>BackgroundTasks\<close> runs after it.
\<close>

definition post_handle ::
  "(string \<Rightarrow> datetime option) \<Rightarrow> 'h hasher \<Rightarrow> worker \<Rightarrow> visit_settings \<Rightarrow> (world \<Rightarrow> world) \<Rightarrow> string \<Rightarrow>
   video_post \<Rightarrow> int io" where
  "post_handle parse H worker cfg env task p =
     (case (parse (po_started_at p), parse (po_ended_at p)) of
        (Some s, Some e) \<Rightarrow>
          request 200 True (handle_video_endpoint H worker cfg env task (po_filepath p) None
            (Some (po_station_code p)) s e)
      | _ \<Rightarrow> request 200 False (raise (http_422 []) :: unit io))"

end
