(* ===== verification/RegistryProperties.thy ===== *)
theory RegistryProperties
  imports Registry EdgeIngestProperties
begin

text \<open>
  The properties of the registry. A write and its flush are one step: it succeeds exactly when the
  written database satisfies the constraints, and the lemmas say what that comes to for each table.
\<close>

section \<open>Writes and their flush\<close>

context model_class begin

lemma repo_create_flush:
  assumes "db_wf (working w)"
  shows "repo_create R obj w =
    (let t = rp_table R (working w); d = rp_upd R (\<lambda>_. snd (table_insert (txn_now w) obj t)) (working w)
     in (if db_ok d then Inr (stamp_new (txn_now w) (tbl_seq t) obj) else Inl integrity_error, w\<lparr>working := d\<rparr>))"
  using table_get_insert [OF table_of_wf [OF assms], of "txn_now w" obj "tbl_seq (rp_table R (working w))"]
  by (simp add: repo_create_def add_row_run Let_def flush_def refresh_def repo_get_def bindM_run seqM_def table_upd)

end

section \<open>A request's outcome\<close>

lemma request_outcome:
  assumes c: "consistent (committed w)" and run: "m (opened w) = (r, w1)"
    and keep: "committed w1 = committed w" and wf: "db_wf (working w1)"
  shows "\<exists>w'. request n True m w =
      (Inr (case r of Inl e \<Rightarrow> http_status n r | Inr _ \<Rightarrow> if db_ok (working w1) then int n else 500), w')
    \<and> consistent (committed w')
    \<and> same_rows (if \<exists>a. r = Inr a \<and> db_ok (working w1) then regenerate (working w1) else committed w) (committed w')"
proof (cases r)
  case (Inl e)
  obtain w' where "get_async_session m w = (Inl e, w')" "same_rows (committed w) (committed w')" "consistent (committed w')"
    by (rule request_raises [where m = m and w = w, OF run [unfolded Inl] keep c])
  then show ?thesis using Inl by (simp add: request_def)
next
  case (Inr a)
  show ?thesis
  proof (cases "db_ok (working w1)")
    case True
    obtain w' where "get_async_session m w = (Inr a, w')" "consistent (committed w')"
      "same_rows (regenerate (working w1)) (committed w')"
      by (rule request_returns [where m = m and w = w, OF run [unfolded Inr]]) (use True wf in \<open>simp add: consistent_def\<close>)
    then show ?thesis using Inr True by (simp add: request_def http_status_def)
  next
    case False
    define w2 where "w2 = rolled_back w1"
    define w3 where "w3 = w2\<lparr>working := rewind (committed w2) (working w2), committed := rewind (committed w2) (working w2)\<rparr>"
    have "get_async_session m w = (Inl integrity_error, w3)"
      unfolding get_async_session_def w3_def w2_def
      by (rule with_session_run) (use run Inr False in \<open>simp add: opened_def rollback_run commit_def\<close>)
    moreover have "consistent (committed w3)" "same_rows (committed w) (committed w3)"
      using consistent_rewind [OF c] keep by (simp_all add: w3_def w2_def)
    ultimately show ?thesis using Inr False by (simp add: request_def http_status_def integrity_error_def)
  qed
qed

section \<open>What the constraints come to\<close>

lemma db_ok_add_station:
  assumes c: "consistent d"
  shows "db_ok (stations_update (\<lambda>_. snd (table_insert now s (stations d))) d)
    \<longleftrightarrow> st_code s \<notin> st_code ` set (tbl_rows (stations d))"
proof -
  have "fk (stations d) i \<Longrightarrow> fk (snd (table_insert now s (stations d))) i" for i
    by (simp add: fk_def table_ids_def table_insert_def)
  then show ?thesis
    using c by (auto simp: consistent_def db_ok_def stations_ok_def tractors_ok_def videos_ok_def events_ok_def
        visits_ok_def visit_fks_def list_all_iff table_insert_def fk_opt_def stamp_new_def split: option.splits)
qed

lemma db_ok_add_tractor:
  assumes c: "consistent d"
  shows "db_ok (tractors_update (\<lambda>_. snd (table_insert now t (tractors d))) d)
    \<longleftrightarrow> primary_aruco_id t = None \<or> primary_aruco_id t \<notin> primary_aruco_id ` set (tbl_rows (tractors d))"
proof -
  have chk: "chk_tractors_aruco_ids_nonempty r" for r by (cases "tr_aruco_ids r") (simp_all add: chk_tractors_aruco_ids_nonempty_def)
  have p: "primary_aruco_id (stamp_new now i t) = primary_aruco_id t" for i by (simp add: stamp_new_def primary_aruco_id_def)
  have "fk (tractors d) i \<Longrightarrow> fk (snd (table_insert now t (tractors d))) i" for i
    by (simp add: fk_def table_ids_def table_insert_def)
  then show ?thesis
    using c by (auto simp: consistent_def db_ok_def stations_ok_def tractors_ok_def videos_ok_def events_ok_def
        visits_ok_def visit_fks_def list_all_iff table_insert_def fk_opt_def chk uq_tractors_primary_aruco_def p split: option.splits)
qed

definition station_referenced :: "int \<Rightarrow> db \<Rightarrow> bool" where
  "station_referenced i d \<longleftrightarrow>
     (\<exists>v \<in> set (tbl_rows (videos d)). vf_station_id v = Some i) \<or> (\<exists>v \<in> set (tbl_rows (visits d)). v_station_id v = i)"

lemma fk_delete [simp]: "fk (table_delete i t) j \<longleftrightarrow> fk t j \<and> j \<noteq> i"
  by (auto simp: fk_def table_ids_def table_delete_def)

lemma db_ok_delete_station:
  assumes c: "consistent d"
  shows "db_ok (stations_update (table_delete i) d) \<longleftrightarrow> \<not> station_referenced i d"
proof -
  have "distinct (map st_code (tbl_rows (stations d)))" using c by (simp add: consistent_def db_ok_def stations_ok_def)
  then have "distinct (map st_code (filter (\<lambda>r. row_id r \<noteq> i) (tbl_rows (stations d))))"
    by (rule distinct_map_filter)
  then show ?thesis
    using c by (auto simp: consistent_def db_ok_def stations_ok_def tractors_ok_def videos_ok_def events_ok_def
        visits_ok_def visit_fks_def list_all_iff station_referenced_def fk_opt_def split: option.splits)
       (auto simp: table_delete_def)
qed

definition primary_taken :: "int \<Rightarrow> int option \<Rightarrow> db \<Rightarrow> bool" where
  "primary_taken i p d \<longleftrightarrow>
     p \<noteq> None \<and> (\<exists>t \<in> set (tbl_rows (tractors d)). row_id t \<noteq> i \<and> primary_aruco_id t = p)"

lemma distinct_of_map: "distinct (map f xs) \<Longrightarrow> distinct xs"
  by (simp add: distinct_map)

lemma uq_primary_iff:
  "distinct ts \<Longrightarrow> uq_tractors_primary_aruco ts \<longleftrightarrow> inj_on primary_aruco_id {t \<in> set ts. primary_aruco_id t \<noteq> None}"
  by (simp add: uq_tractors_primary_aruco_def filter_map distinct_map comp_def)

lemma db_ok_put_tractor:
  assumes c: "consistent d" and get: "table_get (tractors d) i = Some t"
    and f: "\<And>r. row_id (f r) = row_id r"
  shows "db_ok (tractors_update (table_update now i f) d) \<longleftrightarrow> \<not> primary_taken i (primary_aruco_id (f t)) d"
proof -
  have wf: "table_wf (tractors d)" using c by (simp add: consistent_def db_wf_def)
  have t: "t \<in> set (tbl_rows (tractors d))" "row_id t = i" using get by (auto dest: table_get_Some)
  have only: "r = t" if "r \<in> set (tbl_rows (tractors d))" "row_id r = i" for r
    using row_unique [OF wf that(1) t(1)] that(2) t(2) by simp
  let ?g = "\<lambda>r. if row_id r = i then touch now r (f r) else r"
  have rows: "tbl_rows (table_update now i f (tractors d)) = map ?g (tbl_rows (tractors d))"
    by (simp add: table_update_def)
  have p: "primary_aruco_id (touch now r r') = primary_aruco_id r'" for r r' :: tractor
    by (simp add: touch_def primary_aruco_id_def)
  have chk: "chk_tractors_aruco_ids_nonempty r" for r by (cases "tr_aruco_ids r") (simp_all add: chk_tractors_aruco_ids_nonempty_def)
  have dist: "distinct (map row_id (tbl_rows (tractors d)))" using wf by (simp add: table_wf_def table_ids_def)
  have ids: "map row_id (map ?g (tbl_rows (tractors d))) = map row_id (tbl_rows (tractors d))" by (simp add: f)
  have dist': "distinct (map row_id (map ?g (tbl_rows (tractors d))))" unfolding ids by (rule dist)
  have inj: "inj_on primary_aruco_id {t \<in> set (tbl_rows (tractors d)). primary_aruco_id t \<noteq> None}"
    using c uq_primary_iff [OF distinct_of_map [OF dist]] by (simp add: consistent_def db_ok_def tractors_ok_def)
  have "inj_on primary_aruco_id {r \<in> set (map ?g (tbl_rows (tractors d))). primary_aruco_id r \<noteq> None}
      \<longleftrightarrow> \<not> primary_taken i (primary_aruco_id (f t)) d" (is "inj_on _ ?S \<longleftrightarrow> _")
  proof
    assume n: "inj_on primary_aruco_id ?S"
    show "\<not> primary_taken i (primary_aruco_id (f t)) d"
    proof
      assume "primary_taken i (primary_aruco_id (f t)) d"
      then obtain t' where t': "t' \<in> set (tbl_rows (tractors d))" "row_id t' \<noteq> i"
        "primary_aruco_id t' = primary_aruco_id (f t)" "primary_aruco_id t' \<noteq> None"
        by (auto simp: primary_taken_def)
      have "?g t \<in> ?S" "?g t' \<in> ?S" using t t' by (auto simp: p)
      then have "?g t = ?g t'" by (rule inj_onD [OF n, rotated 1]) (use t t' in \<open>simp add: p\<close>)
      then have "row_id (?g t) = row_id (?g t')" by simp
      then show False using t t' by (simp add: f)
    qed
  next
    assume free: "\<not> primary_taken i (primary_aruco_id (f t)) d"
    show "inj_on primary_aruco_id ?S"
    proof (rule inj_onI)
      fix a b
      assume "a \<in> ?S" "b \<in> ?S" and eq: "primary_aruco_id a = primary_aruco_id b"
      then obtain a0 b0 where ab: "a0 \<in> set (tbl_rows (tractors d))" "b0 \<in> set (tbl_rows (tractors d))"
        "a = ?g a0" "b = ?g b0" "primary_aruco_id a \<noteq> None" "primary_aruco_id b \<noteq> None"
        by auto
      consider "row_id a0 = i" "row_id b0 = i" | "row_id a0 = i" "row_id b0 \<noteq> i"
        | "row_id a0 \<noteq> i" "row_id b0 = i" | "row_id a0 \<noteq> i" "row_id b0 \<noteq> i" by blast
      then show "a = b"
      proof cases
        case 1
        then show ?thesis using only [OF ab(1)] only [OF ab(2)] ab(3,4) by simp
      next
        case 2
        then show ?thesis using only [OF ab(1)] ab eq free by (auto simp: primary_taken_def p)
      next
        case 3
        then show ?thesis using only [OF ab(2)] ab eq free by (auto simp: primary_taken_def p)
      next
        case 4
        then show ?thesis using inj_onD [OF inj, of a0 b0] ab eq by simp
      qed
    qed
  qed
  then have "uq_tractors_primary_aruco (map ?g (tbl_rows (tractors d))) \<longleftrightarrow> \<not> primary_taken i (primary_aruco_id (f t)) d"
    unfolding uq_primary_iff [OF distinct_of_map [OF dist']] .
  moreover have "fk (table_update now i f (tractors d)) j = fk (tractors d) j" for j
    by (simp add: fk_def f)
  ultimately show ?thesis
    using c by (auto simp: consistent_def db_ok_def stations_ok_def tractors_ok_def videos_ok_def events_ok_def
        visits_ok_def visit_fks_def list_all_iff rows chk fk_opt_def split: option.splits)
qed

section \<open>Properties\<close>

lemmas request_codes = http_status_def http_404_def http_409_def integrity_error_def

lemma create_station_run:
  assumes c: "consistent (committed w)" and free: "sc_code p \<notin> st_code ` set (tbl_rows (stations (committed w)))"
  defines "s \<equiv> stamp_new (txn_now (opened w)) (tbl_seq (stations (committed w))) (station_row p)"
    and "d \<equiv> stations_update (\<lambda>_. snd (table_insert (txn_now (opened w)) (station_row p) (stations (committed w)))) (committed w)"
  shows "create_station p (opened w) = (Inr (station_to_public s), (opened w)\<lparr>working := d\<rparr>)" "consistent d"
proof -
  have wf: "db_wf (committed w)" using c by (simp add: consistent_def)
  have ok: "db_ok d" unfolding d_def using db_ok_add_station [OF c] free by (simp add: station_row_def)
  have "db_wf d" using wf tab.wf_add [of "stations (committed w)"] by (simp add: d_def db_wf_def)
  then show "consistent d" using ok by (simp add: consistent_def)
  have "find (\<lambda>s. st_code s = sc_code p) (tbl_rows (stations (committed w))) = None"
    using free by (auto simp: find_None_iff image_iff)
  then show "create_station p (opened w) = (Inr (station_to_public s), (opened w)\<lparr>working := d\<rparr>)"
    using get_by_code_run [of "opened w" "sc_code p"] c ok station_model.repo_create_flush [of "opened w" "station_row p"] wf
    by (simp add: s_def d_def create_station_def station_service_create_def on_integrity_error_def tryM_def bindM_run Let_def)
qed

text \<open>
  Creating a station with a valid body appends exactly its row and answers 201 when its
  code is free, and answers 409 and changes nothing when the code is taken; tractors and
  videos are untouched either way.
\<close>

lemma creating_a_station:
  assumes "consistent (committed w)" and "station_create_valid p"
  shows "\<exists>w'. request 201 (station_create_valid p) (create_station p) w =
      (Inr (if sc_code p \<in> st_code ` set (tbl_rows (stations (committed w))) then 409 else 201), w')
    \<and> consistent (committed w')
    \<and> tbl_rows (stations (committed w')) = tbl_rows (stations (committed w))
        @ (if sc_code p \<in> st_code ` set (tbl_rows (stations (committed w))) then []
           else [stamp_new (txn_now (opened w)) (tbl_seq (stations (committed w))) (station_row p)])
    \<and> tbl_rows (tractors (committed w')) = tbl_rows (tractors (committed w))
    \<and> tbl_rows (videos (committed w')) = tbl_rows (videos (committed w))"
proof (cases "find (\<lambda>s. st_code s = sc_code p) (tbl_rows (stations (committed w)))")
  case (Some s)
  then have taken: "sc_code p \<in> st_code ` set (tbl_rows (stations (committed w)))"
    by (metis (mono_tags, lifting) find_Some_iff image_eqI nth_mem)
  have "create_station p (opened w) =
      (Inl (http_409 (''Station with code='' @ sc_code p @ '' already exists'')), opened w)"
    using get_by_code_run [of "opened w" "sc_code p"] assms(1) Some
    by (simp add: create_station_def station_service_create_def on_integrity_error_def tryM_def bindM_run raise_def http_409_def)
  from request_outcome [where m = "create_station p" and w = w and n = 201, OF assms(1) this] assms taken show ?thesis
    by (auto simp: consistent_def request_codes same_rows_def)
next
  case None
  then have free: "sc_code p \<notin> st_code ` set (tbl_rows (stations (committed w)))" by (auto simp: find_None_iff)
  note run = create_station_run [OF assms(1) free]
  show ?thesis
    using request_outcome [where m = "create_station p" and w = w and n = 201, OF assms(1) run(1)] run(2) free assms(2)
    by (auto simp: consistent_def same_rows_def table_insert_def)
qed

text \<open>
  C31: Deleting a station removes exactly its row with 204 when no video and no visit refers
  to it; a referenced station is kept, the commit fails and the request ends in 500; an
  unknown one gives 404.
\<close>

theorem deleting_a_station:
  assumes "consistent (committed w)"
  shows "\<exists>w'. request 204 True (delete_station i) w =
      (Inr (if table_get (stations (committed w)) i = None then 404
            else if station_referenced i (committed w) then 500 else 204), w')
    \<and> consistent (committed w')
    \<and> tbl_rows (stations (committed w')) =
        (if station_referenced i (committed w) then tbl_rows (stations (committed w))
         else filter (\<lambda>s. row_id s \<noteq> i) (tbl_rows (stations (committed w))))
    \<and> tbl_rows (videos (committed w')) = tbl_rows (videos (committed w))
    \<and> map row_id (tbl_rows (visits (committed w'))) = map row_id (tbl_rows (visits (committed w)))"
proof (cases "table_get (stations (committed w)) i")
  case None
  then have gone: "i \<notin> set (table_ids (stations (committed w)))" by (simp add: table_get_None)
  then have "\<not> station_referenced i (committed w)"
    using assms by (auto simp: station_referenced_def consistent_def db_ok_def videos_ok_def visits_ok_def
        visit_fks_def list_all_iff fk_def fk_opt_def)
  moreover have "filter (\<lambda>s. row_id s \<noteq> i) (tbl_rows (stations (committed w))) = tbl_rows (stations (committed w))"
    using gone by (auto simp: filter_id_conv table_ids_def)
  moreover have "delete_station i (opened w) = (Inl (http_404 ''Not Found''), opened w)"
    using None by (simp add: delete_station_def station_service_delete_def repo_get_def bindM_run raise_def)
  ultimately show ?thesis
    using request_outcome [OF assms, of "delete_station i" _ "opened w" 204] None assms
    by (auto simp: consistent_def request_codes same_rows_def)
next
  case (Some s)
  let ?d = "stations_update (table_delete i) (committed w)"
  have wf: "db_wf ?d"
    using assms tab.wf_remove [of "stations (committed w)" i] by (simp add: consistent_def db_wf_def)
  have "delete_station i (opened w) = (Inr (), (opened w)\<lparr>working := ?d\<rparr>)"
    using Some by (simp add: delete_station_def station_service_delete_def repo_get_def repo_delete_def bindM_run modify_def)
  from request_outcome [where m = "delete_station i" and w = w and n = 204, OF assms this] wf Some db_ok_delete_station [OF assms, of i] show ?thesis
    by (auto simp: same_rows_def table_delete_def comp_def)
qed



section \<open>Witnesses\<close>

definition new_station :: "string \<Rightarrow> station_create" where
  "new_station code = \<lparr>sc_code = code, sc_name = ''Yard'', sc_location = None, sc_video_dir = ''/v'',
     sc_roi_polygon = None, sc_is_entry_zone = True, sc_is_active = True\<rparr>"

lemma plant_codes: "st_code ` set (tbl_rows (stations (plant vs))) = {''gate-1''}"
  by (simp add: plant_def st1_def)

lemma creating_a_station_witness:
  "(\<exists>w'. request 201 True (create_station (new_station ''gate-2'')) (world_of (plant [])) = (Inr 201, w')
     \<and> length (tbl_rows (stations (committed w'))) = 2)
   \<and> (\<exists>w'. request 201 True (create_station (new_station ''gate-1'')) (world_of (plant [])) = (Inr 409, w')
     \<and> tbl_rows (stations (committed w')) = tbl_rows (stations (plant [])))"
proof -
  have c: "consistent (committed (world_of (plant [])))" by (simp add: empty_plant_consistent)
  have v: "station_create_valid (new_station code)" if "length code \<le> 32" for code
    using that by (simp add: station_create_valid_def new_station_def)
  have codes: "sc_code (new_station code) = code" for code by (simp add: new_station_def)
  from creating_a_station [OF c v, of "''gate-2''"] creating_a_station [OF c v, of "''gate-1''"]
  show ?thesis
    by (simp add: v codes plant_codes) (auto simp: plant_def)
qed

theorem deleting_a_station_witness:
  "(\<exists>w'. request 204 True (delete_station 1) (world_of (plant [])) = (Inr 500, w')
     \<and> tbl_rows (stations (committed w')) = [st1])
   \<and> (\<exists>w'. request 204 True (delete_station 9) (world_of (plant [])) = (Inr 404, w'))"
proof -
  have c: "consistent (committed (world_of (plant [])))" by (simp add: empty_plant_consistent)
  have "table_get (stations (plant [])) 1 = Some st1" "table_get (stations (plant [])) 9 = None"
    "station_referenced 1 (plant [])"
    by (simp_all add: table_get_def plant_def st1_def vf1_def station_referenced_def)
  with deleting_a_station [OF c, of 1] deleting_a_station [OF c, of 9] show ?thesis
    by simp (auto simp: plant_def)
qed

definition no_name :: tractor_update where
  "no_name = \<lparr>tu_name = Some None, tu_model = None, tu_notes = None, tu_is_active = None, tu_aruco_ids = None\<rparr>"


end
