(* ===== verification/IngestionProperties.thy ===== *)
theory IngestionProperties
  imports Ingestion RegistryProperties
begin

text \<open>
  The properties of the ingestion process. \<open>clip_api\<close> is the contract between it and the API; it is
  proved for the registration endpoint of \<open>VideoApi\<close> in its request session.
\<close>

section \<open>The contract\<close>

definition hashes :: "db \<Rightarrow> string set" where
  "hashes d = vf_content_hash ` set (tbl_rows (videos d))"

definition accepted :: "int \<Rightarrow> bool" where
  "accepted c \<longleftrightarrow> c < 400 \<or> c = 406"

locale clip_api =
  fixes serve :: "video_post \<Rightarrow> int io" and hash :: "string \<Rightarrow> string" and inv :: "world \<Rightarrow> bool"
  assumes serve_files: "inv w \<Longrightarrow> serve p w = (r, w') \<Longrightarrow> files w' = files w"
    and inv_files: "inv (w\<lparr>files := f\<rparr>) = inv w"
    and serve_inv: "inv w \<Longrightarrow> serve p w = (r, w') \<Longrightarrow> inv w'"
    and serve_keeps: "inv w \<Longrightarrow> serve p w = (r, w') \<Longrightarrow> hashes (committed w) \<subseteq> hashes (committed w')"
    and serve_accepts: "inv w \<Longrightarrow> serve p w = (r, w') \<Longrightarrow> accepted (status_of r) \<Longrightarrow>
      files w (path_str (po_filepath p)) = Some bytes \<Longrightarrow> hash bytes \<in> hashes (committed w')"

text \<open>Nothing but the API answers with a status below 500, and transport errors are those of \<open>aiohttp\<close>.\<close>

definition honest :: "(nat \<Rightarrow> fate) \<Rightarrow> bool" where
  "honest net \<longleftrightarrow> (\<forall>k. case net k of
       Answered \<Rightarrow> True
     | Gateway c \<Rightarrow> 500 \<le> c
     | Unsent e \<Rightarrow> exn_class e \<in> {TimeoutErr, ClientErr}
     | Unanswered e \<Rightarrow> exn_class e \<in> {TimeoutErr, ClientErr})"

text \<open>A path that is no place in the cold storage.\<close>

definition outside :: "ingestion_settings \<Rightarrow> string \<Rightarrow> bool" where
  "outside cfg q \<longleftrightarrow> (\<forall>item. q \<noteq> path_str (storage_path cfg item))"

text \<open>The file is as it was, or it is gone and its content is registered.\<close>

definition settled :: "(string \<Rightarrow> string) \<Rightarrow> string \<Rightarrow> world \<Rightarrow> world \<Rightarrow> bool" where
  "settled hash q w w' \<longleftrightarrow>
     files w' q = files w q
     \<or> files w' q = None \<and> (\<exists>bytes. files w q = Some bytes \<and> hash bytes \<in> hashes (committed w'))"

context clip_api begin

definition safe :: "ingestion_settings \<Rightarrow> world forwarding \<Rightarrow> world forwarding \<Rightarrow> bool" where
  "safe cfg s s' \<longleftrightarrow>
     inv (fw_server s') \<and> hashes (committed (fw_server s)) \<subseteq> hashes (committed (fw_server s'))
     \<and> (\<forall>q. outside cfg q \<longrightarrow> settled hash q (fw_server s) (fw_server s'))"

lemma safe_refl: "inv (fw_server s) \<Longrightarrow> safe cfg s s"
  by (simp add: safe_def settled_def)

lemma safe_trans: "safe cfg s s' \<Longrightarrow> safe cfg s' s'' \<Longrightarrow> safe cfg s s''"
  unfolding safe_def settled_def by (smt (verit, best) subset_iff option.distinct(1))

text \<open>\<open>steps m\<close>: from a good state every outcome of \<open>m\<close> is safe.\<close>

definition steps :: "ingestion_settings \<Rightarrow> 'a ing \<Rightarrow> bool" where
  "steps cfg m \<longleftrightarrow> (\<forall>s r s'. inv (fw_server s) \<longrightarrow> m s = (r, s') \<longrightarrow> safe cfg s s')"

lemma stepsI: "(\<And>s r s'. inv (fw_server s) \<Longrightarrow> m s = (r, s') \<Longrightarrow> safe cfg s s') \<Longrightarrow> steps cfg m"
  by (simp add: steps_def)

lemma stepsD: "steps cfg m \<Longrightarrow> inv (fw_server s) \<Longrightarrow> m s = (r, s') \<Longrightarrow> safe cfg s s'"
  by (simp add: steps_def)

lemma safe_inv: "safe cfg s s' \<Longrightarrow> inv (fw_server s')"
  by (simp add: safe_def)

lemma steps_ret: "steps cfg (ret a)"
  by (rule stepsI) (simp add: safe_refl)

lemma steps_raise: "steps cfg (raise e)"
  by (rule stepsI) (simp add: raise_def safe_refl)

lemma steps_bind:
  assumes "steps cfg m" and "\<And>a. steps cfg (f a)"
  shows "steps cfg (bindM m f)"
proof (rule stepsI)
  fix s r s'
  assume i: "inv (fw_server s)" and run: "bindM m f s = (r, s')"
  obtain q s1 where m: "m s = (q, s1)" by (cases "m s")
  have 1: "safe cfg s s1" by (rule stepsD [OF assms(1) i m])
  show "safe cfg s s'"
  proof (cases q)
    case (Inl e)
    then show ?thesis using run m 1 by (simp add: bindM_run)
  next
    case (Inr a)
    then have "f a s1 = (r, s')" using run m by (simp add: bindM_run)
    then show ?thesis using safe_trans [OF 1] stepsD [OF assms(2) safe_inv [OF 1]] by blast
  qed
qed

lemma steps_seq: "steps cfg m \<Longrightarrow> steps cfg k \<Longrightarrow> steps cfg (seqM m k)"
  using steps_bind [of cfg m "\<lambda>_. k"] by (simp add: seqM_def)

lemma steps_try:
  assumes "steps cfg m" and "\<And>e. steps cfg (h e)"
  shows "steps cfg (tryM m h)"
proof (rule stepsI)
  fix s r s'
  assume i: "inv (fw_server s)" and run: "tryM m h s = (r, s')"
  obtain q s1 where m: "m s = (q, s1)" by (cases "m s")
  have 1: "safe cfg s s1" by (rule stepsD [OF assms(1) i m])
  show "safe cfg s s'"
  proof (cases q)
    case (Inl e)
    then have "h e s1 = (r, s')" using run m by (simp add: tryM_def)
    then show ?thesis using safe_trans [OF 1] stepsD [OF assms(2) safe_inv [OF 1]] by blast
  next
    case (Inr a)
    then show ?thesis using run m 1 by (simp add: tryM_def)
  qed
qed

text \<open>Steps that only look at the files.\<close>

lemma steps_pure:
  assumes "\<And>w. snd (m w) = w"
  shows "steps cfg (on_files m)"
proof (rule stepsI)
  fix s r s'
  assume "inv (fw_server s)" "on_files m s = (r, s')"
  then show "safe cfg s s'"
    using assms [of "fw_server s"] by (auto simp: on_files_def safe_def settled_def split: prod.splits)
qed

lemma steps_sleep: "steps cfg (ing_sleep t)"
  by (rule stepsI) (auto simp: ing_sleep_def safe_def settled_def modify_def)

lemma post_facts:
  assumes i: "inv (fw_server s)" and run: "http_post serve net p s = (r, s')"
  shows "inv (fw_server s')" "files (fw_server s') = files (fw_server s)"
    "hashes (committed (fw_server s)) \<subseteq> hashes (committed (fw_server s'))"
    "honest net \<Longrightarrow> r = Inr c \<Longrightarrow> accepted c \<Longrightarrow>
       files (fw_server s) (path_str (po_filepath p)) = Some bytes \<Longrightarrow> hash bytes \<in> hashes (committed (fw_server s'))"
    "honest net \<Longrightarrow> r = Inl e \<Longrightarrow> exn_class e \<in> {TimeoutErr, ClientErr}"
proof -
  obtain q w where srv: "serve p (fw_server s) = (q, w)" by (cases "serve p (fw_server s)")
  note facts = serve_files [OF i srv] serve_inv [OF i srv] serve_keeps [OF i srv] serve_accepts [OF i srv]
  show "inv (fw_server s')" "files (fw_server s') = files (fw_server s)"
    "hashes (committed (fw_server s)) \<subseteq> hashes (committed (fw_server s'))"
    using i run srv facts(1-3) by (auto simp: http_post_def Let_def split: fate.splits)
  show "hash bytes \<in> hashes (committed (fw_server s'))"
    if "honest net" "r = Inr c" "accepted c" "files (fw_server s) (path_str (po_filepath p)) = Some bytes"
  proof -
    have n: "case net (fw_posts s) of Answered \<Rightarrow> True | Gateway c \<Rightarrow> 500 \<le> c
       | Unsent e \<Rightarrow> exn_class e \<in> {TimeoutErr, ClientErr} | Unanswered e \<Rightarrow> exn_class e \<in> {TimeoutErr, ClientErr}"
      using that(1) by (simp add: honest_def)
    show ?thesis
      using n run srv facts(4) that(2-4) by (cases "net (fw_posts s)") (auto simp: http_post_def Let_def accepted_def)
  qed
  show "exn_class e \<in> {TimeoutErr, ClientErr}" if "honest net" "r = Inl e"
  proof -
    have n: "case net (fw_posts s) of Answered \<Rightarrow> True | Gateway c \<Rightarrow> 500 \<le> c
       | Unsent e \<Rightarrow> exn_class e \<in> {TimeoutErr, ClientErr} | Unanswered e \<Rightarrow> exn_class e \<in> {TimeoutErr, ClientErr}"
      using that(1) by (simp add: honest_def)
    show ?thesis
      using n run srv that(2) by (cases "net (fw_posts s)") (auto simp: http_post_def Let_def)
  qed
qed

text \<open>Forwarding leaves the files, and when it says that the clip is done the API has its content.\<close>

lemma forward_facts:
  assumes i: "inv (fw_server s)" and h: "honest net"
    and run: "forward_video_to_api cfg serve net item s = (r, s')"
  shows "inv (fw_server s')" "files (fw_server s') = files (fw_server s)"
    "hashes (committed (fw_server s)) \<subseteq> hashes (committed (fw_server s'))"
    "r = Inr () \<or> (\<exists>e. r = Inl e \<and> exn_class e = VideoAlreadyExistsErr) \<Longrightarrow>
       files (fw_server s) (path_str (storage_path cfg item)) = Some bytes \<Longrightarrow>
       hash bytes \<in> hashes (committed (fw_server s'))"
    "r = Inl e \<Longrightarrow> exn_class e \<in> {VideoAlreadyExistsErr, RecognitionApiErr}"
proof -
  obtain q s1 where post: "http_post serve net (post_of cfg item) s = (q, s1)"
    by (cases "http_post serve net (post_of cfg item) s")
  note facts = post_facts [OF i post]
  have s1: "s' = s1"
    using run post by (cases q) (auto simp: forward_video_to_api_def tryM_def bindM_run raise_def split: if_splits)
  show "inv (fw_server s')" "files (fw_server s') = files (fw_server s)"
    "hashes (committed (fw_server s)) \<subseteq> hashes (committed (fw_server s'))"
    using facts(1-3) s1 by simp_all
  show "hash bytes \<in> hashes (committed (fw_server s'))"
    if fin: "r = Inr () \<or> (\<exists>e. r = Inl e \<and> exn_class e = VideoAlreadyExistsErr)"
      and f: "files (fw_server s) (path_str (storage_path cfg item)) = Some bytes"
  proof (cases q)
    case (Inl e)
    then show ?thesis
      using run post facts(5) [OF h Inl] fin
      by (auto simp: forward_video_to_api_def tryM_def bindM_run raise_def api_error_def split: if_splits)
  next
    case (Inr c)
    then have "accepted c"
      using run post fin
      by (auto simp: forward_video_to_api_def tryM_def bindM_run raise_def api_error_def accepted_def split: if_splits)
    then show ?thesis using facts(4) [OF h Inr _] f s1 by (simp add: post_of_def)
  qed
  show "exn_class e \<in> {VideoAlreadyExistsErr, RecognitionApiErr}" if "r = Inl e"
    using run post facts(5) [OF h] that
    by (cases q) (auto simp: forward_video_to_api_def tryM_def bindM_run raise_def api_error_def split: if_splits)
qed

lemma steps_produce_item:
  assumes h: "honest net"
  shows "steps cfg (produce_item cfg serve net item)"
proof (rule stepsI)
  fix s r s'
  assume i: "inv (fw_server s)" and run: "produce_item cfg serve net item s = (r, s')"
  let ?src = "path_str (sv_file_path item)" and ?dst = "path_str (storage_path cfg item)"
  show "safe cfg s s'"
  proof (cases "files (fw_server s) ?src")
    case None
    then have "s' = s"
      using run by (auto simp: produce_item_def seqM_def bindM_run on_files_def copy_to_cold_storage_def Let_def raise_def)
    then show ?thesis using i by (simp add: safe_refl)
  next
    case (Some bytes)
    show ?thesis
    proof (cases "?src = ?dst")
      case True
      then have "s' = s"
        using run Some by (auto simp: produce_item_def seqM_def bindM_run on_files_def copy_to_cold_storage_def Let_def raise_def)
      then show ?thesis using i by (simp add: safe_refl)
    next
      case False
      define s1 where "s1 = s\<lparr>fw_server := (fw_server s)\<lparr>files := (files (fw_server s))(?dst := Some bytes)\<rparr>\<rparr>"
      have copy: "on_files (copy_to_cold_storage cfg item) s = (Inr (storage_path cfg item), s1)"
        using Some False by (simp add: on_files_def copy_to_cold_storage_def Let_def bindM_run seqM_def write_file_def modify_def s1_def)
      have i1: "inv (fw_server s1)" using i by (simp add: s1_def inv_files)
      obtain q s2 where fw: "forward_video_to_api cfg serve net item s1 = (q, s2)"
        by (cases "forward_video_to_api cfg serve net item s1")
      note facts = forward_facts [OF i1 h fw]
      have reg: "hash bytes \<in> hashes (committed (fw_server s2))"
        if "q = Inr () \<or> (\<exists>e. q = Inl e \<and> exn_class e = VideoAlreadyExistsErr)"
        using facts(4) [OF that, of bytes] by (simp add: s1_def)
      have grow: "hashes (committed (fw_server s)) \<subseteq> hashes (committed (fw_server s2))"
        using facts(3) by (simp add: s1_def)
      have "s' = s2 \<or> (s' = s2\<lparr>fw_server := (fw_server s2)\<lparr>files := (files (fw_server s2))(?src := None)\<rparr>\<rparr>
          \<and> hash bytes \<in> hashes (committed (fw_server s2)))"
        using run copy fw reg facts(5)
        by (cases q) (auto simp: produce_item_def seqM_def bindM_run tryM_def raise_def on_files_def unlink_entry_def
            unlink_file_def modify_def split: if_splits)
      moreover have "outside cfg q \<Longrightarrow> q \<noteq> ?dst" for q by (auto simp: outside_def)
      ultimately show ?thesis
        using facts(1,2) grow Some by (auto simp: safe_def settled_def s1_def inv_files split: if_splits)
    qed
  qed
qed

lemma steps_produce_names: "honest net \<Longrightarrow> steps cfg (produce_names H cfg serve net d ps)"
proof (induction ps)
  case (Cons p ps)
  have "snd (build_entry H cfg p c w) = w" for c w
    by (auto simp: build_entry_def bindM_run raise_def split: option.splits)
  then show ?case
    using Cons steps_produce_item
    by (auto intro!: steps_bind steps_seq steps_ret steps_pure simp: path_exists_def)
qed (simp add: steps_ret)

lemma steps_produce: "honest net \<Longrightarrow> steps cfg (produce_for_directory H cfg serve net d ls)"
proof (induction ls)
  case (Cons l ls)
  have "steps cfg (produce_turn H cfg serve net d l)"
    unfolding produce_turn_def
    by (auto intro!: steps_try steps_bind steps_seq steps_ret steps_raise steps_sleep steps_produce_names [OF Cons.prems]
        split: option.split)
  then show ?case using Cons by (auto intro!: steps_bind steps_ret)
qed (simp add: steps_ret)

lemma produce_result:
  assumes "honest net" and "inv (fw_server s)" and "produce_for_directory H cfg serve net d ls s = (r, s')" and "outside cfg q"
  shows "inv (fw_server s') \<and> settled hash q (fw_server s) (fw_server s')"
  using stepsD [OF steps_produce [OF assms(1)] assms(2,3)] assms(4) by (simp add: safe_def)

end

section \<open>The registration endpoint keeps the contract\<close>

lemma register_facts:
  assumes c: "consistent (working w)" and run: "create_and_commit H uri s e st m w = (r, w1)"
  shows "committed w1 = committed w" "files w1 = files w" "db_wf (working w1)"
    "hashes (working w) \<subseteq> hashes (working w1)"
    "r = Inr v \<Longrightarrow> files w (path_str uri) = Some bytes \<Longrightarrow>
       hash_large_file H 65536 bytes \<in> hashes (working w1)"
    "r = Inl x \<Longrightarrow> accepted (http_status n r) \<Longrightarrow> files w (path_str uri) = Some bytes \<Longrightarrow>
       hash_large_file H 65536 bytes \<in> hashes (working w)"
proof -
  have wf: "db_wf (working w)" using c by (simp add: consistent_def)
  consider "w1 = w" "\<exists>x. r = Inl x \<and> exn_class x = HTTPErr 422"
    | content u where "w1 = w" "r = Inl (duplicate_error u)" "files w (path_str uri) = Some content"
        "hash_large_file H 65536 content \<in> hashes (working w)"
    | content row where "files w (path_str uri) = Some content"
        "vf_content_hash row = hash_large_file H 65536 content"
        "w1 = w\<lparr>working := videos_update (\<lambda>_. snd (table_insert (txn_now w) row (videos (working w)))) (working w)\<rparr>"
        "\<forall>x. r = Inl x \<longrightarrow> x = integrity_error"
  proof (cases "utc_us (to_naive_utc e) \<le> utc_us (to_naive_utc s)")
    case True
    then show ?thesis using run that(1) by (auto simp: create_and_commit_def Let_def raise_def http_422_def)
  next
    case False
    show ?thesis
    proof (cases "files w (path_str uri)")
      case None
      then show ?thesis using run False that(1) by (auto simp: create_and_commit_def Let_def bindM_run raise_def http_422_def)
    next
      case (Some content)
      let ?h = "hash_large_file H 65536 content"
      show ?thesis
      proof (cases "\<exists>u. u \<in> set (tbl_rows (videos (working w))) \<and> vf_content_hash u = ?h")
        case True
        then obtain u where u: "u \<in> set (tbl_rows (videos (working w)))" "vf_content_hash u = ?h" by blast
        then have "get_by_hash ?h w = (Inr (Some u), w)" by (simp add: get_by_hash_run [OF c])
        then have "w1 = w" "r = Inl (duplicate_error u)"
          using run False Some by (simp_all add: create_and_commit_def Let_def bindM_run raise_def)
        then show ?thesis using that(2) [OF _ _ Some] u by (force simp: hashes_def)
      next
        case new: False
        define row where "row = with_media m (new_video st (path_str uri) ?h (to_naive_utc s) (to_naive_utc e) CREATED)"
        have "get_by_hash ?h w = (Inr None, w)" using new by (auto simp: get_by_hash_run [OF c])
        then have "repo_create VideoRepo row w = (r, w1)"
          using run False Some by (simp add: create_and_commit_def Let_def bindM_run row_def)
        then show ?thesis
          using that(3) [OF Some, of row] video_model.repo_create_flush [OF wf, of row]
          by (auto simp: Let_def row_def with_media_def new_video_def split: if_splits)
      qed
    qed
  qed
  note cases = this
  show "committed w1 = committed w" "files w1 = files w" using cases by (cases; simp)+
  show "db_wf (working w1)"
    using cases wf tab.wf_add [of "videos (working w)"] by cases (simp_all add: db_wf_def)
  show "hashes (working w) \<subseteq> hashes (working w1)"
    using cases by cases (auto simp: hashes_def table_insert_def)
  show "hash_large_file H 65536 bytes \<in> hashes (working w1)"
    if "r = Inr v" "files w (path_str uri) = Some bytes"
    using cases that by cases (auto simp: hashes_def table_insert_def stamp_new_video)
  show "hash_large_file H 65536 bytes \<in> hashes (working w)"
    if "r = Inl x" "accepted (http_status n r)" "files w (path_str uri) = Some bytes"
    using cases that by cases (auto simp: accepted_def http_status_def integrity_error_def)
qed

lemma files_get_async_session:
  assumes "\<And>q w1. m (opened w) = (q, w1) \<Longrightarrow> files w1 = files w" and "get_async_session m w = (r, w')"
  shows "files w' = files w"
proof -
  obtain q w1 where o: "m (opened w) = (q, w1)" by (cases "m (opened w)")
  then have m: "m (next_txn (w\<lparr>working := committed w\<rparr>)) = (q, w1)" by (simp add: opened_def)
  have "files w1 = files w" by (rule assms(1) [OF o])
  then show ?thesis
    using assms(2) m
    by (cases q) (auto simp: get_async_session_def with_session_def tryM_def bindM_run seqM_def commit_def Let_def
        rollback_run raise_def next_txn_def split: if_splits)
qed

lemma endpoint_facts:
  fixes st :: "int option"
  assumes c: "consistent (working w)"
    and run: "handle_video_endpoint H worker cfg env task uri None (Some code) s e w = (r, w1)"
  shows "committed w1 = committed w" "files w1 = files w" "db_wf (working w1)"
    "hashes (working w) \<subseteq> hashes (working w1)"
    "r = Inr v \<Longrightarrow> files w (path_str uri) = Some bytes \<Longrightarrow>
       hash_large_file H 65536 bytes \<in> hashes (working w1)"
    "r = Inl x \<Longrightarrow> accepted (http_status n r) \<Longrightarrow> files w (path_str uri) = Some bytes \<Longrightarrow>
       hash_large_file H 65536 bytes \<in> hashes (working w)"
proof -
  consider "w1 = w" "\<exists>x. r = Inl x \<and> exn_class x = HTTPErr 422"
    | st q where "create_and_commit H uri s e st no_media w = (q, w1)"
        "(\<exists>v a. q = Inr v \<and> r = Inr a) \<or> (\<exists>x. q = Inl x \<and> r = Inl x)"
  proof -
    note refused = that(1) and registers = that(2)
    have go: thesis if "handle_video H worker cfg env task None uri st s e True w = (r, w1)" for st
    proof -
      obtain q w2 where q: "create_and_commit H uri s e st no_media w = (q, w2)"
        by (cases "create_and_commit H uri s e st no_media w")
      then have "w2 = w1" "(\<exists>v a. q = Inr v \<and> r = Inr a) \<or> (\<exists>x. q = Inl x \<and> r = Inl x)"
        using that by (cases q; auto simp: handle_video_def Let_def bindM_run)+
      with q show thesis using registers by blast
    qed
    show thesis
    proof (cases "code = []")
      case True
      then show thesis using run go by (auto simp: handle_video_endpoint_def Let_def)
    next
      case False
      then show thesis
        using run go refused get_by_code_run [OF c, of code]
        by (auto simp: handle_video_endpoint_def Let_def bindM_run raise_def http_422_def split: option.splits)
    qed
  qed
  note cases = this
  have wf: "db_wf (working w)" using c by (simp add: consistent_def)
  show "committed w1 = committed w" "files w1 = files w" "db_wf (working w1)"
    "hashes (working w) \<subseteq> hashes (working w1)"
    using cases wf by (cases; auto dest: register_facts(1-4) [OF c])+
  show "hash_large_file H 65536 bytes \<in> hashes (working w1)"
    if "r = Inr v" "files w (path_str uri) = Some bytes"
    using cases that by cases (auto intro: register_facts(5) [OF c])
  show "hash_large_file H 65536 bytes \<in> hashes (working w)"
    if "r = Inl x" "accepted (http_status n r)" "files w (path_str uri) = Some bytes"
    using cases that
    by cases (auto simp: accepted_def http_status_def intro: register_facts(6) [OF c])
qed

interpretation clips: clip_api "post_handle parse H worker cfg env task" "hash_large_file H 65536"
    "\<lambda>w. consistent (committed w)"
  for parse :: "string \<Rightarrow> datetime option" and H :: "'h hasher" and worker cfg env task
proof -
  let ?serve = "post_handle parse H worker cfg env task"
  have main: "files w' = files w \<and> consistent (committed w') \<and> hashes (committed w) \<subseteq> hashes (committed w')
      \<and> (accepted (status_of r) \<longrightarrow> (\<forall>bytes. files w (path_str (po_filepath p)) = Some bytes \<longrightarrow>
           hash_large_file H 65536 bytes \<in> hashes (committed w')))"
    if c: "consistent (committed w)" and run: "?serve p w = (r, w')" for p w r w'
  proof (cases "parse (po_started_at p) = None \<or> parse (po_ended_at p) = None")
    case True
    then have "r = Inr 422" "w' = w" using run by (auto simp: post_handle_def request_def split: option.splits)
    then show ?thesis using c by (simp add: accepted_def status_of_def)
  next
    case False
    then obtain s e where se: "parse (po_started_at p) = Some s" "parse (po_ended_at p) = Some e" by auto
    define m where "m = handle_video_endpoint H worker cfg env task (po_filepath p) None (Some (po_station_code p)) s e"
    have req: "request 200 True m w = (r, w')" using run se by (simp add: post_handle_def m_def)
    obtain q w1 where q: "m (opened w) = (q, w1)" by (cases "m (opened w)")
    have c': "consistent (working (opened w))" using c by simp
    note ep = endpoint_facts [OF c' q [unfolded m_def]]
    have of: "files (opened w) = files w" by (simp add: opened_def next_txn_def)
    have keep: "committed w1 = committed w" using ep(1) by simp
    have fl: "files w' = files w"
      using files_get_async_session [of m w] req ep(2) of q
      by (auto simp: request_def split: prod.splits)
    obtain w2 where w2: "request 200 True m w =
        (Inr (case q of Inl e \<Rightarrow> http_status 200 q | Inr _ \<Rightarrow> if db_ok (working w1) then int 200 else 500), w2)"
      "consistent (committed w2)"
      "same_rows (if \<exists>a. q = Inr a \<and> db_ok (working w1) then regenerate (working w1) else committed w) (committed w2)"
      using request_outcome [where m = m and w = w and n = 200, OF c q keep ep(3)] by blast
    then have w': "w' = w2" and r: "r = Inr (case q of Inl e \<Rightarrow> http_status 200 q
        | Inr _ \<Rightarrow> if db_ok (working w1) then int 200 else 500)"
      using req by simp_all
    have h: "hashes (committed w') = hashes (if \<exists>a. q = Inr a \<and> db_ok (working w1) then working w1 else committed w)"
      using w2(3) w' by (auto simp: same_rows_def hashes_def)
    have "hashes (committed w) \<subseteq> hashes (committed w')" using ep(4) h by auto
    moreover have "hash_large_file H 65536 bytes \<in> hashes (committed w')"
      if "accepted (status_of r)" "files w (path_str (po_filepath p)) = Some bytes" for bytes
    proof (cases q)
      case (Inl x)
      then show ?thesis using ep(6) [OF Inl, of 200 bytes] that r h of by (simp add: status_of_def)
    next
      case (Inr a)
      then have "db_ok (working w1)"
        using that(1) r by (auto simp: status_of_def accepted_def split: if_splits)
      then show ?thesis using ep(5) [OF Inr, of bytes] that(2) h Inr of by simp
    qed
    ultimately show ?thesis using fl w2(2) w' by blast
  qed
  show "clip_api ?serve (hash_large_file H 65536) (\<lambda>w. consistent (committed w))"
    by unfold_locales (use main in \<open>auto\<close>)
qed

section \<open>Properties\<close>

text \<open>
  C35: Whatever requests are lost, as long as only the API answers below 500, every file
  outside the cold storage is after any run of a producer either unchanged, or removed with a
  video of its content hash registered; the database stays consistent.
\<close>

theorem clips_are_never_lost:
  assumes "consistent (committed (fw_server s))" and "honest net" and "outside cfg q"
    and "produce_for_directory H cfg (post_handle parse H worker vcfg env task) net d ls s = (r, s')"
  shows "consistent (committed (fw_server s'))
    \<and> (files (fw_server s') q = files (fw_server s) q
       \<or> files (fw_server s') q = None
         \<and> (\<exists>bytes v. files (fw_server s) q = Some bytes \<and> v \<in> set (tbl_rows (videos (committed (fw_server s'))))
              \<and> vf_content_hash v = hash_large_file H 65536 bytes))"
  using clips.produce_result [OF assms(2,1,4,3)] by (auto simp: settled_def hashes_def)

text \<open>A queue with one clip, and an API whose dates are read by a table.\<close>

definition queue_settings :: ingestion_settings where
  "queue_settings = default_ingestion_settings\<lparr>ig_videos_storage := ''/store''\<rparr>"

definition clip_path :: string where
  "clip_path = ''/queue/gate-1/20250115_093000.mp4''"

definition clip_date :: "string \<Rightarrow> datetime option" where
  "clip_date s = (if s = ''2025-01-15T09:30:00+00:00'' then Some (Naive 1736933400000000)
     else if s = ''2025-01-15T09:31:00+00:00'' then Some (Naive 1736933460000000) else None)"

definition queue_state :: "world forwarding" where
  "queue_state = \<lparr>fw_server = with_file clip_path ''new clip'' (world_of (plant [])), fw_posts = 0, fw_slept = [],
     fw_clock = (\<lambda>_. 0), fw_reads = 0\<rparr>"

lemma path_str_head:
  assumes "c \<noteq> CHR ''/''" and "c \<noteq> CHR ''.''"
  shows "\<exists>t. path_str (CHR ''/'' # c # s) = CHR ''/'' # c # t"
proof -
  obtain w ws where "split_on (CHR ''/'') (c # s) = (c # w) # ws"
    using assms(1) by (cases "split_on (CHR ''/'') s") auto
  then have "path_parts (CHR ''/'' # c # s) = (c # w) # filter (\<lambda>w. w \<noteq> [] \<and> w \<noteq> ''.'') ws"
    using assms by (simp add: path_parts_def)
  moreover have "path_root (CHR ''/'' # c # s) = ''/''" using assms(1) by (simp add: path_root_def)
  ultimately show ?thesis
    by (cases "filter (\<lambda>w. w \<noteq> [] \<and> w \<noteq> ''.'') ws") (simp_all add: path_str_def Let_def)
qed

lemma hex_digit_no_slash:
  assumes "n < 16"
  shows "hex_digit n \<noteq> CHR ''/''"
proof
  assume eq: "hex_digit n = CHR ''/''"
  have "of_char (hex_digit n) = (if n < 10 then 48 + n else 87 + n)"
    using assms by (simp add: hex_digit_def)
  moreover have "of_char (hex_digit n) = (47 :: nat)" by (simp add: eq)
  ultimately show False using assms by (simp split: if_splits)
qed

lemma queue_storage: "\<exists>t. path_str (storage_path queue_settings item) = CHR ''/'' # CHR ''s'' # t"
proof -
  define sfx where "sfx = lower (path_suffix (sv_file_path item))"
  have "lower_char (CHR ''.'') = CHR ''.''" by (simp add: lower_char_def Let_def)
  then have "sfx = [] \<or> (\<exists>t. sfx = CHR ''.'' # t)" by (simp add: sfx_def path_suffix_def lower_def Let_def)
  moreover have "hex_digit (of_char c div 16) \<noteq> CHR ''/''" for c :: char
  proof -
    have "of_char c mod 256 < (256 :: nat)" by (rule mod_less_divisor) simp
    then have "of_char c < (16 * 16 :: nat)" by simp
    then show ?thesis by (intro hex_digit_no_slash less_mult_imp_div_less)
  qed
  ultimately have "take 1 (hex (sv_content_hash item) @ sfx) \<noteq> ''/''"
    by (cases "sv_content_hash item") (auto simp: hex_def)
  then have "path_root (hex (sv_content_hash item) @ sfx) = []"
    by (cases "hex (sv_content_hash item) @ sfx") (auto simp: path_root_def)
  then have "storage_path queue_settings item = path_str (''/store'' @ ''/'' @ hex (sv_content_hash item) @ sfx)"
    by (simp add: storage_path_def path_join_def sfx_def queue_settings_def)
  then obtain t where "storage_path queue_settings item = CHR ''/'' # CHR ''s'' # t"
    using path_str_head [of "CHR ''s''"] by auto
  then show ?thesis using path_str_head [of "CHR ''s''"] by auto
qed

lemma queue_outside: "outside queue_settings clip_path"
  unfolding outside_def
proof
  fix item :: station_video_file
  show "clip_path \<noteq> path_str (storage_path queue_settings item)"
    using queue_storage [of item] by (auto simp: clip_path_def)
qed

theorem clips_are_never_lost_witness:
  "case produce_for_directory plain_hasher queue_settings
       (post_handle clip_date plain_hasher (\<lambda>_ _. Inr ([], 0, 0)) default_visit_settings id ''t'')
       (\<lambda>_. Answered) \<lparr>sd_path = ''/queue/gate-1'', sd_station_code = ''gate-1''\<rparr> [Some [clip_path]] queue_state of
     (r, s') \<Rightarrow> consistent (committed (fw_server s'))
       \<and> (files (fw_server s') clip_path = Some ''new clip''
         \<or> files (fw_server s') clip_path = None
           \<and> (\<exists>v \<in> set (tbl_rows (videos (committed (fw_server s')))). vf_content_hash v = ''new clip''))"
proof -
  obtain r s' where run: "produce_for_directory plain_hasher queue_settings
       (post_handle clip_date plain_hasher (\<lambda>_ _. Inr ([], 0, 0)) default_visit_settings id ''t'')
       (\<lambda>_. Answered) \<lparr>sd_path = ''/queue/gate-1'', sd_station_code = ''gate-1''\<rparr> [Some [clip_path]] queue_state = (r, s')"
    by fastforce
  have c: "consistent (committed (fw_server queue_state))"
    by (simp add: queue_state_def with_file_def empty_plant_consistent)
  have h: "honest (\<lambda>_. Answered)" by (simp add: honest_def)
  have p: "path_str clip_path = clip_path"
    by (simp add: clip_path_def path_str_def path_root_def path_parts_def Let_def)
  then have f: "files (fw_server queue_state) clip_path = Some ''new clip''"
    by (simp add: queue_state_def with_file_def)
  show ?thesis
    unfolding run prod.case
    using clips_are_never_lost [OF c h queue_outside run] unfolding f by (auto simp: plain_hash)
qed

end
