(* ===== verification/Sql.thy ===== *)
theory Sql
  imports Database
begin

text \<open>
  The SQL that the migrations of \<open>alembic/versions\<close> write: values, the expressions of CHECK
  constraints, generated columns and partial indexes with their three-valued logic, table and index
  definitions, the DDL statements with the errors PostgreSQL answers them with, and the rows that a
  schema accepts. Names of tables, indexes and types are kept in one list each; the composite types
  and the index names that PostgreSQL makes up itself are not modelled.
\<close>

section \<open>Values and expressions\<close>

datatype sql_val =
    VNull
  | VBool bool
  | VInt int
  | VFloat rat
  | VText string
  | VTime int \<comment> \<open>microseconds of a \<open>TIMESTAMP WITHOUT TIME ZONE\<close>\<close>
  | VInterval int
  | VInts "int list"
  | VBytes string
  | VJson json

type_synonym sql_row = "string \<Rightarrow> sql_val"

datatype sql_expr =
    Col string
  | Lit sql_val
  | IsNull sql_expr
  | IsNotNull sql_expr
  | SqlAnd sql_expr sql_expr
  | SqlOr sql_expr sql_expr
  | SqlEq sql_expr sql_expr
  | SqlNeq sql_expr sql_expr
  | SqlLess sql_expr sql_expr
  | SqlGreaterEq sql_expr sql_expr
  | SqlIn sql_expr "sql_val list"
  | ArrayLength sql_expr
  | ArrayGet sql_expr nat \<comment> \<open>subscripts start at 1\<close>
  | SqlMinus sql_expr sql_expr
  | ExtractEpoch sql_expr
  | CaseWhen sql_expr sql_expr \<comment> \<open>\<open>CASE WHEN c THEN e ELSE NULL END\<close>\<close>

fun sql_and :: "sql_val \<Rightarrow> sql_val \<Rightarrow> sql_val" where
  "sql_and (VBool False) b = VBool False"
| "sql_and (VBool True) b = b"
| "sql_and a b = (if b = VBool False then VBool False else VNull)"

fun sql_or :: "sql_val \<Rightarrow> sql_val \<Rightarrow> sql_val" where
  "sql_or (VBool True) b = VBool True"
| "sql_or (VBool False) b = b"
| "sql_or a b = (if b = VBool True then VBool True else VNull)"

fun sql_not :: "sql_val \<Rightarrow> sql_val" where
  "sql_not (VBool b) = VBool (\<not> b)"
| "sql_not _ = VNull"

fun num_of :: "sql_val \<Rightarrow> rat option" where
  "num_of (VInt i) = Some (of_int i)"
| "num_of (VFloat q) = Some q"
| "num_of _ = None"

text \<open>A comparison with NULL is NULL. Operands of unrelated types do not pass PostgreSQL's type check.\<close>

definition sql_eq :: "sql_val \<Rightarrow> sql_val \<Rightarrow> sql_val" where
  "sql_eq a b =
     (if a = VNull \<or> b = VNull then VNull
      else case (num_of a, num_of b) of
             (Some x, Some y) \<Rightarrow> VBool (x = y)
           | _ \<Rightarrow> VBool (a = b))"

definition sql_less :: "sql_val \<Rightarrow> sql_val \<Rightarrow> sql_val" where
  "sql_less a b =
     (case (num_of a, num_of b) of
        (Some x, Some y) \<Rightarrow> VBool (x < y)
      | _ \<Rightarrow> (case (a, b) of (VTime x, VTime y) \<Rightarrow> VBool (x < y) | _ \<Rightarrow> VNull))"

fun sql_any :: "sql_val list \<Rightarrow> sql_val" where
  "sql_any [] = VBool False"
| "sql_any (v # vs) = sql_or v (sql_any vs)"

text \<open>\<open>array_length(a, 1)\<close> is NULL for an empty array, a subscript out of range gives NULL.\<close>

fun sql_eval :: "sql_row \<Rightarrow> sql_expr \<Rightarrow> sql_val" where
  "sql_eval r (Col c) = r c"
| "sql_eval r (Lit v) = v"
| "sql_eval r (IsNull e) = VBool (sql_eval r e = VNull)"
| "sql_eval r (IsNotNull e) = VBool (sql_eval r e \<noteq> VNull)"
| "sql_eval r (SqlAnd a b) = sql_and (sql_eval r a) (sql_eval r b)"
| "sql_eval r (SqlOr a b) = sql_or (sql_eval r a) (sql_eval r b)"
| "sql_eval r (SqlEq a b) = sql_eq (sql_eval r a) (sql_eval r b)"
| "sql_eval r (SqlNeq a b) = sql_not (sql_eq (sql_eval r a) (sql_eval r b))"
| "sql_eval r (SqlLess a b) = sql_less (sql_eval r a) (sql_eval r b)"
| "sql_eval r (SqlGreaterEq a b) = sql_not (sql_less (sql_eval r a) (sql_eval r b))"
| "sql_eval r (SqlIn e vs) = sql_any (map (sql_eq (sql_eval r e)) vs)"
| "sql_eval r (ArrayLength e) =
     (case sql_eval r e of VInts (x # xs) \<Rightarrow> VInt (int (length (x # xs))) | _ \<Rightarrow> VNull)"
| "sql_eval r (ArrayGet e n) =
     (case sql_eval r e of
        VInts xs \<Rightarrow> if 1 \<le> n \<and> n \<le> length xs then VInt (xs ! (n - 1)) else VNull
      | _ \<Rightarrow> VNull)"
| "sql_eval r (SqlMinus a b) =
     (case (sql_eval r a, sql_eval r b) of (VTime x, VTime y) \<Rightarrow> VInterval (x - y) | _ \<Rightarrow> VNull)"
| "sql_eval r (ExtractEpoch e) =
     (case sql_eval r e of VInterval d \<Rightarrow> VFloat (total_seconds d) | _ \<Rightarrow> VNull)"
| "sql_eval r (CaseWhen c e) = (if sql_eval r c = VBool True then sql_eval r e else VNull)"

section \<open>Tables, indexes, schemas\<close>

datatype sql_type =
    SInteger
  | SFloat
  | SBoolean
  | SDateTime
  | SString "nat option"
  | SBinary nat
  | SJson
  | SJsonb
  | SIntArray
  | SEnum string "string list" bool \<comment> \<open>name, labels, and whether CREATE TABLE creates the type\<close>

record column =
  col_name :: string
  col_type :: sql_type
  col_nullable :: bool
  col_server_default :: "string option"
  col_computed :: "sql_expr option"

datatype on_delete = RESTRICT | CASCADE | SET_NULL

record foreign_key =
  fk_column :: string
  fk_refers :: string \<comment> \<open>a table, by its \<open>id\<close>\<close>
  fk_on_delete :: on_delete

record table_def =
  td_name :: string
  td_columns :: "column list"
  td_checks :: "(string \<times> sql_expr) list"
  td_foreign_keys :: "foreign_key list"
  td_primary_key :: string
  td_unique :: "string list list"

record index_def =
  ix_name :: string
  ix_table :: string
  ix_columns :: "(string \<times> bool) list" \<comment> \<open>\<open>True\<close> for DESC\<close>
  ix_unique :: bool
  ix_where :: "sql_expr option"
  ix_using :: "string option"

record schema =
  sc_types :: "(string \<times> string list) list"
  sc_tables :: "table_def list"
  sc_indexes :: "index_def list"

definition empty_schema :: schema where
  "empty_schema = \<lparr>sc_types = [], sc_tables = [], sc_indexes = []\<rparr>"

definition find_table :: "schema \<Rightarrow> string \<Rightarrow> table_def option" where
  "find_table S n = find (\<lambda>t. td_name t = n) (sc_tables S)"

definition relation_names :: "schema \<Rightarrow> string list" where
  "relation_names S = map td_name (sc_tables S) @ map ix_name (sc_indexes S)"

section \<open>Data definition\<close>

datatype ddl =
    CreateTable table_def
  | DropTable string
  | CreateIndex index_def
  | DropIndex string
  | CreateType string "string list" \<comment> \<open>\<open>ENUM.create(bind, checkfirst=True)\<close>\<close>
  | DropTypeIfExists string

datatype ddl_error =
    DuplicateTable string
  | UndefinedTable string
  | DuplicateObject string
  | UndefinedObject string
  | UndefinedColumn string
  | DependentObjects string
  | NoSuchRevision

text \<open>The types that CREATE TABLE creates, and those it expects to be there.\<close>

definition types_created :: "table_def \<Rightarrow> (string \<times> string list) list" where
  "types_created t = concat (map (\<lambda>c. case col_type c of SEnum n ls True \<Rightarrow> [(n, ls)] | _ \<Rightarrow> []) (td_columns t))"

definition types_expected :: "table_def \<Rightarrow> string list" where
  "types_expected t = concat (map (\<lambda>c. case col_type c of SEnum n ls False \<Rightarrow> [n] | _ \<Rightarrow> []) (td_columns t))"

definition types_used :: "table_def \<Rightarrow> string list" where
  "types_used t = concat (map (\<lambda>c. case col_type c of SEnum n ls b \<Rightarrow> [n] | _ \<Rightarrow> []) (td_columns t))"

definition first_in :: "('a \<Rightarrow> bool) \<Rightarrow> ('a \<Rightarrow> ddl_error) \<Rightarrow> 'a list \<Rightarrow> (ddl_error + 'b) \<Rightarrow> ddl_error + 'b" where
  "first_in bad err xs r = (case find bad xs of Some x \<Rightarrow> Inl (err x) | None \<Rightarrow> r)"

fun run_ddl :: "ddl \<Rightarrow> schema \<Rightarrow> ddl_error + schema" where
  "run_ddl (CreateTable t) S =
     first_in (\<lambda>ty. fst ty \<in> set (map fst (sc_types S))) (\<lambda>ty. DuplicateObject (fst ty)) (types_created t)
       (let types = sc_types S @ types_created t
        in if td_name t \<in> set (relation_names S) then Inl (DuplicateTable (td_name t))
           else first_in (\<lambda>n. n \<notin> set (map fst types)) UndefinedObject (types_expected t)
             (first_in (\<lambda>k. fk_refers k \<noteq> td_name t \<and> find_table S (fk_refers k) = None)
                (\<lambda>k. UndefinedTable (fk_refers k)) (td_foreign_keys t)
                (Inr (S\<lparr>sc_types := types, sc_tables := sc_tables S @ [t]\<rparr>))))"
| "run_ddl (DropTable n) S =
     (if find_table S n = None then Inl (UndefinedTable n)
      else if \<exists>t \<in> set (sc_tables S). td_name t \<noteq> n \<and> n \<in> set (map fk_refers (td_foreign_keys t))
      then Inl (DependentObjects n)
      else Inr (S\<lparr>sc_tables := filter (\<lambda>t. td_name t \<noteq> n) (sc_tables S),
                  sc_indexes := filter (\<lambda>x. ix_table x \<noteq> n) (sc_indexes S)\<rparr>))"
| "run_ddl (CreateIndex x) S =
     (if ix_name x \<in> set (relation_names S) then Inl (DuplicateTable (ix_name x))
      else case find_table S (ix_table x) of
             None \<Rightarrow> Inl (UndefinedTable (ix_table x))
           | Some t \<Rightarrow>
               first_in (\<lambda>c. fst c \<notin> set (map col_name (td_columns t))) (\<lambda>c. UndefinedColumn (fst c)) (ix_columns x)
                 (Inr (S\<lparr>sc_indexes := sc_indexes S @ [x]\<rparr>)))"
| "run_ddl (DropIndex n) S =
     (if n \<notin> set (map ix_name (sc_indexes S)) then Inl (UndefinedObject n)
      else Inr (S\<lparr>sc_indexes := filter (\<lambda>x. ix_name x \<noteq> n) (sc_indexes S)\<rparr>))"
| "run_ddl (CreateType n labels) S =
     (if n \<in> set (map fst (sc_types S)) then Inr S
      else Inr (S\<lparr>sc_types := sc_types S @ [(n, labels)]\<rparr>))"
| "run_ddl (DropTypeIfExists n) S =
     (if \<exists>t \<in> set (sc_tables S). n \<in> set (types_used t) then Inl (DependentObjects n)
      else Inr (S\<lparr>sc_types := filter (\<lambda>ty. fst ty \<noteq> n) (sc_types S)\<rparr>))"

text \<open>The statements of a script, in a transaction: the first error is the outcome.\<close>

fun run_script :: "ddl list \<Rightarrow> schema \<Rightarrow> ddl_error + schema" where
  "run_script [] S = Inr S"
| "run_script (d # ds) S = (case run_ddl d S of Inl e \<Rightarrow> Inl e | Inr S' \<Rightarrow> run_script ds S')"

lemma run_script_append:
  "run_script (ds @ es) S = (case run_script ds S of Inl e \<Rightarrow> Inl e | Inr S' \<Rightarrow> run_script es S')"
  by (induction ds arbitrary: S) (auto split: sum.splits)

section \<open>The rows a schema accepts\<close>

definition int32 :: "int \<Rightarrow> bool" where
  "int32 i \<longleftrightarrow> - (2 ^ 31) \<le> i \<and> i < 2 ^ 31"

fun type_accepts :: "(string \<times> string list) list \<Rightarrow> sql_type \<Rightarrow> sql_val \<Rightarrow> bool" where
  "type_accepts T _ VNull = True"
| "type_accepts T SInteger (VInt i) = int32 i"
| "type_accepts T SFloat (VFloat _) = True"
| "type_accepts T SBoolean (VBool _) = True"
| "type_accepts T SDateTime (VTime _) = True"
| "type_accepts T (SString None) (VText _) = True"
| "type_accepts T (SString (Some n)) (VText s) = (length s \<le> n)"
| "type_accepts T (SBinary _) (VBytes _) = True"
| "type_accepts T SJson (VJson _) = True"
| "type_accepts T SJsonb (VJson _) = True"
| "type_accepts T SIntArray (VInts is) = list_all int32 is"
| "type_accepts T (SEnum n _ _) (VText s) = (case map_of T n of None \<Rightarrow> False | Some ls \<Rightarrow> s \<in> set ls)"
| "type_accepts T _ _ = False"

text \<open>The row as stored: generated columns are computed from the others.\<close>

definition stored :: "table_def \<Rightarrow> sql_row \<Rightarrow> sql_row" where
  "stored t r = (\<lambda>c. case find (\<lambda>k. col_name k = c) (td_columns t) of
       None \<Rightarrow> VNull
     | Some k \<Rightarrow> (case col_computed k of None \<Rightarrow> r c | Some e \<Rightarrow> sql_eval r e))"

definition column_ok :: "(string \<times> string list) list \<Rightarrow> sql_row \<Rightarrow> column \<Rightarrow> bool" where
  "column_ok T r c \<longleftrightarrow>
     type_accepts T (col_type c) (r (col_name c)) \<and> (col_nullable c \<or> r (col_name c) \<noteq> VNull)"

text \<open>A CHECK constraint is violated by false only.\<close>

definition check_ok :: "sql_row \<Rightarrow> string \<times> sql_expr \<Rightarrow> bool" where
  "check_ok r c \<longleftrightarrow> sql_eval r (snd c) \<noteq> VBool False"

definition fk_ok :: "(string \<Rightarrow> sql_row list) \<Rightarrow> sql_row \<Rightarrow> foreign_key \<Rightarrow> bool" where
  "fk_ok D r k \<longleftrightarrow> r (fk_column k) = VNull \<or> r (fk_column k) \<in> (\<lambda>p. p ''id'') ` set (D (fk_refers k))"

text \<open>Uniqueness over the rows that the index covers; a key with a NULL is never a duplicate.\<close>

definition unique_ok :: "string list \<Rightarrow> sql_expr option \<Rightarrow> sql_row list \<Rightarrow> bool" where
  "unique_ok cols cond rows \<longleftrightarrow>
     distinct (filter (\<lambda>key. VNull \<notin> set key) (map (\<lambda>r. map r cols)
       (filter (\<lambda>r. case cond of None \<Rightarrow> True | Some e \<Rightarrow> sql_eval r e = VBool True) rows)))"

definition table_accepts :: "schema \<Rightarrow> (string \<Rightarrow> sql_row list) \<Rightarrow> table_def \<Rightarrow> bool" where
  "table_accepts S D t \<longleftrightarrow>
     (let rows = map (stored t) (D (td_name t)) in
       list_all (\<lambda>r. list_all (column_ok (sc_types S) r) (td_columns t) \<and> list_all (check_ok r) (td_checks t)
                   \<and> list_all (fk_ok D r) (td_foreign_keys t)) rows
       \<and> unique_ok [td_primary_key t] None rows
       \<and> list_all (\<lambda>cols. unique_ok cols None rows) (td_unique t)
       \<and> list_all (\<lambda>x. unique_ok (map fst (ix_columns x)) (ix_where x) rows)
           (filter (\<lambda>x. ix_unique x \<and> ix_table x = td_name t) (sc_indexes S)))"

definition schema_accepts :: "schema \<Rightarrow> (string \<Rightarrow> sql_row list) \<Rightarrow> bool" where
  "schema_accepts S D \<longleftrightarrow> list_all (table_accepts S D) (sc_tables S)"

end
