(* ===== verification/Migrations.thy ===== *)
theory Migrations
  imports Sql Repositories
begin

text \<open>
  The migrations of \<open>alembic/versions\<close> as data: \<open>3112f42d1e35\<close> (stations and tractors),
  \<open>e31b2289c092\<close> (video files), \<open>0003_events\<close> and \<open>0005_visits\<close>, each with its upgrade and downgrade
  script; the steps of \<open>alembic upgrade +1\<close> and \<open>alembic downgrade -1\<close> along the chain of
  \<open>down_revision\<close>; and the cells in which the rows of the model are stored.
\<close>

section \<open>Columns\<close>

definition col :: "string \<Rightarrow> sql_type \<Rightarrow> bool \<Rightarrow> column" where
  "col n t nullable =
     \<lparr>col_name = n, col_type = t, col_nullable = nullable, col_server_default = None, col_computed = None\<rparr>"

definition with_default :: "string \<Rightarrow> column \<Rightarrow> column" where
  "with_default d c = c\<lparr>col_server_default := Some d\<rparr>"

definition computed :: "sql_expr \<Rightarrow> column \<Rightarrow> column" where
  "computed e c = c\<lparr>col_computed := Some e\<rparr>"

text \<open>The columns of \<open>BaseFields\<close>, in the order in which each script lists them.\<close>

definition base_columns :: "column list" where
  "base_columns =
     [col ''id'' SInteger False,
      with_default ''CURRENT_TIMESTAMP'' (col ''created_at'' SDateTime False),
      with_default ''CURRENT_TIMESTAMP'' (col ''updated_at'' SDateTime False),
      col ''deleted_at'' SDateTime True]"

definition refers :: "string \<Rightarrow> string \<Rightarrow> on_delete \<Rightarrow> foreign_key" where
  "refers c t a = \<lparr>fk_column = c, fk_refers = t, fk_on_delete = a\<rparr>"

definition index :: "string \<Rightarrow> string \<Rightarrow> string list \<Rightarrow> sql_expr option \<Rightarrow> ddl" where
  "index n t cols cond =
     CreateIndex \<lparr>ix_name = n, ix_table = t, ix_columns = map (\<lambda>c. (c, False)) cols, ix_unique = False,
                  ix_where = cond, ix_using = None\<rparr>"

definition unique_index :: "string \<Rightarrow> string \<Rightarrow> string list \<Rightarrow> sql_expr option \<Rightarrow> ddl" where
  "unique_index n t cols cond =
     CreateIndex \<lparr>ix_name = n, ix_table = t, ix_columns = map (\<lambda>c. (c, False)) cols, ix_unique = True,
                  ix_where = cond, ix_using = None\<rparr>"

section \<open>Revision 3112f42d1e35: stations and tractors\<close>

definition stations_table :: table_def where
  "stations_table =
     \<lparr>td_name = ''stations'',
      td_columns =
        [col ''code'' (SString (Some 32)) False, col ''name'' (SString (Some 255)) False,
         col ''location'' (SString None) True, col ''video_dir'' (SString (Some 512)) False,
         col ''roi_polygon'' SJsonb True, col ''is_entry_zone'' SBoolean False,
         col ''is_active'' SBoolean False] @ base_columns,
      td_checks = [], td_foreign_keys = [], td_primary_key = ''id'', td_unique = []\<rparr>"

definition tractors_table :: table_def where
  "tractors_table =
     \<lparr>td_name = ''tractors'',
      td_columns =
        [col ''name'' (SString (Some 255)) False, col ''model'' (SString (Some 255)) True,
         col ''notes'' (SString None) True, col ''is_active'' SBoolean False] @ base_columns
        @ [with_default ''{}'' (col ''aruco_ids'' SIntArray False),
           computed (ArrayGet (Col ''aruco_ids'') 1) (col ''primary_aruco_id'' SInteger True)],
      td_checks = [(''chk_tractors_aruco_ids_nonempty'',
                    SqlGreaterEq (ArrayLength (Col ''aruco_ids'')) (Lit (VInt 1)))],
      td_foreign_keys = [], td_primary_key = ''id'', td_unique = []\<rparr>"

definition initial_upgrade :: "ddl list" where
  "initial_upgrade =
     [CreateTable stations_table,
      unique_index ''ix_stations_code'' ''stations'' [''code''] None,
      CreateTable tractors_table,
      unique_index ''uq_tractors_primary_aruco'' ''tractors'' [''primary_aruco_id''] None,
      CreateIndex \<lparr>ix_name = ''ix_tractors_aruco_ids'', ix_table = ''tractors'',
                   ix_columns = [(''aruco_ids'', False)], ix_unique = False, ix_where = None,
                   ix_using = Some ''gin''\<rparr>]"

definition initial_downgrade :: "ddl list" where
  "initial_downgrade =
     [DropTable ''tractors'', DropIndex ''uq_tractors_primary_aruco'', DropIndex ''ix_tractors_aruco_ids'',
      DropIndex ''ix_stations_code'', DropTable ''stations'']"

section \<open>Revision e31b2289c092: video files\<close>

definition video_files_table :: table_def where
  "video_files_table =
     \<lparr>td_name = ''video_files'',
      td_columns =
        [col ''storage_uri'' (SString (Some 1024)) False, col ''started_at'' SDateTime False,
         col ''ended_at'' SDateTime False, col ''fps'' SFloat True, col ''width'' SInteger True,
         col ''height'' SInteger True, col ''duration_seconds'' SFloat True,
         col ''status'' (SEnum ''videostatus''
           [''CREATED'', ''PROCESSING'', ''COMPLETED'', ''FAILED'', ''INVALID''] True) False,
         col ''retry_count'' SInteger False, col ''error_message'' (SString None) True,
         col ''frames_processed'' SInteger False, col ''triggers_fired'' SInteger False] @ base_columns
        @ [col ''station_id'' SInteger True, col ''content_hash'' (SBinary 32) False,
           col ''events_found'' SInteger False],
      td_checks =
        [(''chk_video_times'', SqlLess (Col ''started_at'') (Col ''ended_at'')),
         (''chk_video_duration'', SqlOr (IsNull (Col ''duration_seconds''))
            (SqlLess (Lit (VInt 0)) (Col ''duration_seconds'')))],
      td_foreign_keys = [refers ''station_id'' ''stations'' RESTRICT],
      td_primary_key = ''id'', td_unique = [[''content_hash'']]\<rparr>"

definition video_files_upgrade :: "ddl list" where
  "video_files_upgrade =
     [CreateTable video_files_table,
      index ''ix_video_files_station_started'' ''video_files'' [''station_id'', ''started_at''] None,
      index ''ix_video_files_status'' ''video_files'' [''status'']
        (Some (SqlIn (Col ''status'') [VText ''FAILED'', VText ''PROCESSING'']))]"

definition video_files_downgrade :: "ddl list" where
  "video_files_downgrade =
     [DropIndex ''ix_video_files_status'', DropIndex ''ix_video_files_station_started'',
      DropTable ''video_files'']"

section \<open>Revision 0003: events\<close>

definition event_type_labels :: "string list" where
  "event_type_labels = [''ENTRY'', ''EXIT'', ''DETECTED'']"

definition detector_method_labels :: "string list" where
  "detector_method_labels = [''aruco'', ''yolo_aruco'', ''color_class'', ''reid'', ''fallback'']"

definition events_table :: table_def where
  "events_table =
     \<lparr>td_name = ''events'',
      td_columns =
        [col ''video_file_id'' SInteger False, col ''tractor_id'' SInteger True,
         col ''aruco_id'' SInteger True,
         with_default ''DETECTED'' (col ''event_type'' (SEnum ''event_type'' event_type_labels False) False),
         with_default ''aruco''
           (col ''detector_method'' (SEnum ''detector_method'' detector_method_labels False) False),
         with_default ''FALSE'' (col ''inside_roi'' SBoolean False), col ''frame_number'' SInteger False,
         col ''timestamp_in_video'' SFloat False,
         with_default ''CURRENT_TIMESTAMP'' (col ''wall_clock_at'' SDateTime False),
         col ''confidence'' SFloat True, col ''bbox'' SJson True, col ''detector_metadata'' SJson True]
        @ base_columns,
      td_checks =
        [(''chk_events_frame_nonneg'', SqlGreaterEq (Col ''frame_number'') (Lit (VInt 0))),
         (''chk_events_ts_nonneg'', SqlGreaterEq (Col ''timestamp_in_video'') (Lit (VInt 0)))],
      td_foreign_keys = [refers ''video_file_id'' ''video_files'' CASCADE,
                         refers ''tractor_id'' ''tractors'' SET_NULL],
      td_primary_key = ''id'', td_unique = []\<rparr>"

definition events_upgrade :: "ddl list" where
  "events_upgrade =
     [CreateType ''event_type'' event_type_labels, CreateType ''detector_method'' detector_method_labels,
      CreateTable events_table,
      index ''ix_events_video_frame'' ''events'' [''video_file_id'', ''frame_number''] None,
      index ''ix_events_tractor_wall'' ''events'' [''tractor_id'', ''wall_clock_at'']
        (Some (IsNotNull (Col ''tractor_id''))),
      index ''ix_events_aruco_wall'' ''events'' [''aruco_id'', ''wall_clock_at'']
        (Some (IsNotNull (Col ''aruco_id''))),
      index ''ix_events_inside_roi_wall'' ''events'' [''wall_clock_at'']
        (Some (SqlEq (Col ''inside_roi'') (Lit (VBool True)))),
      index ''ix_events_detector_method'' ''events'' [''detector_method'', ''wall_clock_at''] None]"

definition events_downgrade :: "ddl list" where
  "events_downgrade =
     [DropIndex ''ix_events_detector_method'', DropIndex ''ix_events_inside_roi_wall'',
      DropIndex ''ix_events_aruco_wall'', DropIndex ''ix_events_tractor_wall'',
      DropIndex ''ix_events_video_frame'', DropTable ''events'',
      DropTypeIfExists ''detector_method'', DropTypeIfExists ''event_type'']"

section \<open>Revision 0005: visits\<close>

definition visit_state_labels :: "string list" where
  "visit_state_labels = [''ENTERING'', ''PRESENT'', ''LEAVING'', ''CLOSED'']"

definition is_closed :: sql_expr where
  "is_closed = SqlEq (Col ''state'') (Lit (VText ''CLOSED''))"

definition visits_table :: table_def where
  "visits_table =
     \<lparr>td_name = ''visits'',
      td_columns =
        [col ''tractor_id'' SInteger False, col ''station_id'' SInteger False,
         with_default ''ENTERING'' (col ''state'' (SEnum ''visit_state'' visit_state_labels False) False),
         col ''arrived_at'' SDateTime True, col ''departed_at'' SDateTime True,
         col ''last_seen_at'' SDateTime True, col ''entry_event_id'' SInteger True,
         col ''exit_event_id'' SInteger True, col ''last_event_id'' SInteger True,
         with_default ''0'' (col ''entry_seen_seconds'' SFloat False)] @ base_columns
        @ [computed (CaseWhen (SqlAnd (SqlAnd is_closed (IsNotNull (Col ''arrived_at'')))
                                 (IsNotNull (Col ''departed_at'')))
                       (ExtractEpoch (SqlMinus (Col ''departed_at'') (Col ''arrived_at''))))
             (col ''duration_seconds'' SFloat True)],
      td_checks =
        [(''chk_visit_arrival'',
            SqlOr (IsNotNull (Col ''arrived_at'')) (SqlEq (Col ''state'') (Lit (VText ''ENTERING'')))),
         (''chk_visit_departure'', SqlEq is_closed (IsNotNull (Col ''departed_at''))),
         (''chk_visit_times'',
            SqlOr (SqlOr (IsNull (Col ''departed_at'')) (IsNull (Col ''arrived_at'')))
              (SqlLess (Col ''arrived_at'') (Col ''departed_at''))),
         (''chk_visit_entry_seen_nonneg'', SqlGreaterEq (Col ''entry_seen_seconds'') (Lit (VInt 0)))],
      td_foreign_keys =
        [refers ''tractor_id'' ''tractors'' RESTRICT, refers ''station_id'' ''stations'' RESTRICT,
         refers ''entry_event_id'' ''events'' SET_NULL, refers ''exit_event_id'' ''events'' SET_NULL,
         refers ''last_event_id'' ''events'' SET_NULL],
      td_primary_key = ''id'', td_unique = []\<rparr>"

definition active_state :: sql_expr where
  "active_state = SqlIn (Col ''state'') [VText ''ENTERING'', VText ''PRESENT'', VText ''LEAVING'']"

definition visits_upgrade :: "ddl list" where
  "visits_upgrade =
     [CreateType ''visit_state'' visit_state_labels,
      CreateTable visits_table,
      index ''ix_visits_active_tractor'' ''visits'' [''tractor_id''] (Some active_state),
      index ''ix_visits_active_station'' ''visits'' [''station_id''] (Some active_state),
      CreateIndex \<lparr>ix_name = ''ix_visits_tractor_time'', ix_table = ''visits'',
                   ix_columns = [(''tractor_id'', False), (''arrived_at'', True)], ix_unique = False,
                   ix_where = Some is_closed, ix_using = None\<rparr>,
      CreateIndex \<lparr>ix_name = ''ix_visits_station_time'', ix_table = ''visits'',
                   ix_columns = [(''station_id'', False), (''arrived_at'', True)], ix_unique = False,
                   ix_where = Some is_closed, ix_using = None\<rparr>,
      unique_index ''uq_visit_open'' ''visits'' [''tractor_id'', ''station_id'']
        (Some (SqlNeq (Col ''state'') (Lit (VText ''CLOSED''))))]"

definition visits_downgrade :: "ddl list" where
  "visits_downgrade =
     [DropIndex ''uq_visit_open'', DropIndex ''ix_visits_station_time'', DropIndex ''ix_visits_tractor_time'',
      DropIndex ''ix_visits_active_station'', DropIndex ''ix_visits_active_tractor'', DropTable ''visits'',
      DropTypeIfExists ''visit_state'']"

section \<open>The chain of revisions\<close>

record migration =
  mg_revision :: string
  mg_down_revision :: "string option"
  mg_upgrade :: "ddl list"
  mg_downgrade :: "ddl list"

definition migrations :: "migration list" where
  "migrations =
     [\<lparr>mg_revision = ''3112f42d1e35'', mg_down_revision = None,
       mg_upgrade = initial_upgrade, mg_downgrade = initial_downgrade\<rparr>,
      \<lparr>mg_revision = ''e31b2289c092'', mg_down_revision = Some ''3112f42d1e35'',
       mg_upgrade = video_files_upgrade, mg_downgrade = video_files_downgrade\<rparr>,
      \<lparr>mg_revision = ''0003_events'', mg_down_revision = Some ''e31b2289c092'',
       mg_upgrade = events_upgrade, mg_downgrade = events_downgrade\<rparr>,
      \<lparr>mg_revision = ''0005_visits'', mg_down_revision = Some ''0003_events'',
       mg_upgrade = visits_upgrade, mg_downgrade = visits_downgrade\<rparr>]"

text \<open>A database with its \<open>alembic_version\<close>.\<close>

record migrated =
  ms_revision :: "string option"
  ms_schema :: schema

definition unmigrated :: migrated where
  "unmigrated = \<lparr>ms_revision = None, ms_schema = empty_schema\<rparr>"

text \<open>A command runs in one transaction: an error leaves the database as it was.\<close>

definition upgrade_step :: "migrated \<Rightarrow> ddl_error + migrated" where
  "upgrade_step s =
     (case find (\<lambda>m. mg_down_revision m = ms_revision s) migrations of
        None \<Rightarrow> Inl NoSuchRevision
      | Some m \<Rightarrow> (case run_script (mg_upgrade m) (ms_schema s) of
            Inl e \<Rightarrow> Inl e
          | Inr S \<Rightarrow> Inr \<lparr>ms_revision = Some (mg_revision m), ms_schema = S\<rparr>))"

definition downgrade_step :: "migrated \<Rightarrow> ddl_error + migrated" where
  "downgrade_step s =
     (case find (\<lambda>m. Some (mg_revision m) = ms_revision s) migrations of
        None \<Rightarrow> Inl NoSuchRevision
      | Some m \<Rightarrow> (case run_script (mg_downgrade m) (ms_schema s) of
            Inl e \<Rightarrow> Inl e
          | Inr S \<Rightarrow> Inr \<lparr>ms_revision = mg_down_revision m, ms_schema = S\<rparr>))"

text \<open>The databases that sequences of these commands lead to.\<close>

inductive migration_reachable :: "migrated \<Rightarrow> bool" where
  start: "migration_reachable unmigrated"
| up: "migration_reachable s \<Longrightarrow> upgrade_step s = Inr s' \<Longrightarrow> migration_reachable s'"
| down: "migration_reachable s \<Longrightarrow> downgrade_step s = Inr s' \<Longrightarrow> migration_reachable s'"

text \<open>\<open>alembic upgrade head\<close>.\<close>

fun upgrade_times :: "nat \<Rightarrow> migrated \<Rightarrow> ddl_error + migrated" where
  "upgrade_times 0 s = Inr s"
| "upgrade_times (Suc n) s = (case upgrade_step s of Inl e \<Rightarrow> Inl e | Inr s' \<Rightarrow> upgrade_times n s')"

section \<open>The rows of the model as cells\<close>

definition opt_val :: "('a \<Rightarrow> sql_val) \<Rightarrow> 'a option \<Rightarrow> sql_val" where
  "opt_val f x = (case x of None \<Rightarrow> VNull | Some a \<Rightarrow> f a)"

definition time_val :: "datetime \<Rightarrow> sql_val" where
  "time_val t = VTime (utc_us t)"

text \<open>A JSON column stores Python's \<open>None\<close> as the JSON value null.\<close>

definition json_val :: "json option \<Rightarrow> sql_val" where
  "json_val x = VJson (case x of None \<Rightarrow> JNull | Some j \<Rightarrow> j)"

definition row_of :: "(string \<times> sql_val) list \<Rightarrow> sql_row" where
  "row_of cells = (\<lambda>c. case map_of cells c of None \<Rightarrow> VNull | Some v \<Rightarrow> v)"

definition base_cells :: "'a row \<Rightarrow> (string \<times> sql_val) list" where
  "base_cells r =
     [(''id'', VInt (row_id r)), (''created_at'', opt_val time_val (created_at r)),
      (''updated_at'', opt_val time_val (updated_at r)), (''deleted_at'', opt_val time_val (deleted_at r))]"

fun event_type_value :: "event_type \<Rightarrow> string" where
  "event_type_value ENTRY = ''ENTRY''"
| "event_type_value EXIT = ''EXIT''"
| "event_type_value DETECTED = ''DETECTED''"

fun detector_method_value :: "detector_method \<Rightarrow> string" where
  "detector_method_value ARUCO = ''aruco''"
| "detector_method_value YOLO_ARUCO = ''yolo_aruco''"
| "detector_method_value COLOR_CLASS = ''color_class''"
| "detector_method_value REID = ''reid''"
| "detector_method_value FALLBACK = ''fallback''"

definition polygon_json :: "int list list \<Rightarrow> json" where
  "polygon_json ps = JList (map (\<lambda>p. JList (map JInt p)) ps)"

definition station_cells :: "station \<Rightarrow> sql_row" where
  "station_cells s = row_of (base_cells s @
     [(''code'', VText (st_code s)), (''name'', VText (st_name s)),
      (''location'', opt_val VText (st_location s)), (''video_dir'', VText (st_video_dir s)),
      (''roi_polygon'', json_val (map_option polygon_json (st_roi_polygon s))),
      (''is_entry_zone'', VBool (st_is_entry_zone s)), (''is_active'', VBool (st_is_active s))])"

definition tractor_cells :: "tractor \<Rightarrow> sql_row" where
  "tractor_cells t = row_of (base_cells t @
     [(''name'', VText (tr_name t)), (''model'', opt_val VText (tr_model t)),
      (''notes'', opt_val VText (tr_notes t)), (''is_active'', VBool (tr_is_active t)),
      (''aruco_ids'', VInts (tr_aruco_ids t))])"

definition video_cells :: "video_file \<Rightarrow> sql_row" where
  "video_cells v = row_of (base_cells v @
     [(''storage_uri'', VText (vf_storage_uri v)), (''started_at'', time_val (vf_started_at v)),
      (''ended_at'', time_val (vf_ended_at v)), (''fps'', opt_val VFloat (vf_fps v)),
      (''width'', opt_val VInt (vf_width v)), (''height'', opt_val VInt (vf_height v)),
      (''duration_seconds'', opt_val VFloat (vf_duration_seconds v)),
      (''status'', VText (video_status_value (vf_status v))),
      (''retry_count'', opt_val VInt (vf_retry_count v)),
      (''error_message'', opt_val VText (vf_error_message v)),
      (''frames_processed'', VInt (vf_frames_processed v)),
      (''triggers_fired'', VInt (vf_triggers_fired v)), (''station_id'', opt_val VInt (vf_station_id v)),
      (''content_hash'', VBytes (vf_content_hash v)), (''events_found'', VInt (vf_events_found v))])"

definition event_cells :: "event \<Rightarrow> sql_row" where
  "event_cells e = row_of (base_cells e @
     [(''video_file_id'', VInt (e_video_file_id e)), (''tractor_id'', opt_val VInt (e_tractor_id e)),
      (''aruco_id'', opt_val VInt (e_aruco_id e)),
      (''event_type'', VText (event_type_value (e_event_type e))),
      (''detector_method'', VText (detector_method_value (e_detector_method e))),
      (''inside_roi'', VBool (e_inside_roi e)), (''frame_number'', VInt (e_frame_number e)),
      (''timestamp_in_video'', VFloat (e_timestamp_in_video e)),
      (''wall_clock_at'', time_val (e_wall_clock_at e)), (''confidence'', opt_val VFloat (e_confidence e)),
      (''bbox'', json_val (e_bbox e)), (''detector_metadata'', json_val (e_detector_metadata e))])"

definition visit_cells :: "visit \<Rightarrow> sql_row" where
  "visit_cells v = row_of (base_cells v @
     [(''tractor_id'', VInt (v_tractor_id v)), (''station_id'', VInt (v_station_id v)),
      (''state'', VText (visit_state_value (v_state v))),
      (''arrived_at'', opt_val time_val (v_arrived_at v)),
      (''departed_at'', opt_val time_val (v_departed_at v)),
      (''last_seen_at'', opt_val time_val (v_last_seen_at v)),
      (''entry_event_id'', opt_val VInt (v_entry_event_id v)),
      (''exit_event_id'', opt_val VInt (v_exit_event_id v)),
      (''last_event_id'', opt_val VInt (v_last_event_id v)),
      (''entry_seen_seconds'', VFloat (v_entry_seen_seconds v))])"

definition contents_of :: "db \<Rightarrow> string \<Rightarrow> sql_row list" where
  "contents_of d n =
     (if n = ''stations'' then map station_cells (tbl_rows (stations d))
      else if n = ''tractors'' then map tractor_cells (tbl_rows (tractors d))
      else if n = ''video_files'' then map video_cells (tbl_rows (videos d))
      else if n = ''events'' then map event_cells (tbl_rows (events d))
      else if n = ''visits'' then map visit_cells (tbl_rows (visits d))
      else [])"

text \<open>
  What the types of the columns ask of a row beyond the constraints: lengths of strings, the range of
  \<open>INTEGER\<close>, and the audit stamps that the database fills in.
\<close>

definition int32_opt :: "int option \<Rightarrow> bool" where
  "int32_opt x \<longleftrightarrow> (case x of None \<Rightarrow> True | Some i \<Rightarrow> int32 i)"

definition base_fits :: "'a row \<Rightarrow> bool" where
  "base_fits r \<longleftrightarrow> int32 (row_id r) \<and> created_at r \<noteq> None \<and> updated_at r \<noteq> None"

definition station_fits :: "station \<Rightarrow> bool" where
  "station_fits s \<longleftrightarrow> base_fits s \<and> length (st_code s) \<le> 32 \<and> length (st_name s) \<le> 255
     \<and> length (st_video_dir s) \<le> 512"

definition tractor_fits :: "tractor \<Rightarrow> bool" where
  "tractor_fits t \<longleftrightarrow> base_fits t \<and> length (tr_name t) \<le> 255
     \<and> (case tr_model t of None \<Rightarrow> True | Some m \<Rightarrow> length m \<le> 255) \<and> list_all int32 (tr_aruco_ids t)"

definition video_fits :: "video_file \<Rightarrow> bool" where
  "video_fits v \<longleftrightarrow> base_fits v \<and> length (vf_storage_uri v) \<le> 1024 \<and> int32_opt (vf_width v)
     \<and> int32_opt (vf_height v) \<and> int32_opt (vf_retry_count v) \<and> int32 (vf_frames_processed v)
     \<and> int32 (vf_triggers_fired v) \<and> int32_opt (vf_station_id v) \<and> int32 (vf_events_found v)"

definition event_fits :: "event \<Rightarrow> bool" where
  "event_fits e \<longleftrightarrow> base_fits e \<and> int32 (e_video_file_id e) \<and> int32_opt (e_tractor_id e)
     \<and> int32_opt (e_aruco_id e) \<and> int32 (e_frame_number e)"

definition visit_fits :: "visit \<Rightarrow> bool" where
  "visit_fits v \<longleftrightarrow> base_fits v \<and> int32 (v_tractor_id v) \<and> int32 (v_station_id v)
     \<and> int32_opt (v_entry_event_id v) \<and> int32_opt (v_exit_event_id v) \<and> int32_opt (v_last_event_id v)"

definition columns_fit :: "db \<Rightarrow> bool" where
  "columns_fit d \<longleftrightarrow> list_all station_fits (tbl_rows (stations d)) \<and> list_all tractor_fits (tbl_rows (tractors d))
     \<and> list_all video_fits (tbl_rows (videos d)) \<and> list_all event_fits (tbl_rows (events d))
     \<and> list_all visit_fits (tbl_rows (visits d))"

definition keys_unique :: "db \<Rightarrow> bool" where
  "keys_unique d \<longleftrightarrow> distinct (table_ids (stations d)) \<and> distinct (table_ids (tractors d))
     \<and> distinct (table_ids (videos d)) \<and> distinct (table_ids (events d)) \<and> distinct (table_ids (visits d))"

end
