(* ===== verification/MigrationProperties.thy ===== *)
theory MigrationProperties
  imports Migrations
begin

text \<open>
  What the migrations build and how they can be undone: the schemas along the chain of revisions, the
  constraints of the final schema, evaluated on the stored rows with SQL's three-valued logic, against
  the predicates of \<open>Schema\<close> and \<open>Database\<close>, and the databases that upgrades and downgrades reach.
\<close>

section \<open>The schemas along the chain\<close>

fun index_of :: "ddl \<Rightarrow> index_def list" where
  "index_of (CreateIndex x) = [x]"
| "index_of _ = []"

definition indexes_of :: "ddl list \<Rightarrow> index_def list" where
  "indexes_of ds = concat (map index_of ds)"

definition video_status_type :: "string \<times> string list" where
  "video_status_type = (''videostatus'', [''CREATED'', ''PROCESSING'', ''COMPLETED'', ''FAILED'', ''INVALID''])"

definition event_types :: "(string \<times> string list) list" where
  "event_types = [(''event_type'', event_type_labels), (''detector_method'', detector_method_labels)]"

definition at_initial :: "(string \<times> string list) list \<Rightarrow> migrated" where
  "at_initial types = \<lparr>ms_revision = Some ''3112f42d1e35'', ms_schema =
     \<lparr>sc_types = types, sc_tables = [stations_table, tractors_table], sc_indexes = indexes_of initial_upgrade\<rparr>\<rparr>"

definition at_videos :: migrated where
  "at_videos = \<lparr>ms_revision = Some ''e31b2289c092'', ms_schema =
     \<lparr>sc_types = [video_status_type], sc_tables = [stations_table, tractors_table, video_files_table],
      sc_indexes = indexes_of (initial_upgrade @ video_files_upgrade)\<rparr>\<rparr>"

definition at_events :: migrated where
  "at_events = \<lparr>ms_revision = Some ''0003_events'', ms_schema =
     \<lparr>sc_types = video_status_type # event_types,
      sc_tables = [stations_table, tractors_table, video_files_table, events_table],
      sc_indexes = indexes_of (initial_upgrade @ video_files_upgrade @ events_upgrade)\<rparr>\<rparr>"

definition at_head :: migrated where
  "at_head = \<lparr>ms_revision = Some ''0005_visits'', ms_schema =
     \<lparr>sc_types = video_status_type # event_types @ [(''visit_state'', visit_state_labels)],
      sc_tables = [stations_table, tractors_table, video_files_table, events_table, visits_table],
      sc_indexes = indexes_of (initial_upgrade @ video_files_upgrade @ events_upgrade @ visits_upgrade)\<rparr>\<rparr>"

lemma up_unmigrated: "upgrade_step unmigrated = Inr (at_initial [])"
  by code_simp

lemma up_initial: "upgrade_step (at_initial []) = Inr at_videos"
  by code_simp

lemma up_videos: "upgrade_step at_videos = Inr at_events"
  by code_simp

lemma up_events: "upgrade_step at_events = Inr at_head"
  by code_simp

lemma up_head: "upgrade_step at_head = Inl NoSuchRevision"
  by code_simp

lemma down_head: "downgrade_step at_head = Inr at_events"
  by code_simp

lemma down_events: "downgrade_step at_events = Inr at_videos"
  by code_simp

lemma down_videos: "downgrade_step at_videos = Inr (at_initial [video_status_type])"
  by code_simp

lemma down_initial: "downgrade_step (at_initial []) = Inl (UndefinedObject ''uq_tractors_primary_aruco'')"
  by code_simp

lemma down_left: "downgrade_step (at_initial [video_status_type]) = Inl (UndefinedObject ''uq_tractors_primary_aruco'')"
  by code_simp

lemma up_left: "upgrade_step (at_initial [video_status_type]) = Inl (DuplicateObject ''videostatus'')"
  by code_simp

lemma down_unmigrated: "downgrade_step unmigrated = Inl NoSuchRevision"
  by code_simp

section \<open>The constraints of the final schema\<close>

lemmas column_defs = col_def with_default_def computed_def base_columns_def

lemma opt_val_null [simp]:
  "opt_val VInt x = VNull \<longleftrightarrow> x = None" "opt_val VText y = VNull \<longleftrightarrow> y = None"
  "opt_val VFloat q = VNull \<longleftrightarrow> q = None" "opt_val time_val t = VNull \<longleftrightarrow> t = None"
  "time_val u \<noteq> VNull" "json_val j \<noteq> VNull"
  by (auto simp: opt_val_def time_val_def json_val_def split: option.splits)

lemma type_accepts_opt [simp]:
  "type_accepts T SInteger (opt_val VInt x) \<longleftrightarrow> int32_opt x"
  "type_accepts T (SString None) (opt_val VText y)"
  "type_accepts T (SString (Some n)) (opt_val VText y) \<longleftrightarrow> (case y of None \<Rightarrow> True | Some s \<Rightarrow> length s \<le> n)"
  "type_accepts T SFloat (opt_val VFloat q)"
  "type_accepts T SDateTime (opt_val time_val t)"
  "type_accepts T SDateTime (time_val u)"
  "type_accepts T SJson (json_val j)" "type_accepts T SJsonb (json_val j)"
  by (auto simp: opt_val_def time_val_def json_val_def int32_opt_def split: option.splits)

lemma station_stored:
  "stored stations_table (station_cells s) ''id'' = VInt (row_id s)"
  "stored stations_table (station_cells s) ''created_at'' = opt_val time_val (created_at s)"
  "stored stations_table (station_cells s) ''updated_at'' = opt_val time_val (updated_at s)"
  "stored stations_table (station_cells s) ''deleted_at'' = opt_val time_val (deleted_at s)"
  "stored stations_table (station_cells s) ''code'' = VText (st_code s)"
  "stored stations_table (station_cells s) ''name'' = VText (st_name s)"
  "stored stations_table (station_cells s) ''location'' = opt_val VText (st_location s)"
  "stored stations_table (station_cells s) ''video_dir'' = VText (st_video_dir s)"
  "stored stations_table (station_cells s) ''roi_polygon'' = json_val (map_option polygon_json (st_roi_polygon s))"
  "stored stations_table (station_cells s) ''is_entry_zone'' = VBool (st_is_entry_zone s)"
  "stored stations_table (station_cells s) ''is_active'' = VBool (st_is_active s)"
  by (simp_all add: stored_def stations_table_def column_defs station_cells_def row_of_def base_cells_def)

lemma tractor_stored:
  "stored tractors_table (tractor_cells t) ''id'' = VInt (row_id t)"
  "stored tractors_table (tractor_cells t) ''created_at'' = opt_val time_val (created_at t)"
  "stored tractors_table (tractor_cells t) ''updated_at'' = opt_val time_val (updated_at t)"
  "stored tractors_table (tractor_cells t) ''deleted_at'' = opt_val time_val (deleted_at t)"
  "stored tractors_table (tractor_cells t) ''name'' = VText (tr_name t)"
  "stored tractors_table (tractor_cells t) ''model'' = opt_val VText (tr_model t)"
  "stored tractors_table (tractor_cells t) ''notes'' = opt_val VText (tr_notes t)"
  "stored tractors_table (tractor_cells t) ''is_active'' = VBool (tr_is_active t)"
  "stored tractors_table (tractor_cells t) ''aruco_ids'' = VInts (tr_aruco_ids t)"
  by (simp_all add: stored_def tractors_table_def column_defs tractor_cells_def row_of_def base_cells_def)

lemma video_stored:
  "stored video_files_table (video_cells v) ''id'' = VInt (row_id v)"
  "stored video_files_table (video_cells v) ''created_at'' = opt_val time_val (created_at v)"
  "stored video_files_table (video_cells v) ''updated_at'' = opt_val time_val (updated_at v)"
  "stored video_files_table (video_cells v) ''deleted_at'' = opt_val time_val (deleted_at v)"
  "stored video_files_table (video_cells v) ''storage_uri'' = VText (vf_storage_uri v)"
  "stored video_files_table (video_cells v) ''started_at'' = time_val (vf_started_at v)"
  "stored video_files_table (video_cells v) ''ended_at'' = time_val (vf_ended_at v)"
  "stored video_files_table (video_cells v) ''fps'' = opt_val VFloat (vf_fps v)"
  "stored video_files_table (video_cells v) ''width'' = opt_val VInt (vf_width v)"
  "stored video_files_table (video_cells v) ''height'' = opt_val VInt (vf_height v)"
  "stored video_files_table (video_cells v) ''duration_seconds'' = opt_val VFloat (vf_duration_seconds v)"
  "stored video_files_table (video_cells v) ''status'' = VText (video_status_value (vf_status v))"
  "stored video_files_table (video_cells v) ''retry_count'' = opt_val VInt (vf_retry_count v)"
  "stored video_files_table (video_cells v) ''error_message'' = opt_val VText (vf_error_message v)"
  "stored video_files_table (video_cells v) ''frames_processed'' = VInt (vf_frames_processed v)"
  "stored video_files_table (video_cells v) ''triggers_fired'' = VInt (vf_triggers_fired v)"
  "stored video_files_table (video_cells v) ''station_id'' = opt_val VInt (vf_station_id v)"
  "stored video_files_table (video_cells v) ''content_hash'' = VBytes (vf_content_hash v)"
  "stored video_files_table (video_cells v) ''events_found'' = VInt (vf_events_found v)"
  by (simp_all add: stored_def video_files_table_def column_defs video_cells_def row_of_def base_cells_def)

lemma event_stored:
  "stored events_table (event_cells e) ''id'' = VInt (row_id e)"
  "stored events_table (event_cells e) ''created_at'' = opt_val time_val (created_at e)"
  "stored events_table (event_cells e) ''updated_at'' = opt_val time_val (updated_at e)"
  "stored events_table (event_cells e) ''deleted_at'' = opt_val time_val (deleted_at e)"
  "stored events_table (event_cells e) ''video_file_id'' = VInt (e_video_file_id e)"
  "stored events_table (event_cells e) ''tractor_id'' = opt_val VInt (e_tractor_id e)"
  "stored events_table (event_cells e) ''aruco_id'' = opt_val VInt (e_aruco_id e)"
  "stored events_table (event_cells e) ''event_type'' = VText (event_type_value (e_event_type e))"
  "stored events_table (event_cells e) ''detector_method'' = VText (detector_method_value (e_detector_method e))"
  "stored events_table (event_cells e) ''inside_roi'' = VBool (e_inside_roi e)"
  "stored events_table (event_cells e) ''frame_number'' = VInt (e_frame_number e)"
  "stored events_table (event_cells e) ''timestamp_in_video'' = VFloat (e_timestamp_in_video e)"
  "stored events_table (event_cells e) ''wall_clock_at'' = time_val (e_wall_clock_at e)"
  "stored events_table (event_cells e) ''confidence'' = opt_val VFloat (e_confidence e)"
  "stored events_table (event_cells e) ''bbox'' = json_val (e_bbox e)"
  "stored events_table (event_cells e) ''detector_metadata'' = json_val (e_detector_metadata e)"
  by (simp_all add: stored_def events_table_def column_defs event_cells_def row_of_def base_cells_def)

lemma visit_stored:
  "stored visits_table (visit_cells v) ''id'' = VInt (row_id v)"
  "stored visits_table (visit_cells v) ''created_at'' = opt_val time_val (created_at v)"
  "stored visits_table (visit_cells v) ''updated_at'' = opt_val time_val (updated_at v)"
  "stored visits_table (visit_cells v) ''deleted_at'' = opt_val time_val (deleted_at v)"
  "stored visits_table (visit_cells v) ''tractor_id'' = VInt (v_tractor_id v)"
  "stored visits_table (visit_cells v) ''station_id'' = VInt (v_station_id v)"
  "stored visits_table (visit_cells v) ''state'' = VText (visit_state_value (v_state v))"
  "stored visits_table (visit_cells v) ''arrived_at'' = opt_val time_val (v_arrived_at v)"
  "stored visits_table (visit_cells v) ''departed_at'' = opt_val time_val (v_departed_at v)"
  "stored visits_table (visit_cells v) ''last_seen_at'' = opt_val time_val (v_last_seen_at v)"
  "stored visits_table (visit_cells v) ''entry_event_id'' = opt_val VInt (v_entry_event_id v)"
  "stored visits_table (visit_cells v) ''exit_event_id'' = opt_val VInt (v_exit_event_id v)"
  "stored visits_table (visit_cells v) ''last_event_id'' = opt_val VInt (v_last_event_id v)"
  "stored visits_table (visit_cells v) ''entry_seen_seconds'' = VFloat (v_entry_seen_seconds v)"
  by (simp_all add: stored_def visits_table_def column_defs visit_cells_def row_of_def base_cells_def)

lemma sql_eq_simps [simp]:
  "sql_eq (VBool a) (VBool b) = VBool (a = b)" "sql_eq (VText s) (VText t) = VBool (s = t)"
  by (simp_all add: sql_eq_def)

lemma sql_less_simps [simp]:
  "sql_less (VInt i) (VInt j) = VBool (i < j)" "sql_less (VFloat q) (VFloat r) = VBool (q < r)"
  "sql_less (VInt i) (VFloat q) = VBool (of_int i < q)" "sql_less (VFloat q) (VInt i) = VBool (q < of_int i)"
  "sql_less (VTime x) (VTime y) = VBool (x < y)" "sql_less VNull v = VNull" "sql_less v VNull = VNull"
  by (auto simp: sql_less_def split: sql_val.splits option.splits)

lemma sql_or_simps [simp]:
  "sql_or (VBool a) (VBool b) = VBool (a \<or> b)" "sql_or VNull (VBool b) = (if b then VBool True else VNull)"
  "sql_or (VBool a) VNull = (if a then VBool True else VNull)"
  by (cases a; cases b; simp)+

lemma sql_and_simps [simp]: "sql_and (VBool a) (VBool b) = VBool (a \<and> b)"
  by (cases a; cases b; simp)

lemma tractor_generated:
  "stored tractors_table (tractor_cells t) ''primary_aruco_id'' = opt_val VInt (primary_aruco_id t)"
proof -
  have "stored tractors_table (tractor_cells t) ''primary_aruco_id'' =
      sql_eval (tractor_cells t) (ArrayGet (Col ''aruco_ids'') 1)"
    by (simp add: stored_def tractors_table_def column_defs)
  also have "\<dots> = opt_val VInt (primary_aruco_id t)"
    by (cases "tr_aruco_ids t") (simp_all add: tractor_cells_def row_of_def base_cells_def primary_aruco_id_def first_or_none_def opt_val_def)
  finally show ?thesis .
qed

lemma visit_generated:
  "stored visits_table (visit_cells v) ''duration_seconds'' = opt_val VFloat (computed_duration v)"
proof -
  have cells: "visit_cells v ''state'' = VText (visit_state_value (v_state v))"
    "visit_cells v ''arrived_at'' = opt_val time_val (v_arrived_at v)"
    "visit_cells v ''departed_at'' = opt_val time_val (v_departed_at v)"
    by (simp_all add: visit_cells_def row_of_def base_cells_def)
  have closed: "visit_state_value (v_state v) = ''CLOSED'' \<longleftrightarrow> v_state v = CLOSED" by (cases "v_state v") auto
  have "stored visits_table (visit_cells v) ''duration_seconds'' =
      sql_eval (visit_cells v) (CaseWhen (SqlAnd (SqlAnd is_closed (IsNotNull (Col ''arrived_at'')))
                                 (IsNotNull (Col ''departed_at'')))
                       (ExtractEpoch (SqlMinus (Col ''departed_at'') (Col ''arrived_at''))))"
    by (simp add: stored_def visits_table_def column_defs)
  also have "\<dots> = opt_val VFloat (computed_duration v)"
    by (cases "v_arrived_at v"; cases "v_departed_at v"; cases "v_state v = CLOSED")
      (simp_all add: is_closed_def cells closed computed_duration_def opt_val_def time_val_def secs_between_def)
  finally show ?thesis .
qed

text \<open>The types and NOT NULL of the columns, table by table.\<close>

definition head_types :: "(string \<times> string list) list" where
  "head_types = sc_types (ms_schema at_head)"

lemma head_labels:
  "map_of head_types ''videostatus'' = Some [''CREATED'', ''PROCESSING'', ''COMPLETED'', ''FAILED'', ''INVALID'']"
  "map_of head_types ''event_type'' = Some event_type_labels"
  "map_of head_types ''detector_method'' = Some detector_method_labels"
  "map_of head_types ''visit_state'' = Some visit_state_labels"
  by (simp_all add: head_types_def at_head_def video_status_type_def event_types_def)

lemma status_label: "video_status_value s \<in> {''CREATED'', ''PROCESSING'', ''COMPLETED'', ''FAILED'', ''INVALID''}"
  by (cases s) auto

lemma event_type_label: "event_type_value x \<in> set event_type_labels"
  by (cases x) (auto simp: event_type_labels_def)

lemma detector_method_label: "detector_method_value x \<in> set detector_method_labels"
  by (cases x) (auto simp: detector_method_labels_def)

lemma visit_state_label: "visit_state_value x \<in> set visit_state_labels \<longleftrightarrow> x \<noteq> ABSENT"
  by (cases x) (auto simp: visit_state_labels_def)

lemma station_columns:
  "list_all (column_ok head_types (stored stations_table (station_cells s))) (td_columns stations_table)
   \<longleftrightarrow> station_fits s"
  unfolding stations_table_def [THEN arg_cong, of td_columns]
  by (auto simp: column_defs column_ok_def station_stored station_fits_def base_fits_def)

lemma visit_columns:
  "list_all (column_ok head_types (stored visits_table (visit_cells v))) (td_columns visits_table)
   \<longleftrightarrow> visit_fits v \<and> v_state v \<noteq> ABSENT"
  unfolding visits_table_def [THEN arg_cong, of td_columns]
  by (auto simp: column_defs column_ok_def visit_stored visit_generated visit_fits_def base_fits_def head_labels visit_state_label)

lemma visit_checks_sql:
  "list_all (check_ok (stored visits_table (visit_cells v))) (td_checks visits_table)
   \<longleftrightarrow> chk_visit_arrival v \<and> chk_visit_departure v \<and> chk_visit_times v \<and> chk_visit_entry_seen_nonneg v"
proof -
  have labels: "visit_state_value (v_state v) = ''CLOSED'' \<longleftrightarrow> v_state v = CLOSED"
    "visit_state_value (v_state v) = ''ENTERING'' \<longleftrightarrow> v_state v = ENTERING"
    by (cases "v_state v"; simp)+
  show ?thesis
    unfolding visits_table_def [THEN arg_cong, of td_checks]
    by (simp add: check_ok_def visit_stored is_closed_def labels visit_checks)
      (auto simp: opt_val_def time_val_def split: option.splits)
qed

lemma tractor_columns:
  "list_all (column_ok head_types (stored tractors_table (tractor_cells t))) (td_columns tractors_table)
   \<longleftrightarrow> tractor_fits t"
proof -
  have p: "list_all int32 (tr_aruco_ids t) \<Longrightarrow> int32_opt (primary_aruco_id t)"
    by (cases "tr_aruco_ids t") (auto simp: primary_aruco_id_def first_or_none_def int32_opt_def)
  show ?thesis
    unfolding tractors_table_def [THEN arg_cong, of td_columns]
    by (auto simp: column_defs column_ok_def tractor_stored tractor_generated tractor_fits_def base_fits_def dest: p)
qed

lemma tractor_checks_sql:
  "list_all (check_ok (stored tractors_table (tractor_cells t))) (td_checks tractors_table)
   \<longleftrightarrow> chk_tractors_aruco_ids_nonempty t"
  unfolding tractors_table_def [THEN arg_cong, of td_checks]
  by (cases "tr_aruco_ids t") (simp_all add: check_ok_def tractor_stored chk_tractors_aruco_ids_nonempty_def)

lemma video_columns:
  "list_all (column_ok head_types (stored video_files_table (video_cells v))) (td_columns video_files_table)
   \<longleftrightarrow> video_fits v \<and> vf_retry_count v \<noteq> None"
  unfolding video_files_table_def [THEN arg_cong, of td_columns]
  using status_label [of "vf_status v"]
  by (auto simp: column_defs column_ok_def video_stored video_fits_def base_fits_def head_labels)

lemma video_checks_sql:
  "list_all (check_ok (stored video_files_table (video_cells v))) (td_checks video_files_table)
   \<longleftrightarrow> chk_video_times v \<and> chk_video_duration v"
  unfolding video_files_table_def [THEN arg_cong, of td_checks]
  by (auto simp: check_ok_def video_stored chk_video_times_def chk_video_duration_def opt_val_def time_val_def split: option.splits)

lemma event_columns:
  "list_all (column_ok head_types (stored events_table (event_cells e))) (td_columns events_table)
   \<longleftrightarrow> event_fits e"
  unfolding events_table_def [THEN arg_cong, of td_columns]
  by (auto simp: column_defs column_ok_def event_stored event_fits_def base_fits_def head_labels
      event_type_label detector_method_label)

lemma event_checks_sql:
  "list_all (check_ok (stored events_table (event_cells e))) (td_checks events_table) \<longleftrightarrow> event_row_ok e"
  unfolding events_table_def [THEN arg_cong, of td_checks]
  by (auto simp: check_ok_def event_stored event_row_ok_def)

text \<open>Foreign keys.\<close>

lemma parent_ids:
  "VInt i \<in> (\<lambda>p. p ''id'') ` set (contents_of d ''stations'') \<longleftrightarrow> fk (stations d) i"
  "VInt i \<in> (\<lambda>p. p ''id'') ` set (contents_of d ''tractors'') \<longleftrightarrow> fk (tractors d) i"
  "VInt i \<in> (\<lambda>p. p ''id'') ` set (contents_of d ''video_files'') \<longleftrightarrow> fk (videos d) i"
  "VInt i \<in> (\<lambda>p. p ''id'') ` set (contents_of d ''events'') \<longleftrightarrow> fk (events d) i"
  by (auto simp: contents_of_def fk_def table_ids_def station_cells_def tractor_cells_def video_cells_def
      event_cells_def row_of_def base_cells_def image_iff)

lemma fk_ok_refers:
  "fk_ok D r (refers c t a) \<longleftrightarrow> r c = VNull \<or> r c \<in> (\<lambda>p. p ''id'') ` set (D t)"
  by (simp add: fk_ok_def refers_def)

lemma fk_cell:
  assumes "\<And>i. VInt i \<in> P \<longleftrightarrow> fk t i"
  shows "opt_val VInt x = VNull \<or> opt_val VInt x \<in> P \<longleftrightarrow> fk_opt t x"
  using assms by (cases x) (simp_all add: opt_val_def fk_opt_def)

lemma video_fks_sql:
  "list_all (fk_ok (contents_of d) (stored video_files_table (video_cells v))) (td_foreign_keys video_files_table)
   \<longleftrightarrow> fk_opt (stations d) (vf_station_id v)"
  unfolding video_files_table_def [THEN arg_cong, of td_foreign_keys]
  by (simp del: opt_val_null add: fk_ok_refers video_stored fk_cell [OF parent_ids(1)])

lemma event_fks_sql:
  "list_all (fk_ok (contents_of d) (stored events_table (event_cells e))) (td_foreign_keys events_table)
   \<longleftrightarrow> fk (videos d) (e_video_file_id e) \<and> fk_opt (tractors d) (e_tractor_id e)"
  unfolding events_table_def [THEN arg_cong, of td_foreign_keys]
  by (simp del: opt_val_null add: fk_ok_refers event_stored fk_cell [OF parent_ids(2)] parent_ids)

lemma visit_fks_sql:
  "list_all (fk_ok (contents_of d) (stored visits_table (visit_cells v))) (td_foreign_keys visits_table)
   \<longleftrightarrow> visit_fks d v"
  unfolding visits_table_def [THEN arg_cong, of td_foreign_keys]
  by (simp del: opt_val_null add: fk_ok_refers visit_stored fk_cell [OF parent_ids(4)] parent_ids visit_fks_def)

text \<open>Unique keys.\<close>

lemma unique_ok_map:
  "unique_ok cols cond (map g xs) \<longleftrightarrow>
     distinct (map (\<lambda>x. map (g x) cols)
       (filter (\<lambda>x. (case cond of None \<Rightarrow> True | Some e \<Rightarrow> sql_eval (g x) e = VBool True)
                   \<and> VNull \<notin> set (map (g x) cols)) xs))"
  by (simp add: unique_ok_def filter_map comp_def conj_commute)

lemma unique_key:
  assumes "\<And>x. g x c = K (k x)" and "inj K" and "\<And>a. K a \<noteq> VNull"
  shows "unique_ok [c] None (map g xs) \<longleftrightarrow> distinct (map k xs)"
proof -
  have "unique_ok [c] None (map g xs) \<longleftrightarrow> distinct (map (\<lambda>a. [K a]) (map k xs))"
    using assms(3) [THEN not_sym] by (simp add: unique_ok_map assms(1) comp_def)
  also have "\<dots> \<longleftrightarrow> distinct (map k xs)"
    using assms(2) by (simp only: distinct_map) (auto simp: inj_on_def)
  finally show ?thesis .
qed

lemma unique_optional_key:
  assumes "\<And>x. g x c = opt_val VInt (k x)"
  shows "unique_ok [c] None (map g xs) \<longleftrightarrow> distinct (filter (\<lambda>p. p \<noteq> None) (map k xs))"
proof -
  have "unique_ok [c] None (map g xs) \<longleftrightarrow> distinct (map (\<lambda>p. [opt_val VInt p]) (filter (\<lambda>p. p \<noteq> None) (map k xs)))"
    using opt_val_null(1) [THEN eq_commute [THEN trans]] by (simp add: unique_ok_map assms comp_def filter_map)
  also have "\<dots> \<longleftrightarrow> distinct (filter (\<lambda>p. p \<noteq> None) (map k xs))"
    by (subst distinct_map) (auto simp: inj_on_def opt_val_def)
  finally show ?thesis .
qed

lemma unique_open_visits:
  "unique_ok [''tractor_id'', ''station_id''] (Some (SqlNeq (Col ''state'') (Lit (VText ''CLOSED''))))
     (map (\<lambda>v. stored visits_table (visit_cells v)) vs) \<longleftrightarrow> uq_visit_open vs"
proof -
  have closed: "visit_state_value s = ''CLOSED'' \<longleftrightarrow> s = CLOSED" for s by (cases s) auto
  have "unique_ok [''tractor_id'', ''station_id''] (Some (SqlNeq (Col ''state'') (Lit (VText ''CLOSED''))))
     (map (\<lambda>v. stored visits_table (visit_cells v)) vs) \<longleftrightarrow>
     distinct (map (\<lambda>(a, b). [VInt a, VInt b]) (map visit_pair (filter visit_is_open vs)))"
    by (simp add: unique_ok_map visit_stored closed comp_def visit_pair_def visit_is_open_def [abs_def])
  also have "\<dots> \<longleftrightarrow> uq_visit_open vs"
    by (subst distinct_map) (auto simp: uq_visit_open_def inj_on_def split: prod.splits)
  finally show ?thesis .
qed

lemma contents_simps:
  "contents_of d ''stations'' = map station_cells (tbl_rows (stations d))"
  "contents_of d ''tractors'' = map tractor_cells (tbl_rows (tractors d))"
  "contents_of d ''video_files'' = map video_cells (tbl_rows (videos d))"
  "contents_of d ''events'' = map event_cells (tbl_rows (events d))"
  "contents_of d ''visits'' = map visit_cells (tbl_rows (visits d))"
  by (simp_all add: contents_of_def)

lemma table_parts:
  "td_name stations_table = ''stations''" "td_name tractors_table = ''tractors''"
  "td_name video_files_table = ''video_files''" "td_name events_table = ''events''"
  "td_name visits_table = ''visits''"
  "td_primary_key stations_table = ''id''" "td_primary_key tractors_table = ''id''"
  "td_primary_key video_files_table = ''id''" "td_primary_key events_table = ''id''"
  "td_primary_key visits_table = ''id''"
  "td_unique stations_table = []" "td_unique tractors_table = []" "td_unique video_files_table = [[''content_hash'']]"
  "td_unique events_table = []" "td_unique visits_table = []"
  "td_checks stations_table = []" "td_foreign_keys stations_table = []" "td_foreign_keys tractors_table = []"
  by (simp_all add: stations_table_def tractors_table_def video_files_table_def events_table_def visits_table_def)

definition unique_indexes :: "schema \<Rightarrow> string \<Rightarrow> (string list \<times> sql_expr option) list" where
  "unique_indexes S n = map (\<lambda>x. (map fst (ix_columns x), ix_where x))
     (filter (\<lambda>x. ix_unique x \<and> ix_table x = n) (sc_indexes S))"

lemma head_unique:
  "unique_indexes (ms_schema at_head) ''stations'' = [([''code''], None)]"
  "unique_indexes (ms_schema at_head) ''tractors'' = [([''primary_aruco_id''], None)]"
  "unique_indexes (ms_schema at_head) ''video_files'' = []"
  "unique_indexes (ms_schema at_head) ''events'' = []"
  "unique_indexes (ms_schema at_head) ''visits'' =
     [([''tractor_id'', ''station_id''], Some (SqlNeq (Col ''state'') (Lit (VText ''CLOSED''))))]"
  by (simp_all add: unique_indexes_def at_head_def indexes_of_def initial_upgrade_def video_files_upgrade_def
      events_upgrade_def visits_upgrade_def index_def unique_index_def)

lemma table_accepts_split:
  assumes "D (td_name t) = map cells xs" and "ms_schema at_head = S"
  shows "table_accepts S D t \<longleftrightarrow>
     list_all (\<lambda>x. list_all (column_ok head_types (stored t (cells x))) (td_columns t)
        \<and> list_all (check_ok (stored t (cells x))) (td_checks t)
        \<and> list_all (fk_ok D (stored t (cells x))) (td_foreign_keys t)) xs
     \<and> unique_ok [td_primary_key t] None (map (\<lambda>x. stored t (cells x)) xs)
     \<and> list_all (\<lambda>cols. unique_ok cols None (map (\<lambda>x. stored t (cells x)) xs)) (td_unique t)
     \<and> list_all (\<lambda>(cols, cond). unique_ok cols cond (map (\<lambda>x. stored t (cells x)) xs))
         (unique_indexes S (td_name t))"
  using assms(1) unfolding assms(2) [symmetric]
  by (simp add: table_accepts_def head_types_def list_all_iff unique_indexes_def comp_def Let_def)

lemma list_all_conj: "list_all (\<lambda>x. P x \<and> Q x) xs \<longleftrightarrow> list_all P xs \<and> list_all Q xs"
  by (auto simp: list_all_iff)

lemma inj_vals: "inj VInt" "inj VText" "inj VBytes"
  by (auto simp: inj_def)

lemma stations_accepted:
  "table_accepts (ms_schema at_head) (contents_of d) stations_table \<longleftrightarrow>
     list_all station_fits (tbl_rows (stations d)) \<and> distinct (table_ids (stations d)) \<and> stations_ok d"
  by (subst table_accepts_split [OF _ refl, where cells = station_cells and xs = "tbl_rows (stations d)"])
    (simp_all add: contents_simps table_parts head_unique station_columns table_ids_def stations_ok_def
      unique_key [where k = row_id and K = VInt] unique_key [where k = st_code and K = VText] station_stored inj_vals)

lemma tractors_accepted:
  "table_accepts (ms_schema at_head) (contents_of d) tractors_table \<longleftrightarrow>
     list_all tractor_fits (tbl_rows (tractors d)) \<and> distinct (table_ids (tractors d)) \<and> tractors_ok d"
  by (subst table_accepts_split [OF _ refl, where cells = tractor_cells and xs = "tbl_rows (tractors d)"])
    (auto simp: contents_simps table_parts head_unique tractor_columns tractor_checks_sql table_ids_def tractors_ok_def
      unique_key [where k = row_id and K = VInt] tractor_stored inj_vals list_all_conj
      unique_optional_key [where k = primary_aruco_id] tractor_generated uq_tractors_primary_aruco_def)

lemma videos_accepted:
  "table_accepts (ms_schema at_head) (contents_of d) video_files_table \<longleftrightarrow>
     list_all video_fits (tbl_rows (videos d)) \<and> distinct (table_ids (videos d)) \<and> videos_ok d"
  by (subst table_accepts_split [OF _ refl, where cells = video_cells and xs = "tbl_rows (videos d)"])
    (auto simp: contents_simps table_parts head_unique video_columns video_checks_sql video_fks_sql table_ids_def
      videos_ok_def video_row_ok_def unique_key [where k = row_id and K = VInt]
      unique_key [where k = vf_content_hash and K = VBytes] video_stored inj_vals list_all_conj)

lemma events_accepted:
  "table_accepts (ms_schema at_head) (contents_of d) events_table \<longleftrightarrow>
     list_all event_fits (tbl_rows (events d)) \<and> distinct (table_ids (events d)) \<and> events_ok d"
  by (subst table_accepts_split [OF _ refl, where cells = event_cells and xs = "tbl_rows (events d)"])
    (auto simp: contents_simps table_parts head_unique event_columns event_checks_sql event_fks_sql table_ids_def
      events_ok_def unique_key [where k = row_id and K = VInt] event_stored inj_vals list_all_conj)

lemma visits_accepted:
  "table_accepts (ms_schema at_head) (contents_of d) visits_table \<longleftrightarrow>
     list_all visit_fits (tbl_rows (visits d)) \<and> distinct (table_ids (visits d)) \<and> visits_ok d"
  by (subst table_accepts_split [OF _ refl, where cells = visit_cells and xs = "tbl_rows (visits d)"])
    (auto simp: contents_simps table_parts head_unique visit_columns visit_checks_sql visit_fks_sql table_ids_def
      visits_ok_def visit_row_ok_def unique_key [where k = row_id and K = VInt] visit_stored inj_vals list_all_conj
      unique_open_visits)

section \<open>Commands\<close>

lemmas steps =
  up_unmigrated up_initial up_videos up_events up_head up_left
  down_unmigrated down_initial down_videos down_events down_head down_left

lemma reachable_states:
  "migration_reachable s \<Longrightarrow>
   s \<in> {unmigrated, at_initial [], at_videos, at_events, at_head, at_initial [video_status_type]}"
  by (induction rule: migration_reachable.induct) (auto simp: steps)

lemma revisions:
  "ms_revision (at_initial ts) = Some ''3112f42d1e35''" "ms_revision at_videos = Some ''e31b2289c092''"
  "ms_revision at_events = Some ''0003_events''" "ms_revision at_head = Some ''0005_visits''"
  by (simp_all add: at_initial_def at_videos_def at_events_def at_head_def)

section \<open>Properties\<close>

text \<open>
  C36: The four upgrade scripts run without an error from an empty database to the head
  revision, and the schema they build accepts the rows of a database exactly when its values
  fit the column types, its primary keys are unique and it satisfies the constraints that
  flush and commit check in the model.
\<close>

theorem migrated_schema_is_the_model:
  "\<exists>S. upgrade_times 4 unmigrated = Inr \<lparr>ms_revision = Some ''0005_visits'', ms_schema = S\<rparr>
     \<and> upgrade_step \<lparr>ms_revision = Some ''0005_visits'', ms_schema = S\<rparr> = Inl NoSuchRevision
     \<and> (\<forall>d. schema_accepts S (contents_of d) \<longleftrightarrow> columns_fit d \<and> keys_unique d \<and> db_ok d)"
proof (rule exI [of _ "ms_schema at_head"], intro conjI allI)
  have head: "\<lparr>ms_revision = Some ''0005_visits'', ms_schema = ms_schema at_head\<rparr> = at_head"
    by (simp add: at_head_def)
  show "upgrade_times 4 unmigrated = Inr \<lparr>ms_revision = Some ''0005_visits'', ms_schema = ms_schema at_head\<rparr>"
    unfolding head by (simp add: eval_nat_numeral steps)
  show "upgrade_step \<lparr>ms_revision = Some ''0005_visits'', ms_schema = ms_schema at_head\<rparr> = Inl NoSuchRevision"
    unfolding head by (rule up_head)
  fix d
  have "sc_tables (ms_schema at_head) = [stations_table, tractors_table, video_files_table, events_table, visits_table]"
    by (simp add: at_head_def)
  then show "schema_accepts (ms_schema at_head) (contents_of d) \<longleftrightarrow> columns_fit d \<and> keys_unique d \<and> db_ok d"
    by (auto simp: schema_accepts_def columns_fit_def keys_unique_def db_ok_def stations_accepted
        tractors_accepted videos_accepted events_accepted visits_accepted)
qed

text \<open>
  C37: In every database that upgrades and downgrades lead to, a successful downgrade never
  returns to the unmigrated state and is undone by the next upgrade, except the downgrade of
  the video files: it leaves the enum type behind, so that upgrading fails for ever and
  downgrading further fails too.
\<close>

theorem downgrade_is_undone_except_for_videos:
  assumes "migration_reachable s" and "downgrade_step s = Inr s'"
  shows "ms_revision s' \<noteq> None
    \<and> (if ms_revision s = Some ''e31b2289c092''
       then upgrade_step s' = Inl (DuplicateObject ''videostatus'')
         \<and> downgrade_step s' = Inl (UndefinedObject ''uq_tractors_primary_aruco'')
       else upgrade_step s' = Inr s)"
  using reachable_states [OF assms(1)] assms(2) by (auto simp: steps revisions)

theorem downgrade_is_undone_except_for_videos_witness:
  "\<exists>s'. downgrade_step at_videos = Inr s' \<and> ms_revision s' \<noteq> None
    \<and> upgrade_step s' = Inl (DuplicateObject ''videostatus'')"
proof -
  have "migration_reachable at_videos"
    using migration_reachable.up [OF migration_reachable.up [OF start up_unmigrated] up_initial] .
  then show ?thesis
    using downgrade_is_undone_except_for_videos [OF _ down_videos] by (auto simp: down_videos revisions)
qed

end
