(* ===== verification/Recording.thy ===== *)
theory Recording
  imports EdgeIngestProperties HandlerProperties DetectionProperties VideoExecutor
begin

text \<open>
  A recorded video from its frames to the visits: the run of the video handler on a video whose
  recognition succeeds, through the stored events to the contract of the visit service. The wall time
  of a stored event is the reading of the clock when its row is prepared, which bounds what one video
  can do to a visit.
\<close>

section \<open>What does not touch the visits\<close>

lemma fit_strip [simp]: "fit cfg t (strip v) = fit cfg t v"
  by (simp add: fit_def visit_inv_strip)

lemma fit_at_track:
  "fit_at cfg sid t d \<longleftrightarrow> (\<forall>p v. snd p = sid \<longrightarrow> find visit_is_open (track d p) = Some v \<longrightarrow> fit cfg t v)"
  unfolding fit_at_def find_track by (auto; metis fit_strip)

lemma track_put_video [simp]: "track (put_video now i f d) p = track d p"
  by (simp add: track_def rows_at_def)

lemma track_with_events [simp]: "track (with_events now ps d) p = track d p"
  by (simp add: track_def rows_at_def)

lemma resolve_cong: "tractors d' = tractors d \<Longrightarrow> resolve d' x = resolve d x"
  by (simp add: resolve_def tractor_of_def split: option.split)

lemma resolve_fk: "fk_opt (tractors d) (resolve d x)"
proof (cases "resolve d x")
  case (Some tid)
  then obtain a t where "tractor_of d a = Some t" "row_id t = tid"
    by (auto simp: resolve_def split: option.splits)
  then have "t \<in> set (tbl_rows (tractors d))"
    by (auto simp: tractor_of_def first_or_none_def split: if_splits list.splits dest!: filter_eq_ConsD)
  then show ?thesis using \<open>row_id t = tid\<close> Some by (auto simp: fk_opt_def fk_def table_ids_def)
qed (simp add: fk_opt_def)

section \<open>The stored events of a recorded video\<close>

definition payloads :: "world \<Rightarrow> int \<Rightarrow> detection_event list \<Rightarrow> event_create list" where
  "payloads w i evs = map (\<lambda>(k, ev). payload_of i ev (resolve (working w) (de_aruco_id ev))
     (Aware (clock w (reads w + k)) 0)) (enumerate 0 evs)"

definition recorded :: "world \<Rightarrow> int \<Rightarrow> detection_event list \<Rightarrow> event list" where
  "recorded w i evs =
     stored_events (Naive (clock w (reads w))) (tbl_seq (events (working w))) (payloads w i evs)"

lemma stored_maps:
  "map e_frame_number (stored_events now i ps) = map ec_frame_number ps"
  "map e_wall_clock_at (stored_events now i ps) = map (\<lambda>p. to_naive_utc (ec_wall_clock_at p)) ps"
  by (induction ps arbitrary: i) (simp_all add: event_row_def stamp_new_def)

lemma length_recorded [simp]: "length (recorded w i evs) = length evs"
  by (simp add: recorded_def payloads_def)

lemma recorded_frames: "map e_frame_number (recorded w i evs) = map de_frame_number evs"
proof -
  have "map (\<lambda>(k, ev). de_frame_number ev) (enumerate 0 evs) = map de_frame_number evs"
    using map_snd_enumerate [of 0 evs] by (metis (no_types) case_prod_unfold comp_apply map_eq_conv map_map)
  then show ?thesis
    by (simp add: recorded_def stored_maps payloads_def comp_def case_prod_unfold payload_of_def)
qed

lemma recorded_times: "map e_wall_clock_at (recorded w i evs) = map (\<lambda>k. Naive (clock w (reads w + k))) [0..<length evs]"
proof -
  have "map (\<lambda>p. Naive (clock w (reads w + fst p))) (enumerate 0 evs) =
      map (\<lambda>k. Naive (clock w (reads w + k))) (map fst (enumerate 0 evs))"
    by (simp only: map_map comp_def)
  then show ?thesis
    by (simp add: recorded_def stored_maps payloads_def comp_def case_prod_unfold payload_of_def event_row_def)
qed

definition well_detected :: "detection_event list \<Rightarrow> bool" where
  "well_detected evs \<longleftrightarrow>
     list_all (\<lambda>ev. 0 \<le> de_frame_number ev \<and> 0 \<le> de_timestamp_in_video ev) evs
     \<and> sorted (map de_frame_number evs)"

lemma recorded_sorted:
  assumes "well_detected evs"
  shows "sort_key e_frame_number (recorded w i evs) = recorded w i evs"
  by (rule sort_key_id_if_sorted) (use assms in \<open>simp add: recorded_frames well_detected_def\<close>)

lemma recorded_event_times:
  assumes "mono (clock w)" and "t0 \<le> clock w (reads w)"
  shows "event_times t0 (recorded w i evs)"
proof -
  have m: "map (\<lambda>e. utc_us (e_wall_clock_at e)) (recorded w i evs) = map (\<lambda>k. clock w (reads w + k)) [0..<length evs]"
    using arg_cong [OF recorded_times [of w i evs], of "map utc_us"] by (simp add: comp_def)
  have "sorted (map (\<lambda>k. clock w (reads w + k)) [0..<length evs])"
    using assms(1) by (auto simp: sorted_iff_nth_mono intro: monoD)
  moreover have "t0 \<le> clock w (reads w + k)" for k
    using assms monoD [OF assms(1), of "reads w" "reads w + k"] by simp
  ultimately show ?thesis by (auto simp: event_times_def m)
qed


lemma payloads_fks:
  assumes "fk (videos d) i" and "tractors d = tractors (working w)" and "well_detected evs"
  shows "list_all (\<lambda>p. event_fks d (event_row p)) (payloads w i evs)"
proof -
  have "ev \<in> set evs" if "(k, ev) \<in> set (enumerate 0 evs)" for k ev
    using that set_zip_rightD by (fastforce simp: enumerate_eq_zip)
  then show ?thesis
    using assms resolve_fk [of "working w"]
    by (auto simp: list_all_iff payloads_def event_fks_def event_row_def payload_of_def event_row_ok_def
        well_detected_def)
qed

lemma recorded_stored:
  assumes "e \<in> set (recorded w i evs)" and "tractors d = tractors (working w)"
    and "tbl_rows (events d) = rows @ recorded w i evs"
  shows "event_stored d e"
proof -
  obtain p j where p: "p \<in> set (payloads w i evs)" "e = stamp_new (Naive (clock w (reads w))) j (event_row p)"
    using assms(1) stored_event unfolding recorded_def by blast
  then obtain k ev where "p = payload_of i ev (resolve (working w) (de_aruco_id ev)) (Aware (clock w (reads w + k)) 0)"
    by (auto simp: payloads_def)
  then have "e_tractor_id e = resolve (working w) (de_aruco_id ev)" "is_naive (e_wall_clock_at e)"
    using p(2) by (simp_all add: event_row_def payload_of_def stamp_new_def)
  moreover have "fk (events d) (row_id e)" using assms(1,3) by (auto simp: fk_def table_ids_def)
  ultimately show ?thesis
    using resolve_fk [of "working w" "de_aruco_id ev"] assms(2)
    by (auto simp: event_stored_def fk_opt_def split: option.splits)
qed

section \<open>The run\<close>

lemma video_is_fk: "video_is d i u \<Longrightarrow> fk (videos d) i"
  by (auto simp: video_is_def fk_def table_ids_def dest!: table_get_Some)

lemma counters_run:
  assumes "consistent (working w)" and "video_is (working w) i u"
  obtains v where "update_counters i (Some a) (Some b) (Some n) w =
      (Inr (Some v), w\<lparr>working := put_video (txn_now w) i (set_counters (Some a) (Some b) (Some n)) (working w)\<rparr>)"
    "consistent (put_video (txn_now w) i (set_counters (Some a) (Some b) (Some n)) (working w))"
    "video_is (put_video (txn_now w) i (set_counters (Some a) (Some b) (Some n)) (working w)) i
      (set_counters (Some a) (Some b) (Some n) u)"
proof -
  obtain v where "repo_update_by_id VideoRepo i (set_counters (Some a) (Some b) (Some n)) w =
      (Inr v, w\<lparr>working := put_video (txn_now w) i (set_counters (Some a) (Some b) (Some n)) (working w)\<rparr>)"
    "consistent (put_video (txn_now w) i (set_counters (Some a) (Some b) (Some n)) (working w))"
    "video_is (put_video (txn_now w) i (set_counters (Some a) (Some b) (Some n)) (working w)) i
      (set_counters (Some a) (Some b) (Some n) u)"
    by (rule put_run [OF assms keeps_row_counters])
  then show ?thesis by (intro that [of v]) (simp_all add: update_counters_def)
qed

lemma recognized_run:
  assumes c: "consistent (working w)" and v: "video_is (working w) i u" and sid: "vf_station_id u = Some sid"
    and st: "station = Some s" "row_id s = sid" "fk (stations (working w)) sid"
    and run: "worker uri (station_roi station) = Inr (evs, frames, triggers)" and evs: "evs \<noteq> []" "well_detected evs"
    and cfg: "settings_ok cfg" "fit_at cfg sid t0 (working w)"
    and time: "mono (clock w)" "t0 \<le> clock w (reads w)" "txn_now w = Naive (clock w (reads w))"
  obtains w' where
    "recognize_video worker cfg id i uri station w = (Inr (int (length evs), frames, triggers), w')"
    "consistent (working w')" "video_is (working w') i (set_counters (Some frames) (Some triggers) (Some (int (length evs))) u)"
    "tbl_rows (events (working w')) = tbl_rows (events (working w)) @ recorded w i evs"
    "\<forall>p. track (working w') p =
      (if snd p = sid then spec_video cfg (txn_now w) sid (recorded w i evs) (fst p) (track (working w) p)
       else track (working w) p)"
proof -
  let ?f = "set_counters (Some frames) (Some triggers) (Some (int (length evs)))"
  let ?d1 = "put_video (txn_now w) i ?f (working w)"
  let ?w1 = "w\<lparr>working := ?d1\<rparr>" and ?w2 = "w\<lparr>working := ?d1, reads := reads w + length evs\<rparr>"
  obtain v' where 1: "update_counters i (Some frames) (Some triggers) (Some (int (length evs))) w = (Inr (Some v'), ?w1)"
    "consistent ?d1" "video_is ?d1 i (?f u)"
    by (rule counters_run [OF c v])
  have res: "resolve ?d1 x = resolve (working w) x" for x by (rule resolve_cong) simp
  have "cache_ok (working ?w1) []" by (simp add: cache_ok_def)
  from payloads_run [OF this, of i "[]" evs]
  obtain cache where 2: "foldM (add_payload i) ([], []) evs ?w1 = (Inr (payloads w i evs, cache), ?w2)"
    by (auto simp: payloads_def res)
  have "list_all (\<lambda>p. event_fks (working ?w2) (event_row p)) (payloads w i evs)"
    using payloads_fks [of ?d1 i w evs] video_is_fk [OF 1(3)] evs(2) by simp
  then have 3: "create_many (payloads w i evs) ?w2 =
      (Inr (recorded w i evs), ?w2\<lparr>working := with_events (txn_now w) (payloads w i evs) ?d1\<rparr>)"
    and c3: "consistent (with_events (txn_now w) (payloads w i evs) ?d1)"
    using create_many_run [of ?w2] consistent_with_events [OF 1(2)] 1(2)
    by (simp_all add: recorded_def time(3))
  let ?d3 = "with_events (txn_now w) (payloads w i evs) ?d1"
  let ?w3 = "?w2\<lparr>working := ?d3\<rparr>"
  have rows: "tbl_rows (events ?d3) = tbl_rows (events (working w)) @ recorded w i evs"
    by (simp add: with_events_rows recorded_def time(3))
  have v3: "video_is (working ?w3) i (?f u)" using 1(3) by (simp add: video_is_def)
  then obtain v3 where get: "repo_get VideoRepo i ?w3 = (Inr (Some v3), ?w3)" and u3: "unstamp v3 = unstamp (?f u)"
    by (rule get_video_run)
  have vs: "vf_station_id v3 = Some sid"
    using arg_cong [OF u3, of vf_station_id] sid by (simp add: set_counters_def set_if_def)
  have ne: "recorded w i evs \<noteq> []" using evs(1) length_recorded [of w i evs] by fastforce
  have "video_input cfg ?w3 sid (sort_key e_frame_number (recorded w i evs))"
    unfolding recorded_sorted [OF evs(2)] video_input_def
    using cfg c3 st(3) recorded_event_times [OF time(1,2), of i evs] recorded_stored [of _ w i evs ?d3] rows
    by (auto simp: list_all_iff fit_at_track intro!: exI [of _ t0])
  note vr = video_run [OF this ne vs, unfolded recorded_sorted [OF evs(2)]]
  obtain w4 where w4: "process_video_for_visits cfg id v3 (recorded w i evs) ?w3 = (Inr (), w4)"
    "consistent (committed w4)" "working w4 = committed w4"
    "\<forall>p. track (committed w4) p =
      (if snd p = sid
       then spec_video cfg (txn_now ?w3) sid (recorded w i evs) (fst p) (track (working ?w3) p)
       else track (working ?w3) p)"
    "events (committed w4) = events (working ?w3)" "videos (committed w4) = videos (working ?w3)"
    by (rule vr)
  have 4: "\<forall>p. track (committed w4) p =
      (if snd p = sid then spec_video cfg (txn_now w) sid (recorded w i evs) (fst p) (track (working w) p)
       else track (working w) p)"
    "events (committed w4) = events ?d3" "videos (committed w4) = videos ?d3"
    using w4(4-6) by simp_all
  have "aggregate_visits cfg id i (map_option row_id station) (recorded w i evs) ?w3 = (Inr (), w4)"
    using get w4(1) ne st(1) by (simp add: aggregate_visits_def)
  note agg = this
  have "recognize_video worker cfg id i uri station w =
      (bindM (foldM (add_payload i) ([], []) evs) (\<lambda>(payloads, cache).
         bindM (create_many payloads) (\<lambda>persisted.
           seqM (aggregate_visits cfg id i (map_option row_id station) persisted)
             (ret (int (length evs), frames, triggers))))) ?w1"
    using evs(1) by (simp add: recognize_video_def run_video_in_process_pool_def run bindM_run [of _ _ w] 1(1))
  also have "\<dots> = bindM (create_many (payloads w i evs)) (\<lambda>persisted.
           seqM (aggregate_visits cfg id i (map_option row_id station) persisted)
             (ret (int (length evs), frames, triggers))) ?w2"
    by (simp add: bindM_run [of _ _ ?w1] 2)
  also have "\<dots> = (Inr (int (length evs), frames, triggers), w4)"
    by (simp only: bindM_run [of _ _ ?w2] 3 prod.case sum.case seqM_def bindM_run [of _ _ ?w3] agg ret_run)
  finally have "recognize_video worker cfg id i uri station w = (Inr (int (length evs), frames, triggers), w4)" .
  moreover have "video_is (working w4) i (?f u)" using v3 w4(3) 4(3) by (simp add: video_is_def)
  ultimately show ?thesis using that w4(2,3) 4 rows by simp
qed


lemma recording_run:
  assumes c: "consistent (working w)" and v: "video_is (working w) i u" and sid: "vf_station_id u = Some sid"
    and run: "worker uri (station_roi (table_get (stations (working w)) sid)) = Inr (evs, frames, triggers)"
    and evs: "evs \<noteq> []" "well_detected evs"
    and cfg: "settings_ok cfg" "fit_at cfg sid t0 (working w)"
    and time: "mono (clock w)" "t0 \<le> clock w (reads w)"
  obtains w' where
    "process_video_with_error_handling worker cfg id i uri is_retry w = (Inr (), w')"
    "consistent (committed w')" "working w' = committed w'"
    "video_is (committed w') i (set_status COMPLETED None
       (set_counters (Some frames) (Some triggers) (Some (int (length evs))) (set_status PROCESSING None u)))"
    "tbl_rows (events (committed w')) = tbl_rows (events (working w)) @ recorded w i evs"
    "\<forall>p. track (committed w') p =
      (if snd p = sid
       then spec_video cfg (Naive (clock w (reads w))) sid (recorded w i evs) (fst p) (track (working w) p)
       else track (working w) p)"
proof -
  let ?u = "set_counters (Some frames) (Some triggers) (Some (int (length evs))) (set_status PROCESSING None u)"
  let ?d = "regenerate (put_video (txn_now w) i (set_status PROCESSING None) (working w))"
  obtain w1 station where 1: "process_video_with_error_handling worker cfg id i uri is_retry w =
       except_exception
          (bindM (recognize_video worker cfg id i uri station) (\<lambda>_.
           bindM (update_status i COMPLETED None) (\<lambda>_. commit)))
          (\<lambda>exc. seqM rollback (seqM (fail_video i is_retry exc) (raise exc))) w1"
    "consistent (committed w1)" "working w1 = committed w1"
    "video_is (committed w1) i (set_status PROCESSING None u)"
    "station = (case vf_station_id u of None \<Rightarrow> None | Some sid \<Rightarrow> table_get (stations (working w)) sid)"
    "clock w1 = clock w" "committed w1 = ?d" "reads w1 = reads w" "txn_now w1 = Naive (clock w (reads w))"
    by (rule to_processing_run [OF c v])
  obtain x where "table_get (videos (working w)) i = Some x" "unstamp x = unstamp u"
    using v by (auto simp: video_is_def)
  moreover from this(2) have "vf_station_id x = vf_station_id u" by (metis unstamp_sel(4))
  ultimately have "fk (stations (working w)) sid"
    using video_facts(4) [OF c, of x] sid by (auto simp: fk_opt_def dest!: table_get_Some)
  then obtain s where s: "table_get (stations (working w)) sid = Some s" "row_id s = sid"
    using table_get_None [of "stations (working w)" sid] table_get_Some
    by (cases "table_get (stations (working w)) sid") (auto simp: fk_def dest: table_get_Some)
  have st: "station = Some s" using 1(5) sid s(1) by simp
  have run': "worker uri (station_roi station) = Inr (evs, frames, triggers)" using run s(1) st by simp
  have same: "stations ?d = stations (working w)" "tractors ?d = tractors (working w)" "events ?d = events (working w)"
    "\<And>p. track ?d p = track (working w) p"
    by (simp_all only: track_regenerate track_put_video) (simp_all add: regenerate_def)
  have rec: "recorded w1 i evs = recorded w i evs"
    using 1(3,6,7,8) same by (simp add: recorded_def payloads_def resolve_cong [of ?d "working w"])
  have pre: "consistent (working w1)" "video_is (working w1) i (set_status PROCESSING None u)"
    "vf_station_id (set_status PROCESSING None u) = Some sid" "fk (stations (working w1)) sid"
    "fit_at cfg sid t0 (working w1)"
    using 1(2,3,4,7) same sid cfg(2) \<open>fk (stations (working w)) sid\<close> by (simp_all add: fit_at_track set_status_def)
  obtain w2 where 2: "recognize_video worker cfg id i uri station w1 = (Inr (int (length evs), frames, triggers), w2)"
    "consistent (working w2)" "video_is (working w2) i ?u"
    "tbl_rows (events (working w2)) = tbl_rows (events (working w1)) @ recorded w1 i evs"
    "\<forall>p. track (working w2) p =
      (if snd p = sid then spec_video cfg (txn_now w1) sid (recorded w1 i evs) (fst p) (track (working w1) p)
       else track (working w1) p)"
    by (rule recognized_run [where w = w1 and worker = worker and uri = uri and evs = evs and frames = frames and triggers = triggers, OF pre(1,2,3) st s(2) pre(4) run' evs cfg(1) pre(5)])
      (use time 1(6,8,9) in simp_all)
  obtain v3 w3 where 3: "update_status i COMPLETED None w2 = (Inr v3, w3)" "consistent (working w3)"
    "video_is (working w3) i (set_status COMPLETED None ?u)"
    "w3 = w2\<lparr>working := put_video (txn_now w2) i (set_status COMPLETED None) (working w2)\<rparr>"
    by (rule update_status_run [OF 2(2,3)])
  obtain w4 where 4: "commit w3 = (Inr (), w4)" "consistent (committed w4)" "working w4 = committed w4"
    "video_is (committed w4) i (set_status COMPLETED None ?u)" "committed w4 = regenerate (working w3)"
    by (rule commit_video_run [OF 3(2,3)])
  have "process_video_with_error_handling worker cfg id i uri is_retry w = (Inr (), w4)"
    using 1(1) 2(1) 3(1) 4(1) by (simp add: except_exception_def)
  moreover have "events (committed w4) = events (working w2)" "\<And>p. track (committed w4) p = track (working w2) p"
    unfolding 4(5) 3(4) track_regenerate by (simp_all add: regenerate_def)
  ultimately show ?thesis
    using that [of w4] 4(2-4) 2(4,5) rec same 1(3,7,9) by simp
qed


section \<open>Visits of a tractor that was not there\<close>

lemma fold_spec_entering:
  assumes old: "\<forall>v \<in> set old. \<not> visit_is_open v" and v: "v_state v = ENTERING" "v_last_seen_at v = Some seen"
    "v_entry_seen_seconds v = secs_between seen t0"
    and short: "\<forall>d \<in> set ds. secs_between (fst d) t0 < entry_confirm_seconds cfg"
  shows "\<exists>v'. fold (spec_event cfg now p) ds (old @ [v]) = old @ [v'] \<and> v_state v' = ENTERING"
  using v short
proof (induction ds arbitrary: v seen)
  case (Cons d ds)
  obtain t e where d: "d = (t, e)" by (cases d)
  have closed: "map (settle_present cfg t) old = old" "map (detected cfg t e) old = old"
    "find visit_is_open old = None"
    using old by (simp_all add: map_idI find_None_iff)
  have acc: "v_entry_seen_seconds v + secs_between t seen = secs_between t t0"
    using Cons.prems(3) secs_between_trans [of t seen t0] by simp
  have v': "v_state (detected cfg t e v) = ENTERING" "v_last_seen_at (detected cfg t e v) = Some t"
    "v_entry_seen_seconds (detected cfg t e v) = secs_between t t0"
    using Cons.prems acc d by (simp_all add: detected_def apply_state_transition_def Let_def)
  have "find visit_is_open (old @ [v]) \<noteq> None"
    using Cons.prems(1) by (auto simp: find_None_iff)
  then have "spec_event cfg now p d (old @ [v]) = old @ [detected cfg t e v]"
    using closed Cons.prems(1) by (auto simp: spec_event_def d Let_def settle_present_def)
  then show ?case using Cons.IH [OF v'] Cons.prems(4) by simp
qed simp

lemma short_video_entering:
  assumes old: "\<forall>v \<in> set old. \<not> visit_is_open v"
    and short: "\<forall>d \<in> set (detections tid evs). \<forall>d' \<in> set (detections tid evs).
        secs_between (fst d) (fst d') < entry_confirm_seconds cfg"
    and v: "v \<in> set (spec_video cfg now sid evs tid old)"
  shows "v \<in> set old \<or> v_state v = ENTERING"
proof -
  have "\<exists>new. fold (spec_event cfg now (tid, sid)) (detections tid evs) old = old @ new
      \<and> (\<forall>v \<in> set new. v_state v = ENTERING)"
  proof (cases "detections tid evs")
    case Nil
    then show ?thesis by simp
  next
    case (Cons d ds)
    obtain t e where d: "d = (t, e)" by (cases d)
    have "map (settle_present cfg t) old = old" "find visit_is_open old = None"
      using old by (simp_all add: map_idI find_None_iff)
    then have first: "spec_event cfg now (tid, sid) d old = old @ [begun now (tid, sid) t e]"
      by (simp add: spec_event_def d Let_def)
    have "v_state (begun now (tid, sid) t e) = ENTERING" "v_last_seen_at (begun now (tid, sid) t e) = Some t"
      "v_entry_seen_seconds (begun now (tid, sid) t e) = secs_between t t"
      by (simp_all add: begun_def new_visit_def)
    from fold_spec_entering [OF old this, of ds cfg now "(tid, sid)"] short Cons d first show ?thesis by auto
  qed
  then obtain new where new: "fold (spec_event cfg now (tid, sid)) (detections tid evs) old = old @ new"
    "\<forall>v \<in> set new. v_state v = ENTERING" by blast
  have "settle cfg t x = x" if "x \<in> set (old @ new)" for t x
    using that old new(2) by auto
  then show ?thesis
    using v new by (auto simp: spec_video_def spec_end_def)
qed

lemma detections_recorded:
  assumes "d \<in> set (detections tid (recorded w i evs))"
  shows "\<exists>k < length evs. fst d = Naive (clock w (reads w + k))"
proof -
  obtain e where "e \<in> set (recorded w i evs)" "fst d = e_wall_clock_at e"
    using assms by (auto simp: detections_def)
  then have "fst d \<in> set (map e_wall_clock_at (recorded w i evs))" by simp
  then show ?thesis by (auto simp: recorded_times)
qed

lemma recorded_entering:
  assumes "open_at (working w) (tid, sid) = None" and "mono (clock w)"
    and "secs_between (Naive (clock w (reads w + length evs))) (Naive (clock w (reads w))) < entry_confirm_seconds cfg"
    and "v \<in> set (spec_video cfg now sid (recorded w i evs) tid (track (working w) (tid, sid)))"
  shows "v \<in> set (track (working w) (tid, sid)) \<or> v_state v = ENTERING"
proof (rule short_video_entering [OF _ _ assms(4)])
  show "\<forall>v \<in> set (track (working w) (tid, sid)). \<not> visit_is_open v"
    using find_track [of "working w" "(tid, sid)"] assms(1) by (auto simp: find_None_iff)
  show "\<forall>d \<in> set (detections tid (recorded w i evs)). \<forall>d' \<in> set (detections tid (recorded w i evs)).
      secs_between (fst d) (fst d') < entry_confirm_seconds cfg"
  proof (intro ballI)
    fix d d' assume "d \<in> set (detections tid (recorded w i evs))" "d' \<in> set (detections tid (recorded w i evs))"
    then obtain k k' where k: "fst d = Naive (clock w (reads w + k))" "k < length evs"
      and k': "fst d' = Naive (clock w (reads w + k'))"
      using detections_recorded by meson
    have "clock w (reads w + k) - clock w (reads w + k') \<le> clock w (reads w + length evs) - clock w (reads w)"
      using monoD [OF assms(2), of "reads w + k" "reads w + length evs"] k(2)
        monoD [OF assms(2), of "reads w" "reads w + k'"] by simp
    then have "secs_between (fst d) (fst d') \<le> secs_between (Naive (clock w (reads w + length evs))) (Naive (clock w (reads w)))"
      by (simp add: k k' secs_between_def total_seconds_def divide_right_mono)
    then show "secs_between (fst d) (fst d') < entry_confirm_seconds cfg" using assms(3) by simp
  qed
qed

text \<open>The worker of the process pool meets what the handler needs of it.\<close>

lemma worker_detects_well:
  assumes "process_video_worker dcfg cv uri roi = Inr (evs, frames, triggers)" and "0 \<le> cap_fps (video_capture cv uri)"
  shows "well_detected evs"
  using process_video_ordered [OF assms(1) [unfolded process_video_worker_def]] assms(2)
  by (auto simp: well_detected_def list_all_iff frame_rate_def)

lemma worker_recording_run:
  assumes c: "consistent (working w)" and v: "video_is (working w) i u" and sid: "vf_station_id u = Some sid"
    and run: "process_video_worker dcfg cv uri (station_roi (table_get (stations (working w)) sid)) = Inr (evs, frames, triggers)"
    and evs: "evs \<noteq> []" "0 \<le> cap_fps (video_capture cv uri)"
    and cfg: "settings_ok cfg" "fit_at cfg sid t (working w)"
    and time: "mono (clock w)" "t \<le> clock w (reads w)"
  obtains w' where
    "process_video_with_error_handling (process_video_worker dcfg cv) cfg id i uri is_retry w = (Inr (), w')"
    "consistent (committed w')" "working w' = committed w'"
    "video_is (committed w') i (u\<lparr>vf_status := COMPLETED, vf_frames_processed := frames,
       vf_triggers_fired := triggers, vf_events_found := int (length evs)\<rparr>)"
    "tbl_rows (events (committed w')) = tbl_rows (events (working w)) @ recorded w i evs"
    "\<forall>p. track (committed w') p =
      (if snd p = sid
       then spec_video cfg (Naive (clock w (reads w))) sid (recorded w i evs) (fst p) (track (working w) p)
       else track (working w) p)"
proof -
  have u: "set_status COMPLETED None (set_counters (Some frames) (Some triggers) (Some (int (length evs)))
      (set_status PROCESSING None u)) = u\<lparr>vf_status := COMPLETED, vf_frames_processed := frames,
         vf_triggers_fired := triggers, vf_events_found := int (length evs)\<rparr>"
    by (simp add: set_status_def set_counters_def set_if_def)
  show ?thesis
    by (rule recording_run [where w = w and worker = "process_video_worker dcfg cv" and uri = uri and evs = evs
          and frames = frames and triggers = triggers and is_retry = is_retry,
          OF c v sid run evs(1) worker_detects_well [OF run evs(2)] cfg time])
      (rule that, simp_all only: u)
qed

end
