(* ===== verification/EdgeRun.thy ===== *)
theory EdgeRun
  imports EdgeProperties ConsumerProperties MqttProperties
begin

text \<open>
  The life of the edge process (\<open>EdgePipeline.run\<close> and \<open>main\<close> of \<open>edge/main.py\<close>): the connection to the
  broker, the stream loop with its flush timer, and the orderly stop, which cancels the timer and
  publishes what is left in the buffer. And the way of a batch from the edge to the events: through the
  consumer of \<open>mqtt_consumer/main.py\<close> into the endpoint of the API.
\<close>

section \<open>Start and stop\<close>

text \<open>\<open>async with MqttClient() as mqtt\<close>: \<open>enter\<close> is what the library raises when it cannot connect.\<close>

definition edge_begin :: "exn option \<Rightarrow> 'bg edge \<Rightarrow> exn + 'bg edge_system" where
  "edge_begin enter p =
     (case mqtt_connect enter (eg_mqtt p) of
        (Inl e, c) \<Rightarrow> Inl e
      | (Inr _, c) \<Rightarrow> Inr (edge_start (p\<lparr>eg_mqtt := c\<rparr>)))"

text \<open>
  \<open>timer_task.cancel()\<close>: a timer that waits ends, one that is inside \<open>publish\<close> raises
  \<open>CancelledError\<close> there, which \<open>except Exception\<close> does not catch.
\<close>

definition cancel_timer :: "rat \<Rightarrow> 'bg edge_system \<Rightarrow> 'bg edge_system" where
  "cancel_timer now s =
     (case sys_in_flight s of
        None \<Rightarrow> s
      | Some batch \<Rightarrow>
          (case flush_publish (Some (Exn CancelledErr [])) now batch (sys_pipe s) of
             (res, p) \<Rightarrow> s\<lparr>sys_pipe := p, sys_in_flight := None,
                            sys_batches := sys_batches s @ [(batch, res = Inr True)]\<rparr>))"

text \<open>\<open>self._flush(final=True)\<close>; a cancellation of this last publish is not modelled.\<close>

definition final_flush :: "exn option \<Rightarrow> rat \<Rightarrow> 'bg edge_system \<Rightarrow> 'bg edge_system" where
  "final_flush fails now s =
     (case flush_take True (sys_pipe s) of
        (None, p) \<Rightarrow> s\<lparr>sys_pipe := p\<rparr>
      | (Some batch, p) \<Rightarrow>
          (case flush_publish fails now batch p of
             (res, p') \<Rightarrow> s\<lparr>sys_pipe := p', sys_batches := sys_batches s @ [(batch, res = Inr True)]\<rparr>))"

definition edge_exit :: "'bg edge_system \<Rightarrow> 'bg edge_system" where
  "edge_exit s = (case mqtt_disconnect None (eg_mqtt (sys_pipe s)) of
     (_, c) \<Rightarrow> s\<lparr>sys_pipe := (sys_pipe s)\<lparr>eg_mqtt := c\<rparr>\<rparr>)"

definition edge_finish :: "exn option \<Rightarrow> rat \<Rightarrow> 'bg edge_system \<Rightarrow> 'bg edge_system" where
  "edge_finish fails now s = edge_exit (final_flush fails now (cancel_timer now s))"

text \<open>
  A run from the start of the process to its end: \<open>fails\<close> and \<open>now\<close> are the outcome and the clock of
  the last publication, \<open>s\<close> is the system when the stream loop sees the stop event.
\<close>

inductive edge_run ::
  "detector_settings \<Rightarrow> ('f, 'bg, 'mask, 'c) cv2 \<Rightarrow> exn option \<Rightarrow> rat \<Rightarrow> 'bg edge \<Rightarrow> 'bg edge_system
   \<Rightarrow> 'bg edge_system \<Rightarrow> bool"
  for cfg cv fails now p where
  run: "edge_begin None p = Inr s0 \<Longrightarrow> (edge_step cfg cv)\<^sup>*\<^sup>* s0 s \<Longrightarrow> eg_stop (sys_pipe s) \<Longrightarrow>
    edge_run cfg cv fails now p s (edge_finish fails now s)"

inductive_cases edge_runE: "edge_run cfg cv fails now p s s'"

section \<open>The stop\<close>

lemma edge_begin_refused:
  "mc_client (eg_mqtt p) = None \<Longrightarrow> build_client (mc_settings (eg_mqtt p)) = Inr args \<Longrightarrow> edge_begin (Some e) p = Inl e"
  by (simp add: edge_begin_def mqtt_connect_def)

text \<open>While the client holds a connection, a publication fails only when the library raises.\<close>

lemma publish_connected:
  assumes "mc_client (eg_mqtt p) = Some a"
  shows "flush_publish None now batch p = (Inr True, p\<lparr>eg_mqtt := (eg_mqtt p)\<lparr>mc_published :=
      mc_published (eg_mqtt p) @ [(eg_topic p, edge_payload p now batch, qos (mc_settings (eg_mqtt p)), False)]\<rparr>,
      eg_last_publish := now\<rparr>)"
  using assms by (simp add: flush_publish_def mqtt_publish_def or_else_def)

lemma publish_client: "mc_client (eg_mqtt (snd (flush_publish fails now batch p))) = mc_client (eg_mqtt p)"
  by (simp add: flush_publish_def mqtt_publish_def split: option.split)

lemma step_client: "edge_step cfg cv s s' \<Longrightarrow> mc_client (eg_mqtt (sys_pipe s')) = mc_client (eg_mqtt (sys_pipe s))"
proof (induction rule: edge_step.induct)
  case (frame r s res p')
  then show ?case using frame_buffer [OF frame.hyps] by simp
next
  case (publish_batch s batch fails now res p')
  then show ?case using publish_client [of fails now batch "sys_pipe s"] by simp
qed (auto simp: open_stream_def flush_take_def request_stop_def split: if_splits)

lemma steps_client:
  "(edge_step cfg cv)\<^sup>*\<^sup>* s s' \<Longrightarrow> mc_client (eg_mqtt (sys_pipe s')) = mc_client (eg_mqtt (sys_pipe s))"
  by (induction rule: rtranclp_induct) (auto dest: step_client)

lemma cancel_timer_run:
  "cancel_timer now s = (case sys_in_flight s of None \<Rightarrow> s
     | Some batch \<Rightarrow> s\<lparr>sys_in_flight := None, sys_batches := sys_batches s @ [(batch, False)]\<rparr>)"
  by (auto simp: cancel_timer_def flush_publish_def mqtt_publish_def split: option.split)

lemma final_flush_run:
  "final_flush fails now s =
     (let p = (sys_pipe s)\<lparr>eg_buffer := []\<rparr>; r = flush_publish fails now (eg_buffer (sys_pipe s)) p
      in s\<lparr>sys_pipe := snd r, sys_batches := sys_batches s @ [(eg_buffer (sys_pipe s), fst r = Inr True)]\<rparr>)"
  by (simp add: final_flush_def flush_take_def Let_def case_prod_beta)

lemma edge_exit_simps [simp]:
  "eg_buffer (sys_pipe (edge_exit s)) = eg_buffer (sys_pipe s)" "sys_in_flight (edge_exit s) = sys_in_flight s"
  "sys_made (edge_exit s) = sys_made s" "sys_batches (edge_exit s) = sys_batches s"
  "mc_published (eg_mqtt (sys_pipe (edge_exit s))) = mc_published (eg_mqtt (sys_pipe s))"
  by (simp_all add: edge_exit_def mqtt_disconnect_def case_prod_beta split: option.split)

lemma published_exit [simp]: "published_events (eg_mqtt (sys_pipe (edge_exit s))) = published_events (eg_mqtt (sys_pipe s))"
  by (simp add: published_events_def)

lemma drop_in_flight:
  "sys_in_flight s = None \<Longrightarrow>
     s\<lparr>sys_in_flight := None, sys_pipe := q, sys_batches := bs\<rparr> = s\<lparr>sys_pipe := q, sys_batches := bs\<rparr>"
  by (cases s) simp

text \<open>What is there at the stop: the batches handed over before, the one in flight, the buffer.\<close>

lemma finish_batches:
  assumes "edge_conserved to old s"
  shows "sys_batches (edge_finish fails now s) =
      sys_batches s @ (case sys_in_flight s of None \<Rightarrow> [] | Some b \<Rightarrow> [(b, False)])
      @ [(eg_buffer (sys_pipe s), fails = None \<and> mc_client (eg_mqtt (sys_pipe s)) \<noteq> None)]"
    "eg_buffer (sys_pipe (edge_finish fails now s)) = []" "sys_in_flight (edge_finish fails now s) = None"
    "sys_made (edge_finish fails now s) = concat (map fst (sys_batches (edge_finish fails now s)))"
    "published_events (eg_mqtt (sys_pipe (edge_finish fails now s))) =
      old @ map (\<lambda>(b, _). sent_as to b) (filter snd (sys_batches (edge_finish fails now s)))"
proof -
  let ?b = "eg_buffer (sys_pipe s)" and ?p = "(sys_pipe s)\<lparr>eg_buffer := []\<rparr>"
  obtain res p' where r: "flush_publish fails now ?b ?p = (res, p')" by fastforce
  have ok: "res = Inr True \<longleftrightarrow> fails = None \<and> mc_client (eg_mqtt (sys_pipe s)) \<noteq> None"
    using r by (auto simp: flush_publish_def mqtt_publish_def split: if_splits option.splits)
  note p' = publish_step [OF r]
  have fin: "edge_finish fails now s = edge_exit (s\<lparr>sys_in_flight := None, sys_pipe := p',
      sys_batches := sys_batches s @ (case sys_in_flight s of None \<Rightarrow> [] | Some b \<Rightarrow> [(b, False)]) @ [(?b, res = Inr True)]\<rparr>)"
  proof (cases "sys_in_flight s")
    case None
    with r show ?thesis
      by (simp add: edge_finish_def cancel_timer_run final_flush_run Let_def drop_in_flight)
  next
    case (Some b)
    then show ?thesis
      using r by (simp add: edge_finish_def cancel_timer_run final_flush_run Let_def)
  qed
  show "sys_batches (edge_finish fails now s) =
      sys_batches s @ (case sys_in_flight s of None \<Rightarrow> [] | Some b \<Rightarrow> [(b, False)])
      @ [(?b, fails = None \<and> mc_client (eg_mqtt (sys_pipe s)) \<noteq> None)]"
    "eg_buffer (sys_pipe (edge_finish fails now s)) = []" "sys_in_flight (edge_finish fails now s) = None"
    using p' ok by (simp_all add: fin)
  show "sys_made (edge_finish fails now s) = concat (map fst (sys_batches (edge_finish fails now s)))"
    using assms by (cases "sys_in_flight s") (simp_all add: fin edge_conserved_def or_else_def)
  show "published_events (eg_mqtt (sys_pipe (edge_finish fails now s))) =
      old @ map (\<lambda>(b, _). sent_as to b) (filter snd (sys_batches (edge_finish fails now s)))"
    using assms p' by (cases "sys_in_flight s") (simp_all add: fin edge_conserved_def sent_as_def)
qed

lemma run_connected:
  assumes "edge_begin None p = Inr s0" and "(edge_step cfg cv)\<^sup>*\<^sup>* s0 s"
  shows "mc_client (eg_mqtt (sys_pipe s)) \<noteq> None"
  using assms(1) steps_client [OF assms(2)]
  by (auto simp: edge_begin_def mqtt_connect_def edge_start_def split: option.splits sum.splits)

lemma run_conserved:
  assumes "edge_begin None p = Inr s0" and "(edge_step cfg cv)\<^sup>*\<^sup>* s0 s" and "eg_buffer p = []"
  shows "edge_conserved (eg_topic p) (published_events (eg_mqtt p)) s"
proof (rule conserved_reachable [OF assms(2)])
  show "edge_conserved (eg_topic p) (published_events (eg_mqtt p)) s0"
    using assms(1,3)
    by (auto simp: edge_begin_def mqtt_connect_def edge_start_def edge_conserved_def or_else_def published_events_def
        split: option.splits sum.splits)
qed


text \<open>One frame is seen, the timer takes its detection and is cancelled inside \<open>publish\<close> by the stop.\<close>

definition bench_connected :: "unit edge" where
  "bench_connected = sys_pipe (case edge_begin None bench_edge of Inr s \<Rightarrow> s | Inl _ \<Rightarrow> edge_start bench_edge)"

definition bench_framed :: "unit edge" where
  "bench_framed = snd (edge_frame default_detector_settings bench_cv (80, 1) (open_stream 0 bench_connected))"

lemma bench_args: "\<exists>args. build_client (mc_settings (eg_mqtt bench_edge)) = Inr args"
proof -
  have "show_nat 1883 = ''1883''" by code_simp
  then have "parse_url ''mqtt://mosquitto:1883'' = Inr (lower ''mosquitto'', 1883, False)"
    using url_round_trip [OF _ sample_host, of "''mqtt''" 1883] by simp
  moreover have "broker_url (mc_settings (eg_mqtt bench_edge)) = ''mqtt://mosquitto:1883''"
    by (simp add: bench_edge_def new_edge_def new_client_def str_or_def no_overrides_def default_mqtt_settings_def)
  ultimately show ?thesis by (simp add: build_client_def)
qed

lemma bench_begin: "edge_begin None bench_edge = Inr (edge_start bench_connected)"
    and bench_connected: "\<exists>c. bench_connected = bench_edge\<lparr>eg_mqtt := c\<rparr>"
proof -
  obtain args where "build_client (mc_settings (eg_mqtt bench_edge)) = Inr args" using bench_args by blast
  moreover have "mc_client (eg_mqtt bench_edge) = None" by (simp add: bench_edge_def new_edge_def new_client_def)
  ultimately show "edge_begin None bench_edge = Inr (edge_start bench_connected)"
    "\<exists>c. bench_connected = bench_edge\<lparr>eg_mqtt := c\<rparr>"
    by (auto simp: bench_connected_def edge_begin_def mqtt_connect_def edge_start_def)
qed

lemma bench_framed_buffer: "length (eg_buffer bench_framed) = 1" "eg_buffer bench_connected = []"
proof -
  obtain c where c: "bench_connected = bench_edge\<lparr>eg_mqtt := c\<rparr>" using bench_connected by blast
  show "length (eg_buffer bench_framed) = 1" "eg_buffer bench_connected = []"
    by (simp_all add: bench_framed_def c edge_frame_def open_stream_def bench_edge_def new_edge_def
        default_edge_settings_def edge_process_frame_def trigger_detect_def bench_cv_def larger_contour_def
        default_detector_settings_def aruco_detect_def Let_def)
qed


section \<open>From the edge to the events\<close>

text \<open>
  What pydantic makes of a well-typed batch: the fields as they are, with the times that the consumer
  put into it. \<open>reads_batch\<close> is that behaviour of \<open>EdgeBatchIn.model_validate\<close> for one batch.
\<close>

definition event_in_of :: "edge_detection \<Rightarrow> edge_event_in" where
  "event_in_of d = \<lparr>ei_aruco_id = ed_aruco_id d, ei_confidence = Some (ed_confidence d), ei_bbox = ed_bbox d,
     ei_inside_roi = ed_inside_roi d, ei_frame_number = ed_frame_number d,
     ei_timestamp_in_video = ed_timestamp_in_video d, ei_detector_metadata = Some (ed_detector_metadata d)\<rparr>"

definition edge_batch_of :: "string \<Rightarrow> int \<Rightarrow> int \<Rightarrow> edge_detection list \<Rightarrow> edge_batch_in" where
  "edge_batch_of code t1 t2 ds = \<lparr>eb_station_code = code, eb_started_at = Aware t1 0, eb_ended_at = Aware t2 0,
     eb_events = map event_in_of ds\<rparr>"

fun is_object :: "json \<Rightarrow> bool" where
  "is_object (JObj _) = True"
| "is_object _ = False"

definition sendable :: "edge_detection \<Rightarrow> bool" where
  "sendable d \<longleftrightarrow> (\<forall>b. ed_bbox d = Some b \<longrightarrow> is_object b) \<and> is_object (ed_detector_metadata d)
     \<and> 0 \<le> ed_frame_number d \<and> 0 \<le> ed_timestamp_in_video d"

definition reads_batch ::
  "((string \<times> json) list \<Rightarrow> edge_batch_in option) \<Rightarrow> string \<Rightarrow> int \<Rightarrow> int \<Rightarrow> edge_detection list \<Rightarrow> bool" where
  "reads_batch validate code t1 t2 ds \<longleftrightarrow>
     (\<forall>kvs. json_get ''station_code'' kvs = Some (JStr code)
        \<and> json_get ''started_at'' kvs = Some (JStr (isoformat (Aware t1 0)))
        \<and> json_get ''ended_at'' kvs = Some (JStr (isoformat (Aware t2 0)))
        \<and> json_get ''events'' kvs = Some (JList (map detection_json ds))
        \<and> list_all sendable ds \<and> batch_valid (edge_batch_of code t1 t2 ds)
      \<longrightarrow> validate kvs = Some (edge_batch_of code t1 t2 ds))"

definition event_shows :: "int \<Rightarrow> datetime \<Rightarrow> edge_detection \<Rightarrow> event \<Rightarrow> bool" where
  "event_shows i t d e \<longleftrightarrow> e_video_file_id e = i \<and> e_tractor_id e = None \<and> e_aruco_id e = ed_aruco_id d
     \<and> e_event_type e = DETECTED \<and> e_detector_method e = ARUCO \<and> e_inside_roi e = ed_inside_roi d
     \<and> e_frame_number e = ed_frame_number d \<and> e_timestamp_in_video e = ed_timestamp_in_video d
     \<and> e_wall_clock_at e = t \<and> e_confidence e = Some (ed_confidence d) \<and> e_bbox e = ed_bbox d
     \<and> e_detector_metadata e = Some (ed_detector_metadata d)"

lemma sendable_batch:
  "list_all sendable ds \<Longrightarrow> batch_valid (edge_batch_of code t1 t2 ds)
     \<longleftrightarrow> 1 \<le> length code \<and> length code \<le> 64 \<and> length ds \<le> 10000"
  by (auto simp: batch_valid_def edge_batch_of_def event_in_valid_def event_in_of_def sendable_def list_all_iff)

lemma stored_event_shows:
  "event_shows i (Naive t2) d (stamp_new now j (event_row (edge_event_create i (Aware t2 0) (event_in_of d))))"
  by (simp add: event_shows_def event_in_of_def edge_event_create_def event_row_def stamp_new_def)

lemma stored_events_of:
  "list_all2 (event_shows i (Naive t2)) ds
     (stored_events now j (map (edge_event_create i (Aware t2 0)) (map event_in_of ds)))"
  by (induction ds arbitrary: j) (simp_all add: stored_event_shows)

lemma edge_payload_keys:
  assumes "edge_payload p now ds = JObj kvs"
  shows "json_get ''station_code'' kvs = Some (JStr (es_station_code (eg_settings p)))"
    "json_get ''started_at'' kvs = Some (JFloat (or_else (eg_started_at p) now))"
    "json_get ''ended_at'' kvs = Some (JFloat now)"
    "json_get ''events'' kvs = Some (JList (map detection_json ds))"
  using assms by (auto simp: edge_payload_def json_get_def)

lemma other_key: "k \<noteq> k1 \<Longrightarrow> k \<noteq> k2 \<Longrightarrow> json_get k (kvs @ [(k1, v1), (k2, v2)]) = json_get k kvs"
  by (simp add: json_get_def)

text \<open>A request that the API answers with success is made once.\<close>

lemma forward_success:
  assumes "0 < co_max_retries c" and "net (fw_posts s) = Answered"
    and "serve p (fw_server s) = (Inr 201, w)"
  shows "forward_with_retries c serve net p s = (Inr (), s\<lparr>fw_posts := Suc (fw_posts s), fw_server := w\<rparr>)"
proof -
  obtain n where "nat (co_max_retries c) = Suc n" using assms(1) by (cases "nat (co_max_retries c)") auto
  then show ?thesis
    using assms by (simp add: forward_with_retries_def http_post_def Let_def status_of_def success_code_def)
qed

text \<open>
  C11: From the camera to the database: a batch of well-formed detections of a known station,
  as the edge publishes it, is decoded, timed by two readings of the consumer's clock,
  validated and stored by the API; when the first reading is before the second, one event per
  detection is appended to the station's sentinel, with the detection's marker, confidence,
  box, region flag, frame number, timestamp and metadata, stamped with the second reading and
  without a tractor.
\<close>

theorem edge_batch_becomes_events:
  assumes c: "consistent (committed (fw_server s))"
    and decoded: "loads (payload m) = Some (edge_payload p now ds)"
    and reads: "reads_batch validate (es_station_code (eg_settings p)) t1 t2 ds"
    and ds: "list_all sendable ds" "length ds \<le> 10000" "es_station_code (eg_settings p) \<noteq> []"
      "length (es_station_code (eg_settings p)) \<le> 64"
    and station: "find (\<lambda>x. st_code x = es_station_code (eg_settings p)) (tbl_rows (stations (committed (fw_server s)))) = Some st"
    and clock: "fw_clock s (fw_reads s) = t1" "fw_clock s (Suc (fw_reads s)) = t2" "t1 < t2"
    and net: "0 < co_max_retries c" "net (fw_posts s) = Answered"
  shows "\<exists>s' v evs. handle_message c loads validate (post_ingest H) net m s = (Inr Forwarded, s')
    \<and> consistent (committed (fw_server s'))
    \<and> sentinel_at H (es_station_code (eg_settings p)) (committed (fw_server s')) = Some v
    \<and> tbl_rows (events (committed (fw_server s'))) = tbl_rows (events (committed (fw_server s))) @ evs
    \<and> list_all2 (event_shows (row_id v) (Naive t2)) ds evs"
proof -
  let ?code = "es_station_code (eg_settings p)"
  let ?b = "edge_batch_of ?code t1 t2 ds"
  let ?s = "s\<lparr>fw_reads := Suc (Suc (fw_reads s))\<rparr>"
  obtain kvs where kvs: "edge_payload p now ds = JObj kvs" by (simp add: edge_payload_def)
  note keys = edge_payload_keys [OF kvs]
  define kvs' where "kvs' = kvs @ [(''started_at'', JStr (isoformat (Aware t1 0))), (''ended_at'', JStr (isoformat (Aware t2 0)))]"
  have norm: "normalise_timestamps kvs s = (Inr kvs', ?s)"
    using normalise_numbers [OF keys(2) _ keys(3), of s] clock by (simp add: kvs'_def)
  have ok: "batch_valid ?b"
    using sendable_batch [OF ds(1)] ds by (simp add: Suc_le_eq)
  have "json_get ''started_at'' kvs' = Some (JStr (isoformat (Aware t1 0)))"
    "json_get ''ended_at'' kvs' = Some (JStr (isoformat (Aware t2 0)))"
    by (simp_all add: kvs'_def json_get_def del: isoformat.simps)
  then have valid: "validate kvs' = Some ?b"
    using reads keys ok ds(1) by (simp add: reads_batch_def kvs'_def other_key del: isoformat.simps)
  have post: "\<exists>v w'. post_ingest H ?b (fw_server s) = (Inr 201, w') \<and> consistent (committed w')
    \<and> sentinel_at H ?code (committed w') = Some v
    \<and> (\<exists>j tn. tbl_rows (events (committed w')) = tbl_rows (events (committed (fw_server s)))
        @ stored_events tn j (map (edge_event_create (row_id v) (Aware t2 0)) (map event_in_of ds)))"
    using post_run [OF c ok, of st H] station clock(3) by (auto simp: edge_batch_of_def utc_us_def)
  then obtain v w' j tn where w: "post_ingest H ?b (fw_server s) = (Inr 201, w')" "consistent (committed w')"
      "sentinel_at H ?code (committed w') = Some v"
      "tbl_rows (events (committed w')) = tbl_rows (events (committed (fw_server s)))
        @ stored_events tn j (map (edge_event_create (row_id v) (Aware t2 0)) (map event_in_of ds))"
    by blast
  have fwd: "forward_with_retries c (post_ingest H) net ?b ?s = (Inr (), ?s\<lparr>fw_posts := Suc (fw_posts s), fw_server := w'\<rparr>)"
    using forward_success [where s = ?s and serve = "post_ingest H" and p = ?b and w = w' and net = net, OF net(1)] net(2) w(1) by simp
  have "handle_message c loads validate (post_ingest H) net m s = (Inr Forwarded, ?s\<lparr>fw_posts := Suc (fw_posts s), fw_server := w'\<rparr>)"
    using norm decoded kvs valid fwd by (simp add: handle_message_def bindM_run seqM_def tryM_def)
  then show ?thesis
    using w(2-4) stored_events_of [of "row_id v" t2 ds tn j]
    by (intro exI [of _ "?s\<lparr>fw_posts := Suc (fw_posts s), fw_server := w'\<rparr>"] exI [of _ v] exI) auto
qed

definition gate_edge :: "unit edge" where
  "gate_edge = bench_edge\<lparr>eg_settings := default_edge_settings\<lparr>es_station_code := ''gate-1''\<rparr>\<rparr>"

definition gate_detection :: edge_detection where
  "gate_detection = \<lparr>ed_aruco_id = Some 7, ed_confidence = 1, ed_bbox = None, ed_inside_roi = True,
     ed_frame_number = 3, ed_timestamp_in_video = 1 / 2,
     ed_detector_metadata = JObj [(''triggered_by_mog2'', JBool True)]\<rparr>"

definition gate_validate :: "(string \<times> json) list \<Rightarrow> edge_batch_in option" where
  "gate_validate kvs =
     (if json_get ''station_code'' kvs = Some (JStr ''gate-1'')
       \<and> json_get ''started_at'' kvs = Some (JStr (isoformat (Aware 7000000 0)))
       \<and> json_get ''ended_at'' kvs = Some (JStr (isoformat (Aware 7000001 0)))
       \<and> json_get ''events'' kvs = Some (JList [detection_json gate_detection])
      then Some (edge_batch_of ''gate-1'' 7000000 7000001 [gate_detection]) else None)"

lemma gate_reads: "reads_batch gate_validate ''gate-1'' 7000000 7000001 [gate_detection]"
  by (simp add: reads_batch_def gate_validate_def del: isoformat.simps)

theorem edge_batch_becomes_events_witness:
  "\<exists>s' (v :: video_file) e. handle_message sample_consumer (\<lambda>_. Some (edge_payload gate_edge 5 [gate_detection])) gate_validate
       (post_ingest plain_hasher) (\<lambda>_. Answered) \<lparr>topic = ''farm/gate-1/detections'', payload = []\<rparr>
       (sample_forwarding\<lparr>fw_clock := \<lambda>n. 7000000 + int n\<rparr>) = (Inr Forwarded, s')
    \<and> tbl_rows (events (committed (fw_server s'))) = tbl_rows (events (plant [])) @ [e]
    \<and> e_aruco_id e = Some 7 \<and> e_wall_clock_at e = Naive 7000001 \<and> e_video_file_id e = row_id (v :: video_file)"
proof -
  let ?s = "sample_forwarding\<lparr>fw_clock := \<lambda>n. 7000000 + int n\<rparr>"
  have code: "es_station_code (eg_settings gate_edge) = ''gate-1''" by (simp add: gate_edge_def)
  have c: "consistent (committed (fw_server ?s))" by (simp add: sample_forwarding_def empty_plant_consistent)
  have st: "find (\<lambda>x. st_code x = es_station_code (eg_settings gate_edge)) (tbl_rows (stations (committed (fw_server ?s)))) = Some st1"
    by (simp add: code sample_forwarding_def plant_def st1_def)
  have sendable: "list_all sendable [gate_detection]" by (simp add: sendable_def gate_detection_def)
  have retries: "0 < co_max_retries sample_consumer"
    by (simp add: sample_consumer_def new_consumer_def default_consumer_settings_def or_else_def Let_def)
  have "\<exists>s' (v :: video_file) evs. handle_message sample_consumer (\<lambda>_. Some (edge_payload gate_edge 5 [gate_detection])) gate_validate
       (post_ingest plain_hasher) (\<lambda>_. Answered) \<lparr>topic = ''farm/gate-1/detections'', payload = []\<rparr> ?s = (Inr Forwarded, s')
    \<and> consistent (committed (fw_server s'))
    \<and> sentinel_at plain_hasher (es_station_code (eg_settings gate_edge)) (committed (fw_server s')) = Some v
    \<and> tbl_rows (events (committed (fw_server s'))) = tbl_rows (events (committed (fw_server ?s))) @ evs
    \<and> list_all2 (event_shows (row_id v) (Naive 7000001)) [gate_detection] evs"
    by (rule edge_batch_becomes_events [OF c refl _ sendable _ _ _ st, of gate_validate 7000000 7000001])
       (simp_all add: code gate_reads retries sample_forwarding_def)
  then obtain s' and v :: video_file and evs where run: "handle_message sample_consumer (\<lambda>_. Some (edge_payload gate_edge 5 [gate_detection]))
       gate_validate (post_ingest plain_hasher) (\<lambda>_. Answered) \<lparr>topic = ''farm/gate-1/detections'', payload = []\<rparr> ?s = (Inr Forwarded, s')"
    "tbl_rows (events (committed (fw_server s'))) = tbl_rows (events (committed (fw_server ?s))) @ evs"
    "list_all2 (event_shows (row_id v) (Naive 7000001)) [gate_detection] evs"
    by blast
  then obtain e where "evs = [e]" "event_shows (row_id v) (Naive 7000001) gate_detection e"
    by (auto simp: list_all2_Cons1)
  then show ?thesis
    using run by (intro exI [of _ s'] exI [of _ v] exI [of _ e]) (simp add: sample_forwarding_def event_shows_def gate_detection_def)
qed

end
