(* ===== verification/Paths.thy ===== *)
theory Paths
  imports Ingestion MqttProperties
begin

text \<open>
  The laws of paths and of hexadecimal names that the ingestion relies on: writing a path and reading it
  again gives its parts, and the place of a clip in the cold storage determines the clip's content hash.
\<close>

section \<open>Paths\<close>

lemma split_on_nonempty [simp]: "split_on c s \<noteq> []"
  by (induction s) (auto split: list.splits)

lemma split_on_slash:
  "split_on c (xs @ c # ys) = split_on c xs @ split_on c ys"
  by (induction xs) (auto split: list.splits)

lemma split_on_parts: "w \<in> set (split_on c s) \<Longrightarrow> c \<notin> set w"
  by (induction s arbitrary: w) (auto split: list.splits if_splits)

lemma parts_append: "path_parts (a @ CHR ''/'' # b) = path_parts a @ path_parts b"
  by (simp add: path_parts_def split_on_slash)

lemma parts_one: "CHR ''/'' \<notin> set w \<Longrightarrow> path_parts w = (if w = [] \<or> w = ''.'' then [] else [w])"
  by (simp add: path_parts_def)

lemma parts_join:
  "list_all (\<lambda>w. CHR ''/'' \<notin> set w \<and> w \<noteq> [] \<and> w \<noteq> ''.'') ws \<Longrightarrow> path_parts (join_with ''/'' ws) = ws"
proof (induction ws)
  case (Cons w ws)
  then show ?case using parts_append [of w "join_with ''/'' ws"] by (cases ws) (simp_all add: parts_one)
qed (simp add: parts_one)

lemma parts_fine: "list_all (\<lambda>w. CHR ''/'' \<notin> set w \<and> w \<noteq> [] \<and> w \<noteq> ''.'') (path_parts p)"
  by (auto simp: path_parts_def list_all_iff dest: split_on_parts)

lemma parts_str [simp]: "path_parts (path_str p) = path_parts p"
proof -
  have root: "path_parts (path_root p @ s) = path_parts s" for s
    using parts_append [of "[]" s] parts_append [of "[]" "CHR ''/'' # s"]
    by (auto simp: path_root_def parts_one)
  have "path_parts (path_root p @ join_with ''/'' (path_parts p)) = path_parts p"
    by (simp add: root parts_join [OF parts_fine])
  moreover have "path_parts [] = []" "path_parts ''.'' = []" by (simp_all add: parts_one)
  ultimately show ?thesis by (auto simp: path_str_def Let_def)
qed

lemma name_str [simp]: "path_name (path_str p) = path_name p"
  by (simp add: path_name_def)

text \<open>A plain name is one that a path can end with.\<close>

definition plain_name :: "string \<Rightarrow> bool" where
  "plain_name n \<longleftrightarrow> CHR ''/'' \<notin> set n \<and> n \<noteq> [] \<and> n \<noteq> ''.''"

lemma plain_root: "plain_name n \<Longrightarrow> path_root n = []"
  by (cases n) (auto simp: plain_name_def path_root_def)

lemma join_cases:
  assumes "plain_name n"
  obtains (empty) "d = []" "path_join d n = path_str n"
    | (slash) c where "d = c @ ''/''" "path_join d n = path_str (c @ CHR ''/'' # n)"
    | (none) "d \<noteq> []" "last d \<noteq> CHR ''/''" "path_join d n = path_str (d @ CHR ''/'' # n)"
proof (cases "d = []")
  case True
  then show ?thesis using plain_root [OF assms] empty by (simp add: path_join_def)
next
  case d: False
  show ?thesis
  proof (cases "last d = CHR ''/''")
    case True
    with d have "d = butlast d @ ''/''" by (metis append_butlast_last_id)
    moreover from this have "d @ n = butlast d @ CHR ''/'' # n" by (metis append.assoc append_Cons append_Nil)
    ultimately show ?thesis using plain_root [OF assms] slash True by (simp add: path_join_def)
  qed (use plain_root [OF assms] none d in \<open>simp add: path_join_def\<close>)
qed

lemma parts_path_join:
  assumes "plain_name n"
  shows "path_parts (path_join d n) = path_parts d @ [n]"
proof -
  have n: "path_parts n = [n]" using assms by (simp add: plain_name_def parts_one)
  have nil: "path_parts [] = []" by (simp add: parts_one)
  show ?thesis
    using assms
  proof (cases rule: join_cases [of n d])
    case (slash c)
    then show ?thesis using parts_append [of c n] parts_append [of c "[]"] n nil by simp
  qed (simp_all only: parts_str parts_append n nil append_Nil)
qed

lemma name_join:
  assumes "CHR ''/'' \<notin> set n" and "n \<noteq> []" and "n \<noteq> ''.''"
  shows "path_name (path_join d n) = n"
  using parts_path_join [of n d] assms by (simp add: plain_name_def path_name_def)

lemma root_str: "path_root (path_str p) = path_root p"
proof -
  have j: "take 1 (join_with ''/'' (path_parts p)) \<noteq> ''/''"
  proof (cases "path_parts p")
    case (Cons x xs)
    then have "CHR ''/'' \<notin> set x" "x \<noteq> []" using parts_fine [of p] by simp_all
    then show ?thesis by (cases x; cases xs) (auto simp: Cons)
  qed simp
  show ?thesis
    using j by (cases "join_with ''/'' (path_parts p)") (auto simp: path_str_def path_root_def Let_def)
qed

lemma str_str [simp]: "path_str (path_str p) = path_str p"
  unfolding path_str_def [of "path_str p"] root_str parts_str by (simp add: path_str_def)

lemma str_join [simp]: "path_str (path_join d n) = path_join d n"
  by (simp add: path_join_def)

section \<open>Hexadecimal names\<close>

lemma hex_digit_char: "n < 16 \<Longrightarrow> of_char (hex_digit n) = (if n < 10 then 48 + n else 87 + n)"
  by (simp add: hex_digit_def)

lemma hex_digit_inj:
  assumes "m < 16" and "n < 16" and "hex_digit m = hex_digit n"
  shows "m = n"
proof -
  have "(if m < 10 then 48 + m else 87 + m) = (if n < 10 then 48 + n else 87 + n)"
    using hex_digit_char [OF assms(1)] hex_digit_char [OF assms(2)] assms(3) by simp
  then show ?thesis using assms(1,2) by (simp split: if_splits)
qed

lemma hex_digit_plain:
  assumes "n < 16"
  shows "hex_digit n \<noteq> CHR ''/'' \<and> hex_digit n \<noteq> CHR ''.''"
proof -
  have "of_char (hex_digit n) \<noteq> (47 :: nat)" "of_char (hex_digit n) \<noteq> (46 :: nat)"
    using assms by (simp_all add: hex_digit_char)
  then show ?thesis by auto
qed

lemma char_nibbles: "of_char (c :: char) div 16 < (16 :: nat)" "of_char (c :: char) mod 16 < (16 :: nat)"
proof -
  have "of_char c mod 256 < (256 :: nat)" by (rule mod_less_divisor) simp
  then have "of_char c < (16 * 16 :: nat)" by simp
  then show "of_char c div 16 < (16 :: nat)" by (rule less_mult_imp_div_less)
qed simp

lemma hex_plain: "c \<in> set (hex s) \<Longrightarrow> c \<noteq> CHR ''/'' \<and> c \<noteq> CHR ''.''"
  using hex_digit_plain char_nibbles by (force simp: hex_def)

lemma hex_Cons: "hex (c # s) = hex_digit (of_char c div 16) # hex_digit (of_char c mod 16) # hex s"
  by (simp add: hex_def)

lemma hex_inj: "hex s = hex t \<Longrightarrow> s = t"
proof (induction s arbitrary: t)
  case Nil
  then show ?case by (cases t) (auto simp: hex_def)
next
  case (Cons c s)
  then obtain d t' where t: "t = d # t'" by (cases t) (auto simp: hex_def)
  have eqs: "hex_digit (of_char c div 16) = hex_digit (of_char d div 16)"
    "hex_digit (of_char c mod 16) = hex_digit (of_char d mod 16)" "hex s = hex t'"
    using Cons.prems unfolding t hex_Cons list.inject by blast+
  note digits = hex_digit_inj [OF char_nibbles(1) char_nibbles(1) eqs(1)]
    hex_digit_inj [OF char_nibbles(2) char_nibbles(2) eqs(2)]
  have "of_char c = (of_char c div 16 * 16 + of_char c mod 16 :: nat)" by (rule div_mult_mod_eq [symmetric])
  also have "\<dots> = of_char d" unfolding digits by (rule div_mult_mod_eq)
  finally have "c = d" by simp
  then show ?case using Cons.IH [OF eqs(3)] t by simp
qed

lemma suffix_form: "path_suffix p = [] \<or> (\<exists>t. path_suffix p = CHR ''.'' # t \<and> CHR ''/'' \<notin> set t)"
proof -
  have "CHR ''/'' \<notin> set (path_name p)"
    using parts_fine [of p] by (auto simp: path_name_def list_all_iff dest: last_in_set)
  then have "CHR ''/'' \<notin> set (takeWhile (\<lambda>c. c \<noteq> CHR ''.'') (rev (path_name p)))"
    by (auto dest: set_takeWhileD)
  then show ?thesis by (auto simp: path_suffix_def Let_def)
qed

lemma lower_suffix_form: "lower (path_suffix p) = [] \<or> (\<exists>t. lower (path_suffix p) = CHR ''.'' # t \<and> CHR ''/'' \<notin> set t)"
proof -
  have dot: "lower_char (CHR ''.'') = CHR ''.''" by (simp add: lower_char_def Let_def)
  have "c = CHR ''/''" if "lower_char c = CHR ''/''" for c
  proof -
    have "of_char (lower_char c) = (47 :: nat)" by (simp add: that)
    then have "\<not> (65 \<le> (of_char c :: nat) \<and> (of_char c :: nat) \<le> 90)"
      by (auto simp: lower_char_def Let_def)
    then show ?thesis using that by (auto simp: lower_char_def Let_def)
  qed
  then have "CHR ''/'' \<notin> set t \<Longrightarrow> CHR ''/'' \<notin> set (map lower_char t)" for t by force
  then show ?thesis using suffix_form [of p] by (auto simp: lower_def dot)
qed

text \<open>Two clips share a place in the cold storage only when their content hashes are equal.\<close>

lemma storage_name:
  assumes "sv_content_hash item \<noteq> []"
  shows "path_name (storage_path cfg item) = hex (sv_content_hash item) @ lower (path_suffix (sv_file_path item))"
    (is "_ = ?n")
proof -
  have ne: "hex (sv_content_hash item) \<noteq> []" using assms by (cases "sv_content_hash item") (auto simp: hex_def)
  have "CHR ''/'' \<notin> set ?n"
    using lower_suffix_form [of "sv_file_path item"] hex_plain by auto
  moreover have "?n \<noteq> ''.''"
  proof
    assume "?n = ''.''"
    with ne have "CHR ''.'' \<in> set (hex (sv_content_hash item))" by (cases "hex (sv_content_hash item)") auto
    then show False using hex_plain by blast
  qed
  ultimately show ?thesis using ne by (simp add: storage_path_def name_join)
qed

lemma storage_place:
  assumes "path_str (storage_path cfg i) = path_str (storage_path cfg j)"
    and "sv_content_hash i \<noteq> []" and "sv_content_hash j \<noteq> []"
  shows "sv_content_hash i = sv_content_hash j"
proof -
  have stem: "takeWhile (\<lambda>c. c \<noteq> CHR ''.'') (hex h @ lower (path_suffix p)) = hex h" for h p
    using lower_suffix_form [of p] hex_plain [of _ h] by (subst takeWhile_append2) auto
  have "path_name (storage_path cfg i) = path_name (storage_path cfg j)"
    using arg_cong [OF assms(1), of path_name] by simp
  then have "hex (sv_content_hash i) = hex (sv_content_hash j)"
    using stem [of "sv_content_hash i" "sv_file_path i"] stem [of "sv_content_hash j" "sv_file_path j"]
    by (simp add: storage_name assms(2,3))
  then show ?thesis by (rule hex_inj)
qed

end
