(* ===== verification/IngestionSystem.thy ===== *)
theory IngestionSystem
  imports IngestionProperties Paths
begin

text \<open>
  The ingestion process as a whole (\<open>watch_station_dirs\<close> and \<open>main\<close> of \<open>ingestion/main.py\<close>): the
  producers of all folders, the semaphore that bounds their requests, the watcher that starts and cancels
  them, and the cameras that write into the folders meanwhile. The coroutines interleave where they
  await: for the semaphore, for the answer of the API, and in their pauses. \<open>folder\<close> says in which
  station folder a file lies; a listing of a folder gives only its own files.
\<close>

section \<open>The system\<close>

text \<open>
  Where a producer is: looking for a clip; queued for the semaphore with a clip; inside the semaphore,
  its clip copied and the request under way; or with the answer, \<open>True\<close> when the source may go.
\<close>

datatype phase =
    Looking
  | Awaiting station_video_file
  | Posting station_video_file
  | Replied station_video_file bool

fun phase_item :: "phase \<Rightarrow> station_video_file option" where
  "phase_item Looking = None"
| "phase_item (Awaiting item) = Some item"
| "phase_item (Posting item) = Some item"
| "phase_item (Replied item _) = Some item"

fun holds_permit :: "phase \<Rightarrow> bool" where
  "holds_permit (Posting _) = True"
| "holds_permit (Replied _ _) = True"
| "holds_permit _ = False"

record ingest_system =
  sy_fw :: "world forwarding"
  sy_watch :: watcher
  sy_phase :: "string \<Rightarrow> phase"
  sy_permits :: int

definition ingest_start :: "ingestion_settings \<Rightarrow> world forwarding \<Rightarrow> ingest_system" where
  "ingest_start cfg fw =
     \<lparr>sy_fw = fw, sy_watch = \<lparr>wa_active = {}, wa_current = {}\<rparr>, sy_phase = (\<lambda>_. Looking),
      sy_permits = ig_num_concurrent_requests cfg\<rparr>"

definition sy_files :: "ingest_system \<Rightarrow> string \<Rightarrow> string option" where
  "sy_files s = files (fw_server (sy_fw s))"

definition set_phase :: "string \<Rightarrow> phase \<Rightarrow> int \<Rightarrow> world forwarding \<Rightarrow> ingest_system \<Rightarrow> ingest_system" where
  "set_phase d ph n fw s = s\<lparr>sy_fw := fw, sy_phase := (sy_phase s)(d := ph), sy_permits := sy_permits s + n\<rparr>"

text \<open>The producers outside \<open>active\<close> are cancelled; \<open>async with semaphore\<close> gives their permits back.\<close>

definition retire :: "watcher \<Rightarrow> ingest_system \<Rightarrow> ingest_system" where
  "retire w s = s\<lparr>sy_watch := w,
     sy_phase := (\<lambda>d. if d \<in> wa_active (sy_watch s) \<inter> wa_active w then sy_phase s d else Looking),
     sy_permits := sy_permits s
       + int (card {d \<in> wa_active (sy_watch s) - wa_active w. holds_permit (sy_phase s d)})\<rparr>"

text \<open>
  \<open>grows\<close> says whether cameras may write to a file that is already there. \<open>Path.resolve\<close> leaves a resolved
  path as it is.
\<close>

inductive ingest_step ::
  "ingestion_settings \<Rightarrow> 'h hasher \<Rightarrow> (video_post \<Rightarrow> int io) \<Rightarrow> (nat \<Rightarrow> fate) \<Rightarrow> (string \<Rightarrow> string option) \<Rightarrow> bool
   \<Rightarrow> ingest_system \<Rightarrow> ingest_system \<Rightarrow> bool"
  for cfg H serve net folder grows where
  watch: "(\<forall>d \<in> wa_active (sy_watch s). real_path d = d) \<Longrightarrow>
    ingest_step cfg H serve net folder grows s (retire (watch_turn real_path exists listing (sy_watch s)) s)"
| find: "d \<in> wa_active (sy_watch s) \<Longrightarrow> sy_phase s d = Looking \<Longrightarrow> folder (path_str p) = Some d \<Longrightarrow>
    entry_is_valid cfg p \<Longrightarrow> build_entry H cfg p (path_name d) (fw_server (sy_fw s)) = (Inr item, w) \<Longrightarrow>
    ingest_step cfg H serve net folder grows s (set_phase d (Awaiting item) 0 (sy_fw s) s)"
| enter: "sy_phase s d = Awaiting item \<Longrightarrow> 0 < sy_permits s \<Longrightarrow>
    on_files (copy_to_cold_storage cfg item) (sy_fw s) = (Inr dst, fw) \<Longrightarrow>
    ingest_step cfg H serve net folder grows s (set_phase d (Posting item) (-1) fw s)"
| enter_failed: "sy_phase s d = Awaiting item \<Longrightarrow> 0 < sy_permits s \<Longrightarrow>
    on_files (copy_to_cold_storage cfg item) (sy_fw s) = (Inl e, fw) \<Longrightarrow>
    ingest_step cfg H serve net folder grows s (set_phase d Looking 0 fw s)"
| reply: "sy_phase s d = Posting item \<Longrightarrow>
    forward_video_to_api cfg serve net item (sy_fw s) = (r, fw) \<Longrightarrow>
    ingest_step cfg H serve net folder grows s
      (set_phase d (Replied item (r = Inr () \<or> (\<exists>e. r = Inl e \<and> exn_class e = VideoAlreadyExistsErr))) 0 fw s)"
| finish: "sy_phase s d = Replied item fin \<Longrightarrow>
    ingest_step cfg H serve net folder grows s
      (set_phase d Looking 1 (if fin then snd (on_files (unlink_entry item) (sy_fw s)) else sy_fw s) s)"
| camera: "folder q \<noteq> None \<Longrightarrow> sy_files s q = None \<or> grows \<Longrightarrow>
    fw = (sy_fw s)\<lparr>fw_server := (fw_server (sy_fw s))\<lparr>files := (files (fw_server (sy_fw s)))(q := Some content)\<rparr>\<rparr> \<Longrightarrow>
    ingest_step cfg H serve net folder grows s (s\<lparr>sy_fw := fw\<rparr>)"
| stop: "ingest_step cfg H serve net folder grows s (retire (watch_shutdown (sy_watch s)) s)"

inductive_cases ingest_stepE: "ingest_step cfg H serve net folder grows s s'"

section \<open>The invariant\<close>

lemma set_phase_simps [simp]:
  "sy_fw (set_phase d ph n fw s) = fw" "sy_watch (set_phase d ph n fw s) = sy_watch s"
  "sy_phase (set_phase d ph n fw s) = (sy_phase s)(d := ph)" "sy_permits (set_phase d ph n fw s) = sy_permits s + n"
  by (simp_all add: set_phase_def)

lemma retire_simps [simp]: "sy_fw (retire w s) = sy_fw s" "sy_watch (retire w s) = w"
  by (simp_all add: retire_def)

text \<open>The permits: those given out and those left are as many as in the settings.\<close>

definition permits_ok :: "ingestion_settings \<Rightarrow> ingest_system \<Rightarrow> bool" where
  "permits_ok cfg s \<longleftrightarrow> finite (wa_active (sy_watch s)) \<and> 0 \<le> sy_permits s
     \<and> (\<forall>d. sy_phase s d \<noteq> Looking \<longrightarrow> d \<in> wa_active (sy_watch s))
     \<and> sy_permits s + int (card {d \<in> wa_active (sy_watch s). holds_permit (sy_phase s d)}) = ig_num_concurrent_requests cfg"

lemma permits_set_phase:
  assumes "permits_ok cfg s" and "d \<in> wa_active (sy_watch s)"
    and "n = (if holds_permit (sy_phase s d) then 1 else 0) - (if holds_permit ph then 1 else 0)" and "0 \<le> sy_permits s + n"
  shows "permits_ok cfg (set_phase d ph n fw s)"
proof -
  let ?A = "wa_active (sy_watch s)" and ?ph = "sy_phase s"
  have fin: "finite ?A" using assms(1) by (simp add: permits_ok_def)
  have split: "int (card {x \<in> ?A. holds_permit (f x)}) = int (card {x \<in> ?A - {d}. holds_permit (f x)})
      + (if holds_permit (f d) then 1 else 0)" for f
  proof -
    have "{x \<in> ?A. holds_permit (f x)} =
        (if holds_permit (f d) then insert d {x \<in> ?A - {d}. holds_permit (f x)} else {x \<in> ?A - {d}. holds_permit (f x)})"
      using assms(2) by auto
    then show ?thesis using fin by simp
  qed
  have "{x \<in> ?A - {d}. holds_permit ((?ph(d := ph)) x)} = {x \<in> ?A - {d}. holds_permit (?ph x)}" by auto
  then show ?thesis
    using assms split [of ?ph] split [of "?ph(d := ph)"] by (auto simp: permits_ok_def)
qed

lemma permits_retire:
  assumes "permits_ok cfg s" and "finite (wa_active w)"
  shows "permits_ok cfg (retire w s)"
proof -
  let ?A = "wa_active (sy_watch s)" and ?B = "wa_active w"
  have fin: "finite ?A" using assms(1) by (simp add: permits_ok_def)
  have "{d \<in> ?A. holds_permit (sy_phase s d)} = {d \<in> ?A - ?B. holds_permit (sy_phase s d)} \<union> {d \<in> ?A \<inter> ?B. holds_permit (sy_phase s d)}"
    by auto
  moreover have "{d \<in> ?A - ?B. holds_permit (sy_phase s d)} \<inter> {d \<in> ?A \<inter> ?B. holds_permit (sy_phase s d)} = {}" by auto
  ultimately have "card {d \<in> ?A. holds_permit (sy_phase s d)} = card {d \<in> ?A - ?B. holds_permit (sy_phase s d)}
      + card {d \<in> ?A \<inter> ?B. holds_permit (sy_phase s d)}"
    using fin by (simp add: card_Un_disjoint)
  moreover have "{d \<in> ?B. holds_permit (if d \<in> ?A \<inter> ?B then sy_phase s d else Looking)} = {d \<in> ?A \<inter> ?B. holds_permit (sy_phase s d)}"
    by auto
  ultimately show ?thesis
    using assms by (auto simp: permits_ok_def retire_def)
qed

lemma finite_watch: "finite (wa_active s) \<Longrightarrow> finite (wa_active (watch_turn real_path exists listing s))"
  by (auto simp: watch_turn_def collect_station_directories_def Let_def split: option.splits)

lemma permits_step: "ingest_step cfg H serve net folder grows s s' \<Longrightarrow> permits_ok cfg s \<Longrightarrow> permits_ok cfg s'"
proof (induction rule: ingest_step.induct)
  case (watch s real_path "exists" listing)
  then show ?case by (intro permits_retire finite_watch) (simp_all add: permits_ok_def)
next
  case (camera q s fw content)
  then show ?case by (simp add: permits_ok_def)
next
  case (stop s)
  then show ?case by (intro permits_retire) (simp_all add: watch_shutdown_def)
qed (rule permits_set_phase; force simp: permits_ok_def)+

lemma permits_reachable:
  "(ingest_step cfg H serve net folder grows)\<^sup>*\<^sup>* s s' \<Longrightarrow> permits_ok cfg s \<Longrightarrow> permits_ok cfg s'"
  by (induction rule: rtranclp_induct) (auto intro: permits_step)

lemma permits_start: "0 \<le> ig_num_concurrent_requests cfg \<Longrightarrow> permits_ok cfg (ingest_start cfg fw)"
  by (simp add: permits_ok_def ingest_start_def)

lemma requests_bounded:
  assumes "permits_ok cfg s"
  shows "int (card {d. holds_permit (sy_phase s d)}) \<le> ig_num_concurrent_requests cfg"
proof -
  have "{d. holds_permit (sy_phase s d)} = {d \<in> wa_active (sy_watch s). holds_permit (sy_phase s d)}"
    using assms by (auto simp: permits_ok_def) (metis holds_permit.simps(3))
  then show ?thesis using assms by (simp add: permits_ok_def)
qed

section \<open>No clip is lost\<close>

text \<open>
  What a producer with a clip can rely on: the source is there with the hash that names it; while it
  posts, a content of that hash is in the cold storage; when the source may go, the hash is registered.
\<close>

definition clip_ok ::
  "(string \<Rightarrow> string) \<Rightarrow> ingestion_settings \<Rightarrow> (string \<Rightarrow> string option) \<Rightarrow> world \<Rightarrow> string \<Rightarrow> phase \<Rightarrow> bool" where
  "clip_ok hash cfg folder w d ph \<longleftrightarrow>
     (\<forall>item. phase_item ph = Some item \<longrightarrow> folder (path_str (sv_file_path item)) = Some d \<and> sv_content_hash item \<noteq> []
        \<and> (\<exists>b. files w (path_str (sv_file_path item)) = Some b \<and> hash b = sv_content_hash item))
     \<and> (\<forall>item. ph = Posting item \<longrightarrow>
          (\<exists>b. files w (path_str (storage_path cfg item)) = Some b \<and> hash b = sv_content_hash item))
     \<and> (\<forall>item. ph = Replied item True \<longrightarrow> sv_content_hash item \<in> hashes (committed w))"

definition clips_ok ::
  "(string \<Rightarrow> string) \<Rightarrow> ingestion_settings \<Rightarrow> (string \<Rightarrow> string option) \<Rightarrow> ingest_system \<Rightarrow> bool" where
  "clips_ok hash cfg folder s \<longleftrightarrow> (\<forall>d. clip_ok hash cfg folder (fw_server (sy_fw s)) d (sy_phase s d))"

definition clips_kept :: "(string \<Rightarrow> string) \<Rightarrow> ingestion_settings \<Rightarrow> world \<Rightarrow> world \<Rightarrow> bool" where
  "clips_kept hash cfg w w' \<longleftrightarrow> hashes (committed w) \<subseteq> hashes (committed w')
     \<and> (\<forall>q b. outside cfg q \<longrightarrow> files w q = Some b \<longrightarrow> files w' q = Some b \<or> hash b \<in> hashes (committed w'))"

lemma kept_refl: "clips_kept hash cfg w w"
  by (simp add: clips_kept_def)

lemma kept_trans: "clips_kept hash cfg w w' \<Longrightarrow> clips_kept hash cfg w' w'' \<Longrightarrow> clips_kept hash cfg w w''"
  unfolding clips_kept_def by (meson subset_iff)

lemma clip_ok_Looking [simp]: "clip_ok hash cfg folder w d Looking"
  by (simp add: clip_ok_def)

lemma clips_ok_set:
  "clip_ok hash cfg folder (fw_server fw) d ph \<Longrightarrow>
   (\<And>x. x \<noteq> d \<Longrightarrow> clip_ok hash cfg folder (fw_server fw) x (sy_phase s x)) \<Longrightarrow>
   clips_ok hash cfg folder (set_phase d ph n fw s)"
  by (simp add: clips_ok_def)

text \<open>Neither the growth of the table of videos nor a change outside the clips' places touches a producer.\<close>

lemma clip_ok_frame:
  assumes "clip_ok hash cfg folder w d ph" and "hashes (committed w) \<subseteq> hashes (committed w')"
    and "\<And>item. phase_item ph = Some item \<Longrightarrow>
      files w' (path_str (sv_file_path item)) = files w (path_str (sv_file_path item))"
    and "\<And>item b. ph = Posting item \<Longrightarrow> files w (path_str (storage_path cfg item)) = Some b \<Longrightarrow> hash b = sv_content_hash item \<Longrightarrow>
      \<exists>b'. files w' (path_str (storage_path cfg item)) = Some b' \<and> hash b' = sv_content_hash item"
  shows "clip_ok hash cfg folder w' d ph"
  unfolding clip_ok_def
proof (intro conjI allI impI)
  fix item
  assume i: "phase_item ph = Some item"
  show "folder (path_str (sv_file_path item)) = Some d" "sv_content_hash item \<noteq> []"
    using assms(1) i by (simp_all add: clip_ok_def)
  show "\<exists>b. files w' (path_str (sv_file_path item)) = Some b \<and> hash b = sv_content_hash item"
    unfolding assms(3) [OF i] using assms(1) i by (simp add: clip_ok_def)
next
  fix item
  assume "ph = Posting item"
  then show "\<exists>b. files w' (path_str (storage_path cfg item)) = Some b \<and> hash b = sv_content_hash item"
    using assms(1,4) by (auto simp: clip_ok_def)
next
  fix item
  assume "ph = Replied item True"
  then show "sv_content_hash item \<in> hashes (committed w')"
    using assms(1,2) by (auto simp: clip_ok_def)
qed

lemma copy_run:
  assumes "files (fw_server fw) (path_str (sv_file_path item)) = Some b"
    and "path_str (sv_file_path item) \<noteq> path_str (storage_path cfg item)"
  shows "on_files (copy_to_cold_storage cfg item) fw = (Inr (storage_path cfg item),
    fw\<lparr>fw_server := (fw_server fw)\<lparr>files := (files (fw_server fw))(path_str (storage_path cfg item) := Some b)\<rparr>\<rparr>)"
  using assms by (simp add: on_files_def copy_to_cold_storage_def Let_def bindM_run seqM_def write_file_def modify_def)

lemma unlink_run:
  "snd (on_files (unlink_entry item) fw) =
    fw\<lparr>fw_server := (fw_server fw)\<lparr>files := (files (fw_server fw))(path_str (sv_file_path item) := None)\<rparr>\<rparr>"
  by (simp add: on_files_def unlink_entry_def unlink_file_def modify_def)

lemma build_entry_item:
  assumes "build_entry H cfg p code w = (Inr item, w')"
  shows "\<exists>b. files w (path_str p) = Some b \<and> sv_content_hash item = hash_large_file H 65536 b \<and> sv_file_path item = p"
  using assms by (auto simp: build_entry_def bindM_run raise_def split: option.splits)

context clip_api begin

definition system_ok :: "ingestion_settings \<Rightarrow> (string \<Rightarrow> string option) \<Rightarrow> ingest_system \<Rightarrow> bool" where
  "system_ok cfg folder s \<longleftrightarrow> inv (fw_server (sy_fw s)) \<and> clips_ok hash cfg folder s"

lemma system_step:
  assumes step: "ingest_step cfg H serve net folder False s s'"
    and H: "hash = hash_large_file H 65536" "\<forall>b. hash b \<noteq> []"
    and net: "honest net" and out: "\<forall>q d. folder q = Some d \<longrightarrow> outside cfg q"
    and ok: "system_ok cfg folder s"
  shows "system_ok cfg folder s' \<and> clips_kept hash cfg (fw_server (sy_fw s)) (fw_server (sy_fw s'))"
proof -
  let ?w = "fw_server (sy_fw s)"
  have inv: "inv ?w" and clips: "\<And>d. clip_ok hash cfg folder ?w d (sy_phase s d)"
    using ok by (auto simp: system_ok_def clips_ok_def)
  have src: "\<exists>b. files ?w (path_str (sv_file_path item)) = Some b \<and> hash b = sv_content_hash item"
      "folder (path_str (sv_file_path item)) = Some d" "sv_content_hash item \<noteq> []"
    if "phase_item (sy_phase s d) = Some item" for d item
    using clips [of d] that by (auto simp: clip_ok_def)
  have apart: "path_str (sv_file_path i) \<noteq> path_str (storage_path cfg j)" if "phase_item (sy_phase s d) = Some i" for d i j
    using out src(2) [OF that] by (auto simp: outside_def)
  show ?thesis
    using step
  proof cases
    case (watch real_path "exists" listing)
    then show ?thesis using inv clips by (auto simp: system_ok_def clips_ok_def kept_refl retire_def)
  next
    case stop
    then show ?thesis using inv clips by (auto simp: system_ok_def clips_ok_def kept_refl retire_def)
  next
    case (find d p item w)
    obtain b where "files ?w (path_str p) = Some b" "sv_content_hash item = hash b" "sv_file_path item = p"
      using build_entry_item [OF find(6)] H(1) by auto
    then have "clip_ok hash cfg folder ?w d (Awaiting item)"
      using find(4) H(2) by (simp add: clip_ok_def)
    then show ?thesis
      unfolding find(1) using inv clips by (auto simp: system_ok_def kept_refl intro!: clips_ok_set)
  next
    case (enter_failed d item e fw)
    have i: "phase_item (sy_phase s d) = Some item" using enter_failed(2) by simp
    then show ?thesis using enter_failed(4) src(1) [OF i] copy_run [OF _ apart [OF i]] by fastforce
  next
    case (enter d item dst fw)
    have i: "phase_item (sy_phase s d) = Some item" using enter(2) by simp
    obtain b where b: "files ?w (path_str (sv_file_path item)) = Some b" "hash b = sv_content_hash item"
      using src(1) [OF i] by blast
    have fw: "fw_server fw = ?w\<lparr>files := (files ?w)(path_str (storage_path cfg item) := Some b)\<rparr>"
      using enter(4) copy_run [OF b(1) apart [OF i]] by auto
    have other: "clip_ok hash cfg folder (fw_server fw) x (sy_phase s x)" for x
    proof (rule clip_ok_frame [OF clips])
      show "files (fw_server fw) (path_str (sv_file_path j)) = files ?w (path_str (sv_file_path j))"
        if "phase_item (sy_phase s x) = Some j" for j
        using apart [OF that] by (simp add: fw)
      show "\<exists>b'. files (fw_server fw) (path_str (storage_path cfg j)) = Some b' \<and> hash b' = sv_content_hash j"
        if "sy_phase s x = Posting j" "files ?w (path_str (storage_path cfg j)) = Some c" "hash c = sv_content_hash j" for j c
        using that b(2) storage_place [of cfg item j] src(3) [OF i] src(3) [of x j] by (simp add: fw)
    qed (simp add: fw)
    have "clip_ok hash cfg folder (fw_server fw) d (Posting item)"
      using other [of d] b(2) enter(2) by (auto simp: clip_ok_def fw)
    moreover have "clips_kept hash cfg ?w (fw_server fw)"
      by (auto simp: clips_kept_def fw outside_def)
    moreover have "inv (fw_server fw)" using inv by (simp add: fw inv_files)
    ultimately show ?thesis
      unfolding enter(1) using other by (auto simp: system_ok_def intro!: clips_ok_set)
  next
    case (reply d item r fw)
    note facts = forward_facts [OF inv net reply(3)]
    have other: "clip_ok hash cfg folder (fw_server fw) x (sy_phase s x)" for x
      by (rule clip_ok_frame [OF clips facts(3)]) (simp_all add: facts(2))
    have "sv_content_hash item \<in> hashes (committed (fw_server fw))"
      if "r = Inr () \<or> (\<exists>e. r = Inl e \<and> exn_class e = VideoAlreadyExistsErr)"
      using clips [of d] reply(2) facts(4) [OF that] by (auto simp: clip_ok_def)
    then have "clip_ok hash cfg folder (fw_server fw) d (Replied item (r = Inr () \<or> (\<exists>e. r = Inl e \<and> exn_class e = VideoAlreadyExistsErr)))"
      using other [of d] reply(2) by (auto simp: clip_ok_def)
    moreover have "clips_kept hash cfg ?w (fw_server fw)" using facts(2,3) by (simp add: clips_kept_def)
    ultimately show ?thesis
      unfolding reply(1) using other facts(1) by (auto simp: system_ok_def intro!: clips_ok_set)
  next
    case (finish d item fin)
    have i: "phase_item (sy_phase s d) = Some item" using finish(2) by simp
    show ?thesis
    proof (cases fin)
      case False
      then show ?thesis unfolding finish(1) using inv clips by (auto simp: system_ok_def kept_refl intro!: clips_ok_set)
    next
      case True
      define fw where "fw = snd (on_files (unlink_entry item) (sy_fw s))"
      have fw: "fw_server fw = ?w\<lparr>files := (files ?w)(path_str (sv_file_path item) := None)\<rparr>"
        by (simp add: fw_def unlink_run)
      have other: "clip_ok hash cfg folder (fw_server fw) x (sy_phase s x)" if "x \<noteq> d" for x
      proof (rule clip_ok_frame [OF clips])
        show "files (fw_server fw) (path_str (sv_file_path j)) = files ?w (path_str (sv_file_path j))"
          if "phase_item (sy_phase s x) = Some j" for j
          using src(2) [OF that] src(2) [OF i] \<open>x \<noteq> d\<close> by (auto simp: fw)
        show "\<exists>b'. files (fw_server fw) (path_str (storage_path cfg j)) = Some b' \<and> hash b' = sv_content_hash j"
          if "sy_phase s x = Posting j" "files ?w (path_str (storage_path cfg j)) = Some c" "hash c = sv_content_hash j" for j c
          using that apart [OF i, of j] by (simp add: fw)
      qed (simp add: fw)
      have "clips_kept hash cfg ?w (fw_server fw)"
        using src(1) [OF i] clips [of d] finish(2) True by (auto simp: clips_kept_def fw clip_ok_def)
      then show ?thesis
        unfolding finish(1) using True other inv
        by (auto simp: system_ok_def fw_def [symmetric] fw inv_files intro!: clips_ok_set)
    qed
  next
    case (camera q fw content)
    have fw: "fw_server fw = ?w\<lparr>files := (files ?w)(q := Some content)\<rparr>" using camera(4) by simp
    have free: "files ?w q = None" using camera(3) by (simp add: sy_files_def)
    have q: "outside cfg q" using camera(2) out by auto
    have "clip_ok hash cfg folder (fw_server fw) x (sy_phase s x)" for x
    proof (rule clip_ok_frame [OF clips])
      show "files (fw_server fw) (path_str (sv_file_path j)) = files ?w (path_str (sv_file_path j))"
        if "phase_item (sy_phase s x) = Some j" for j
        using src(1) [OF that] free by (auto simp: fw)
      show "\<exists>b'. files (fw_server fw) (path_str (storage_path cfg j)) = Some b' \<and> hash b' = sv_content_hash j"
        if "sy_phase s x = Posting j" "files ?w (path_str (storage_path cfg j)) = Some c" "hash c = sv_content_hash j" for j c
        using that q by (auto simp: fw outside_def)
    qed (simp add: fw)
    moreover have "clips_kept hash cfg ?w (fw_server fw)" using free by (auto simp: clips_kept_def fw)
    ultimately show ?thesis
      unfolding camera(1) using inv by (auto simp: system_ok_def clips_ok_def fw inv_files)
  qed
qed

lemma system_reachable:
  assumes "(ingest_step cfg H serve net folder False)\<^sup>*\<^sup>* s s'"
    and "hash = hash_large_file H 65536" "\<forall>b. hash b \<noteq> []"
    and "honest net" and "\<forall>q d. folder q = Some d \<longrightarrow> outside cfg q"
    and "system_ok cfg folder s"
  shows "system_ok cfg folder s' \<and> clips_kept hash cfg (fw_server (sy_fw s)) (fw_server (sy_fw s'))"
  using assms(1)
proof (induction rule: rtranclp_induct)
  case base
  then show ?case using assms(6) by (simp add: kept_refl)
next
  case (step t u)
  then show ?case using system_step [OF step.hyps(2) assms(2-5)] kept_trans by blast
qed

lemmas system_reach = system_reachable [unfolded system_ok_def]

end

section \<open>The code of a producer is a run of the system\<close>

lemma produce_item_is_a_run:
  assumes "sy_phase s d = Awaiting item" and "0 < sy_permits s"
    and run: "produce_item cfg serve net item (sy_fw s) = (r, fw')"
  shows "(ingest_step cfg H serve net folder grows)\<^sup>*\<^sup>* s (set_phase d Looking 0 fw' s)"
proof -
  let ?step = "ingest_step cfg H serve net folder grows"
  obtain c fw where copy: "on_files (copy_to_cold_storage cfg item) (sy_fw s) = (c, fw)"
    by (cases "on_files (copy_to_cold_storage cfg item) (sy_fw s)")
  show ?thesis
  proof (cases c)
    case (Inl e)
    then have "fw' = fw" using run copy by (simp add: produce_item_def seqM_def bindM_run)
    then show ?thesis using ingest_step.enter_failed [OF assms(1,2)] copy Inl by blast
  next
    case (Inr dst)
    let ?s1 = "set_phase d (Posting item) (-1) fw s"
    have 1: "?step s ?s1" using ingest_step.enter [OF assms(1,2)] copy Inr by blast
    obtain q fw2 where fwd: "forward_video_to_api cfg serve net item fw = (q, fw2)"
      by (cases "forward_video_to_api cfg serve net item fw")
    define fin where "fin \<longleftrightarrow> q = Inr () \<or> (\<exists>e. q = Inl e \<and> exn_class e = VideoAlreadyExistsErr)"
    let ?s2 = "set_phase d (Replied item fin) 0 fw2 ?s1"
    let ?fw3 = "if fin then snd (on_files (unlink_entry item) fw2) else fw2"
    have 2: "?step ?s1 ?s2" unfolding fin_def by (rule ingest_step.reply) (simp_all add: fwd)
    have 3: "?step ?s2 (set_phase d Looking 1 ?fw3 ?s2)"
      using ingest_step.finish [of ?s2 d item fin cfg H serve net folder grows]
      by (simp only: set_phase_simps fun_upd_same simp_thms)
    have "fw' = ?fw3"
      using run copy fwd Inr
      by (cases q) (auto simp: fin_def produce_item_def seqM_def bindM_run tryM_def raise_def on_files_def
          unlink_entry_def unlink_file_def modify_def split: if_splits)
    then have "set_phase d Looking 1 ?fw3 ?s2 = set_phase d Looking 0 fw' s" by (simp add: set_phase_def)
    then show ?thesis
      using 1 2 3 by (metis rtranclp.rtrancl_refl rtranclp.rtrancl_into_rtrancl)
  qed
qed

lemma forward_posts:
  assumes "forward_video_to_api cfg serve net item s = (r, s')"
  shows "fw_posts s' = Suc (fw_posts s)"
proof -
  obtain q s1 where post: "http_post serve net (post_of cfg item) s = (q, s1)"
    by (cases "http_post serve net (post_of cfg item) s")
  then have "fw_posts s1 = Suc (fw_posts s)"
    by (auto simp: http_post_def Let_def split: fate.splits prod.splits)
  then show ?thesis
    using assms post by (cases q) (auto simp: forward_video_to_api_def tryM_def bindM_run raise_def split: if_splits)
qed

lemma produce_item_posts:
  assumes run: "produce_item cfg serve net item s = (r, s')"
    and "files (fw_server s) (path_str (sv_file_path item)) = Some b"
    and "path_str (sv_file_path item) \<noteq> path_str (storage_path cfg item)"
  shows "fw_posts s' = Suc (fw_posts s)"
proof -
  define s1 where "s1 = s\<lparr>fw_server := (fw_server s)\<lparr>files := (files (fw_server s))(path_str (storage_path cfg item) := Some b)\<rparr>\<rparr>"
  have copy: "on_files (copy_to_cold_storage cfg item) s = (Inr (storage_path cfg item), s1)"
    using copy_run [OF assms(2,3)] by (simp add: s1_def)
  obtain q s2 where fwd: "forward_video_to_api cfg serve net item s1 = (q, s2)"
    by (cases "forward_video_to_api cfg serve net item s1")
  have "fw_posts s' = fw_posts s2"
    using run copy fwd
    by (cases q) (auto simp: produce_item_def seqM_def bindM_run tryM_def raise_def on_files_def unlink_entry_def
        unlink_file_def modify_def split: if_splits)
  then show ?thesis using forward_posts [OF fwd] by (simp add: s1_def)
qed

text \<open>
  A clip that grows while its request is under way is removed although nothing has the hash of what was
  written last: the camera must move finished files into the folder.
\<close>

lemma growing_clip_is_lost:
  assumes "sy_phase s d = Replied item True" and "folder (path_str (sv_file_path item)) = Some d"
  shows "\<exists>s1 s2. ingest_step cfg H serve net folder True s s1 \<and> ingest_step cfg H serve net folder True s1 s2
    \<and> sy_files s1 (path_str (sv_file_path item)) = Some longer
    \<and> sy_files s2 (path_str (sv_file_path item)) = None
    \<and> committed (fw_server (sy_fw s2)) = committed (fw_server (sy_fw s))"
proof -
  define fw where "fw = (sy_fw s)\<lparr>fw_server := (fw_server (sy_fw s))\<lparr>files :=
    (files (fw_server (sy_fw s)))(path_str (sv_file_path item) := Some longer)\<rparr>\<rparr>"
  have 1: "ingest_step cfg H serve net folder True s (s\<lparr>sy_fw := fw\<rparr>)"
    by (rule ingest_step.camera) (simp_all add: assms(2) fw_def)
  have 2: "ingest_step cfg H serve net folder True (s\<lparr>sy_fw := fw\<rparr>)
      (set_phase d Looking 1 (snd (on_files (unlink_entry item) fw)) (s\<lparr>sy_fw := fw\<rparr>))"
    using ingest_step.finish [of "s\<lparr>sy_fw := fw\<rparr>" d item True] assms(1) by simp
  have "sy_files (s\<lparr>sy_fw := fw\<rparr>) (path_str (sv_file_path item)) = Some longer"
    "sy_files (set_phase d Looking 1 (snd (on_files (unlink_entry item) fw)) (s\<lparr>sy_fw := fw\<rparr>)) (path_str (sv_file_path item)) = None"
    "committed (fw_server (snd (on_files (unlink_entry item) fw))) = committed (fw_server (sy_fw s))"
    by (simp_all add: sy_files_def unlink_run fw_def)
  with 1 2 show ?thesis by (metis set_phase_simps(1))
qed

section \<open>Properties\<close>

text \<open>
  C10: However the producers of all folders, the watcher that starts and cancels them and the
  cameras interleave, and whatever requests are lost: as long as only the API answers below
  500 and cameras write no file twice, every clip that is in a folder at some moment is later
  still there or a video of its content hash is registered, the database stays consistent, and
  never are more requests under way than the semaphore allows.
\<close>

theorem concurrent_producers_lose_no_clip:
  assumes "consistent (committed (fw_server fw))" and "honest net" and "0 \<le> ig_num_concurrent_requests cfg"
    and "\<forall>b. hash_large_file H 65536 b \<noteq> []" and "\<forall>q d. folder q = Some d \<longrightarrow> outside cfg q"
    and "(ingest_step cfg H (post_handle parse H worker vcfg env task) net folder False)\<^sup>*\<^sup>* (ingest_start cfg fw) s"
    and "(ingest_step cfg H (post_handle parse H worker vcfg env task) net folder False)\<^sup>*\<^sup>* s s'"
    and "sy_files s q = Some b" and "outside cfg q"
  shows "(sy_files s' q = Some b
      \<or> (\<exists>v. v \<in> set (tbl_rows (videos (committed (fw_server (sy_fw s'))))) \<and> vf_content_hash v = hash_large_file H 65536 b))
    \<and> consistent (committed (fw_server (sy_fw s')))
    \<and> int (card {d. holds_permit (sy_phase s' d)}) \<le> ig_num_concurrent_requests cfg"
proof -
  have "clips_ok (hash_large_file H 65536) cfg folder (ingest_start cfg fw)" "consistent (committed (fw_server (sy_fw (ingest_start cfg fw))))"
    using assms(1) by (simp_all add: clips_ok_def ingest_start_def)
  note s = clips.system_reach [OF assms(6) refl assms(4,2,5) conjI, OF this(2,1)]
  note s' = clips.system_reach [OF assms(7) refl assms(4,2,5) conjunct1 [OF s]]
  have "permits_ok cfg s'"
    using permits_reachable [OF assms(7)] permits_reachable [OF assms(6)] permits_start [OF assms(3)] by blast
  then have "int (card {d. holds_permit (sy_phase s' d)}) \<le> ig_num_concurrent_requests cfg"
    by (rule requests_bounded)
  moreover have "consistent (committed (fw_server (sy_fw s')))" using s' by blast
  moreover have "files (fw_server (sy_fw s')) q = Some b
      \<or> hash_large_file H 65536 b \<in> hashes (committed (fw_server (sy_fw s')))"
    using s' assms(8,9) unfolding clips_kept_def sy_files_def by blast
  then have "sy_files s' q = Some b
      \<or> (\<exists>v. v \<in> set (tbl_rows (videos (committed (fw_server (sy_fw s'))))) \<and> vf_content_hash v = hash_large_file H 65536 b)"
    unfolding sy_files_def hashes_def by force
  ultimately show ?thesis by blast
qed

text \<open>A camera writes a clip, its producer is started, finds, copies, posts and finishes it.\<close>

definition marked_hasher :: "string hasher" where
  "marked_hasher = plain_hasher\<lparr>h_digest := \<lambda>h. CHR ''#'' # h\<rparr>"

definition gate_dir :: string where
  "gate_dir = ''/queue/STATION_1''"

definition gate_clip :: string where
  "gate_clip = ''/queue/STATION_1/20250115_093000.mp4''"

definition gate_folder :: "string \<Rightarrow> string option" where
  "gate_folder q = (if q = gate_clip then Some gate_dir else None)"

lemma gate_paths: "path_str gate_clip = gate_clip" "entry_is_valid queue_settings gate_clip"
    "take 8 (path_name gate_dir) = ''STATION_''"
  by code_simp+

lemma gate_start: "strptime (path_stem gate_clip) (ig_timestamp_format queue_settings) = Some (Naive 1736933400000000)"
  by code_simp

lemma gate_outside: "gate_folder q = Some d \<longrightarrow> outside queue_settings q"
proof -
  have "gate_clip \<noteq> path_str (storage_path queue_settings item)" for item
    using queue_storage [of item] by (auto simp: gate_clip_def)
  then show ?thesis by (simp add: gate_folder_def outside_def)
qed

lemma marked_hash: "hash_large_file marked_hasher 65536 b \<noteq> []"
  by (simp add: hash_large_file_def marked_hasher_def)

definition gate_forwarding :: "world forwarding" where
  "gate_forwarding = \<lparr>fw_server = world_of (plant []), fw_posts = 0, fw_slept = [], fw_clock = (\<lambda>_. 0), fw_reads = 0\<rparr>"

definition gate_api :: "video_post \<Rightarrow> int io" where
  "gate_api = post_handle clip_date marked_hasher (\<lambda>_ _. Inr ([], 0, 0)) default_visit_settings id ''t''"

definition gate_written :: ingest_system where
  "gate_written = (ingest_start queue_settings gate_forwarding)\<lparr>sy_fw := gate_forwarding\<lparr>fw_server :=
     (fw_server gate_forwarding)\<lparr>files := (files (fw_server gate_forwarding))(gate_clip := Some ''new clip'')\<rparr>\<rparr>\<rparr>"

lemma gate_camera:
  "ingest_step queue_settings marked_hasher gate_api net gate_folder False
     (ingest_start queue_settings gate_forwarding) gate_written"
  unfolding gate_written_def
  by (rule ingest_step.camera [where q = gate_clip and content = "''new clip''"])
     (simp_all add: gate_folder_def sy_files_def ingest_start_def gate_forwarding_def world_of_def)

lemma gate_run:
  "\<exists>s'. (ingest_step queue_settings marked_hasher gate_api net gate_folder False)\<^sup>*\<^sup>* gate_written s'
     \<and> fw_posts (sy_fw s') = 1 \<and> sy_phase s' gate_dir = Looking"
proof -
  let ?step = "ingest_step queue_settings marked_hasher gate_api net gate_folder False"
  define s2 where "s2 = retire (watch_turn id (\<lambda>_. True) (Some [(gate_dir, True)]) (sy_watch gate_written)) gate_written"
  have 2: "?step gate_written s2"
    unfolding s2_def by (rule ingest_step.watch) simp
  have s2: "sy_fw s2 = sy_fw gate_written" "wa_active (sy_watch s2) = {gate_dir}" "sy_phase s2 gate_dir = Looking" "0 < sy_permits s2"
    by (simp_all add: s2_def gate_written_def ingest_start_def watch_turn_def collect_station_directories_def gate_paths
        retire_def queue_settings_def default_ingestion_settings_def Let_def)
  define item where "item = \<lparr>sv_file_path = gate_clip, sv_station_code = path_name gate_dir,
    sv_content_hash = hash_large_file marked_hasher 65536 ''new clip'', sv_begin_ts = Naive 1736933400000000\<rparr>"
  have f: "files (fw_server (sy_fw s2)) (path_str gate_clip) = Some ''new clip''"
    by (simp add: s2(1) gate_written_def gate_paths)
  have item: "build_entry marked_hasher queue_settings gate_clip (path_name gate_dir) (fw_server (sy_fw s2)) =
      (Inr item, fw_server (sy_fw s2))"
    using f gate_start by (simp add: build_entry_def bindM_run item_def)
  let ?s3 = "set_phase gate_dir (Awaiting item) 0 (sy_fw s2) s2"
  have 3: "?step s2 ?s3"
    by (rule ingest_step.find [OF _ s2(3) _ gate_paths(2) item]) (simp_all add: s2(2) gate_folder_def gate_paths(1))
  obtain r fw' where run: "produce_item queue_settings gate_api net item (sy_fw ?s3) = (r, fw')"
    by (cases "produce_item queue_settings gate_api net item (sy_fw ?s3)")
  have 4: "?step\<^sup>*\<^sup>* ?s3 (set_phase gate_dir Looking 0 fw' ?s3)"
    by (rule produce_item_is_a_run [OF _ _ run]) (simp_all add: s2(4))
  have src: "path_str gate_clip \<noteq> path_str (storage_path queue_settings item)"
    using gate_outside [of gate_clip gate_dir] by (simp add: gate_folder_def outside_def gate_paths(1))
  have "fw_posts fw' = 1"
    using produce_item_posts [OF run, of "''new clip''"] f src by (simp add: item_def s2(1) gate_written_def gate_forwarding_def)
  then show ?thesis
    using 2 3 4 by (intro exI [of _ "set_phase gate_dir Looking 0 fw' ?s3"]) (simp add: converse_rtranclp_into_rtranclp)
qed

theorem concurrent_producers_lose_no_clip_witness:
  "\<exists>s'. (ingest_step queue_settings marked_hasher gate_api (\<lambda>_. Answered) gate_folder False)\<^sup>*\<^sup>* gate_written s'
    \<and> fw_posts (sy_fw s') = 1
    \<and> (sy_files s' gate_clip = Some ''new clip''
      \<or> (\<exists>v. v \<in> set (tbl_rows (videos (committed (fw_server (sy_fw s'))))) \<and> vf_content_hash v = ''#new clip''))"
proof -
  obtain s' where s': "(ingest_step queue_settings marked_hasher gate_api (\<lambda>_. Answered) gate_folder False)\<^sup>*\<^sup>* gate_written s'"
    "fw_posts (sy_fw s') = 1"
    using gate_run by blast
  have c: "consistent (committed (fw_server gate_forwarding))" by (simp add: gate_forwarding_def empty_plant_consistent)
  have h: "honest (\<lambda>_. Answered)" by (simp add: honest_def)
  have n: "0 \<le> ig_num_concurrent_requests queue_settings" by (simp add: queue_settings_def default_ingestion_settings_def)
  have f: "sy_files gate_written gate_clip = Some ''new clip''" by (simp add: sy_files_def gate_written_def)
  have o: "outside queue_settings gate_clip" using gate_outside [of gate_clip gate_dir] by (simp add: gate_folder_def)
  have hash: "hash_large_file marked_hasher 65536 ''new clip'' = ''#new clip''"
    using plain_hash [of "''new clip''"] by (simp add: hash_large_file_def marked_hasher_def plain_hasher_def)
  have hs: "\<forall>b. hash_large_file marked_hasher 65536 b \<noteq> []" by (simp add: marked_hash)
  have fo: "\<forall>q d. gate_folder q = Some d \<longrightarrow> outside queue_settings q" using gate_outside by blast
  have r: "(ingest_step queue_settings marked_hasher gate_api (\<lambda>_. Answered) gate_folder False)\<^sup>*\<^sup>*
      (ingest_start queue_settings gate_forwarding) gate_written"
    by (rule r_into_rtranclp) (rule gate_camera)
  from concurrent_producers_lose_no_clip [OF c h n hs fo r [unfolded gate_api_def] s'(1) [unfolded gate_api_def] f o]
  have "sy_files s' gate_clip = Some ''new clip''
      \<or> (\<exists>v. v \<in> set (tbl_rows (videos (committed (fw_server (sy_fw s'))))) \<and> vf_content_hash v = ''#new clip'')"
    unfolding hash by blast
  then show ?thesis using s' by blast
qed

end
