(* ===== verification/Seeding.thy ===== *)
theory Seeding
  imports RegistryProperties
begin

text \<open>
  \<open>scripts/seed_reference.py\<close>: the reference data of a farm, 35 stations and 6 tractors, written into
  an empty or partly filled database. Strings are their UTF-8 bytes. The main result is that seeding a
  database, whatever is in it, completes the reference data, and that seeding it again adds nothing.
\<close>

section \<open>The script\<close>

definition seed_numbers :: "nat list" where
  "seed_numbers = [1..<36]"

definition seed_roi :: "int list list" where
  "seed_roi = [[100, 100], [540, 100], [540, 380], [100, 380]]"

text \<open>\<open>f"{i:02d}"\<close>.\<close>

definition two_digits :: "nat \<Rightarrow> string" where
  "two_digits i = (if i < 10 then ''0'' @ show_nat i else show_nat i)"

definition seed_code :: "nat \<Rightarrow> string" where
  "seed_code i = ''STATION_'' @ two_digits i"

text \<open>The Russian words for station, for farm and zone, and for tractor.\<close>

definition station_word :: string where
  "station_word = [CHR 0xD0, CHR 0xA1, CHR 0xD1, CHR 0x82, CHR 0xD0, CHR 0xB0, CHR 0xD0, CHR 0xBD, CHR 0xD1, CHR 0x86,
     CHR 0xD0, CHR 0xB8, CHR 0xD1, CHR 0x8F]"

definition zone_words :: string where
  "zone_words = [CHR 0xD0, CHR 0xA4, CHR 0xD0, CHR 0xB5, CHR 0xD1, CHR 0x80, CHR 0xD0, CHR 0xBC, CHR 0xD0, CHR 0xB0,
     CHR 0x2C, CHR 0x20, CHR 0xD0, CHR 0xB7, CHR 0xD0, CHR 0xBE, CHR 0xD0, CHR 0xBD, CHR 0xD0, CHR 0xB0]"

definition tractor_word :: string where
  "tractor_word = [CHR 0xD0, CHR 0xA2, CHR 0xD1, CHR 0x80, CHR 0xD0, CHR 0xB0, CHR 0xD0, CHR 0xBA, CHR 0xD1, CHR 0x82,
     CHR 0xD0, CHR 0xBE, CHR 0xD1, CHR 0x80]"

definition seed_station :: "nat \<Rightarrow> station" where
  "seed_station i =
     \<lparr>row_id = 0, created_at = None, updated_at = None, deleted_at = None, st_code = seed_code i,
      st_name = station_word @ '' '' @ two_digits i, st_location = Some (zone_words @ '' '' @ show_nat i),
      st_video_dir = ''./data/queue/STATION_'' @ two_digits i, st_roi_polygon = Some seed_roi,
      st_is_entry_zone = True, st_is_active = True\<rparr>"

definition seed_tractor :: "int \<Rightarrow> tractor" where
  "seed_tractor k =
     \<lparr>row_id = 0, created_at = None, updated_at = None, deleted_at = None, tr_name = tractor_word @ '' #'' @ show_int k,
      tr_model = Some ''JD 6155M'', tr_notes = Some (''Primary ArUco='' @ show_int k), tr_is_active = True,
      tr_aruco_ids = [k, k + 10, k + 20]\<rparr>"

definition clear_rows :: "('a row) repo \<Rightarrow> unit io" where
  "clear_rows R = bindM (gets (\<lambda>w. map row_id (repo_rows R w))) (forM (repo_delete R))"

text \<open>\<open>--reset\<close>: the query for the tractors flushes the deletion of the stations.\<close>

definition seed_reset :: "unit io" where
  "seed_reset = seqM (clear_rows StationRepo) (seqM flush (seqM (clear_rows TractorRepo) commit))"

definition seed_stations :: "nat io" where
  "seed_stations =
     bindM (gets (\<lambda>w. map st_code (repo_rows StationRepo w))) (\<lambda>codes.
       bindM (mapM (\<lambda>i. add_row StationRepo (seed_station i)) (filter (\<lambda>i. seed_code i \<notin> set codes) seed_numbers))
         (\<lambda>ids. seqM commit (ret (length ids))))"

definition seed_tractors :: "nat io" where
  "seed_tractors =
     bindM (gets (\<lambda>w. concat (map (\<lambda>t. case primary_aruco_id t of None \<Rightarrow> [] | Some k \<Rightarrow> [k]) (repo_rows TractorRepo w))))
       (\<lambda>ks. bindM (mapM (\<lambda>k. add_row TractorRepo (seed_tractor k)) (filter (\<lambda>k. k \<notin> set ks) [1, 2, 3, 4, 5, 6]))
         (\<lambda>ids. seqM commit (ret (length ids))))"

definition seed :: "bool \<Rightarrow> (nat \<times> nat) io" where
  "seed reset = with_session (seqM (if reset then seed_reset else ret ())
     (bindM seed_stations (\<lambda>n. bindM seed_tractors (\<lambda>m. ret (n, m)))))"

section \<open>Adding rows one by one\<close>

lemma primary_stamp: "primary_aruco_id (stamp_new now i t) = primary_aruco_id t"
  by (simp add: stamp_new_def primary_aruco_id_def)

definition insert_all :: "datetime \<Rightarrow> 'a row list \<Rightarrow> 'a row table \<Rightarrow> 'a row table" where
  "insert_all now rs t = fold (\<lambda>r t. snd (table_insert now r t)) rs t"

lemma insert_all_Nil [simp]: "insert_all now [] t = t"
  by (simp add: insert_all_def)

lemma insert_all_Cons: "insert_all now (r # rs) t = insert_all now rs (snd (table_insert now r t))"
  by (simp add: insert_all_def)

lemma insert_all_rows:
  "\<exists>new. tbl_rows (insert_all now rs t) = tbl_rows t @ new \<and> list_all2 (\<lambda>r n. \<exists>j. n = stamp_new now j r) rs new"
proof (induction rs arbitrary: t)
  case (Cons r rs)
  obtain new where "tbl_rows (insert_all now rs (snd (table_insert now r t))) = tbl_rows (snd (table_insert now r t)) @ new"
    "list_all2 (\<lambda>r n. \<exists>j. n = stamp_new now j r) rs new"
    using Cons.IH by blast
  then show ?case
    by (intro exI [of _ "stamp_new now (tbl_seq t) r # new"]) (auto simp: insert_all_Cons table_insert_def)
qed simp

lemma add_stations_run:
  "\<exists>ids. mapM (\<lambda>i. add_row StationRepo (f i)) xs w =
     (Inr ids, w\<lparr>working := stations_update (\<lambda>_. insert_all (txn_now w) (map f xs) (stations (working w))) (working w)\<rparr>)
   \<and> length ids = length xs"
proof (induction xs arbitrary: w)
  case (Cons x xs)
  let ?w = "w\<lparr>working := stations_update (\<lambda>_. snd (table_insert (txn_now w) (f x) (stations (working w)))) (working w)\<rparr>"
  have "add_row StationRepo (f x) w = (Inr (tbl_seq (stations (working w))), ?w)"
    by (simp add: station_model.add_row_run Let_def)
  then show ?case using Cons [of ?w] by (auto simp: bindM_run insert_all_Cons)
qed simp

lemma add_tractors_run:
  "\<exists>ids. mapM (\<lambda>i. add_row TractorRepo (f i)) xs w =
     (Inr ids, w\<lparr>working := tractors_update (\<lambda>_. insert_all (txn_now w) (map f xs) (tractors (working w))) (working w)\<rparr>)
   \<and> length ids = length xs"
proof (induction xs arbitrary: w)
  case (Cons x xs)
  let ?w = "w\<lparr>working := tractors_update (\<lambda>_. snd (table_insert (txn_now w) (f x) (tractors (working w)))) (working w)\<rparr>"
  have "add_row TractorRepo (f x) w = (Inr (tbl_seq (tractors (working w))), ?w)"
    by (simp add: tractor_model.add_row_run Let_def)
  then show ?case using Cons [of ?w] by (auto simp: bindM_run insert_all_Cons)
qed simp

lemma consistent_add_stations:
  assumes "consistent d" and "distinct (map st_code rs)" and "\<forall>r \<in> set rs. st_code r \<notin> st_code ` set (tbl_rows (stations d))"
  shows "consistent (stations_update (\<lambda>_. insert_all now rs (stations d)) d)"
  using assms
proof (induction rs arbitrary: d)
  case (Cons r rs)
  let ?d = "stations_update (\<lambda>_. snd (table_insert now r (stations d))) d"
  have "db_wf ?d" using Cons.prems(1) tab.wf_add [of "stations d"] by (simp add: consistent_def db_wf_def)
  then have "consistent ?d" using Cons.prems db_ok_add_station [OF Cons.prems(1)] by (simp add: consistent_def)
  then have "consistent (stations_update (\<lambda>_. insert_all now rs (stations ?d)) ?d)"
    using Cons.prems by (intro Cons.IH) (auto simp: table_insert_def stamp_new_def, metis imageI)
  then show ?case by (simp add: insert_all_Cons)
qed simp

lemma consistent_add_tractors:
  assumes "consistent d" and "distinct (map primary_aruco_id rs)"
    and "\<forall>r \<in> set rs. tr_aruco_ids r \<noteq> [] \<and> primary_aruco_id r \<notin> primary_aruco_id ` set (tbl_rows (tractors d))"
  shows "consistent (tractors_update (\<lambda>_. insert_all now rs (tractors d)) d)"
  using assms
proof (induction rs arbitrary: d)
  case (Cons r rs)
  let ?d = "tractors_update (\<lambda>_. snd (table_insert now r (tractors d))) d"
  have "db_wf ?d" using Cons.prems(1) tab.wf_add [of "tractors d"] by (simp add: consistent_def db_wf_def)
  then have "consistent ?d" using Cons.prems db_ok_add_tractor [OF Cons.prems(1)] by (simp add: consistent_def)
  then have "consistent (tractors_update (\<lambda>_. insert_all now rs (tractors ?d)) ?d)"
    using Cons.prems
    by (intro Cons.IH) (auto simp: table_insert_def primary_stamp, metis imageI)
  then show ?case by (simp add: insert_all_Cons)
qed simp

section \<open>Seeding\<close>

lemma seed_codes_distinct: "distinct (map seed_code seed_numbers)"
  by code_simp

lemma set_seed_numbers: "set seed_numbers = {1..35}"
  by (auto simp: seed_numbers_def simp del: upt_rec_numeral)

definition known_codes :: "db \<Rightarrow> string set" where
  "known_codes d = st_code ` set (tbl_rows (stations d))"

definition known_markers :: "db \<Rightarrow> int set" where
  "known_markers d = {k. Some k \<in> primary_aruco_id ` set (tbl_rows (tractors d))}"

lemma seed_stations_run:
  assumes c: "consistent (working w)"
  shows "\<exists>n w'. seed_stations w = (Inr n, w') \<and> consistent (committed w') \<and> working w' = committed w'
    \<and> n = length (filter (\<lambda>i. seed_code i \<notin> known_codes (working w)) seed_numbers)
    \<and> known_codes (committed w') = known_codes (working w) \<union> seed_code ` {1..35}
    \<and> (\<exists>new. tbl_rows (stations (committed w')) = tbl_rows (stations (working w)) @ new \<and> length new = n)
    \<and> tractors (committed w') = tractors (working w) \<and> videos (committed w') = videos (working w)
    \<and> events (committed w') = events (working w) \<and> visits (committed w') = visits (regenerate (working w))"
proof -
  let ?is = "filter (\<lambda>i. seed_code i \<notin> known_codes (working w)) seed_numbers"
  let ?rs = "map seed_station ?is"
  let ?d = "stations_update (\<lambda>_. insert_all (txn_now w) ?rs (stations (working w))) (working w)"
  obtain ids where ids: "mapM (\<lambda>i. add_row StationRepo (seed_station i)) ?is w = (Inr ids, w\<lparr>working := ?d\<rparr>)"
    "length ids = length ?is"
    using add_stations_run by blast
  have codes: "map st_code ?rs = map seed_code ?is" by (simp add: seed_station_def comp_def)
  have "consistent ?d"
  proof (rule consistent_add_stations [OF c])
    show "distinct (map st_code ?rs)"
      unfolding codes using seed_codes_distinct by (rule distinct_map_filter)
  qed (auto simp: seed_station_def known_codes_def)
  then obtain w' where w': "commit (w\<lparr>working := ?d\<rparr>) = (Inr (), w')" "consistent (committed w')"
      "working w' = committed w'" "committed w' = regenerate ?d"
    using commit_run [of "w\<lparr>working := ?d\<rparr>"] by auto
  obtain new where new: "tbl_rows (insert_all (txn_now w) ?rs (stations (working w))) = tbl_rows (stations (working w)) @ new"
    "list_all2 (\<lambda>r n. \<exists>j. n = stamp_new (txn_now w) j r) ?rs new"
    using insert_all_rows by blast
  have "map st_code new = map st_code ?rs"
    using new(2) by (induction rule: list_all2_induct) (auto simp: stamp_new_def)
  then have "st_code ` set new = seed_code ` set ?is"
    unfolding codes by (metis list.set_map)
  moreover have all: "seed_code ` set ?is \<union> known_codes (working w) = known_codes (working w) \<union> seed_code ` {1..35}"
    unfolding set_seed_numbers [symmetric] by auto
  moreover have rows: "tbl_rows (stations (committed w')) = tbl_rows (stations (working w)) @ new"
    using new(1) by (simp add: w'(4))
  then have "known_codes (committed w') = known_codes (working w) \<union> st_code ` set new"
    by (simp only: known_codes_def) (simp add: image_Un)
  ultimately have "known_codes (committed w') = known_codes (working w) \<union> seed_code ` {1..35}"
    by (simp only: Un_commute)
  moreover have "seed_stations w = (Inr (length ?is), w')"
    using ids w'(1) by (simp add: seed_stations_def repo_rows_def known_codes_def bindM_run seqM_def)
  moreover have "length new = length ?is" using list_all2_lengthD [OF new(2)] by simp
  moreover have "tractors (committed w') = tractors (working w)" "videos (committed w') = videos (working w)"
    "events (committed w') = events (working w)" "visits (committed w') = visits (regenerate (working w))"
    by (simp_all add: w'(4) regenerate_def)
  ultimately show ?thesis
    using w'(2,3) rows by blast
qed

lemma seed_tractors_run:
  assumes c: "consistent (working w)"
  shows "\<exists>n w'. seed_tractors w = (Inr n, w') \<and> consistent (committed w') \<and> working w' = committed w'
    \<and> n = length (filter (\<lambda>k. k \<notin> known_markers (working w)) [1, 2, 3, 4, 5, 6])
    \<and> known_markers (committed w') = known_markers (working w) \<union> {1..6}
    \<and> (\<exists>new. tbl_rows (tractors (committed w')) = tbl_rows (tractors (working w)) @ new \<and> length new = n)
    \<and> stations (committed w') = stations (working w) \<and> videos (committed w') = videos (working w)
    \<and> events (committed w') = events (working w) \<and> visits (committed w') = visits (regenerate (working w))"
proof -
  define ks :: "int list" where "ks = [1, 2, 3, 4, 5, 6]"
  let ?ks = "filter (\<lambda>k. k \<notin> known_markers (working w)) ks"
  let ?rs = "map seed_tractor ?ks"
  let ?d = "tractors_update (\<lambda>_. insert_all (txn_now w) ?rs (tractors (working w))) (working w)"
  have found: "set (concat (map (\<lambda>t. case primary_aruco_id t of None \<Rightarrow> [] | Some k \<Rightarrow> [k]) (tbl_rows (tractors (working w)))))
      = known_markers (working w)"
    by (force simp: known_markers_def split: option.splits)
  obtain ids where ids: "mapM (\<lambda>k. add_row TractorRepo (seed_tractor k)) ?ks w = (Inr ids, w\<lparr>working := ?d\<rparr>)"
    "length ids = length ?ks"
    using add_tractors_run by blast
  have prim: "primary_aruco_id (seed_tractor k) = Some k" for k
    by (simp add: seed_tractor_def primary_aruco_id_def first_or_none_def)
  then have marks: "map primary_aruco_id ?rs = map Some ?ks" by simp
  have "consistent ?d"
  proof (rule consistent_add_tractors [OF c])
    have "distinct ?ks" by (simp add: ks_def)
    then show "distinct (map primary_aruco_id ?rs)" unfolding marks by (simp add: distinct_map)
    show "\<forall>r \<in> set ?rs. tr_aruco_ids r \<noteq> [] \<and> primary_aruco_id r \<notin> primary_aruco_id ` set (tbl_rows (tractors (working w)))"
      using prim by (auto simp: known_markers_def) (simp add: seed_tractor_def)
  qed
  then obtain w' where w': "commit (w\<lparr>working := ?d\<rparr>) = (Inr (), w')" "consistent (committed w')"
      "working w' = committed w'" "committed w' = regenerate ?d"
    using commit_run [of "w\<lparr>working := ?d\<rparr>"] by auto
  obtain new where new: "tbl_rows (insert_all (txn_now w) ?rs (tractors (working w))) = tbl_rows (tractors (working w)) @ new"
    "list_all2 (\<lambda>r n. \<exists>j. n = stamp_new (txn_now w) j r) ?rs new"
    using insert_all_rows by blast
  have "map primary_aruco_id new = map primary_aruco_id ?rs"
    using new(2) by (induction rule: list_all2_induct) (auto simp: primary_stamp)
  then have "primary_aruco_id ` set new = Some ` set ?ks"
    unfolding marks by (metis list.set_map)
  moreover have "tbl_rows (tractors (committed w')) = tbl_rows (tractors (working w)) @ new"
    using new(1) by (simp add: w'(4))
  note rows = this
  ultimately have "known_markers (committed w') = known_markers (working w) \<union> set ?ks"
    by (simp only: known_markers_def rows set_append image_Un) auto
  moreover have "set ks = {1..6}" by (auto simp: ks_def)
  ultimately have "known_markers (committed w') = known_markers (working w) \<union> {1..6}" by auto
  moreover have "seed_tractors w = (Inr (length ?ks), w')"
    using ids w'(1) found by (simp add: seed_tractors_def repo_rows_def bindM_run seqM_def ks_def [symmetric])
  moreover have "length new = length ?ks" using list_all2_lengthD [OF new(2)] by simp
  moreover have "stations (committed w') = stations (working w)" "videos (committed w') = videos (working w)"
    "events (committed w') = events (working w)" "visits (committed w') = visits (regenerate (working w))"
    by (simp_all add: w'(4) regenerate_def)
  ultimately show ?thesis
    using w'(2,3) rows unfolding ks_def by blast
qed

lemma seed_run:
  assumes c: "consistent (committed w)"
  shows "\<exists>n m w'. seed False w = (Inr (n, m), w') \<and> consistent (committed w')
    \<and> n = length (filter (\<lambda>i. seed_code i \<notin> known_codes (committed w)) seed_numbers)
    \<and> m = length (filter (\<lambda>k. k \<notin> known_markers (committed w)) [1, 2, 3, 4, 5, 6])
    \<and> known_codes (committed w') = known_codes (committed w) \<union> seed_code ` {1..35}
    \<and> known_markers (committed w') = known_markers (committed w) \<union> {1..6}
    \<and> (\<exists>new. tbl_rows (stations (committed w')) = tbl_rows (stations (committed w)) @ new \<and> length new = n)
    \<and> (\<exists>new. tbl_rows (tractors (committed w')) = tbl_rows (tractors (committed w)) @ new \<and> length new = m)
    \<and> tbl_rows (videos (committed w')) = tbl_rows (videos (committed w))
    \<and> tbl_rows (events (committed w')) = tbl_rows (events (committed w))"
proof -
  let ?w = "next_txn (w\<lparr>working := committed w\<rparr>)"
  have wk: "working ?w = committed w" by simp
  have "consistent (working ?w)" using c by simp
  from seed_stations_run [OF this, unfolded wk] obtain n w1 where 1: "seed_stations ?w = (Inr n, w1)" "consistent (committed w1)"
      "working w1 = committed w1" "n = length (filter (\<lambda>i. seed_code i \<notin> known_codes (committed w)) seed_numbers)"
      "known_codes (committed w1) = known_codes (committed w) \<union> seed_code ` {1..35}"
      "\<exists>new. tbl_rows (stations (committed w1)) = tbl_rows (stations (committed w)) @ new \<and> length new = n"
      "tractors (committed w1) = tractors (committed w)" "videos (committed w1) = videos (committed w)"
      "events (committed w1) = events (committed w)"
    by blast
  have "consistent (working w1)" using 1(2,3) by simp
  from seed_tractors_run [OF this] obtain m w2 where 2: "seed_tractors w1 = (Inr m, w2)" "consistent (committed w2)"
      "working w2 = committed w2" "m = length (filter (\<lambda>k. k \<notin> known_markers (committed w1)) [1, 2, 3, 4, 5, 6])"
      "known_markers (committed w2) = known_markers (committed w1) \<union> {1..6}"
      "\<exists>new. tbl_rows (tractors (committed w2)) = tbl_rows (tractors (committed w1)) @ new \<and> length new = m"
      "stations (committed w2) = stations (committed w1)" "videos (committed w2) = videos (committed w1)"
      "events (committed w2) = events (committed w1)"
    unfolding 1(3) by blast
  define w3 where "w3 = w2\<lparr>working := rewind (committed w2) (working w2), committed := rewind (committed w2) (working w2)\<rparr>"
  have run: "seed False w = (Inr (n, m), w3)"
    unfolding seed_def w3_def by (rule with_session_run) (simp add: 1(1) 2(1) bindM_run)
  have markers: "known_markers (committed w1) = known_markers (committed w)" by (simp only: known_markers_def 1(7))
  have codes: "known_codes (committed w3) = known_codes (committed w1)" "known_markers (committed w3) = known_markers (committed w2)"
    by (simp_all add: w3_def known_codes_def known_markers_def 2(7))
  have c3: "consistent (committed w3)" using consistent_rewind [OF 2(2)] by (simp add: w3_def)
  have rows: "tbl_rows (stations (committed w3)) = tbl_rows (stations (committed w1))"
    "tbl_rows (tractors (committed w3)) = tbl_rows (tractors (committed w2))"
    "tbl_rows (videos (committed w3)) = tbl_rows (videos (committed w))"
    "tbl_rows (events (committed w3)) = tbl_rows (events (committed w))"
    by (simp_all add: w3_def 2(7-9) 1(8,9))
  have 3: "m = length (filter (\<lambda>k. k \<notin> known_markers (committed w)) [1, 2, 3, 4, 5, 6])"
    "known_markers (committed w3) = known_markers (committed w) \<union> {1..6}"
    using 2(4,5) by (simp_all only: markers codes)
  have 4: "\<exists>new. tbl_rows (tractors (committed w2)) = tbl_rows (tractors (committed w)) @ new \<and> length new = m"
    using 2(6) by (simp only: 1(7))
  show ?thesis
    by (rule exI [of _ n], rule exI [of _ m], rule exI [of _ w3], unfold rows codes(1), intro conjI)
       (rule run c3 1(4-6) 3 4 refl)+
qed

text \<open>Seeding completes the reference data; seeding again adds nothing.\<close>

lemma seeding_twice_adds_nothing:
  assumes "consistent (committed w)" and "seed False w = (Inr r, w')"
  shows "\<exists>w''. seed False w' = (Inr (0, 0), w'')
    \<and> tbl_rows (stations (committed w'')) = tbl_rows (stations (committed w'))
    \<and> tbl_rows (tractors (committed w'')) = tbl_rows (tractors (committed w'))"
proof -
  from seed_run [OF assms(1)] assms(2) have c: "consistent (committed w')" "seed_code ` {1..35} \<subseteq> known_codes (committed w')"
    "{1..6} \<subseteq> known_markers (committed w')"
    by auto
  from c(2,3) have "filter (\<lambda>i. seed_code i \<notin> known_codes (committed w')) seed_numbers = []"
    "filter (\<lambda>k. k \<notin> known_markers (committed w')) [1, 2, 3, 4, 5, 6] = []"
    by (auto simp: filter_empty_conv set_seed_numbers)
  with seed_run [OF c(1)] show ?thesis by auto
qed

text \<open>\<open>--reset\<close> refuses as soon as a video or a visit refers to a station, and changes nothing.\<close>

lemma clear_stations_run:
  "clear_rows StationRepo w = (Inr (), w\<lparr>working := stations_update (\<lambda>t. t\<lparr>tbl_rows := []\<rparr>) (working w)\<rparr>)"
proof -
  have del: "forM (repo_delete StationRepo) is w =
      (Inr (), w\<lparr>working := stations_update (\<lambda>t. t\<lparr>tbl_rows := filter (\<lambda>r. row_id r \<notin> set is) (tbl_rows t)\<rparr>) (working w)\<rparr>)"
    for "is" w
  proof (induction "is" arbitrary: w)
    case (Cons i "is")
    have "filter (\<lambda>r. row_id r \<notin> set is) (filter (\<lambda>r. row_id r \<noteq> i) xs) = filter (\<lambda>r. row_id r \<noteq> i \<and> row_id r \<notin> set is) xs"
      for xs :: "station list" by (simp add: conj_commute)
    then show ?case using Cons by (simp add: seqM_def bindM_run repo_delete_def table_delete_def)
  qed simp
  have "filter (\<lambda>r. row_id r \<notin> row_id ` set (tbl_rows (stations (working w)))) (tbl_rows (stations (working w))) = []"
    by (simp add: filter_empty_conv)
  then show ?thesis by (simp add: clear_rows_def repo_rows_def del)
qed

lemma reset_refused:
  assumes c: "consistent (committed w)" and "\<exists>i. station_referenced i (committed w)"
  shows "\<exists>w'. seed True w = (Inl integrity_error, w') \<and> consistent (committed w') \<and> same_rows (committed w) (committed w')"
proof -
  let ?w = "next_txn (w\<lparr>working := committed w\<rparr>)"
  let ?d = "stations_update (\<lambda>t. t\<lparr>tbl_rows := []\<rparr>) (committed w)"
  have none: "\<not> fk (stations ?d) i" for i by (simp add: fk_def table_ids_def)
  have "\<not> db_ok ?d"
  proof
    assume "db_ok ?d"
    then have "\<forall>v \<in> set (tbl_rows (videos (committed w))). fk_opt (stations ?d) (vf_station_id v)"
      "\<forall>v \<in> set (tbl_rows (visits (committed w))). fk (stations ?d) (v_station_id v)"
      by (auto simp: db_ok_def videos_ok_def visits_ok_def visit_fks_def list_all_iff)
    then show False using assms(2) none by (fastforce simp: station_referenced_def fk_opt_def)
  qed
  then have "seed_reset ?w = (Inl integrity_error, ?w\<lparr>working := ?d\<rparr>)"
    by (simp add: seed_reset_def clear_stations_run seqM_def bindM_run flush_def)
  then have "seed True w = (Inl integrity_error, (?w\<lparr>working := ?d\<rparr>)\<lparr>working := rewind (committed w) ?d,
      committed := rewind (committed w) ?d\<rparr>)"
    unfolding seed_def by (subst with_session_run) (auto simp: seqM_def bindM_run)
  then show ?thesis using c by (simp add: consistent_rewind)
qed

end
