(* ===== verification/Calendar.thy ===== *)
theory Calendar
  imports Paths IngestionProperties
begin

text \<open>
  Dates: the conversion between day numbers and civil dates in both directions, and the round trip of the
  time stamp in a clip's file name. \<open>scripts/simulate_station.py\<close> places a clip into the queue of a station
  under the current second, and the ingestion reads that second back.
\<close>

section \<open>The civil calendar\<close>

text \<open>The first day of a year of the era, and the year of a day of the era.\<close>

definition year_start :: "int \<Rightarrow> int" where
  "year_start y = 365 * y + y div 4 - y div 100"

definition year_of :: "int \<Rightarrow> int" where
  "year_of doe = (doe - doe div 1460 + doe div 36524 - doe div 146096) div 365"

definition year_ok :: "int \<Rightarrow> bool" where
  "year_ok y \<longleftrightarrow> year_of (year_start y) = y \<and> (y < 399 \<longrightarrow> year_of (year_start (y + 1) - 1) = y)"

lemma year_parts:
  fixes y :: int
  assumes "0 \<le> y" and "y < 400"
  obtains c q r where "y = 100 * c + 4 * q + r" "0 \<le> c" "c \<le> 3" "0 \<le> q" "q \<le> 24" "0 \<le> r" "r \<le> 3"
    "year_start y = 36524 * c + 1461 * q + 365 * r"
proof -
  define c where "c = y div 100"
  define q where "q = y mod 100 div 4"
  define r where "r = y mod 100 mod 4"
  have y: "y = 100 * c + 4 * q + r" by (simp add: c_def q_def r_def)
  have c: "0 \<le> c" "c \<le> 3" using assms zdiv_mono1 [of y 399 100] by (simp_all add: c_def)
  have "y mod 100 \<le> 99" using pos_mod_bound [of 100 y] by simp
  then have q: "0 \<le> q" "q \<le> 24" using zdiv_mono1 [of "y mod 100" 99 4] by (simp_all add: q_def)
  have r: "0 \<le> r" "r \<le> 3" using pos_mod_bound [of 4 "y mod 100"] by (simp_all add: r_def)
  have "y div 4 = 25 * c + q" by (rule int_div_pos_eq [where r = r]) (use y r in simp_all)
  moreover have "y div 100 = c" by (rule int_div_pos_eq [where r = "4 * q + r"]) (use y q r in simp_all)
  ultimately have "year_start y = 36524 * c + 1461 * q + 365 * r" by (simp add: year_start_def y)
  with y c q r show thesis by (intro that)
qed

lemma year_of_parts:
  fixes c q r d :: int
  assumes "0 \<le> c" "c \<le> 3" "0 \<le> q" "q \<le> 24" "0 \<le> r" "r \<le> 3" "d = 0 \<or> d = 1" "d \<le> 1461 * q + 365 * r"
  shows "year_of (36524 * c + 1461 * q + 365 * r - d) = 100 * c + 4 * q + r - d"
proof -
  let ?doe = "36524 * c + 1461 * q + 365 * r - d"
  have "d \<le> q + 365 * r" using assms by auto
  then have "?doe div 1460 = 25 * c + q"
    by (intro int_div_pos_eq [where r = "24 * c + q + 365 * r - d"]) (use assms in auto)
  moreover have "?doe div 36524 = c"
    by (intro int_div_pos_eq [where r = "1461 * q + 365 * r - d"]) (use assms in auto)
  moreover have "?doe div 146096 = 0" using assms by auto
  ultimately have "year_of ?doe = (365 * (100 * c + 4 * q + r) - d) div 365" by (simp add: year_of_def)
  also have "\<dots> = 100 * c + 4 * q + r - d"
    by (rule int_div_pos_eq [where r = "364 * d"]) (use assms in auto)
  finally show ?thesis .
qed

lemma year_ok_range:
  assumes "0 \<le> y" and "y < 400"
  shows "year_ok y"
proof -
  obtain c q r where y: "y = 100 * c + 4 * q + r" "0 \<le> c" "c \<le> 3" "0 \<le> q" "q \<le> 24" "0 \<le> r" "r \<le> 3"
    "year_start y = 36524 * c + 1461 * q + 365 * r"
    by (rule year_parts [OF assms])
  have "year_of (year_start y) = y"
    using year_of_parts [of c q r 0] y by simp
  moreover have "year_of (year_start (y + 1) - 1) = y" if lt: "y < 399"
  proof -
    have "0 \<le> y + 1" "y + 1 < 400" using assms lt by simp_all
    then obtain c q r where z: "y + 1 = 100 * c + 4 * q + r" "0 \<le> c" "c \<le> 3" "0 \<le> q" "q \<le> 24" "0 \<le> r" "r \<le> 3"
      "year_start (y + 1) = 36524 * c + 1461 * q + 365 * r"
      by (rule year_parts)
    show ?thesis
    proof (cases "q = 0 \<and> r = 0")
      case False
      then have "1 \<le> 1461 * q + 365 * r" using z by linarith
      then show ?thesis using year_of_parts [of c q r 1] z by simp
    next
      case True
      then have c: "1 \<le> c" "y = 100 * c - 1" "year_start (y + 1) = 36524 * c" using z assms by simp_all
      have "(36524 * c - 1) div 1460 = 25 * c"
        by (rule int_div_pos_eq [where r = "24 * c - 1"]) (use c(1) z(3) in simp_all)
      moreover have "(36524 * c - 1) div 36524 = c - 1"
        by (rule int_div_pos_eq [where r = 36523]) simp_all
      moreover have "(36524 * c - 1) div 146096 = 0" using c(1) z(3) by simp
      ultimately have "year_of (36524 * c - 1) = (365 * (100 * c - 1) + 363) div 365" by (simp add: year_of_def)
      also have "\<dots> = 100 * c - 1" by (rule int_div_pos_eq [where r = 363]) simp_all
      finally show ?thesis using c by simp
    qed
  qed
  ultimately show ?thesis by (simp add: year_ok_def)
qed

lemma int_div_Suc:
  fixes a k :: int
  assumes "0 < k"
  shows "(a + 1) div k = a div k + (if (a + 1) mod k = 0 then 1 else 0)"
proof -
  define q where "q = a div k"
  define r where "r = a mod k"
  have a: "a = k * q + r" "0 \<le> r" "r < k" using assms by (simp_all add: q_def r_def)
  show ?thesis
  proof (cases "r = k - 1")
    case True
    then have "a + 1 = (q + 1) * k" using a(1) by (simp add: algebra_simps)
    then show ?thesis using assms unfolding q_def [symmetric] by simp
  next
    case False
    then have "(a + 1) div k = q" by (intro int_div_pos_eq [where r = "r + 1"]) (use a in simp_all)
    moreover have "(a + 1) mod k = r + 1" using False by (intro int_mod_pos_eq [where q = q]) (use a in simp_all)
    ultimately show ?thesis using a(2) unfolding q_def [symmetric] by simp
  qed
qed

lemma step_mono:
  fixes x :: int
  shows "a' \<le> a + 1 \<Longrightarrow> b \<le> b' \<Longrightarrow> c = 0 \<Longrightarrow> c' = 0 \<Longrightarrow> x - a + b - c \<le> x + 1 - a' + b' - c'"
  by simp

lemma year_of_Suc:
  assumes "0 \<le> doe" and "doe < 146096"
  shows "year_of doe \<le> year_of (doe + 1)"
proof (cases "doe = 146095")
  case True
  then show ?thesis by (simp add: year_of_def)
next
  case False
  have 1: "(doe + 1) div 1460 \<le> doe div 1460 + 1" by (simp add: int_div_Suc)
  have 2: "doe div 36524 \<le> (doe + 1) div 36524" by (simp add: zdiv_mono1)
  have 3: "doe div 146096 = 0" "(doe + 1) div 146096 = 0" using assms False by auto
  show ?thesis unfolding year_of_def by (rule zdiv_mono1 [OF step_mono [OF 1 2 3]]) simp
qed

lemma year_of_mono:
  assumes "0 \<le> a" and "a \<le> b" and "b \<le> 146096"
  shows "year_of a \<le> year_of b"
proof -
  have "year_of a \<le> year_of (a + int n)" if "a + int n \<le> 146096" for n
    using that
  proof (induction n)
    case (Suc n)
    then show ?case using year_of_Suc [of "a + int n"] assms(1) by (simp add: algebra_simps)
  qed simp
  from this [of "nat (b - a)"] show ?thesis using assms by simp
qed

text \<open>The year of a day is the year that the day lies in.\<close>

lemma year_of_bounds:
  assumes "0 \<le> doe" and "doe \<le> 146096"
  shows "0 \<le> year_of doe" "year_of doe \<le> 399" "year_start (year_of doe) \<le> doe"
    "year_of doe < 399 \<longrightarrow> doe < year_start (year_of doe + 1)"
proof -
  let ?y = "year_of doe"
  have "year_of 0 = 0" "year_of 146096 = 399" by (simp_all add: year_of_def)
  then show y: "0 \<le> ?y" "?y \<le> 399"
    using year_of_mono [of 0 doe] year_of_mono [of doe 146096] assms by auto
  have start: "0 \<le> year_start k" "year_start k \<le> 146000" if "0 \<le> k" "k \<le> 399" for k
  proof -
    have "0 \<le> k div 100" "k div 100 \<le> k" "0 \<le> k div 4" "k div 4 \<le> 399 div 4"
      using that zdiv_mono2 [of k 1 100] zdiv_mono1 [of k 399 4] by simp_all
    then show "0 \<le> year_start k" "year_start k \<le> 146000" using that by (simp_all add: year_start_def)
  qed
  show "year_start ?y \<le> doe"
  proof (rule ccontr)
    assume less: "\<not> year_start ?y \<le> doe"
    then have "?y \<noteq> 0" using assms(1) by (auto simp: year_start_def)
    then have "year_of (year_start (?y - 1 + 1) - 1) = ?y - 1"
      using year_ok_range [of "?y - 1"] y by (simp add: year_ok_def)
    moreover have "?y \<le> year_of (year_start ?y - 1)"
      using year_of_mono [of doe "year_start ?y - 1"] less assms start [OF y] by simp
    ultimately show False by simp
  qed
  show "?y < 399 \<longrightarrow> doe < year_start (?y + 1)"
  proof (rule impI, rule ccontr)
    assume lt: "?y < 399" and ge: "\<not> doe < year_start (?y + 1)"
    have "year_of (year_start (?y + 1)) = ?y + 1"
      using year_ok_range [of "?y + 1"] y lt by (simp add: year_ok_def)
    moreover have "year_of (year_start (?y + 1)) \<le> ?y"
      using year_of_mono [of "year_start (?y + 1)" doe] ge assms start [of "?y + 1"] y lt by simp
    ultimately show False by simp
  qed
qed

text \<open>The day of the year that begins in March; the leap day is its last.\<close>

lemma day_of_year:
  assumes "0 \<le> doe" and "doe \<le> 146096"
  shows "0 \<le> doe - year_start (year_of doe)" "doe - year_start (year_of doe) \<le> 365"
    "doe - year_start (year_of doe) = 365 \<Longrightarrow> is_leap (year_of doe + 1)"
proof -
  let ?y = "year_of doe"
  note b = year_of_bounds [OF assms]
  show "0 \<le> doe - year_start ?y" using b(3) by simp
  have top: "doe - year_start ?y \<le> 364 + ((?y + 1) div 4 - ?y div 4) - ((?y + 1) div 100 - ?y div 100)" if "?y < 399"
    using b(4) that by (simp add: year_start_def)
  have last: "doe - year_start 399 \<le> 365" using assms by (simp add: year_start_def)
  have q4: "(?y + 1) div 4 - ?y div 4 = (if (?y + 1) mod 4 = 0 then 1 else 0)"
    by (simp add: int_div_Suc)
  have q100: "(?y + 1) div 100 - ?y div 100 = (if (?y + 1) mod 100 = 0 then 1 else 0)"
    by (simp add: int_div_Suc)
  show "doe - year_start ?y \<le> 365"
    using top last b(2) unfolding q4 q100 by (cases "?y = 399") (auto split: if_splits)
  show "is_leap (?y + 1)" if "doe - year_start ?y = 365"
    using top that b(2) unfolding q4 q100 by (cases "?y = 399") (auto simp: is_leap_def split: if_splits)
qed

lemma civil_of_days_eq:
  "civil_of_days n =
    (let doe = (n + 719468) mod 146097; yoe = year_of doe; doy = doe - year_start yoe; mp = (5 * doy + 2) div 153;
         m = (if mp < 10 then mp + 3 else mp - 9)
     in (yoe + (n + 719468) div 146097 * 400 + (if m \<le> 2 then 1 else 0), m, doy - (153 * mp + 2) div 5 + 1))"
  unfolding civil_of_days_def year_of_def year_start_def Let_def by (rule refl)

lemma month_of_day:
  fixes doy :: int
  assumes "0 \<le> doy" and "doy \<le> 365" and "mp = (5 * doy + 2) div 153"
  shows "0 \<le> mp" "mp \<le> 11" "(153 * mp + 2) div 5 \<le> doy" "doy < (153 * (mp + 1) + 2) div 5"
proof -
  obtain k where r: "5 * doy + 2 = 153 * mp + k" "0 \<le> k" "k < 153"
    by (rule that [of "(5 * doy + 2) mod 153"]) (simp_all add: assms(3))
  show "0 \<le> mp" "mp \<le> 11" using r assms(1,2) by linarith+
  have "(153 * mp + 2) div 5 \<le> (4 + 5 * doy) div 5" by (rule zdiv_mono1) (use r in linarith, simp)
  then show "(153 * mp + 2) div 5 \<le> doy" by simp
  have "5 * (doy + 1) \<le> 153 * (mp + 1) + 2" using r by simp
  then have "(5 * (doy + 1)) div 5 \<le> (153 * (mp + 1) + 2) div 5" by (rule zdiv_mono1) simp
  then show "doy < (153 * (mp + 1) + 2) div 5" by simp
qed

lemma days_of_civil_of_days:
  assumes "civil_of_days n = (y, m, d)"
  shows "days_of_civil y m d = n \<and> 1 \<le> m \<and> m \<le> 12 \<and> 1 \<le> d \<and> d \<le> days_in_month y m"
proof -
  define doe where "doe = (n + 719468) mod 146097"
  define era where "era = (n + 719468) div 146097"
  have doe: "0 \<le> doe" "doe \<le> 146096"
    using pos_mod_bound [of 146097 "n + 719468"] by (simp_all add: doe_def)
  define yoe where "yoe = year_of doe"
  define doy where "doy = doe - year_start yoe"
  define mp where "mp = (5 * doy + 2) div 153"
  have yoe: "0 \<le> yoe" "yoe \<le> 399" using year_of_bounds [OF doe] by (simp_all add: yoe_def)
  have doy: "0 \<le> doy" "doy \<le> 365" "doy = 365 \<Longrightarrow> is_leap (yoe + 1)"
    using day_of_year [OF doe] by (simp_all add: yoe_def doy_def)
  note mp = month_of_day [OF doy(1,2) mp_def]
  have "civil_of_days n = (yoe + era * 400 + (if (if mp < 10 then mp + 3 else mp - 9) \<le> 2 then 1 else 0),
      if mp < 10 then mp + 3 else mp - 9, doy - (153 * mp + 2) div 5 + 1)"
    by (simp only: civil_of_days_eq Let_def doe_def era_def yoe_def doy_def mp_def)
  then have civil: "m = (if mp < 10 then mp + 3 else mp - 9)" "y = yoe + era * 400 + (if m \<le> 2 then 1 else 0)"
    "d = doy - (153 * mp + 2) div 5 + 1"
    using assms by simp_all
  have month: "m \<le> 2 \<longleftrightarrow> 10 \<le> mp" "(if 2 < m then m - 3 else m + 9) = mp" "1 \<le> m" "m \<le> 12"
    using civil(1) mp by (auto split: if_splits)
  have y': "(if m \<le> 2 then y - 1 else y) = yoe + era * 400" using civil(2) by simp
  have "(yoe + era * 400) div 400 = era" "(yoe + era * 400) mod 400 = yoe" using yoe by simp_all
  then have "days_of_civil y m d = era * 146097 + (yoe * 365 + yoe div 4 - yoe div 100 + doy) - 719468"
    unfolding days_of_civil_def Let_def y' month(2) using civil(3) by simp
  also have "\<dots> = era * 146097 + doe - 719468" by (simp add: doy_def year_start_def)
  also have "\<dots> = n" by (simp add: doe_def era_def)
  finally have days: "days_of_civil y m d = n" .
  have leap: "is_leap y \<longleftrightarrow> is_leap (yoe + 1)" if "m \<le> 2"
  proof -
    have y: "y = yoe + 1 + k * (400 div k * era)" if "k \<in> {4, 100, 400}" for k
      using civil(2) \<open>m \<le> 2\<close> that by auto
    have "y mod k = (yoe + 1) mod k" if "k \<in> {4, 100, 400}" for k
      by (subst y [OF that]) (rule mod_mult_self2)
    then show ?thesis by (simp add: is_leap_def)
  qed
  have "d \<le> days_in_month y m"
  proof (cases "mp = 11")
    case True
    then have m: "m = 2" "d = doy - 336" using civil(1,3) by simp_all
    then have "d \<le> 29" "d = 29 \<Longrightarrow> is_leap y" using doy leap by simp_all
    then show ?thesis using m(1) by (cases "d = 29") (auto simp: days_in_month_def)
  next
    case False
    then have "mp = 0 \<or> mp = 1 \<or> mp = 2 \<or> mp = 3 \<or> mp = 4 \<or> mp = 5 \<or> mp = 6 \<or> mp = 7 \<or> mp = 8 \<or> mp = 9 \<or> mp = 10"
      using mp(1,2) by presburger
    moreover have "d \<le> (153 * (mp + 1) + 2) div 5 - (153 * mp + 2) div 5" using mp(4) civil(3) by simp
    ultimately show ?thesis using civil(1) by (elim disjE) (simp_all add: days_in_month_def)
  qed
  moreover have "1 \<le> d" using civil(3) mp(3) by simp
  ultimately show ?thesis using days month by blast
qed

section \<open>The stamp in a file name\<close>

text \<open>\<open>strftime("%Y%m%d_%H%M%S")\<close>, for years of four digits.\<close>

definition strftime_stamp :: "int \<Rightarrow> string" where
  "strftime_stamp us =
     (let secs = us div 1000000; sod = secs mod 86400;
          (y, m, d) = civil_of_days (secs div 86400)
      in zero_pad 4 y @ zero_pad 2 m @ zero_pad 2 d @ ''_''
         @ zero_pad 2 (sod div 3600) @ zero_pad 2 (sod div 60 mod 60) @ zero_pad 2 (sod mod 60))"

lemma digit_value_char:
  assumes "n < 10"
  shows "digit_value (char_of (48 + n)) = Some (int n)"
proof -
  have "(of_char (char_of (48 + n) :: char) :: nat) = 48 + n" using assms by simp
  then have "(of_char (char_of (48 + n) :: char) :: int) = 48 + int n"
    by (metis of_nat_add of_nat_numeral of_nat_of_char)
  then show ?thesis using assms by (simp add: digit_value_def Let_def)
qed

lemma number_value_append:
  "number_value (xs @ ys) acc = (case number_value xs acc of None \<Rightarrow> None | Some a \<Rightarrow> number_value ys a)"
  by (induction xs arbitrary: acc) (auto split: option.split)

lemma digits_rev_value: "n < 10 ^ w \<Longrightarrow> number_value (rev (digits_rev w n)) a = Some (a * 10 ^ w + int n)"
proof (induction w arbitrary: n)
  case (Suc w)
  have "n div 10 < 10 ^ w" using Suc.prems by (simp add: less_mult_imp_div_less mult.commute)
  moreover have "10 * int (n div 10) + int (n mod 10) = int n"
    by presburger
  ultimately show ?case
    using Suc.IH digit_value_char [of "n mod 10"] by (simp add: number_value_append algebra_simps)
qed simp

lemma length_digits_rev [simp]: "length (digits_rev w n) = w"
  by (induction w arbitrary: n) simp_all

lemma zero_pad_length [simp]: "length (zero_pad w n) = w"
  by (simp add: zero_pad_def)

lemma zero_pad_value: "0 \<le> n \<Longrightarrow> n < 10 ^ w \<Longrightarrow> number_value (zero_pad w n) a = Some (a * 10 ^ w + n)"
  using digits_rev_value [of "nat n" w a] by (simp add: zero_pad_def nat_less_iff)

lemma read_digits_pad:
  "0 \<le> n \<Longrightarrow> n < 10 ^ w \<Longrightarrow> lo \<le> n \<Longrightarrow> n \<le> hi \<Longrightarrow> read_digits w lo hi (zero_pad w n @ rest) = [(n, rest)]"
  using zero_pad_value [of n w 0] by (simp add: read_digits_def)

text \<open>The first reading of a format: the first reading of its directive, then of the rest.\<close>

lemma read_format_first:
  assumes "take 1 (read_directive c s) = [(v, rest)]" and "take 1 (read_format fmt rest) = [(fs, r)]"
  shows "take 1 (read_format (CHR ''%'' # c # fmt) s) = [((c, v) # fs, r)]"
proof -
  obtain vs where "read_directive c s = (v, rest) # vs" using assms(1) by (cases "read_directive c s") auto
  moreover obtain rs where "read_format fmt rest = (fs, r) # rs" using assms(2) by (cases "read_format fmt rest") auto
  ultimately show ?thesis by simp
qed

lemma first_append: "take 1 xs = [x] \<Longrightarrow> take 1 (xs @ ys) = [x]"
  by (cases xs) auto

lemma directive_first:
  assumes "0 \<le> n"
  shows "n \<le> 9999 \<Longrightarrow> take 1 (read_directive CHR ''Y'' (zero_pad 4 n @ s)) = [(n, s)]"
    "1 \<le> n \<Longrightarrow> n \<le> 12 \<Longrightarrow> take 1 (read_directive CHR ''m'' (zero_pad 2 n @ s)) = [(n, s)]"
    "1 \<le> n \<Longrightarrow> n \<le> 31 \<Longrightarrow> take 1 (read_directive CHR ''d'' (zero_pad 2 n @ s)) = [(n, s)]"
    "n \<le> 23 \<Longrightarrow> take 1 (read_directive CHR ''H'' (zero_pad 2 n @ s)) = [(n, s)]"
    "n \<le> 59 \<Longrightarrow> take 1 (read_directive CHR ''M'' (zero_pad 2 n @ s)) = [(n, s)]"
    "n \<le> 59 \<Longrightarrow> take 1 (read_directive CHR ''S'' (zero_pad 2 n @ s)) = [(n, s)]"
  using assms read_digits_pad [of n] by (simp_all add: read_directive_def)

lemma read_stamp:
  assumes "0 \<le> y" "y \<le> 9999" "1 \<le> m" "m \<le> 12" "1 \<le> d" "d \<le> 31" "0 \<le> h" "h \<le> 23" "0 \<le> mi" "mi \<le> 59" "0 \<le> sc" "sc \<le> 59"
  shows "take 1 (read_format ''%Y%m%d_%H%M%S''
      (zero_pad 4 y @ zero_pad 2 m @ zero_pad 2 d @ ''_'' @ zero_pad 2 h @ zero_pad 2 mi @ zero_pad 2 sc)) =
    [([(CHR ''Y'', y), (CHR ''m'', m), (CHR ''d'', d), (CHR ''H'', h), (CHR ''M'', mi), (CHR ''S'', sc)], [])]"
proof -
  have "take 1 (read_format ''%H%M%S'' (zero_pad 2 h @ zero_pad 2 mi @ zero_pad 2 sc)) =
      [([(CHR ''H'', h), (CHR ''M'', mi), (CHR ''S'', sc)], [])]"
    using assms directive_first(6) [of sc "[]"]
    by (intro read_format_first [OF directive_first(4)] read_format_first [OF directive_first(5)]
        read_format_first [where rest = "[]" and s = "zero_pad 2 sc"]) simp_all
  then have "take 1 (read_format ''_%H%M%S'' (''_'' @ zero_pad 2 h @ zero_pad 2 mi @ zero_pad 2 sc)) =
      [([(CHR ''H'', h), (CHR ''M'', mi), (CHR ''S'', sc)], [])]"
    by simp
  then show ?thesis
    using assms
    by (intro read_format_first [OF directive_first(1)] read_format_first [OF directive_first(2)]
        read_format_first [OF directive_first(3)]) simp_all
qed

lemma strptime_first: "take 1 (read_format fmt s) = [(fs, [])] \<Longrightarrow> strptime s fmt = make_datetime fs"
  by (cases "read_format fmt s") (auto simp: strptime_def)

lemma make_datetime_full:
  "1 \<le> y \<Longrightarrow> d \<le> days_in_month y m \<Longrightarrow> sc \<le> 59 \<Longrightarrow>
   make_datetime [(CHR ''Y'', y), (CHR ''m'', m), (CHR ''d'', d), (CHR ''H'', h), (CHR ''M'', mi), (CHR ''S'', sc)] =
     Some (Naive (((days_of_civil y m d * 24 + h) * 60 + mi) * 60000000 + sc * 1000000))"
  by (simp add: make_datetime_def field_or_def or_else_def Let_def)

text \<open>The clip's name gives back the second of the clock.\<close>

lemma stamp_round_trip:
  assumes "civil_of_days (t div 86400000000) = (y, m, d)" and "1 \<le> y" and "y \<le> 9999"
  shows "strptime (strftime_stamp t) ''%Y%m%d_%H%M%S'' = Some (Naive (t - t mod 1000000))"
proof -
  define secs where "secs = t div 1000000"
  define sod where "sod = secs mod 86400"
  have day: "secs div 86400 = t div 86400000000" by (simp add: secs_def zdiv_zmult2_eq [symmetric])
  note cal = days_of_civil_of_days [OF assms(1)]
  have "d \<le> 31" using cal by (auto simp: days_in_month_def split: if_splits)
  have sod: "0 \<le> sod" "sod < 86400" by (simp_all add: sod_def)
  have hms: "0 \<le> sod div 3600" "sod div 3600 \<le> 23" "0 \<le> sod div 60 mod 60" "sod div 60 mod 60 \<le> 59"
    "0 \<le> sod mod 60" "sod mod 60 \<le> 59"
    using sod zdiv_mono1 [of sod 86399 3600] pos_mod_bound [of 60 "sod div 60"] pos_mod_bound [of 60 sod] by simp_all
  have stamp: "strftime_stamp t = zero_pad 4 y @ zero_pad 2 m @ zero_pad 2 d @ ''_'' @ zero_pad 2 (sod div 3600)
      @ zero_pad 2 (sod div 60 mod 60) @ zero_pad 2 (sod mod 60)"
    by (simp add: strftime_stamp_def Let_def secs_def [symmetric] sod_def [symmetric] day assms(1))
  let ?fs = "[(CHR ''Y'', y), (CHR ''m'', m), (CHR ''d'', d), (CHR ''H'', sod div 3600), (CHR ''M'', sod div 60 mod 60), (CHR ''S'', sod mod 60)]"
  have "take 1 (read_format ''%Y%m%d_%H%M%S'' (strftime_stamp t)) = [(?fs, [])]"
    unfolding stamp using assms cal \<open>d \<le> 31\<close> hms by (intro read_stamp) simp_all
  then have "strptime (strftime_stamp t) ''%Y%m%d_%H%M%S'' = make_datetime ?fs"
    by (rule strptime_first)
  also have "\<dots> = Some (Naive (((days_of_civil y m d * 24 + sod div 3600) * 60 + sod div 60 mod 60) * 60000000 + sod mod 60 * 1000000))"
    using assms(2) cal hms by (intro make_datetime_full) blast+
  also have "((days_of_civil y m d * 24 + sod div 3600) * 60 + sod div 60 mod 60) * 60000000 + sod mod 60 * 1000000
      = (days_of_civil y m d * 86400 + (sod div 3600 * 3600 + sod div 60 mod 60 * 60 + sod mod 60)) * 1000000"
    by (simp add: algebra_simps)
  also have "sod div 3600 * 3600 + sod div 60 mod 60 * 60 + sod mod 60 = sod"
  proof -
    have "sod div 3600 = sod div 60 div 60" by (simp add: zdiv_zmult2_eq [symmetric])
    then have "sod div 3600 * 60 + sod div 60 mod 60 = sod div 60" by simp
    then have "(sod div 3600 * 60 + sod div 60 mod 60) * 60 + sod mod 60 = sod" by simp
    then show ?thesis by (simp add: algebra_simps)
  qed
  also have "days_of_civil y m d * 86400 + sod = secs"
  proof -
    have "days_of_civil y m d = secs div 86400" using cal day by simp
    then show ?thesis by (simp add: sod_def)
  qed
  also have "secs * 1000000 = t - t mod 1000000" by (simp add: secs_def minus_mod_eq_div_mult)
  finally show ?thesis .
qed

section \<open>Placing a clip\<close>

text \<open>
  \<open>scripts/simulate_station.py\<close>: \<open>argv\<close> is \<open>sys.argv\<close>, \<open>queue\<close> the folder of the station folders. The value
  is the exit code with the line that is printed.
\<close>

definition copyfile :: "string \<Rightarrow> string \<Rightarrow> unit io" where
  "copyfile src dst =
     bindM (gets (\<lambda>w. files w (path_str src))) (\<lambda>content. case content of
         None \<Rightarrow> raise (file_not_found src)
       | Some bytes \<Rightarrow> if path_str src = path_str dst then raise (Exn OSErr ''SameFileError'') else write_file dst bytes)"

definition simulate_station :: "string \<Rightarrow> string list \<Rightarrow> (int \<times> string) io" where
  "simulate_station queue argv =
     (if length argv < 3 then ret (1, ''usage: simulate_station.py STATION_XX /path/to/video.mp4'')
      else bindM (path_exists (argv ! 2)) (\<lambda>there.
        if \<not> there then ret (1, ''source not found: '' @ path_str (argv ! 2))
        else bindM py_now (\<lambda>now.
          let target = path_join (path_join queue (argv ! 1)) (strftime_stamp (utc_us now) @ lower (path_suffix (argv ! 2)))
          in seqM (copyfile (argv ! 2) target) (ret (0, ''Placed: '' @ target)))))"

lemma zero_pad_char:
  assumes "c \<in> set (zero_pad w n)"
  shows "c \<noteq> CHR ''/'' \<and> c \<noteq> CHR ''.''"
proof -
  have "\<exists>d < 10. c = char_of (48 + d :: nat)" if "c \<in> set (digits_rev w k)" for k
    using that
  proof (induction w arbitrary: k)
    case (Suc w)
    then show ?case by (cases "c = char_of (48 + k mod 10)") (auto intro: exI [of _ "k mod 10"])
  qed simp
  then obtain d where d: "d < 10" "c = char_of (48 + d :: nat)" using assms by (auto simp: zero_pad_def)
  then have "of_char c = 48 + d" by simp
  then show ?thesis using d(1) by auto
qed

lemma stamp_char: "c \<in> set (strftime_stamp t) \<Longrightarrow> c \<noteq> CHR ''/'' \<and> c \<noteq> CHR ''.''"
  by (auto simp: strftime_stamp_def Let_def case_prod_beta dest: zero_pad_char)

lemma stamp_nonempty: "strftime_stamp t \<noteq> []"
  by (simp add: strftime_stamp_def Let_def case_prod_beta)

text \<open>Stem and suffix of a name made of a stem without dots and an extension.\<close>

lemma stem_and_suffix:
  assumes "path_name p = stem @ CHR ''.'' # ext" and "CHR ''.'' \<notin> set ext" and "stem \<noteq> []" and "ext \<noteq> []"
  shows "path_suffix p = CHR ''.'' # ext" "path_stem p = stem"
proof -
  have "takeWhile (\<lambda>c. c \<noteq> CHR ''.'') (rev ext @ CHR ''.'' # rev stem) = rev ext"
    using assms(2) by (subst takeWhile_append2) auto
  moreover have "0 < length stem" using assms(3) by simp
  ultimately show "path_suffix p = CHR ''.'' # ext"
    using assms(4) by (simp add: path_suffix_def assms(1) Let_def)
  then show "path_stem p = stem" by (simp add: path_stem_def assms(1))
qed

lemma allowed_form:
  assumes "e \<in> {''.mp4'', ''.avi'', ''.mov'', ''.mkv''}"
  shows "\<exists>ext. e = CHR ''.'' # ext \<and> CHR ''.'' \<notin> set ext \<and> CHR ''/'' \<notin> set ext \<and> ext \<noteq> [] \<and> lower e = e"
proof -
  have "lower ''.mp4'' = ''.mp4''" "lower ''.avi'' = ''.avi''" "lower ''.mov'' = ''.mov''" "lower ''.mkv'' = ''.mkv''"
    by code_simp+
  then show ?thesis using assms by auto
qed

text \<open>
  C24: A clip that the station simulator places in a queue folder at a time of the years 1000
  to 9999 has a valid name for the ingestion process, and the producer of that folder builds
  from it an entry with the station code, the content hash of the source file and, read back
  from the name, the time of the placement cut to seconds.
\<close>

theorem placed_clip_is_ingested:
  assumes "3 \<le> length argv" and "files w (path_str (argv ! 2)) = Some bytes"
    and "lower (path_suffix (argv ! 2)) \<in> set (ig_allowed_extensions default_ingestion_settings)"
    and "civil_of_days (clock w (reads w) div 86400000000) = (y, m, d)" and "1000 \<le> y" and "y \<le> 9999"
    and "path_str (argv ! 2) \<noteq> path_str (path_join (path_join queue (argv ! 1))
          (strftime_stamp (clock w (reads w)) @ lower (path_suffix (argv ! 2))))"
  shows "\<exists>p w' item. simulate_station queue argv w = (Inr (0, ''Placed: '' @ p), w')
    \<and> files w' (path_str p) = Some bytes \<and> files w' (path_str (argv ! 2)) = Some bytes
    \<and> entry_is_valid default_ingestion_settings p
    \<and> build_entry H default_ingestion_settings p (argv ! 1) w' = (Inr item, w')
    \<and> sv_begin_ts item = Naive (clock w (reads w) - clock w (reads w) mod 1000000)
    \<and> sv_content_hash item = hash_large_file H 65536 bytes"
proof -
  let ?t = "clock w (reads w)"
  let ?stamp = "strftime_stamp ?t" and ?e = "lower (path_suffix (argv ! 2))"
  define p where "p = path_join (path_join queue (argv ! 1)) (?stamp @ ?e)"
  obtain ext where ext: "?e = CHR ''.'' # ext" "CHR ''.'' \<notin> set ext" "CHR ''/'' \<notin> set ext" "ext \<noteq> []" "lower ?e = ?e"
    using allowed_form [of ?e] assms(3) by (auto simp: default_ingestion_settings_def)
  have slash: "CHR ''/'' \<notin> set (?stamp @ ?e)" using stamp_char [of "CHR ''/''" ?t] ext(1,3) by auto
  have "?stamp @ ?e \<noteq> ''.''" using stamp_char [of "CHR ''.''" ?t] stamp_nonempty [of ?t] ext(1) by (cases ?stamp) auto
  then have "path_name p = ?stamp @ ?e"
    unfolding p_def using slash stamp_nonempty by (intro name_join) auto
  then have name: "path_name p = ?stamp @ CHR ''.'' # ext" by (simp add: ext(1))
  note parts = stem_and_suffix [OF name ext(2) stamp_nonempty ext(4)]
  have time: "strptime ?stamp ''%Y%m%d_%H%M%S'' = Some (Naive (?t - ?t mod 1000000))"
    by (rule stamp_round_trip [OF assms(4)]) (use assms(5,6) in simp_all)
  let ?w = "w\<lparr>reads := Suc (reads w), files := (files w)(path_str p := Some bytes)\<rparr>"
  have run: "simulate_station queue argv w = (Inr (0, ''Placed: '' @ p), ?w)"
    using assms(1,2,7) by (simp add: simulate_station_def path_exists_def py_now_def bindM_run Let_def p_def
        copyfile_def write_file_def seqM_def)
  have valid: "entry_is_valid default_ingestion_settings p"
    using assms(3) ext(1,5) time by (simp add: entry_is_valid_def parts default_ingestion_settings_def)
  have "build_entry H default_ingestion_settings p (argv ! 1) ?w = (Inr \<lparr>sv_file_path = p, sv_station_code = argv ! 1,
      sv_content_hash = hash_large_file H 65536 bytes, sv_begin_ts = Naive (?t - ?t mod 1000000)\<rparr>, ?w)"
    using time by (simp add: build_entry_def bindM_run parts default_ingestion_settings_def)
  moreover have "files ?w (path_str (argv ! 2)) = Some bytes" using assms(2) by simp
  ultimately show ?thesis using run valid by (intro exI [of _ p] exI [of _ ?w] exI conjI) auto
qed

definition carried_world :: world where
  "carried_world = with_file ''/tmp/a.MP4'' ''clip'' (world_of (plant []))"

theorem placed_clip_is_ingested_witness:
  "\<exists>p w' item. simulate_station ''/data/queue'' [''simulate_station.py'', ''STATION_01'', ''/tmp/a.MP4''] carried_world
      = (Inr (0, ''Placed: '' @ p), w')
    \<and> build_entry plain_hasher default_ingestion_settings p ''STATION_01'' w' = (Inr item, w')
    \<and> sv_begin_ts item = Naive 100000000 \<and> sv_content_hash item = ''clip''"
proof -
  let ?argv = "[''simulate_station.py'', ''STATION_01'', ''/tmp/a.MP4'']"
  have t: "clock carried_world (reads carried_world) = 100000000"
    by (simp add: carried_world_def with_file_def world_of_def)
  have src: "path_str ''/tmp/a.MP4'' = ''/tmp/a.MP4''" by code_simp
  have 1: "3 \<le> length ?argv" by simp
  have 2: "files carried_world (path_str (?argv ! 2)) = Some ''clip''"
    by (simp add: carried_world_def with_file_def src)
  have 3: "lower (path_suffix (?argv ! 2)) \<in> set (ig_allowed_extensions default_ingestion_settings)" by code_simp
  have 4: "civil_of_days (clock carried_world (reads carried_world) div 86400000000) = (1970, 1, 1)"
    unfolding t by code_simp
  have 5: "path_str (?argv ! 2) \<noteq> path_str (path_join (path_join ''/data/queue'' (?argv ! 1))
      (strftime_stamp (clock carried_world (reads carried_world)) @ lower (path_suffix (?argv ! 2))))"
    unfolding t by code_simp
  have "\<exists>p w' item. simulate_station ''/data/queue'' ?argv carried_world = (Inr (0, ''Placed: '' @ p), w')
    \<and> files w' (path_str p) = Some ''clip'' \<and> files w' (path_str (?argv ! 2)) = Some ''clip''
    \<and> entry_is_valid default_ingestion_settings p
    \<and> build_entry plain_hasher default_ingestion_settings p (?argv ! 1) w' = (Inr item, w')
    \<and> sv_begin_ts item = Naive (clock carried_world (reads carried_world) - clock carried_world (reads carried_world) mod 1000000)
    \<and> sv_content_hash item = hash_large_file plain_hasher 65536 ''clip''"
    by (rule placed_clip_is_ingested [OF 1 2 3 4 _ _ 5]) simp_all
  then show ?thesis unfolding t by (simp add: plain_hash) blast
qed

end
