(* ===== verification/RawSql.thy ===== *)
theory RawSql
  imports RegistryProperties Http
begin

text \<open>
  What the scripts under \<open>scripts/\<close> do beside the API: transactions of a plain connection, \<open>DELETE\<close>
  statements with a condition, requests over a network that may lose them, and \<open>try ... finally\<close>. The
  lemmas say when deleting rows keeps the database consistent and touches nothing else.
\<close>

section \<open>Connections\<close>

text \<open>\<open>async with engine.begin() as conn\<close>: commit when the block ends, roll back when it raises.\<close>

definition engine_begin :: "'a io \<Rightarrow> 'a io" where
  "engine_begin block =
     with_session (tryM (bindM block (\<lambda>a. seqM commit (ret a))) (\<lambda>e. seqM rollback (raise e)))"

text \<open>A session whose block ends with a commit.\<close>

definition session_commit :: "'a io \<Rightarrow> 'a io" where
  "session_commit m = with_session (bindM m (\<lambda>a. seqM commit (ret a)))"

text \<open>\<open>DELETE FROM\<close> a table: the foreign keys act for each row, and are checked when the statement ends.\<close>

definition delete_where :: "('a row) repo \<Rightarrow> (db \<Rightarrow> 'a row \<Rightarrow> bool) \<Rightarrow> unit io" where
  "delete_where R P =
     bindM (gets (\<lambda>w. map row_id (filter (P (working w)) (repo_rows R w)))) (\<lambda>ids.
       seqM (forM (repo_delete R) ids) flush)"

definition finally_do :: "('s, 'e, 'a) prog \<Rightarrow> ('s, 'e, unit) prog \<Rightarrow> ('s, 'e, 'a) prog" where
  "finally_do block cleanup = (\<lambda>s. case block s of
     (r, s1) \<Rightarrow> (case cleanup s1 of (Inl e, s2) \<Rightarrow> (Inl e, s2) | (Inr _, s2) \<Rightarrow> (r, s2)))"

definition require :: "bool \<Rightarrow> unit io" where
  "require ok = (if ok then ret () else raise (Exn AssertionErr ''AssertionError''))"

section \<open>Requests\<close>

text \<open>A response with its JSON body; only a successful one has the endpoint's value as its body.\<close>

definition answer :: "nat \<Rightarrow> bool \<Rightarrow> 'a io \<Rightarrow> (int \<times> 'a option) io" where
  "answer success valid endpoint = (\<lambda>w.
     if \<not> valid then (Inr (422, None), w)
     else (case get_async_session endpoint w of
             (Inl e, w') \<Rightarrow> (Inr (http_status success (Inl e :: exn + 'a), None), w')
           | (Inr a, w') \<Rightarrow> (Inr (int success, Some a), w')))"

definition over_network :: "fate \<Rightarrow> (int \<times> 'a option) io \<Rightarrow> (int \<times> 'a option) io" where
  "over_network f m =
     (case f of
        Answered \<Rightarrow> m
      | Unsent e \<Rightarrow> raise e
      | Unanswered e \<Rightarrow> bindM m (\<lambda>_. raise e)
      | Gateway c \<Rightarrow> ret (c, None))"

definition raise_for_status :: "int \<times> 'a option \<Rightarrow> ('a option) io" where
  "raise_for_status response =
     (if success_code (fst response) then ret (snd response)
      else raise (Exn HttpStatusErr (show_int (fst response))))"

definition json_body :: "'a option \<Rightarrow> 'a io" where
  "json_body b = (case b of None \<Rightarrow> raise (Exn ValueErr ''JSONDecodeError'') | Some a \<Rightarrow> ret a)"

text \<open>\<open>request\<close> of the endpoint theories is the status code of the answer.\<close>

lemma request_is_answer:
  "request n valid m w = (case answer n valid m w of (Inl e, w') \<Rightarrow> (Inl e, w') | (Inr p, w') \<Rightarrow> (Inr (fst p), w'))"
  by (auto simp: request_def answer_def http_status_def split: prod.splits sum.splits)

lemma answer_returns:
  assumes run: "m (opened w) = (Inr a, w1)" and c: "consistent (working w1)"
  obtains w' where "answer n True m w = (Inr (int n, Some a), w')" "consistent (committed w')"
    "same_rows (regenerate (working w1)) (committed w')"
  by (rule request_returns [where m = m and w = w, OF run c]) (rule that, simp add: answer_def)

lemma keeps_over_network [keeps_intros]: "keeps I m \<Longrightarrow> keeps I (over_network f m)"
  by (auto simp: over_network_def intro!: keeps_intros split: fate.splits)

lemma keeps_raise_for_status [keeps_intros]: "keeps I (raise_for_status r)"
  by (auto simp: raise_for_status_def intro!: keeps_intros)

lemma keeps_json_body [keeps_intros]: "keeps I (json_body b)"
  by (auto simp: json_body_def intro!: keeps_intros split: option.splits)

lemma keeps_require [keeps_intros]: "keeps I (require b)"
  by (auto simp: require_def intro!: keeps_intros)

section \<open>Deleting rows\<close>

definition keep_rows :: "('r \<Rightarrow> bool) \<Rightarrow> 'r table \<Rightarrow> 'r table" where
  "keep_rows P t = t\<lparr>tbl_rows := filter P (tbl_rows t)\<rparr>"

lemma keep_rows_sel [simp]: "tbl_rows (keep_rows P t) = filter P (tbl_rows t)" "tbl_seq (keep_rows P t) = tbl_seq t"
  by (simp_all add: keep_rows_def)

lemma table_wf_keep: "table_wf t \<Longrightarrow> table_wf (keep_rows P t)"
  by (auto simp: table_wf_def table_ids_def list_all_iff distinct_map_filter)

lemma table_delete_keep: "table_delete i (keep_rows P t) = keep_rows (\<lambda>r. P r \<and> row_id r \<noteq> i) t"
  by (simp add: table_delete_def keep_rows_def conj_commute)

text \<open>References from a visit to an event.\<close>

definition visit_events :: "visit \<Rightarrow> int set" where
  "visit_events v = set_option (v_entry_event_id v) \<union> set_option (v_exit_event_id v) \<union> set_option (v_last_event_id v)"

lemma on_delete_event_unseen:
  assumes "\<And>v. v \<in> set (tbl_rows (visits d)) \<Longrightarrow> i \<notin> visit_events v"
  shows "on_delete_event i d = d"
proof -
  have "map (\<lambda>v. v\<lparr>v_entry_event_id := null_if i (v_entry_event_id v), v_exit_event_id := null_if i (v_exit_event_id v),
      v_last_event_id := null_if i (v_last_event_id v)\<rparr>) (tbl_rows (visits d)) = tbl_rows (visits d)"
    using assms by (intro map_idI) (auto simp: null_if_def visit_events_def)
  then show ?thesis by (simp add: on_delete_event_def map_rows_def)
qed

lemma on_delete_video_unseen:
  assumes "\<And>e. e \<in> set (tbl_rows (events d)) \<Longrightarrow> e_video_file_id e \<noteq> i"
  shows "on_delete_video i d = d"
proof -
  have "filter (\<lambda>e. e_video_file_id e = i) (tbl_rows (events d)) = []" using assms by (simp add: filter_empty_conv)
  then show ?thesis by (simp add: on_delete_video_def)
qed

lemma consistent_keep_events:
  assumes c: "consistent d"
    and "\<And>v e. v \<in> set (tbl_rows (visits d)) \<Longrightarrow> e \<in> set (tbl_rows (events d)) \<Longrightarrow> row_id e \<in> visit_events v \<Longrightarrow> P e"
  shows "consistent (events_update (keep_rows P) d)"
proof -
  have "fk_opt (keep_rows P (events d)) x"
    if "v \<in> set (tbl_rows (visits d))" "fk_opt (events d) x" "set_option x \<subseteq> visit_events v" for v x
    using assms(2) [OF that(1)] that(2,3) by (cases x) (auto simp: fk_opt_def fk_def table_ids_def image_iff)
  then have "visits_ok (events_update (keep_rows P) d)"
    using c by (fastforce simp: consistent_def db_ok_def visits_ok_def visit_fks_def list_all_iff visit_events_def)
  then show ?thesis
    using c table_wf_keep [of "events d" P]
    by (auto simp: consistent_def db_wf_def db_ok_def stations_ok_def tractors_ok_def videos_ok_def events_ok_def list_all_iff)
qed

lemma consistent_keep_videos:
  assumes c: "consistent d"
    and "\<And>v e. v \<in> set (tbl_rows (videos d)) \<Longrightarrow> e \<in> set (tbl_rows (events d)) \<Longrightarrow> e_video_file_id e = row_id v \<Longrightarrow> P v"
  shows "consistent (videos_update (keep_rows P) d)"
proof -
  have "fk (keep_rows P (videos d)) (e_video_file_id e)"
    if "e \<in> set (tbl_rows (events d))" "fk (videos d) (e_video_file_id e)" for e
    using assms(2) [OF _ that(1)] that(2) by (auto simp: fk_def table_ids_def)
  then have "events_ok (videos_update (keep_rows P) d)"
    using c by (auto simp: consistent_def db_ok_def events_ok_def list_all_iff)
  moreover have "videos_ok (videos_update (keep_rows P) d)"
    using c by (auto simp: consistent_def db_ok_def videos_ok_def list_all_iff distinct_map_filter)
  ultimately show ?thesis
    using c table_wf_keep [of "videos d" P]
    by (auto simp: consistent_def db_wf_def db_ok_def stations_ok_def tractors_ok_def visits_ok_def visit_fks_def)
qed

lemma consistent_keep_stations:
  assumes c: "consistent d"
    and "\<And>s. s \<in> set (tbl_rows (stations d)) \<Longrightarrow> station_referenced (row_id s) d \<Longrightarrow> P s"
  shows "consistent (stations_update (keep_rows P) d)"
proof -
  have keep: "fk (keep_rows P (stations d)) i" if "fk (stations d) i" "station_referenced i d" for i
    using assms(2) that by (auto simp: fk_def table_ids_def)
  have "fk_opt (keep_rows P (stations d)) (vf_station_id v)"
    if "v \<in> set (tbl_rows (videos d))" "fk_opt (stations d) (vf_station_id v)" for v
    using keep that by (cases "vf_station_id v") (auto simp: fk_opt_def station_referenced_def)
  then have "videos_ok (stations_update (keep_rows P) d)"
    using c by (simp add: consistent_def db_ok_def videos_ok_def list_all_iff)
  moreover have "fk (keep_rows P (stations d)) (v_station_id v)"
    if "v \<in> set (tbl_rows (visits d))" "fk (stations d) (v_station_id v)" for v
    using keep [OF that(2)] that(1) by (auto simp: station_referenced_def)
  then have "visits_ok (stations_update (keep_rows P) d)"
    using c by (simp add: consistent_def db_ok_def visits_ok_def visit_fks_def list_all_iff)
  moreover have "stations_ok (stations_update (keep_rows P) d)"
    using c by (auto simp: consistent_def db_ok_def stations_ok_def list_all_iff distinct_map_filter)
  ultimately show ?thesis
    using c table_wf_keep [of "stations d" P]
    by (auto simp: consistent_def db_wf_def db_ok_def tractors_ok_def events_ok_def)
qed

text \<open>Each statement deletes its rows and nothing else when nothing refers to them.\<close>

lemma ids_of_kept:
  assumes "table_wf t" and "r \<in> set (tbl_rows t)"
  shows "row_id r \<notin> set (map row_id (filter Q (tbl_rows t))) \<longleftrightarrow> \<not> Q r"
proof -
  have "r' = r" if "r' \<in> set (tbl_rows t)" "row_id r' = row_id r" for r'
    using trans [OF sym [OF table_get_in [OF assms]] table_get_in [OF assms(1) that(1), unfolded that(2)]] by simp
  then show ?thesis using assms(2) by auto
qed

lemma keep_ids:
  "table_wf t \<Longrightarrow> keep_rows (\<lambda>r. True \<and> row_id r \<notin> set (map row_id (filter Q (tbl_rows t)))) t = keep_rows (\<lambda>r. \<not> Q r) t"
  using ids_of_kept [of t _ Q] by (simp add: keep_rows_def cong: filter_cong)

text \<open>
  A table whose updates compose and depend on the table only: a \<open>DELETE\<close> removes exactly the rows of its
  condition when the foreign keys that point at them find nothing to change.
\<close>

locale deletable = model_class R for R :: "('a row) repo" +
  assumes upd_upd: "rp_upd R f (rp_upd R g d) = rp_upd R (\<lambda>t. f (g t)) d"
    and upd_cong: "f (rp_table R d) = g (rp_table R d) \<Longrightarrow> rp_upd R f d = rp_upd R g d"
    and upd_id: "rp_upd R (\<lambda>t. t) d = d"
begin

lemma forM_delete:
  assumes "\<And>i P. i \<in> set is \<Longrightarrow>
    rp_on_delete R i (rp_upd R (table_delete i) (rp_upd R (keep_rows P) d)) = rp_upd R (table_delete i) (rp_upd R (keep_rows P) d)"
    and "working w = rp_upd R (keep_rows P) d"
  shows "forM (repo_delete R) is w =
    (Inr (), w\<lparr>working := rp_upd R (keep_rows (\<lambda>r. P r \<and> row_id r \<notin> set is)) d\<rparr>)"
  using assms
proof (induction "is" arbitrary: w P)
  case Nil
  then show ?case by simp
next
  case (Cons i "is")
  let ?w = "w\<lparr>working := rp_upd R (keep_rows (\<lambda>r. P r \<and> row_id r \<noteq> i)) d\<rparr>"
  have "repo_delete R i w = (Inr (), ?w)"
    using Cons.prems(1) [of i P] by (simp add: repo_delete_def Cons.prems(2) upd_upd table_delete_keep)
  moreover have "forM (repo_delete R) is ?w =
      (Inr (), ?w\<lparr>working := rp_upd R (keep_rows (\<lambda>r. (P r \<and> row_id r \<noteq> i) \<and> row_id r \<notin> set is)) d\<rparr>)"
    by (rule Cons.IH) (use Cons.prems(1) in auto)
  ultimately show ?case by (simp add: conj_assoc)
qed

lemma delete_run:
  assumes c: "consistent (working w)" "consistent (rp_upd R (keep_rows (\<lambda>r. \<not> P (working w) r)) (working w))"
    and unseen: "\<And>r P'. r \<in> set (tbl_rows (rp_table R (working w))) \<Longrightarrow> P (working w) r \<Longrightarrow>
      rp_on_delete R (row_id r) (rp_upd R (table_delete (row_id r)) (rp_upd R (keep_rows P') (working w)))
        = rp_upd R (table_delete (row_id r)) (rp_upd R (keep_rows P') (working w))"
  shows "delete_where R P w = (Inr (), w\<lparr>working := rp_upd R (keep_rows (\<lambda>r. \<not> P (working w) r)) (working w)\<rparr>)"
proof -
  let ?ids = "map row_id (filter (P (working w)) (tbl_rows (rp_table R (working w))))"
  have "keep_rows (\<lambda>_. True) = (\<lambda>t :: 'a row table. t)" by (simp add: keep_rows_def fun_eq_iff)
  then have start: "working w = rp_upd R (keep_rows (\<lambda>_. True)) (working w)" by (simp add: upd_id)
  have wf: "table_wf (rp_table R (working w))" using c(1) by (simp add: consistent_def table_of_wf)
  have "forM (repo_delete R) ?ids w =
      (Inr (), w\<lparr>working := rp_upd R (keep_rows (\<lambda>r. True \<and> row_id r \<notin> set ?ids)) (working w)\<rparr>)"
  proof (rule forM_delete [OF _ start])
    fix i P'
    assume "i \<in> set ?ids"
    then obtain r where r: "r \<in> set (tbl_rows (rp_table R (working w)))" "P (working w) r" "i = row_id r" by auto
    then show "rp_on_delete R i (rp_upd R (table_delete i) (rp_upd R (keep_rows P') (working w)))
        = rp_upd R (table_delete i) (rp_upd R (keep_rows P') (working w))"
      using unseen [OF r(1,2)] by simp
  qed
  moreover have "rp_upd R (keep_rows (\<lambda>r. True \<and> row_id r \<notin> set ?ids)) (working w)
      = rp_upd R (keep_rows (\<lambda>r. \<not> P (working w) r)) (working w)"
    by (rule upd_cong, rule keep_ids, rule wf)
  ultimately show ?thesis
    using c(2) by (simp add: delete_where_def repo_rows_def bindM_run flush_def consistent_def del: set_map set_filter)
qed

end

interpretation station_sql: deletable StationRepo
  by unfold_locales (simp_all add: comp_def)

interpretation video_sql: deletable VideoRepo
  by unfold_locales (simp_all add: comp_def)

interpretation event_sql: deletable EventRepo
  by unfold_locales (simp_all add: comp_def)

lemma delete_events_run:
  assumes c: "consistent (working w)"
    and unseen: "\<And>v e. v \<in> set (tbl_rows (visits (working w))) \<Longrightarrow> e \<in> set (tbl_rows (events (working w)))
      \<Longrightarrow> row_id e \<in> visit_events v \<Longrightarrow> \<not> P (working w) e"
  shows "delete_where EventRepo P w = (Inr (), w\<lparr>working := events_update (keep_rows (\<lambda>e. \<not> P (working w) e)) (working w)\<rparr>)"
    and "consistent (events_update (keep_rows (\<lambda>e. \<not> P (working w) e)) (working w))"
proof -
  show c': "consistent (events_update (keep_rows (\<lambda>e. \<not> P (working w) e)) (working w))"
    by (rule consistent_keep_events [OF c], rule unseen)
  have "delete_where EventRepo P w =
      (Inr (), w\<lparr>working := rp_upd EventRepo (keep_rows (\<lambda>e. \<not> P (working w) e)) (working w)\<rparr>)"
  proof (rule event_sql.delete_run)
    fix e P'
    assume e: "e \<in> set (tbl_rows (rp_table EventRepo (working w)))" "P (working w) e"
    have i: "row_id e \<notin> visit_events v" if "v \<in> set (tbl_rows (visits (working w)))" for v
      using unseen [OF that, of e] e by auto
    show "rp_on_delete EventRepo (row_id e) (rp_upd EventRepo (table_delete (row_id e)) (rp_upd EventRepo (keep_rows P') (working w)))
        = rp_upd EventRepo (table_delete (row_id e)) (rp_upd EventRepo (keep_rows P') (working w))"
      unfolding repo_sel by (rule on_delete_event_unseen) (simp add: i)
  qed (use c c' in simp_all)
  then show "delete_where EventRepo P w = (Inr (), w\<lparr>working := events_update (keep_rows (\<lambda>e. \<not> P (working w) e)) (working w)\<rparr>)"
    by simp
qed

lemma delete_videos_run:
  assumes c: "consistent (working w)"
    and unseen: "\<And>v e. v \<in> set (tbl_rows (videos (working w))) \<Longrightarrow> e \<in> set (tbl_rows (events (working w)))
      \<Longrightarrow> e_video_file_id e = row_id v \<Longrightarrow> \<not> P (working w) v"
  shows "delete_where VideoRepo P w = (Inr (), w\<lparr>working := videos_update (keep_rows (\<lambda>v. \<not> P (working w) v)) (working w)\<rparr>)"
    and "consistent (videos_update (keep_rows (\<lambda>v. \<not> P (working w) v)) (working w))"
proof -
  show c': "consistent (videos_update (keep_rows (\<lambda>v. \<not> P (working w) v)) (working w))"
    by (rule consistent_keep_videos [OF c], rule unseen)
  have "delete_where VideoRepo P w =
      (Inr (), w\<lparr>working := rp_upd VideoRepo (keep_rows (\<lambda>v. \<not> P (working w) v)) (working w)\<rparr>)"
  proof (rule video_sql.delete_run)
    fix v P'
    assume v: "v \<in> set (tbl_rows (rp_table VideoRepo (working w)))" "P (working w) v"
    have i: "e_video_file_id e \<noteq> row_id v" if "e \<in> set (tbl_rows (events (working w)))" for e
      using unseen [OF _ that, of v] v by auto
    show "rp_on_delete VideoRepo (row_id v) (rp_upd VideoRepo (table_delete (row_id v)) (rp_upd VideoRepo (keep_rows P') (working w)))
        = rp_upd VideoRepo (table_delete (row_id v)) (rp_upd VideoRepo (keep_rows P') (working w))"
      unfolding repo_sel by (rule on_delete_video_unseen) (simp add: i)
  qed (use c c' in simp_all)
  then show "delete_where VideoRepo P w = (Inr (), w\<lparr>working := videos_update (keep_rows (\<lambda>v. \<not> P (working w) v)) (working w)\<rparr>)"
    by simp
qed

lemma delete_stations_run:
  assumes c: "consistent (working w)"
    and unseen: "\<And>s. s \<in> set (tbl_rows (stations (working w))) \<Longrightarrow> station_referenced (row_id s) (working w)
      \<Longrightarrow> \<not> P (working w) s"
  shows "delete_where StationRepo P w = (Inr (), w\<lparr>working := stations_update (keep_rows (\<lambda>s. \<not> P (working w) s)) (working w)\<rparr>)"
    and "consistent (stations_update (keep_rows (\<lambda>s. \<not> P (working w) s)) (working w))"
proof -
  show c': "consistent (stations_update (keep_rows (\<lambda>s. \<not> P (working w) s)) (working w))"
    by (rule consistent_keep_stations [OF c], rule unseen)
  have "delete_where StationRepo P w =
      (Inr (), w\<lparr>working := rp_upd StationRepo (keep_rows (\<lambda>s. \<not> P (working w) s)) (working w)\<rparr>)"
    by (rule station_sql.delete_run) (use c c' in simp_all)
  then show "delete_where StationRepo P w = (Inr (), w\<lparr>working := stations_update (keep_rows (\<lambda>s. \<not> P (working w) s)) (working w)\<rparr>)"
    by simp
qed

text \<open>A transaction that ends with consistent data is committed.\<close>

lemma engine_begin_run:
  assumes run: "m (opened w) = (Inr a, w1)" and c: "consistent (working w1)"
  obtains w' where "engine_begin m w = (Inr a, w')" "consistent (committed w')"
    "same_rows (regenerate (working w1)) (committed w')"
  using request_returns [where m = m and w = w, OF run c] unfolding engine_begin_def get_async_session_def .

section \<open>Deleting visits and tractors\<close>

interpretation visit_sql: deletable VisitRepo
  by unfold_locales (simp_all add: comp_def)

interpretation tractor_sql: deletable TractorRepo
  by unfold_locales (simp_all add: comp_def)

lemma consistent_keep_visits:
  assumes "consistent d"
  shows "consistent (visits_update (keep_rows P) d)"
proof -
  have "distinct (map visit_pair (filter P (filter visit_is_open (tbl_rows (visits d)))))"
    by (rule distinct_map_filter) (use assms in \<open>simp add: consistent_def db_ok_def visits_ok_def uq_visit_open_def\<close>)
  then have "visits_ok (visits_update (keep_rows P) d)"
    using assms by (auto simp: consistent_def db_ok_def visits_ok_def visit_fks_def list_all_iff uq_visit_open_def conj_commute)
  then show ?thesis
    using assms table_wf_keep [of "visits d" P]
    by (auto simp: consistent_def db_wf_def db_ok_def stations_ok_def tractors_ok_def videos_ok_def events_ok_def)
qed

lemma delete_visits_run:
  assumes c: "consistent (working w)"
  shows "delete_where VisitRepo P w = (Inr (), w\<lparr>working := visits_update (keep_rows (\<lambda>v. \<not> P (working w) v)) (working w)\<rparr>)"
    and "consistent (visits_update (keep_rows (\<lambda>v. \<not> P (working w) v)) (working w))"
proof -
  show c': "consistent (visits_update (keep_rows (\<lambda>v. \<not> P (working w) v)) (working w))"
    by (rule consistent_keep_visits [OF c])
  have "delete_where VisitRepo P w =
      (Inr (), w\<lparr>working := rp_upd VisitRepo (keep_rows (\<lambda>v. \<not> P (working w) v)) (working w)\<rparr>)"
    by (rule visit_sql.delete_run) (use c c' in simp_all)
  then show "delete_where VisitRepo P w = (Inr (), w\<lparr>working := visits_update (keep_rows (\<lambda>v. \<not> P (working w) v)) (working w)\<rparr>)"
    by simp
qed

definition tractor_referenced :: "int \<Rightarrow> db \<Rightarrow> bool" where
  "tractor_referenced i d \<longleftrightarrow>
     (\<exists>e \<in> set (tbl_rows (events d)). e_tractor_id e = Some i) \<or> (\<exists>v \<in> set (tbl_rows (visits d)). v_tractor_id v = i)"

lemma consistent_keep_tractors:
  assumes c: "consistent d"
    and "\<And>t. t \<in> set (tbl_rows (tractors d)) \<Longrightarrow> tractor_referenced (row_id t) d \<Longrightarrow> P t"
  shows "consistent (tractors_update (keep_rows P) d)"
proof -
  have keep: "fk (keep_rows P (tractors d)) i" if "fk (tractors d) i" "tractor_referenced i d" for i
    using assms(2) that by (auto simp: fk_def table_ids_def)
  have "fk_opt (keep_rows P (tractors d)) (e_tractor_id e)"
    if "e \<in> set (tbl_rows (events d))" "fk_opt (tractors d) (e_tractor_id e)" for e
    using keep that by (cases "e_tractor_id e") (auto simp: fk_opt_def tractor_referenced_def)
  then have "events_ok (tractors_update (keep_rows P) d)"
    using c by (simp add: consistent_def db_ok_def events_ok_def list_all_iff)
  moreover have "fk (keep_rows P (tractors d)) (v_tractor_id v)"
    if "v \<in> set (tbl_rows (visits d))" "fk (tractors d) (v_tractor_id v)" for v
    using keep [OF that(2)] that(1) by (auto simp: tractor_referenced_def)
  then have "visits_ok (tractors_update (keep_rows P) d)"
    using c by (simp add: consistent_def db_ok_def visits_ok_def visit_fks_def list_all_iff)
  moreover have "distinct (map primary_aruco_id (filter P (filter (\<lambda>t. primary_aruco_id t \<noteq> None) (tbl_rows (tractors d)))))"
    by (rule distinct_map_filter)
      (use c in \<open>simp add: consistent_def db_ok_def tractors_ok_def uq_tractors_primary_aruco_def filter_map comp_def\<close>)
  then have "tractors_ok (tractors_update (keep_rows P) d)"
    using c by (simp add: consistent_def db_ok_def tractors_ok_def list_all_iff uq_tractors_primary_aruco_def filter_map comp_def
        conj_commute)
  ultimately show ?thesis
    using c table_wf_keep [of "tractors d" P]
    by (auto simp: consistent_def db_wf_def db_ok_def stations_ok_def videos_ok_def)
qed

lemma on_delete_tractor_unseen:
  assumes "\<And>e. e \<in> set (tbl_rows (events d)) \<Longrightarrow> e_tractor_id e \<noteq> Some i"
  shows "on_delete_tractor i d = d"
proof -
  have "map (\<lambda>e. e\<lparr>e_tractor_id := null_if i (e_tractor_id e)\<rparr>) (tbl_rows (events d)) = tbl_rows (events d)"
    using assms by (intro map_idI) (auto simp: null_if_def)
  then show ?thesis by (simp add: on_delete_tractor_def map_rows_def)
qed

lemma delete_tractors_run:
  assumes c: "consistent (working w)"
    and unseen: "\<And>t. t \<in> set (tbl_rows (tractors (working w))) \<Longrightarrow> tractor_referenced (row_id t) (working w)
      \<Longrightarrow> \<not> P (working w) t"
  shows "delete_where TractorRepo P w = (Inr (), w\<lparr>working := tractors_update (keep_rows (\<lambda>t. \<not> P (working w) t)) (working w)\<rparr>)"
    and "consistent (tractors_update (keep_rows (\<lambda>t. \<not> P (working w) t)) (working w))"
proof -
  show c': "consistent (tractors_update (keep_rows (\<lambda>t. \<not> P (working w) t)) (working w))"
    by (rule consistent_keep_tractors [OF c], rule unseen)
  have "delete_where TractorRepo P w =
      (Inr (), w\<lparr>working := rp_upd TractorRepo (keep_rows (\<lambda>t. \<not> P (working w) t)) (working w)\<rparr>)"
  proof (rule tractor_sql.delete_run)
    fix t P'
    assume t: "t \<in> set (tbl_rows (rp_table TractorRepo (working w)))" "P (working w) t"
    have i: "e_tractor_id e \<noteq> Some (row_id t)" if "e \<in> set (tbl_rows (events (working w)))" for e
      using unseen [of t] t that by (auto simp: tractor_referenced_def)
    show "rp_on_delete TractorRepo (row_id t) (rp_upd TractorRepo (table_delete (row_id t)) (rp_upd TractorRepo (keep_rows P') (working w)))
        = rp_upd TractorRepo (table_delete (row_id t)) (rp_upd TractorRepo (keep_rows P') (working w))"
      unfolding repo_sel by (rule on_delete_tractor_unseen) (simp add: i)
  qed (use c c' in simp_all)
  then show "delete_where TractorRepo P w = (Inr (), w\<lparr>working := tractors_update (keep_rows (\<lambda>t. \<not> P (working w) t)) (working w)\<rparr>)"
    by simp
qed

lemma working_set: "working (w\<lparr>working := d\<rparr>) = d"
  by simp

section \<open>Taking back what was added\<close>

text \<open>
  \<open>d\<close> has the rows of the consistent database \<open>d0\<close> and more. When a \<open>DELETE\<close> meets exactly the rows that one of
  its tables has more, and the tables that refer to it are those of \<open>d0\<close>, it takes them back.
\<close>

lemma consistent_refs:
  assumes "consistent d"
  shows "v \<in> set (tbl_rows (videos d)) \<Longrightarrow> vf_station_id v = Some i \<Longrightarrow> i \<in> set (table_ids (stations d))"
    and "e \<in> set (tbl_rows (events d)) \<Longrightarrow> e_video_file_id e \<in> set (table_ids (videos d))"
    and "tractor_referenced i d \<Longrightarrow> i \<in> set (table_ids (tractors d))"
    and "station_referenced i d \<Longrightarrow> i \<in> set (table_ids (stations d))"
    and "z \<in> set (tbl_rows (visits d)) \<Longrightarrow> visit_events z \<subseteq> set (table_ids (events d))"
proof -
  have v: "\<And>v. v \<in> set (tbl_rows (videos d)) \<Longrightarrow> fk_opt (stations d) (vf_station_id v)"
    and e: "\<And>e. e \<in> set (tbl_rows (events d)) \<Longrightarrow> fk (videos d) (e_video_file_id e) \<and> fk_opt (tractors d) (e_tractor_id e)"
    and z: "\<And>z. z \<in> set (tbl_rows (visits d)) \<Longrightarrow> visit_fks d z"
    using assms by (simp_all add: consistent_def db_ok_def videos_ok_def events_ok_def visits_ok_def list_all_iff)
  show 1: "v \<in> set (tbl_rows (videos d)) \<Longrightarrow> vf_station_id v = Some i \<Longrightarrow> i \<in> set (table_ids (stations d))" for v i
    using v [of v] by (simp add: fk_opt_def fk_def)
  show "e \<in> set (tbl_rows (events d)) \<Longrightarrow> e_video_file_id e \<in> set (table_ids (videos d))"
    using e [of e] by (simp add: fk_def)
  show "tractor_referenced i d \<Longrightarrow> i \<in> set (table_ids (tractors d))"
    using e z by (fastforce simp: tractor_referenced_def visit_fks_def fk_def fk_opt_def)
  show "station_referenced i d \<Longrightarrow> i \<in> set (table_ids (stations d))"
    using 1 z by (fastforce simp: station_referenced_def visit_fks_def fk_def)
  show "z \<in> set (tbl_rows (visits d)) \<Longrightarrow> visit_events z \<subseteq> set (table_ids (events d))"
    using z [of z] by (auto simp: visit_events_def visit_fks_def fk_def fk_opt_def)
qed

lemma filter_split: "\<forall>x \<in> set xs. P x \<Longrightarrow> \<forall>y \<in> set ys. \<not> P y \<Longrightarrow> filter P (xs @ ys) = xs"
  by (simp add: filter_id_conv filter_empty_conv)

lemma kept_row:
  assumes wf: "table_wf t" and rows: "filter (\<lambda>r. \<not> P r) (tbl_rows t) = tbl_rows t0"
    and r: "r \<in> set (tbl_rows t)" "row_id r \<in> set (table_ids t0)"
  shows "\<not> P r"
proof -
  obtain r0 where "r0 \<in> set (tbl_rows t0)" "row_id r0 = row_id r" using r(2) by (auto simp: table_ids_def)
  then have "r0 \<in> set (tbl_rows t)" "\<not> P r0" "row_id r0 = row_id r" unfolding rows [symmetric] by simp_all
  then show ?thesis using ids_of_kept [OF wf r(1), of P] ids_of_kept [OF wf, of r0 P] by simp
qed

lemma drop_visits:
  assumes c: "consistent d" and rows: "filter (\<lambda>r. \<not> P d r) (tbl_rows (visits d)) = tbl_rows (visits d0)"
  obtains d' where "delete_where VisitRepo P (w\<lparr>working := d\<rparr>) = (Inr (), w\<lparr>working := d'\<rparr>)" "consistent d'"
    "tbl_rows (visits d') = tbl_rows (visits d0)" "stations d' = stations d" "tractors d' = tractors d"
    "videos d' = videos d" "events d' = events d"
proof -
  let ?d = "visits_update (keep_rows (\<lambda>r. \<not> P d r)) d"
  have "delete_where VisitRepo P (w\<lparr>working := d\<rparr>) = (Inr (), w\<lparr>working := ?d\<rparr>)" "consistent ?d"
    using delete_visits_run [of "w\<lparr>working := d\<rparr>" P] c by simp_all
  then show ?thesis by (rule that) (use rows in simp_all)
qed

lemma drop_events:
  assumes c: "consistent d" "consistent d0" and rows: "filter (\<lambda>r. \<not> P d r) (tbl_rows (events d)) = tbl_rows (events d0)"
    and kept: "tbl_rows (visits d) = tbl_rows (visits d0)"
  obtains d' where "delete_where EventRepo P (w\<lparr>working := d\<rparr>) = (Inr (), w\<lparr>working := d'\<rparr>)" "consistent d'"
    "tbl_rows (events d') = tbl_rows (events d0)" "stations d' = stations d" "tractors d' = tractors d"
    "videos d' = videos d" "visits d' = visits d"
proof -
  let ?d = "events_update (keep_rows (\<lambda>r. \<not> P d r)) d"
  have wf: "table_wf (events d)" using c(1) by (simp add: consistent_def db_wf_def)
  have un: "\<not> P d e" if "v \<in> set (tbl_rows (visits d))" "e \<in> set (tbl_rows (events d))" "row_id e \<in> visit_events v" for v e
    using consistent_refs(5) [OF c(2), of v] that kept by (intro kept_row [OF wf rows]) auto
  note del = delete_events_run [of "w\<lparr>working := d\<rparr>" P, unfolded working_set, OF c(1)]
  have "delete_where EventRepo P (w\<lparr>working := d\<rparr>) = (Inr (), w\<lparr>working := ?d\<rparr>)" "consistent ?d"
    using del [OF un] by simp_all
  then show ?thesis by (rule that) (use rows in simp_all)
qed

lemma drop_videos:
  assumes c: "consistent d" "consistent d0" and rows: "filter (\<lambda>r. \<not> P d r) (tbl_rows (videos d)) = tbl_rows (videos d0)"
    and kept: "tbl_rows (events d) = tbl_rows (events d0)"
  obtains d' where "delete_where VideoRepo P (w\<lparr>working := d\<rparr>) = (Inr (), w\<lparr>working := d'\<rparr>)" "consistent d'"
    "tbl_rows (videos d') = tbl_rows (videos d0)" "stations d' = stations d" "tractors d' = tractors d"
    "events d' = events d" "visits d' = visits d"
proof -
  let ?d = "videos_update (keep_rows (\<lambda>r. \<not> P d r)) d"
  have wf: "table_wf (videos d)" using c(1) by (simp add: consistent_def db_wf_def)
  have un: "\<not> P d v" if "v \<in> set (tbl_rows (videos d))" "e \<in> set (tbl_rows (events d))" "e_video_file_id e = row_id v" for v e
    using consistent_refs(2) [OF c(2), of e] that kept by (intro kept_row [OF wf rows]) auto
  note del = delete_videos_run [of "w\<lparr>working := d\<rparr>" P, unfolded working_set, OF c(1)]
  have "delete_where VideoRepo P (w\<lparr>working := d\<rparr>) = (Inr (), w\<lparr>working := ?d\<rparr>)" "consistent ?d"
    using del [OF un] by simp_all
  then show ?thesis by (rule that) (use rows in simp_all)
qed

lemma drop_stations:
  assumes c: "consistent d" "consistent d0" and rows: "filter (\<lambda>r. \<not> P d r) (tbl_rows (stations d)) = tbl_rows (stations d0)"
    and kept: "tbl_rows (videos d) = tbl_rows (videos d0)" "tbl_rows (visits d) = tbl_rows (visits d0)"
  obtains d' where "delete_where StationRepo P (w\<lparr>working := d\<rparr>) = (Inr (), w\<lparr>working := d'\<rparr>)" "consistent d'"
    "tbl_rows (stations d') = tbl_rows (stations d0)" "tractors d' = tractors d" "videos d' = videos d"
    "events d' = events d" "visits d' = visits d"
proof -
  let ?d = "stations_update (keep_rows (\<lambda>r. \<not> P d r)) d"
  have wf: "table_wf (stations d)" using c(1) by (simp add: consistent_def db_wf_def)
  have un: "\<not> P d s" if "s \<in> set (tbl_rows (stations d))" "station_referenced (row_id s) d" for s
    using consistent_refs(4) [OF c(2), of "row_id s"] that kept by (intro kept_row [OF wf rows]) (auto simp: station_referenced_def)
  note del = delete_stations_run [of "w\<lparr>working := d\<rparr>" P, unfolded working_set, OF c(1)]
  have "delete_where StationRepo P (w\<lparr>working := d\<rparr>) = (Inr (), w\<lparr>working := ?d\<rparr>)" "consistent ?d"
    using del [OF un] by simp_all
  then show ?thesis by (rule that) (use rows in simp_all)
qed

lemma drop_tractors:
  assumes c: "consistent d" "consistent d0" and rows: "filter (\<lambda>r. \<not> P d r) (tbl_rows (tractors d)) = tbl_rows (tractors d0)"
    and kept: "tbl_rows (events d) = tbl_rows (events d0)" "tbl_rows (visits d) = tbl_rows (visits d0)"
  obtains d' where "delete_where TractorRepo P (w\<lparr>working := d\<rparr>) = (Inr (), w\<lparr>working := d'\<rparr>)" "consistent d'"
    "tbl_rows (tractors d') = tbl_rows (tractors d0)" "stations d' = stations d" "videos d' = videos d"
    "events d' = events d" "visits d' = visits d"
proof -
  let ?d = "tractors_update (keep_rows (\<lambda>r. \<not> P d r)) d"
  have wf: "table_wf (tractors d)" using c(1) by (simp add: consistent_def db_wf_def)
  have un: "\<not> P d t" if "t \<in> set (tbl_rows (tractors d))" "tractor_referenced (row_id t) d" for t
    using consistent_refs(3) [OF c(2), of "row_id t"] that kept by (intro kept_row [OF wf rows]) (auto simp: tractor_referenced_def)
  note del = delete_tractors_run [of "w\<lparr>working := d\<rparr>" P, unfolded working_set, OF c(1)]
  have "delete_where TractorRepo P (w\<lparr>working := d\<rparr>) = (Inr (), w\<lparr>working := ?d\<rparr>)" "consistent ?d"
    using del [OF un] by simp_all
  then show ?thesis by (rule that) (use rows in simp_all)
qed

lemma session_commit_run:
  assumes run: "m (opened w) = (Inr a, w1)" and c: "consistent (working w1)"
  obtains w' where "session_commit m w = (Inr a, w')" "consistent (committed w')"
    "same_rows (regenerate (working w1)) (committed w')"
proof -
  obtain w2 where w2: "commit w1 = (Inr (), w2)" "consistent (committed w2)" "working w2 = committed w2"
    "committed w2 = regenerate (working w1)"
    by (rule commit_run [OF c])
  define w3 where "w3 = w2\<lparr>working := rewind (committed w2) (working w2),
      committed := rewind (committed w2) (working w2)\<rparr>"
  have "session_commit m w = (Inr a, w3)"
    unfolding session_commit_def w3_def
    by (rule with_session_run) (use run w2(1) in \<open>simp add: opened_def\<close>)
  moreover have "consistent (committed w3)" "same_rows (regenerate (working w1)) (committed w3)"
    using w2 by (simp_all add: w3_def consistent_rewind)
  ultimately show ?thesis by (rule that)
qed

end
