(* ===== verification/SmokeIngest.thy ===== *)
theory SmokeIngest
  imports RawSql VideoApi
begin

text \<open>
  \<open>scripts/smoke_mqtt_ingest.py\<close>: the release check of the edge endpoint. It creates a station over the API,
  posts the same batch twice, looks at the database and tears everything down. \<open>digits\<close> is
  \<open>uuid.uuid4().hex\<close>, \<open>net\<close> what becomes of the requests, in order, and \<open>failure\<close> the answer of the health
  check. The main result: once the station is created, the check leaves no row behind, whatever becomes
  of the requests after it, and it passes when they are answered.
\<close>

section \<open>The script\<close>

definition upper_char :: "char \<Rightarrow> char" where
  "upper_char c = (let n = of_char c :: nat in if 97 \<le> n \<and> n \<le> 122 then char_of (n - 32) else c)"

definition smoke_code :: "string \<Rightarrow> string" where
  "smoke_code digits = ''SMOKE_'' @ map upper_char (take 8 digits)"

definition smoke_event :: edge_event_in where
  "smoke_event = \<lparr>ei_aruco_id = Some 7, ei_confidence = Some (99 / 100),
     ei_bbox = Some (JObj [(''x'', JInt 100), (''y'', JInt 50), (''w'', JInt 140), (''h'', JInt 140)]),
     ei_inside_roi = True, ei_frame_number = 30, ei_timestamp_in_video = 1,
     ei_detector_metadata = Some (JObj [(''triggered_by_mog2'', JBool True)])\<rparr>"

definition batch_payload :: "string \<Rightarrow> edge_batch_in io" where
  "batch_payload station_code =
     bindM py_now (\<lambda>started. ret
       \<lparr>eb_station_code = station_code, eb_started_at = started, eb_ended_at = dt_add started (timedelta_s 5),
        eb_events = [smoke_event]\<rparr>)"

definition smoke_station :: "string \<Rightarrow> station_create" where
  "smoke_station code = \<lparr>sc_code = code, sc_name = ''Smoke station '' @ code, sc_location = None,
     sc_video_dir = ''./data/queue/'' @ code, sc_roi_polygon = None, sc_is_entry_zone = True, sc_is_active = True\<rparr>"

definition smoke_cleanup :: "string \<Rightarrow> unit io" where
  "smoke_cleanup code =
     (let uri = edge_sentinel_uri code
      in engine_begin
           (seqM (delete_where EventRepo (\<lambda>d e. e_video_file_id e \<in>
                set (map row_id (filter (\<lambda>v. vf_storage_uri v = uri) (tbl_rows (videos d))))))
            (seqM (delete_where VideoRepo (\<lambda>_ v. vf_storage_uri v = uri))
              (delete_where StationRepo (\<lambda>_ s. st_code s = code)))))"

text \<open>The look at the row over a connection of its own; \<open>one()\<close> raises when there is no row.\<close>

definition check_row :: "'h hasher \<Rightarrow> string \<Rightarrow> int \<Rightarrow> unit io" where
  "check_row H code i =
     bindM (with_session (repo_get VideoRepo i)) (\<lambda>row. case row of
         None \<Rightarrow> raise (Exn InvalidRequestErr ''No row was found when one was required'')
       | Some v \<Rightarrow> seqM (require (vf_storage_uri v = edge_sentinel_uri code))
           (seqM (require (vf_status v = PROCESSING)) (require (vf_content_hash v = edge_sentinel_hash H code))))"

definition post_batch :: "'h hasher \<Rightarrow> fate \<Rightarrow> edge_batch_in \<Rightarrow> edge_batch_out io" where
  "post_batch H f payload =
     bindM (over_network f (answer 201 (batch_valid payload) (ingest_edge_batch H payload)))
       (\<lambda>response. bindM (raise_for_status response) json_body)"

definition smoke_batches :: "'h hasher \<Rightarrow> (nat \<Rightarrow> fate) \<Rightarrow> string \<Rightarrow> edge_batch_in \<Rightarrow> unit io" where
  "smoke_batches H net code payload =
     bindM (post_batch H (net 2) payload) (\<lambda>body.
     seqM (check_row H code (eo_video_file_id body))
     (bindM (post_batch H (net 3) payload) (\<lambda>body2.
      seqM (require (\<not> eo_sentinel_created body2)) (require (eo_video_file_id body2 = eo_video_file_id body)))))"

definition smoke_health :: "fate \<Rightarrow> string option \<Rightarrow> bool io" where
  "smoke_health f failure =
     tryM (bindM (over_network f (ret (fst (health failure), Some ()))) (\<lambda>r. bindM (raise_for_status r) (\<lambda>_. ret True)))
       (\<lambda>e. if exn_class e = HttpxErr \<or> exn_class e = HttpStatusErr then ret False else raise e)"

definition smoke_ingest :: "'h hasher \<Rightarrow> (nat \<Rightarrow> fate) \<Rightarrow> string option \<Rightarrow> string \<Rightarrow> int io" where
  "smoke_ingest H net failure digits =
     (let code = smoke_code digits; station = smoke_station code
      in bindM (batch_payload code) (\<lambda>payload.
         bindM (smoke_health (net 0) failure) (\<lambda>reachable.
           if \<not> reachable then ret 1
           else bindM (over_network (net 1) (answer 201 (station_create_valid station) (create_station station)))
             (\<lambda>response. bindM (raise_for_status response) (\<lambda>body. bindM (json_body body) (\<lambda>_.
               seqM (finally_do (smoke_batches H net code payload) (smoke_cleanup code)) (ret 0)))))))"

section \<open>The trace of the script in the database\<close>

definition untouched_by :: "'h hasher \<Rightarrow> string \<Rightarrow> db \<Rightarrow> bool" where
  "untouched_by H code d \<longleftrightarrow> code \<notin> st_code ` set (tbl_rows (stations d))
     \<and> (\<forall>v \<in> set (tbl_rows (videos d)). vf_content_hash v \<noteq> edge_sentinel_hash H code
          \<and> vf_storage_uri v \<noteq> edge_sentinel_uri code)"

definition trace_of :: "'h hasher \<Rightarrow> string \<Rightarrow> station \<Rightarrow> db \<Rightarrow> db \<Rightarrow> bool" where
  "trace_of H code s d0 d \<longleftrightarrow> consistent d \<and> st_code s = code
     \<and> tbl_rows (stations d) = tbl_rows (stations d0) @ [s] \<and> tbl_rows (tractors d) = tbl_rows (tractors d0)
     \<and> tbl_rows (visits d) = tbl_rows (visits d0) \<and> other_videos H code d = tbl_rows (videos d0)
     \<and> (\<forall>v. sentinel_at H code d = Some v \<longrightarrow> vf_storage_uri v = edge_sentinel_uri code)
     \<and> (\<exists>es. tbl_rows (events d) = tbl_rows (events d0) @ es
          \<and> (\<forall>e \<in> set es. \<exists>v. sentinel_at H code d = Some v \<and> e_video_file_id e = row_id v))"

lemma trace_cong: "same_rows d d' \<Longrightarrow> consistent d' \<Longrightarrow> trace_of H code s d0 d \<Longrightarrow> trace_of H code s d0 d'"
  by (simp add: trace_of_def same_rows_def other_videos_def sentinel_at_def)

lemma trace_rewind: "trace_of H code s d0 d \<Longrightarrow> trace_of H code s d0 (rewind d d')"
  by (rule trace_cong [of d]) (simp_all add: trace_of_def consistent_rewind)

lemma look_run: "\<exists>w'. with_session (repo_get VideoRepo i) w = (Inr (table_get (videos (committed w)) i), w')
    \<and> committed w' = rewind (committed w) (committed w)"
  by (simp add: with_session_def repo_get_def next_txn_def)

lemma duration_frame: "computed_duration (v\<lparr>v_duration_seconds := x\<rparr>) = computed_duration v"
  by (simp add: computed_duration_def split: option.splits)

lemma regenerate_idem: "regenerate (regenerate d) = regenerate d"
  by (simp add: regenerate_def duration_frame comp_def)

lemma answer_create:
  assumes c: "consistent (committed w)" and u: "untouched_by H code (committed w)" and ok: "station_create_valid (smoke_station code)"
  obtains s b w' where "answer 201 (station_create_valid (smoke_station code)) (create_station (smoke_station code)) w
      = (Inr (201, Some b), w')" "trace_of H code s (regenerate (committed w)) (committed w')"
    "sentinel_at H code (committed w') = None"
proof -
  let ?p = "smoke_station code"
  have free: "sc_code ?p \<notin> st_code ` set (tbl_rows (stations (committed w)))"
    using u by (simp add: untouched_by_def smoke_station_def)
  note run = create_station_run [OF c free]
  obtain w' where w': "answer 201 True (create_station ?p) w = (Inr (int 201,
      Some (station_to_public (stamp_new (txn_now (opened w)) (tbl_seq (stations (committed w))) (station_row ?p)))), w')"
    "consistent (committed w')"
    "same_rows (regenerate (stations_update (\<lambda>_. snd (table_insert (txn_now (opened w)) (station_row ?p) (stations (committed w))))
        (committed w))) (committed w')"
    by (rule answer_returns [where m = "create_station ?p" and w = w and n = 201, OF run(1)]) (use run(2) in simp_all)
  have none: "other_videos H code (committed w') = tbl_rows (videos (committed w))" "sentinel_at H code (committed w') = None"
    using w'(3) u by (simp_all add: same_rows_def other_videos_def sentinel_at_def untouched_by_def find_None_iff)
  then have "trace_of H code (stamp_new (txn_now (opened w)) (tbl_seq (stations (committed w))) (station_row ?p))
      (regenerate (committed w)) (committed w')"
    using w'(2,3) by (simp add: trace_of_def same_rows_def table_insert_def stamp_new_def station_row_def smoke_station_def)
  then show ?thesis using that w'(1) ok none(2) by simp
qed

definition smoke_payload :: "string \<Rightarrow> edge_batch_in \<Rightarrow> bool" where
  "smoke_payload code p \<longleftrightarrow> eb_station_code p = code \<and> batch_valid p \<and> utc_us (eb_started_at p) < utc_us (eb_ended_at p)"

lemma answer_batch:
  assumes t: "trace_of H code s d0 (committed w)" and u: "untouched_by H code d0" and p: "smoke_payload code p"
    and gen: "regenerate d0 = d0"
  obtains v new w' where "answer 201 (batch_valid p) (ingest_edge_batch H p) w =
      (Inr (201, Some \<lparr>eo_video_file_id = row_id v, eo_events_created = length (eb_events p), eo_sentinel_created = new\<rparr>), w')"
    "trace_of H code s d0 (committed w')" "sentinel_at H code (committed w') = Some v"
    "new = (sentinel_at H code (committed w) = None)"
    "case sentinel_at H code (committed w) of None \<Rightarrow> vf_status v = PROCESSING | Some v0 \<Rightarrow> row_id v = row_id v0"
proof -
  let ?d = "committed w" and ?b = "\<lambda>v new. \<lparr>eo_video_file_id = row_id v, eo_events_created = length (eb_events p), eo_sentinel_created = new\<rparr>"
  let ?ps = "\<lambda>v. map (edge_event_create (row_id v) (eb_ended_at p)) (eb_events p)"
  have c: "consistent ?d" and code: "eb_station_code p = code" and ok: "batch_valid p"
    using t p by (simp_all add: trace_of_def smoke_payload_def)
  have "find (\<lambda>s. st_code s = code) (tbl_rows (stations d0)) = None"
    using u by (auto simp: untouched_by_def find_None_iff image_iff)
  then have st: "find (\<lambda>s. st_code s = eb_station_code p) (tbl_rows (stations (working (opened w)))) = Some s"
    using t code by (simp add: trace_of_def find_append_case)
  obtain v new d where run: "ingest_edge_batch H p (opened w) =
      (Inr (?b v new), (opened w)\<lparr>working := with_events (txn_now (opened w)) (?ps v) d\<rparr>)"
    and d: "consistent d" "stations d = stations ?d" "tractors d = tractors ?d" "events d = events ?d" "visits d = visits ?d"
      "sentinel_at H code d = Some v" "new = (sentinel_at H code ?d = None)" "other_videos H code d = other_videos H code ?d"
    and v: "case sentinel_at H code ?d of None \<Rightarrow> vf_status v = PROCESSING \<and> vf_storage_uri v = edge_sentinel_uri code
      | Some v0 \<Rightarrow> row_id v = row_id v0 \<and> vf_status v = vf_status v0 \<and> vf_storage_uri v = vf_storage_uri v0"
    using ingest_run [of "opened w" p s H, OF _ ok st] c p code by (auto simp: smoke_payload_def)
  have ps: "list_all (\<lambda>q. event_fks d (event_row q)) (?ps v)"
    using ok edge_event_fks video_fk [OF d(6,1)] by (auto simp: batch_valid_def list_all_iff)
  obtain w' where w': "answer 201 True (ingest_edge_batch H p) w = (Inr (int 201, Some (?b v new)), w')" "consistent (committed w')"
    "same_rows (regenerate (with_events (txn_now (opened w)) (?ps v) d)) (committed w')"
    using answer_returns [where m = "ingest_edge_batch H p" and w = w and n = 201, OF run] consistent_with_events [OF d(1) ps]
    by auto
  note rows = w'(3) [unfolded same_rows_def regenerate_simps with_events_tables with_events_rows]
  have sent: "sentinel_at H code (committed w') = Some v" using rows d(6) by (simp add: sentinel_at_def)
  obtain es where es: "tbl_rows (events ?d) = tbl_rows (events d0) @ es"
      "\<forall>e \<in> set es. \<exists>v0. sentinel_at H code ?d = Some v0 \<and> e_video_file_id e = row_id v0"
    using t by (auto simp: trace_of_def)
  have "\<forall>e \<in> set (es @ stored_events (txn_now (opened w)) (tbl_seq (events d)) (?ps v)). e_video_file_id e = row_id v"
    using es(2) v by (auto dest!: stored_event simp: stamp_new_def event_row_def edge_event_create_def)
  moreover have "vf_storage_uri v = edge_sentinel_uri code"
    using v t by (auto simp: trace_of_def split: option.splits)
  moreover have "map (\<lambda>v. v\<lparr>v_duration_seconds := computed_duration v\<rparr>) (tbl_rows (visits d0)) = tbl_rows (visits d0)"
    using arg_cong [OF gen, of "\<lambda>d. tbl_rows (visits d)"] by simp
  ultimately have "trace_of H code s d0 (committed w')"
    using t rows w'(2) sent es(1) d by (auto simp: trace_of_def other_videos_def)
  moreover have "case sentinel_at H code ?d of None \<Rightarrow> vf_status v = PROCESSING | Some v0 \<Rightarrow> row_id v = row_id v0"
    using v by (auto split: option.splits)
  ultimately show ?thesis using that [of v new w'] w'(1) ok sent d(7) by simp
qed

lemma cleanup_run:
  assumes t: "trace_of H code s d0 (committed w)" and u: "untouched_by H code d0" and c0: "consistent d0"
    and r: "regenerate d0 = d0"
  obtains w' where "smoke_cleanup code w = (Inr (), w')" "consistent (committed w')" "all_rows (committed w') = all_rows d0"
proof -
  let ?uri = "edge_sentinel_uri code"
  define d where "d = committed w"
  define P :: "db \<Rightarrow> event \<Rightarrow> bool" where "P = (\<lambda>d e. e_video_file_id e \<in> set (map row_id (filter (\<lambda>v. vf_storage_uri v = ?uri) (tbl_rows (videos d)))))"
  have c: "consistent d" using t by (simp add: d_def trace_of_def)
  obtain es where es: "tbl_rows (events d) = tbl_rows (events d0) @ es"
      "\<And>e. e \<in> set es \<Longrightarrow> \<exists>v. sentinel_at H code d = Some v \<and> e_video_file_id e = row_id v"
    using t by (auto simp: d_def trace_of_def)
  have uri: "vf_storage_uri v = ?uri \<longleftrightarrow> vf_content_hash v = edge_sentinel_hash H code" if "v \<in> set (tbl_rows (videos d))" for v
  proof
    assume v: "vf_storage_uri v = ?uri"
    have "set (tbl_rows (videos d0)) = {v \<in> set (tbl_rows (videos d)). vf_content_hash v \<noteq> edge_sentinel_hash H code}"
      using t by (simp add: d_def trace_of_def other_videos_def flip: set_filter)
    then show "vf_content_hash v = edge_sentinel_hash H code"
      using u that v unfolding untouched_by_def by blast
  next
    assume "vf_content_hash v = edge_sentinel_hash H code"
    then have "sentinel_at H code d = Some v" using that by (simp add: sentinel_at_Some [OF c])
    then show "vf_storage_uri v = ?uri" using t by (simp add: d_def trace_of_def)
  qed
  have videos: "filter (\<lambda>v. \<not> vf_storage_uri v = ?uri) (tbl_rows (videos d)) = tbl_rows (videos d0)"
    using t uri by (simp add: d_def trace_of_def other_videos_def cong: filter_cong)
  have old: "\<not> P d e" if e: "e \<in> set (tbl_rows (events d0))" for e
  proof -
    obtain v where v0: "v \<in> set (tbl_rows (videos d0))" "row_id v = e_video_file_id e"
      using consistent_refs(2) [OF c0 e] by (auto simp: table_ids_def)
    have v: "v \<in> set (tbl_rows (videos d))" "vf_storage_uri v \<noteq> ?uri"
      using v0(1) unfolding videos [symmetric] by simp_all
    have wf: "table_wf (videos d)" using c by (simp add: consistent_def db_wf_def)
    show ?thesis using ids_of_kept [OF wf v(1), of "\<lambda>v. vf_storage_uri v = ?uri"] v(2) v0(2) by (simp add: P_def)
  qed
  have fresh: "P d e" if "e \<in> set es" for e
    using es(2) [OF that] t by (auto simp: P_def d_def trace_of_def sentinel_at_Some [OF c [unfolded d_def]])
  have events: "filter (\<lambda>e. \<not> P d e) (tbl_rows (events d)) = tbl_rows (events d0)"
    unfolding es(1) using old fresh by (intro filter_split) auto
  have z: "tbl_rows (stations d) = tbl_rows (stations d0) @ [s]" "st_code s = code" using t by (simp_all add: d_def trace_of_def)
  have others: "\<forall>z \<in> set (tbl_rows (stations d0)). \<not> st_code z = code" using u by (auto simp: untouched_by_def)
  have "filter (\<lambda>s. \<not> st_code s = code) (tbl_rows (stations d)) = tbl_rows (stations d0)"
    unfolding z(1) using others z(2) by (intro filter_split) auto
  then have rows: "tbl_rows (visits d) = tbl_rows (visits d0)" "tbl_rows (tractors d) = tbl_rows (tractors d0)"
    "filter (\<lambda>s. \<not> st_code s = code) (tbl_rows (stations d)) = tbl_rows (stations d0)"
    using t by (simp_all add: d_def trace_of_def)
  obtain d1 where 1: "delete_where EventRepo P ((opened w)\<lparr>working := d\<rparr>) = (Inr (), (opened w)\<lparr>working := d1\<rparr>)" "consistent d1"
    "tbl_rows (events d1) = tbl_rows (events d0)" "stations d1 = stations d" "tractors d1 = tractors d" "videos d1 = videos d" "visits d1 = visits d"
    by (rule drop_events [where P = P and w = "opened w", OF c c0 events rows(1)])
  obtain d2 where 2: "delete_where VideoRepo (\<lambda>_ v. vf_storage_uri v = ?uri) ((opened w)\<lparr>working := d1\<rparr>)
      = (Inr (), (opened w)\<lparr>working := d2\<rparr>)" "consistent d2"
    "tbl_rows (videos d2) = tbl_rows (videos d0)" "stations d2 = stations d1" "tractors d2 = tractors d1" "events d2 = events d1" "visits d2 = visits d1"
    by (rule drop_videos [where P = "\<lambda>_ v. vf_storage_uri v = ?uri", OF 1(2) c0]) (use videos 1 in simp_all)
  obtain d3 where 3: "delete_where StationRepo (\<lambda>_ s. st_code s = code) ((opened w)\<lparr>working := d2\<rparr>)
      = (Inr (), (opened w)\<lparr>working := d3\<rparr>)" "consistent d3"
    "tbl_rows (stations d3) = tbl_rows (stations d0)" "tractors d3 = tractors d2" "videos d3 = videos d2" "events d3 = events d2" "visits d3 = visits d2"
    by (rule drop_stations [where P = "\<lambda>_ s. st_code s = code", OF 2(2) c0]) (use rows 1 2 in simp_all)
  let ?m = "seqM (delete_where EventRepo P) (seqM (delete_where VideoRepo (\<lambda>_ v. vf_storage_uri v = ?uri))
      (delete_where StationRepo (\<lambda>_ s. st_code s = code)))"
  have "(opened w)\<lparr>working := d\<rparr> = opened w" by (simp add: d_def opened_def next_txn_def)
  then have "?m (opened w) = (Inr (), (opened w)\<lparr>working := d3\<rparr>)"
    using 1(1) by (simp only: seqM_def bindM_def 2(1) 3(1) prod.case sum.case)
  from engine_begin_run [where m = ?m and w = w, OF this] 3(2)
  obtain w' where w': "engine_begin ?m w = (Inr (), w')" "consistent (committed w')" "same_rows (regenerate d3) (committed w')"
    by auto
  have "all_rows (committed w') = all_rows d0"
    using w'(3) 1 2 3 rows(1,2) arg_cong [OF r, of "\<lambda>d. tbl_rows (visits d)"] by (simp add: same_rows_def all_rows_def)
  then show ?thesis using that w'(1,2) by (simp only: smoke_cleanup_def Let_def P_def)
qed

section \<open>Properties\<close>

lemma five_seconds: "timedelta_s 5 = 5000000"
  by (simp add: timedelta_s_def round_half_even_def)

lemma smoke_valid:
  assumes "code = smoke_code digits"
  shows "station_create_valid (smoke_station code)"
    and "smoke_payload code \<lparr>eb_station_code = code, eb_started_at = Aware t 0,
      eb_ended_at = dt_add (Aware t 0) (timedelta_s 5), eb_events = [smoke_event]\<rparr>"
proof -
  have "length code \<le> 14" "1 \<le> length code" by (simp_all add: assms smoke_code_def)
  then show "station_create_valid (smoke_station code)"
    and "smoke_payload code \<lparr>eb_station_code = code, eb_started_at = Aware t 0,
      eb_ended_at = dt_add (Aware t 0) (timedelta_s 5), eb_events = [smoke_event]\<rparr>"
    by (simp_all add: station_create_valid_def smoke_station_def smoke_payload_def batch_valid_def event_in_valid_def
        smoke_event_def five_seconds)
qed

text \<open>The requests and the look at the row keep the trace, whatever becomes of them.\<close>

lemma keeps_batches:
  assumes u: "untouched_by H code d0" and p: "smoke_payload code p" and gen: "regenerate d0 = d0"
  shows "keeps (\<lambda>w. trace_of H code s d0 (committed w)) (smoke_batches H net code p)"
proof -
  let ?I = "\<lambda>w :: world. trace_of H code s d0 (committed w)"
  have "keeps ?I (answer 201 (batch_valid p) (ingest_edge_batch H p))"
  proof (rule keepsI)
    fix w assume "?I w"
    from answer_batch [OF this u p gen] obtain r w' where "answer 201 (batch_valid p) (ingest_edge_batch H p) w = (r, w')" "?I w'"
      by metis
    then show "?I (snd (answer 201 (batch_valid p) (ingest_edge_batch H p) w))" by simp
  qed
  then have "keeps ?I (post_batch H f p)" for f
    by (auto simp: post_batch_def intro!: keeps_intros)
  moreover have "keeps ?I (with_session (repo_get VideoRepo i))" for i
  proof (rule keepsI)
    fix w :: world assume "?I w"
    then show "?I (snd (with_session (repo_get VideoRepo i) w))" using look_run [of i w] trace_rewind by fastforce
  qed
  then have "keeps ?I (check_row H code i)" for i
    by (auto simp: check_row_def intro!: keeps_intros split: option.splits)
  ultimately show ?thesis by (auto simp: smoke_batches_def intro!: keeps_intros)
qed

text \<open>When both requests are answered, every assertion holds.\<close>

lemma batches_pass:
  assumes t: "trace_of H code s d0 (committed w)" and u: "untouched_by H code d0" and p: "smoke_payload code p"
    and gen: "regenerate d0 = d0" and none: "sentinel_at H code (committed w) = None" and net: "net 2 = Answered" "net 3 = Answered"
  shows "fst (smoke_batches H net code p w) = Inr ()"
proof -
  obtain v new w1 where 1: "answer 201 (batch_valid p) (ingest_edge_batch H p) w =
      (Inr (201, Some \<lparr>eo_video_file_id = row_id v, eo_events_created = length (eb_events p), eo_sentinel_created = new\<rparr>), w1)"
    "trace_of H code s d0 (committed w1)" "sentinel_at H code (committed w1) = Some v" "case sentinel_at H code (committed w) of None \<Rightarrow> vf_status v = PROCESSING | Some v0 \<Rightarrow> row_id v = row_id v0"
    by (rule answer_batch [OF t u p gen])
  have c1: "consistent (committed w1)" using 1(2) by (simp add: trace_of_def)
  have v: "v \<in> set (tbl_rows (videos (committed w1)))" "vf_content_hash v = edge_sentinel_hash H code"
      "vf_storage_uri v = edge_sentinel_uri code"
    using 1(3) by (simp_all add: sentinel_at_Some [OF c1]) (use 1(2,3) in \<open>simp add: trace_of_def\<close>)
  have "table_get (videos (committed w1)) (row_id v) = Some v"
    using c1 v(1) by (intro table_get_in) (simp_all add: consistent_def db_wf_def)
  then obtain w2 where 2: "check_row H code (row_id v) w1 = (Inr (), w2)" "committed w2 = rewind (committed w1) (committed w1)"
    using v(2,3) 1(4) none by (simp add: check_row_def with_session_def repo_get_def next_txn_def bindM_run require_def)
  have "trace_of H code s d0 (committed w2)"
    unfolding 2(2) by (rule trace_rewind [OF 1(2)])
  then obtain v' new' w3 where 3: "answer 201 (batch_valid p) (ingest_edge_batch H p) w2 =
      (Inr (201, Some \<lparr>eo_video_file_id = row_id v', eo_events_created = length (eb_events p), eo_sentinel_created = new'\<rparr>), w3)"
    "trace_of H code s d0 (committed w3)" "sentinel_at H code (committed w3) = Some v'"
    "new' = (sentinel_at H code (committed w2) = None)"
    "case sentinel_at H code (committed w2) of None \<Rightarrow> vf_status v' = PROCESSING | Some v0 \<Rightarrow> row_id v' = row_id v0"
    by (rule answer_batch [OF _ u p gen])
  have "sentinel_at H code (committed w2) = Some v" using 1(3) by (simp add: 2(2) sentinel_at_def)
  then show ?thesis
    using 1(1) 2(1) 3(1,4,5) net by (simp add: smoke_batches_def post_batch_def over_network_def bindM_run raise_for_status_def
        success_code_def json_body_def require_def seqM_def)
qed

text \<open>
  C38: The release check of the edge endpoint, end to end: once its station is created over
  the API, the check leaves the rows of every table as they were, whatever becomes of its two
  batches on the network, and when they are answered every assertion holds and it returns 0.
\<close>

theorem smoke_check_leaves_no_trace:
  assumes "consistent (committed w)" and "untouched_by H (smoke_code digits) (committed w)"
    and "net 0 = Answered" and "net 1 = Answered"
  shows "\<exists>r w'. smoke_ingest H net None digits w = (r, w') \<and> consistent (committed w')
    \<and> all_rows (committed w') = all_rows (regenerate (committed w))
    \<and> (net 2 = Answered \<and> net 3 = Answered \<longrightarrow> r = Inr 0)"
proof -
  define code where "code = smoke_code digits"
  define d0 where "d0 = regenerate (committed w)"
  let ?t = "clock w (reads w)"
  define p where "p = \<lparr>eb_station_code = code, eb_started_at = Aware ?t 0,
      eb_ended_at = dt_add (Aware ?t 0) (timedelta_s 5), eb_events = [smoke_event]\<rparr>"
  define w0 where "w0 = w\<lparr>reads := Suc (reads w)\<rparr>"
  have w0: "committed w0 = committed w" by (simp add: w0_def)
  have u: "untouched_by H code (committed w0)" "untouched_by H code d0"
    using assms(2) by (simp_all add: code_def w0 d0_def untouched_by_def)
  note valid = smoke_valid [OF code_def]
  have p: "smoke_payload code p" unfolding p_def by (rule valid(2))
  have c0: "consistent d0" and gen: "regenerate d0 = d0"
    using assms(1) by (simp_all add: d0_def consistent_regenerate regenerate_idem)
  obtain s b w1 where 1: "answer 201 (station_create_valid (smoke_station code)) (create_station (smoke_station code)) w0
      = (Inr (201, Some b), w1)" "trace_of H code s (regenerate (committed w0)) (committed w1)"
    "sentinel_at H code (committed w1) = None"
    by (rule answer_create [OF _ u(1) valid(1)]) (use assms(1) w0 in simp)
  have t: "trace_of H code s d0 (committed w1)" using 1(2) by (simp add: w0 d0_def)
  obtain r w2 where 2: "smoke_batches H net code p w1 = (r, w2)" by fastforce
  have "trace_of H code s d0 (committed w2)" by (rule keeps_run [OF keeps_batches [OF u(2) p gen] t 2])
  then obtain w3 where 3: "smoke_cleanup code w2 = (Inr (), w3)" "consistent (committed w3)" "all_rows (committed w3) = all_rows d0"
    by (rule cleanup_run [OF _ u(2) c0 gen])
  have "batch_payload code w = (Inr p, w0)" by (simp add: batch_payload_def py_now_def p_def w0_def)
  moreover have "smoke_health (net 0) None w0 = (Inr True, w0)"
    using assms(3) by (simp add: smoke_health_def over_network_def health_def raise_for_status_def success_code_def tryM_def bindM_run)
  moreover have "finally_do (smoke_batches H net code p) (smoke_cleanup code) w1 = (r, w3)"
    by (simp add: finally_do_def 2 3(1))
  ultimately have run: "smoke_ingest H net None digits w = (case r of Inl e \<Rightarrow> (Inl e, w3) | Inr _ \<Rightarrow> (Inr 0, w3))"
    using 1(1) assms(4) unfolding smoke_ingest_def code_def [symmetric] Let_def
    by (simp add: bindM_run over_network_def raise_for_status_def success_code_def json_body_def seqM_def bindM_def split: sum.splits)
  have "r = Inr ()" if "net 2 = Answered" "net 3 = Answered"
    using batches_pass [OF t u(2) p gen 1(3) that] by (simp add: 2)
  then show ?thesis using run 3(2,3) by (cases r) (auto simp: d0_def)
qed

theorem smoke_check_leaves_no_trace_witness:
  "\<exists>w' w''. smoke_ingest plain_hasher (\<lambda>_. Answered) None ''0a1b2c3d4e'' (world_of (plant [])) = (Inr 0, w')
    \<and> all_rows (committed w') = all_rows (regenerate (plant []))
    \<and> (\<exists>r. smoke_ingest plain_hasher (\<lambda>n. if n = 3 then Unanswered (Exn HttpxErr ''timeout'') else Answered) None
          ''0a1b2c3d4e'' (world_of (plant [])) = (r, w''))
    \<and> all_rows (committed w'') = all_rows (regenerate (plant []))"
proof -
  have c: "consistent (committed (world_of (plant [])))" by (simp add: empty_plant_consistent)
  have "smoke_code ''0a1b2c3d4e'' = ''SMOKE_0A1B2C3D''" by code_simp
  then have u: "untouched_by plain_hasher (smoke_code ''0a1b2c3d4e'') (committed (world_of (plant [])))"
    by (simp add: untouched_by_def) (code_simp)
  from smoke_check_leaves_no_trace [OF c u, of "\<lambda>_. Answered"]
    smoke_check_leaves_no_trace [OF c u, of "\<lambda>n. if n = 3 then Unanswered (Exn HttpxErr ''timeout'') else Answered"]
  show ?thesis by (simp split del: if_split) (metis (no_types, lifting))
qed

end
