(* ===== verification/Ticks.thy ===== *)
theory Ticks
  imports HandlerProperties
begin

text \<open>
  Whole ticks of the retry scheduler: the stale pass and the retries of all failed videos. A retry touches
  no video but its own, so a tick with a worker that fails every video counts one retry for each FAILED
  video below the cap, and repeated ticks exhaust the retries of all of them.
\<close>

section \<open>The other videos\<close>

definition other_video :: "int \<Rightarrow> video_file \<Rightarrow> world \<Rightarrow> bool" where
  "other_video j u w \<longleftrightarrow> db_wf (working w) \<and> db_wf (committed w) \<and> video_is (working w) j u \<and> video_is (committed w) j u"

lemma keeps_flush_any: "keeps (other_video j u) flush"
  by (simp add: keeps_def flush_def)

lemma keeps_commit_other: "keeps (other_video j u) commit"
  by (simp add: keeps_def commit_def Let_def other_video_def db_wf_regenerate next_txn_def)

lemma keeps_rollback_other: "keeps (other_video j u) rollback"
  by (simp add: keeps_def rollback_def other_video_def next_txn_def db_wf_rewind)

lemma keeps_set_row_other:
  assumes "i \<noteq> j" and f: "\<And>v. row_id (f v) = row_id v"
  shows "keeps (other_video j u) (set_row VideoRepo i f)"
proof (rule keepsI)
  fix w :: world
  assume w: "other_video j u w"
  then have wf: "table_wf (videos (working w))" by (simp add: other_video_def db_wf_def)
  have "table_get (table_update (txn_now w) i f (videos (working w))) j = table_get (videos (working w)) j"
    using tab.lookup_change [OF wf, of f "txn_now w" i j] f assms(1) by simp
  moreover have "table_wf (table_update (txn_now w) i f (videos (working w)))"
    using tab.wf_change [OF wf] f by blast
  ultimately show "other_video j u (snd (set_row VideoRepo i f w))"
    using w by (simp add: set_row_def other_video_def video_is_def db_wf_def)
qed

lemma keeps_repo_update_other:
  "i \<noteq> j \<Longrightarrow> (\<And>v. row_id (f v) = row_id v) \<Longrightarrow> keeps (other_video j u) (repo_update VideoRepo i f)"
  by (auto simp: repo_update_def refresh_def repo_get_def intro!: keeps_intros keeps_set_row_other keeps_flush_any
      split: option.splits)

lemma keeps_update_by_id_other:
  "i \<noteq> j \<Longrightarrow> (\<And>v. row_id (f v) = row_id v) \<Longrightarrow> keeps (other_video j u) (repo_update_by_id VideoRepo i f)"
  by (auto simp: repo_update_by_id_def repo_get_def intro!: keeps_intros keeps_repo_update_other split: option.splits)

text \<open>What is read under an id has that id.\<close>

lemma keeps_get:
  assumes "keeps I (f None)" and "\<And>v. row_id v = i \<Longrightarrow> keeps I (f (Some v))"
  shows "keeps I (bindM (repo_get VideoRepo i) f)"
proof (rule keepsI)
  fix w assume w: "I w"
  show "I (snd (bindM (repo_get VideoRepo i) f w))"
  proof (cases "table_get (videos (working w)) i")
    case None
    then show ?thesis using keepsD [OF assms(1) w] by (simp add: repo_get_def bindM_run)
  next
    case (Some v)
    then have "row_id v = i" by (auto dest: table_get_Some)
    then show ?thesis using keepsD [OF assms(2) w] Some by (simp add: repo_get_def bindM_run)
  qed
qed

lemma keeps_move_file_other: "keeps (other_video j u) (move_file a b)"
  unfolding move_file_def by (rule keeps_modify) (simp add: other_video_def)

lemma keeps_except [keeps_intros]:
  "keeps I m \<Longrightarrow> (\<And>e. keeps I (h e)) \<Longrightarrow> keeps I (except_exception m h)"
  by (auto simp: except_exception_def intro!: keeps_intros)

lemma row_id_set_status [simp]: "row_id (set_status s m v) = row_id v"
  by (simp add: set_status_def split: option.split)

lemma keeps_status_other: "i \<noteq> j \<Longrightarrow> keeps (other_video j u) (update_status i s m)"
  unfolding update_status_def by (rule keeps_update_by_id_other) simp_all

lemma keeps_increment_other: "i \<noteq> j \<Longrightarrow> keeps (other_video j u) (increment_retry_count i)"
  unfolding increment_retry_count_def
  by (rule keeps_get) (auto intro!: keeps_intros keeps_repo_update_other split: option.split)

lemma keeps_fail_other: "i \<noteq> j \<Longrightarrow> keeps (other_video j u) (fail_video i is_retry exc)"
  by (auto simp: fail_video_def intro!: keeps_intros keeps_commit_other keeps_increment_other keeps_status_other)

lemma keeps_permanent_other: "i \<noteq> j \<Longrightarrow> keeps (other_video j u) (mark_permanently_failed folder i s)"
  unfolding mark_permanently_failed_def move_to_failed_def Let_def path_exists_def
  by (auto simp: set_if_def intro!: keeps_intros keeps_get keeps_repo_update_other keeps_move_file_other split: option.split)

lemma keeps_handle_failure_other: "tg_video_id t \<noteq> j \<Longrightarrow> keeps (other_video j u) (handle_retry_failure cfg t exc)"
  unfolding handle_retry_failure_def mark_unlimited_retry_def
  by (rule keeps_get) (auto intro!: keeps_intros keeps_update_by_id_other keeps_commit_other keeps_permanent_other)

lemma keeps_failing_other:
  assumes "i \<noteq> j" and "\<And>roi. worker uri roi = Inl exc"
  shows "keeps (other_video j u) (process_video_with_error_handling worker cfg env i uri is_retry)"
proof -
  have "recognize_video worker cfg env i uri st = raise exc" for st
    by (simp add: recognize_video_def run_video_in_process_pool_def bindM_def raise_def assms(2))
  then show ?thesis
    unfolding process_video_with_error_handling_def using assms(1)
    by (auto simp: find_station_def repo_get_def
        intro!: keeps_intros keeps_status_other keeps_commit_other keeps_rollback_other keeps_fail_other split: option.split)
qed

lemma single_frame:
  assumes ij: "tg_video_id t \<noteq> j" and bad: "\<And>roi. worker (tg_storage_uri t) roi = Inl exc"
    and run: "process_single worker vcfg env cfg t w = (r, w')" and c: "consistent (committed w)" and v: "video_is (committed w) j u"
  shows "video_is (committed w') j u"
proof -
  let ?m = "except_exception
        (process_video_with_error_handling worker vcfg env (tg_video_id t) (tg_storage_uri t) True)
        (\<lambda>exc. handle_retry_failure cfg t exc)"
  let ?w = "next_txn (w\<lparr>working := committed w\<rparr>)"
  obtain r1 w1 where 1: "?m ?w = (r1, w1)" by fastforce
  have "keeps (other_video j u) ?m"
    by (auto intro!: keeps_intros keeps_failing_other [where worker = worker and uri = "tg_storage_uri t", OF ij bad] keeps_handle_failure_other [OF ij])
  moreover have "other_video j u ?w" using c v by (simp add: other_video_def consistent_def)
  ultimately have "other_video j u w1" using keeps_run 1 by metis
  moreover have "committed w' = rewind (committed w1) (working w1)"
    using run with_session_run [where m = ?m and w = w, OF 1] by (auto simp: process_single_def)
  ultimately show ?thesis by (simp add: other_video_def)
qed

section \<open>A retry pass\<close>

text \<open>Status and number of retries of a stored video.\<close>

definition video_at :: "db \<Rightarrow> int \<Rightarrow> video_status \<Rightarrow> int \<Rightarrow> bool" where
  "video_at d i s n \<longleftrightarrow> (\<exists>v. table_get (videos d) i = Some v \<and> vf_status v = s \<and> vf_retry_count v = Some n)"

lemma video_at_is: "video_at d i s n \<longleftrightarrow> (\<exists>u. video_is d i u \<and> vf_status u = s \<and> vf_retry_count u = Some n)"
proof
  assume "video_at d i s n"
  then show "\<exists>u. video_is d i u \<and> vf_status u = s \<and> vf_retry_count u = Some n"
    by (auto simp: video_at_def video_is_def)
next
  assume "\<exists>u. video_is d i u \<and> vf_status u = s \<and> vf_retry_count u = Some n"
  then obtain u v where u: "table_get (videos d) i = Some v" "unstamp v = unstamp u" "vf_status u = s" "vf_retry_count u = Some n"
    by (auto simp: video_is_def)
  have "vf_status (unstamp v) = vf_status (unstamp u)" "vf_retry_count (unstamp v) = vf_retry_count (unstamp u)"
    by (simp_all only: u(2))
  then show "video_at d i s n" using u(1,3,4) by (simp add: video_at_def)
qed

lemma video_is_id: "video_is d i u \<Longrightarrow> row_id u = i"
  by (auto simp: video_is_def dest!: table_get_Some) (metis unstamp_sel(6))

text \<open>A worker that fails every video with an error that is counted.\<close>

definition counted :: "exn \<Rightarrow> bool" where
  "counted e \<longleftrightarrow> \<not> is_retriable_without_limit e \<and> exn_class e \<noteq> CancelledErr"

definition always_fails :: "worker \<Rightarrow> bool" where
  "always_fails worker \<longleftrightarrow> (\<forall>uri. \<exists>e. counted e \<and> (\<forall>roi. worker uri roi = Inl e))"

definition next_status :: "scheduler_settings \<Rightarrow> int \<Rightarrow> video_status" where
  "next_status cfg n = (if max_retry_attempts cfg \<le> n then INVALID else FAILED)"

lemma single_run:
  assumes bad: "always_fails worker" and c: "consistent (committed w)" and t: "\<not> tg_unlimited t"
    and at: "video_at (committed w) (tg_video_id t) s n"
  obtains w' where "process_single worker vcfg env cfg t w = (Inr (), w')" "consistent (committed w')"
    "video_at (committed w') (tg_video_id t) (next_status cfg (n + 1)) (n + 1)"
    "\<forall>j u. j \<noteq> tg_video_id t \<longrightarrow> video_is (committed w) j u \<longrightarrow> video_is (committed w') j u"
proof -
  obtain e where e: "counted e" "\<And>roi. worker (tg_storage_uri t) roi = Inl e"
    using bad unfolding always_fails_def by blast
  obtain u where u: "video_is (committed w) (tg_video_id t) u" "vf_retry_count u = Some n"
    using at by (auto simp: video_at_is)
  have ex: "\<not> is_retriable_without_limit e" "exn_class e \<noteq> CancelledErr" using e(1) by (simp_all add: counted_def)
  obtain w' there where w': "process_single worker vcfg env cfg t w = (Inr (), w')" "consistent (committed w')"
    "video_is (committed w') (tg_video_id t) (retried_row cfg there e u)"
    by (rule process_single_run [where worker = worker, OF c u(1) video_is_id [OF u(1)] t e(2) ex])
  have "vf_retry_count (retried_row cfg there e u) = Some (n + 1)"
    "vf_status (retried_row cfg there e u) = next_status cfg (n + 1)"
    using ex(1) u(2) by (simp_all add: retried_row_def Let_def permanent_row_def failed_row_def next_status_def)
  then have "video_at (committed w') (tg_video_id t) (next_status cfg (n + 1)) (n + 1)"
    using w'(3) unfolding video_at_is by blast
  moreover have "\<forall>j u. j \<noteq> tg_video_id t \<longrightarrow> video_is (committed w) j u \<longrightarrow> video_is (committed w') j u"
    using single_frame [where worker = worker, OF _ e(2) w'(1) c] by metis
  ultimately show ?thesis using that w'(1,2) by blast
qed

lemma all_retries_run:
  assumes bad: "always_fails worker"
  shows "consistent (committed w) \<Longrightarrow> distinct (map tg_video_id ts) \<Longrightarrow> \<forall>t \<in> set ts. \<not> tg_unlimited t
    \<Longrightarrow> \<forall>t \<in> set ts. \<exists>s n. video_at (committed w) (tg_video_id t) s n
    \<Longrightarrow> \<exists>w'. forM (\<lambda>t. swallow (process_single worker vcfg env cfg t)) ts w = (Inr (), w') \<and> consistent (committed w')
      \<and> (\<forall>i s n. i \<in> tg_video_id ` set ts \<longrightarrow> video_at (committed w) i s n \<longrightarrow>
           video_at (committed w') i (next_status cfg (n + 1)) (n + 1))
      \<and> (\<forall>i u. i \<notin> tg_video_id ` set ts \<longrightarrow> video_is (committed w) i u \<longrightarrow> video_is (committed w') i u)"
proof (induction ts arbitrary: w)
  case Nil
  then show ?case by simp
next
  case (Cons t ts)
  obtain s n where at: "video_at (committed w) (tg_video_id t) s n" using Cons.prems(4) by auto
  have lim: "\<not> tg_unlimited t" using Cons.prems(3) by simp
  obtain w1 where 1: "process_single worker vcfg env cfg t w = (Inr (), w1)" "consistent (committed w1)"
    "video_at (committed w1) (tg_video_id t) (next_status cfg (n + 1)) (n + 1)"
    "\<forall>j u. j \<noteq> tg_video_id t \<longrightarrow> video_is (committed w) j u \<longrightarrow> video_is (committed w1) j u"
    by (rule single_run [OF bad Cons.prems(1) lim at])
  have keep: "video_at (committed w1) j s n" if "j \<noteq> tg_video_id t" "video_at (committed w) j s n" for j s n
    using that 1(4) unfolding video_at_is by blast
  have out: "tg_video_id t \<notin> tg_video_id ` set ts" using Cons.prems(2) by simp
  have "\<forall>t' \<in> set ts. \<exists>s n. video_at (committed w1) (tg_video_id t') s n"
    using Cons.prems(4) keep out by (metis image_eqI list.set_intros(2))
  with Cons.IH [OF 1(2)] Cons.prems(2,3) obtain w2 where
    2: "forM (\<lambda>t. swallow (process_single worker vcfg env cfg t)) ts w1 = (Inr (), w2)" "consistent (committed w2)"
      "\<forall>i s n. i \<in> tg_video_id ` set ts \<longrightarrow> video_at (committed w1) i s n \<longrightarrow> video_at (committed w2) i (next_status cfg (n + 1)) (n + 1)"
      "\<forall>i u. i \<notin> tg_video_id ` set ts \<longrightarrow> video_is (committed w1) i u \<longrightarrow> video_is (committed w2) i u"
    by auto
  have own: "n' = n" if "video_at (committed w) (tg_video_id t) s' n'" for s' n'
    using that at by (auto simp: video_at_def)
  have "video_at (committed w2) (tg_video_id t) (next_status cfg (n + 1)) (n + 1)"
    using 1(3) 2(4) out unfolding video_at_is by blast
  then have "video_at (committed w2) i (next_status cfg (n' + 1)) (n' + 1)"
    if "i \<in> tg_video_id ` set (t # ts)" "video_at (committed w) i s' n'" for i s' n'
  proof (cases "i = tg_video_id t")
    case True
    then show ?thesis using that(2) own \<open>video_at (committed w2) (tg_video_id t) (next_status cfg (n + 1)) (n + 1)\<close> by blast
  next
    case False
    then have "i \<in> tg_video_id ` set ts" using that(1) by auto
    moreover have "video_at (committed w1) i s' n'" by (rule keep [OF False that(2)])
    ultimately show ?thesis using 2(3) by blast
  qed
  moreover have "video_is (committed w2) i u" if "i \<notin> tg_video_id ` set (t # ts)" "video_is (committed w) i u" for i u
    using that 1(4) 2(4) by simp
  moreover have "swallow (process_single worker vcfg env cfg t) w = (Inr (), w1)"
    using 1(1) by (simp add: swallow_def tryM_def)
  ultimately show ?case using 2(1,2) by (intro exI [of _ w2]) simp
qed

definition due :: "scheduler_settings \<Rightarrow> video_status \<Rightarrow> int \<Rightarrow> bool" where
  "due cfg s n \<longleftrightarrow> s = FAILED \<and> n < max_retry_attempts cfg"

lemma video_at_unique: "video_at d i s n \<Longrightarrow> video_at d i s' n' \<Longrightarrow> s' = s \<and> n' = n"
  by (auto simp: video_at_def)

lemma video_at_rewind [simp]: "video_at (rewind c d) i s n = video_at c i s n"
  by (simp add: video_at_is)

lemma pass_run:
  assumes bad: "always_fails worker" and c: "consistent (committed w)"
  obtains k w' where "process_failed_videos worker vcfg env cfg w = (Inr k, w')" "consistent (committed w')"
    "\<forall>i s n. video_at (committed w) i s n \<longrightarrow>
       (if due cfg s n then video_at (committed w') i (next_status cfg (n + 1)) (n + 1) else video_at (committed w') i s n)"
proof -
  let ?w = "next_txn (w\<lparr>working := committed w\<rparr>)"
  have "consistent (working ?w)" using c by simp
  from failed_targets_run [OF this, of cfg] obtain ts where ts: "failed_targets cfg ?w = (Inr ts, ?w)" "distinct (map tg_video_id ts)"
    "\<forall>i. i \<in> set (map tg_video_id ts) \<longleftrightarrow> (\<exists>v n. table_get (videos (committed w)) i = Some v \<and> vf_status v = FAILED
            \<and> vf_retry_count v = Some n \<and> n < max_retry_attempts cfg)"
    "\<forall>t \<in> set ts. \<not> tg_unlimited t"
    by auto
  have sel: "i \<in> tg_video_id ` set ts \<longleftrightarrow> (\<exists>n. video_at (committed w) i FAILED n \<and> n < max_retry_attempts cfg)" for i
    using ts(3) by (auto simp: video_at_def)
  define w1 where "w1 = ?w\<lparr>working := rewind (committed ?w) (working ?w), committed := rewind (committed ?w) (working ?w)\<rparr>"
  have sess: "with_session (except_exception (failed_targets cfg) (\<lambda>_. ret [])) w = (Inr ts, w1)"
    unfolding w1_def by (rule with_session_run) (simp add: except_exception_def tryM_def ts(1))
  have c1: "consistent (committed w1)" using c by (simp add: w1_def consistent_rewind)
  have at1: "video_at (committed w1) i s n = video_at (committed w) i s n" for i s n by (simp add: w1_def)
  have "\<forall>t \<in> set ts. \<exists>s n. video_at (committed w1) (tg_video_id t) s n"
    using sel at1 by (metis imageI)
  from all_retries_run [OF bad c1 ts(2,4) this, of vcfg env cfg] obtain w2 where
    2: "forM (\<lambda>t. swallow (process_single worker vcfg env cfg t)) ts w1 = (Inr (), w2)" "consistent (committed w2)"
      "\<forall>i s n. i \<in> tg_video_id ` set ts \<longrightarrow> video_at (committed w1) i s n \<longrightarrow> video_at (committed w2) i (next_status cfg (n + 1)) (n + 1)"
      "\<forall>i u. i \<notin> tg_video_id ` set ts \<longrightarrow> video_is (committed w1) i u \<longrightarrow> video_is (committed w2) i u"
    by blast
  have run: "process_failed_videos worker vcfg env cfg w = (Inr (length ts), w2)"
    using sess 2(1) by (cases "ts = []") (simp_all add: process_failed_videos_def bindM_run)
  have "if due cfg s n then video_at (committed w2) i (next_status cfg (n + 1)) (n + 1) else video_at (committed w2) i s n"
    if at: "video_at (committed w) i s n" for i s n
  proof (cases "due cfg s n")
    case True
    then have "i \<in> tg_video_id ` set ts" using at sel by (auto simp: due_def)
    then show ?thesis using 2(3) at at1 True by simp
  next
    case False
    then have "i \<notin> tg_video_id ` set ts" using video_at_unique [OF at] sel by (auto simp: due_def)
    then have "video_at (committed w2) i s n" using 2(4) at at1 unfolding video_at_is by blast
    then show ?thesis using False by simp
  qed
  then show ?thesis using that [OF run 2(2)] by blast
qed

section \<open>A tick\<close>

definition stale_at :: "scheduler_settings \<Rightarrow> world \<Rightarrow> int \<Rightarrow> bool" where
  "stale_at cfg w i \<longleftrightarrow> (\<exists>v. table_get (videos (committed w)) i = Some v
     \<and> is_stale cfg (clock w (reads w)) (clock w (Suc (reads w))) v)"

lemma tick_run:
  assumes bad: "always_fails worker" and c: "consistent (committed w)"
  obtains r w' where "tick worker vcfg env cfg w = (Inr r, w')" "consistent (committed w')"
    "\<forall>i s n. video_at (committed w) i s n \<longrightarrow>
       (let s1 = if stale_at cfg w i then FAILED else s
        in if due cfg s1 n then video_at (committed w') i (next_status cfg (n + 1)) (n + 1) else video_at (committed w') i s1 n)"
proof -
  let ?t1 = "clock w (reads w)" and ?t2 = "clock w (Suc (reads w))"
  define l where "l = stale_list cfg CREATED ?t1 (committed w) @ stale_list cfg PROCESSING ?t2 (committed w)"
  have wf: "table_wf (videos (committed w))" by (rule video_facts(1) [OF c])
  obtain w1 where 1: "mark_stale_videos cfg w = (Inr (length l), w1)" "consistent (committed w1)"
    "\<forall>v \<in> set l. video_is (committed w1) (row_id v) (stuck_row cfg v)"
    "\<forall>i u. i \<notin> row_id ` set l \<longrightarrow> video_is (committed w) i u \<longrightarrow> video_is (committed w1) i u"
    unfolding l_def by (rule mark_stale_run [OF c])
  have in_l: "v \<in> set l \<longleftrightarrow> v \<in> set (tbl_rows (videos (committed w))) \<and> is_stale cfg ?t1 ?t2 v" for v
    by (auto simp: l_def is_stale_def)
  have st: "stale_at cfg w i \<longleftrightarrow> i \<in> row_id ` set l" for i
  proof
    assume "stale_at cfg w i"
    then obtain v where v: "table_get (videos (committed w)) i = Some v" "is_stale cfg ?t1 ?t2 v" by (auto simp: stale_at_def)
    then have "v \<in> set l" "row_id v = i" unfolding in_l by (auto dest: table_get_Some)
    then show "i \<in> row_id ` set l" by blast
  next
    assume "i \<in> row_id ` set l"
    then obtain v where "v \<in> set l" "row_id v = i" by (elim imageE) simp
    then show "stale_at cfg w i" unfolding in_l stale_at_def using table_get_in [OF wf, of v] by auto
  qed
  have at1: "video_at (committed w1) i (if stale_at cfg w i then FAILED else s) n" if at: "video_at (committed w) i s n" for i s n
  proof (cases "stale_at cfg w i")
    case True
    then have "i \<in> row_id ` set l" by (simp only: st)
    then obtain v where v: "v \<in> set l" "row_id v = i" by (elim imageE) simp
    then have "table_get (videos (committed w)) i = Some v" using v(1) table_get_in [OF wf, of v] unfolding in_l by simp
    then have "vf_retry_count v = Some n" using at by (simp add: video_at_def)
    then have "vf_retry_count (stuck_row cfg v) = Some n" "vf_status (stuck_row cfg v) = FAILED"
      by (simp_all add: stuck_row_def)
    moreover have "video_is (committed w1) i (stuck_row cfg v)" using 1(3) v by blast
    ultimately have "video_at (committed w1) i FAILED n" unfolding video_at_is by blast
    then show ?thesis using True by simp
  next
    case False
    then have "video_at (committed w1) i s n" using at 1(4) st unfolding video_at_is by blast
    then show ?thesis using False by simp
  qed
  obtain k w2 where 2: "process_failed_videos worker vcfg env cfg w1 = (Inr k, w2)" "consistent (committed w2)"
    "\<forall>i s n. video_at (committed w1) i s n \<longrightarrow>
       (if due cfg s n then video_at (committed w2) i (next_status cfg (n + 1)) (n + 1) else video_at (committed w2) i s n)"
    by (rule pass_run [OF bad 1(2)])
  have "tick worker vcfg env cfg w = (Inr (length l, k), w2)"
    using 1(1) 2(1) by (simp add: tick_def bindM_run)
  moreover have "let s1 = if stale_at cfg w i then FAILED else s
        in if due cfg s1 n then video_at (committed w2) i (next_status cfg (n + 1)) (n + 1) else video_at (committed w2) i s1 n"
    if "video_at (committed w) i s n" for i s n
    using 2(3) at1 [OF that] unfolding Let_def by blast
  ultimately show ?thesis using that 2(2) by blast
qed

section \<open>The loop\<close>

text \<open>The first \<open>k\<close> turns of \<open>_run_loop\<close>.\<close>

fun scheduler_turns ::
  "worker \<Rightarrow> visit_settings \<Rightarrow> (world \<Rightarrow> world) \<Rightarrow> scheduler_settings \<Rightarrow> nat \<Rightarrow> bool io" where
  "scheduler_turns worker vcfg env cfg 0 = ret True"
| "scheduler_turns worker vcfg env cfg (Suc k) =
     bindM (run_loop_turn worker vcfg env cfg) (\<lambda>go. if go then scheduler_turns worker vcfg env cfg k else ret False)"

lemma ticked:
  assumes "let s1 = if stale then FAILED else FAILED
    in if due cfg s1 n then video_at d i (next_status cfg (n + 1)) (n + 1) else video_at d i s1 n"
    and "n < max_retry_attempts cfg"
  shows "video_at d i (next_status cfg (n + 1)) (n + 1)"
  using assms by (simp add: due_def)

text \<open>Only a video that waits or is being processed is ever stale.\<close>

lemma stale_status: "stale_at cfg w i \<Longrightarrow> video_at (committed w) i s n \<Longrightarrow> s = CREATED \<or> s = PROCESSING"
  by (auto simp: stale_at_def video_at_def is_stale_def)

text \<open>
  C3: The scheduler exhausts the retries: with a worker that fails every video with an error
  that counts, the first k turns of its loop all succeed and keep the database consistent,
  every video that is FAILED with n retries below the cap has min(n + k, cap) retries
  afterwards, is FAILED while that is below the cap and INVALID from the turn that reaches it,
  and INVALID videos stay as they are.
\<close>

theorem failing_videos_become_invalid:
  assumes "consistent (committed w)" and bad: "always_fails worker"
  shows "\<exists>w'. scheduler_turns worker vcfg env cfg k w = (Inr True, w') \<and> consistent (committed w')
    \<and> (\<forall>i n. video_at (committed w) i FAILED n \<and> n < max_retry_attempts cfg \<longrightarrow>
         video_at (committed w') i (if n + int k < max_retry_attempts cfg then FAILED else INVALID)
           (min (n + int k) (max_retry_attempts cfg)))
    \<and> (\<forall>i n. video_at (committed w) i INVALID n \<longrightarrow> video_at (committed w') i INVALID n)"
  using assms(1)
proof (induction k arbitrary: w)
  case 0
  then show ?case by (auto simp: min_def)
next
  case (Suc k)
  obtain r w1 where 1: "tick worker vcfg env cfg w = (Inr r, w1)" "consistent (committed w1)"
    "\<forall>i s n. video_at (committed w) i s n \<longrightarrow>
       (let s1 = if stale_at cfg w i then FAILED else s
        in if due cfg s1 n then video_at (committed w1) i (next_status cfg (n + 1)) (n + 1) else video_at (committed w1) i s1 n)"
    by (rule tick_run [OF bad Suc.prems])
  have inv: "video_at (committed w1) i INVALID n" if "video_at (committed w) i INVALID n" for i n
    using 1(3) that stale_status [of cfg w i INVALID n] by (fastforce simp: due_def)
  have fail: "video_at (committed w1) i (next_status cfg (n + 1)) (n + 1)"
    if "video_at (committed w) i FAILED n" "n < max_retry_attempts cfg" for i n
    using 1(3) that by (fastforce simp: due_def Let_def)
  from Suc.IH [OF 1(2)] obtain w2 where 2: "scheduler_turns worker vcfg env cfg k w1 = (Inr True, w2)" "consistent (committed w2)"
    "\<forall>i n. video_at (committed w1) i FAILED n \<and> n < max_retry_attempts cfg \<longrightarrow>
         video_at (committed w2) i (if n + int k < max_retry_attempts cfg then FAILED else INVALID)
           (min (n + int k) (max_retry_attempts cfg))"
    "\<forall>i n. video_at (committed w1) i INVALID n \<longrightarrow> video_at (committed w2) i INVALID n"
    by blast
  have turn: "run_loop_turn worker vcfg env cfg w = (Inr True, w1)"
    using 1(1) by (simp add: run_loop_turn_def tryM_def bindM_run)
  have "video_at (committed w2) i (if n + int (Suc k) < max_retry_attempts cfg then FAILED else INVALID)
      (min (n + int (Suc k)) (max_retry_attempts cfg))"
    if at: "video_at (committed w) i FAILED n" "n < max_retry_attempts cfg" for i n
  proof (cases "n + 1 < max_retry_attempts cfg")
    case True
    then have "video_at (committed w1) i FAILED (n + 1)" using fail [OF at] by (simp add: next_status_def)
    then show ?thesis using 2(3) True by (fastforce simp: algebra_simps)
  next
    case False
    then have "n + 1 = max_retry_attempts cfg" using at(2) by simp
    then show ?thesis using fail [OF at] 2(4) by (simp add: next_status_def)
  qed
  then show ?case using 2(1,2,4) inv turn by (intro exI [of _ w2]) (auto simp: bindM_run)
qed

theorem failing_videos_become_invalid_witness:
  "\<exists>w'. scheduler_turns (broken_worker (Exn RuntimeErr ''x'')) default_visit_settings id default_scheduler_settings 3 (world_of failed_plant)
      = (Inr True, w') \<and> video_at (committed w') 1 INVALID 3"
proof -
  have c: "consistent (committed (world_of failed_plant))" by code_simp
  have bad: "always_fails (broken_worker (Exn RuntimeErr ''x''))"
    by (simp add: always_fails_def broken_worker_def counted_def)
  have "video_at (committed (world_of failed_plant)) 1 FAILED 2"
    by (simp add: video_at_def failed_plant_def failed_vf_def vf1_def table_get_def)
  then show ?thesis
    using failing_videos_become_invalid [OF c bad, of default_visit_settings id default_scheduler_settings 3]
    by (fastforce simp: default_scheduler_settings_def)
qed

end
