(* ===== verification/SmokeScheduler.thy ===== *)
theory SmokeScheduler
  imports SmokeIngest Ticks
begin

text \<open>
  \<open>scripts/smoke_scheduler.py\<close>: the release check of the retry scheduler. It turns the newest video into a FAILED
  one and the one before it into a stale PROCESSING one, and ticks the scheduler over the admin endpoint
  until the first is INVALID or COMPLETED. \<open>mp4\<close> is what OpenCV writes for five black frames, \<open>net\<close> what becomes
  of the requests. The rows that the script only prints are not read here. The result: with a worker
  that fails every video the check passes exactly when the cap on retries is within its five ticks.
\<close>

section \<open>The script\<close>

definition max_ticks :: nat where
  "max_ticks = 5"

text \<open>\<open>UPDATE\<close> with a condition; \<open>NOW()\<close> is the start of the transaction, in a session whose time zone is UTC.\<close>

definition update_where :: "('a row) repo \<Rightarrow> ('a row \<Rightarrow> bool) \<Rightarrow> (datetime \<Rightarrow> 'a row \<Rightarrow> 'a row) \<Rightarrow> unit io" where
  "update_where R P f =
     seqM (modify (\<lambda>w. w\<lparr>working := rp_upd R (map_rows (\<lambda>r. if P r then f (txn_now w) r else r)) (working w)\<rparr>)) flush"

definition ensure_storage_file :: "string \<Rightarrow> string \<Rightarrow> unit io" where
  "ensure_storage_file mp4 name =
     (let path = path_join ''./data/videos'' name
      in bindM (gets (\<lambda>w. files w (path_str path))) (\<lambda>content. case content of
           Some (c # cs) \<Rightarrow> ret ()
         | _ \<Rightarrow> write_file path mp4))"

definition ensure_storage_files :: "string \<Rightarrow> unit io" where
  "ensure_storage_files mp4 = forM (ensure_storage_file mp4) [''scheduler_test.mp4'', ''stuck.mp4'']"

definition read_video_ids :: "int list io" where
  "read_video_ids = with_session (gets (\<lambda>w. take 3 (rev (sort (map row_id (repo_rows VideoRepo w))))))"

definition failed_reset :: "nat \<Rightarrow> datetime \<Rightarrow> video_file \<Rightarrow> video_file" where
  "failed_reset retry_count now v =
     v\<lparr>vf_status := FAILED, vf_retry_count := Some (int retry_count), vf_error_message := Some ''forced failure for smoke test'',
       vf_storage_uri := ''data/videos/scheduler_test.mp4'', updated_at := Some now\<rparr>"

definition reset_failed_video :: "int \<Rightarrow> nat \<Rightarrow> unit io" where
  "reset_failed_video video_id retry_count =
     engine_begin (update_where VideoRepo (\<lambda>v. row_id v = video_id) (failed_reset retry_count))"

definition stale_reset :: "datetime \<Rightarrow> video_file \<Rightarrow> video_file" where
  "stale_reset now v =
     v\<lparr>vf_status := PROCESSING, updated_at := Some (dt_add now (- timedelta_s (60 * 60))), vf_error_message := Some ''stuck'',
       vf_storage_uri := ''data/videos/stuck.mp4''\<rparr>"

definition reset_stale_processing :: "int \<Rightarrow> unit io" where
  "reset_stale_processing video_id = engine_begin (update_where VideoRepo (\<lambda>v. row_id v = video_id) stale_reset)"

definition read_row :: "int \<Rightarrow> video_file option io" where
  "read_row video_id = with_session (repo_get VideoRepo video_id)"

text \<open>Indexing the \<open>None\<close> of a missing row raises.\<close>

definition row_status :: "video_file option \<Rightarrow> video_status io" where
  "row_status row = (case row of None \<Rightarrow> raise (Exn TypeErr ''NoneType object is not subscriptable'') | Some v \<Rightarrow> ret (vf_status v))"

definition trigger_tick ::
  "worker \<Rightarrow> visit_settings \<Rightarrow> (world \<Rightarrow> world) \<Rightarrow> scheduler_settings \<Rightarrow> fate \<Rightarrow> (string \<times> json) list io" where
  "trigger_tick worker vcfg env cfg f =
     bindM (over_network f (tryM (bindM (tick_now worker vcfg env cfg) (\<lambda>b. ret (200, Some b))) (\<lambda>_. ret (500, None))))
       (\<lambda>response. bindM (raise_for_status response) json_body)"

fun smoke_ticks ::
  "worker \<Rightarrow> visit_settings \<Rightarrow> (world \<Rightarrow> world) \<Rightarrow> scheduler_settings \<Rightarrow> (nat \<Rightarrow> fate) \<Rightarrow> int \<Rightarrow> int \<Rightarrow> nat \<Rightarrow> nat \<Rightarrow> bool
    \<Rightarrow> bool io" where
  "smoke_ticks worker vcfg env cfg net failed stuck 0 i passed = ret False"
| "smoke_ticks worker vcfg env cfg net failed stuck (Suc k) i passed =
     bindM (trigger_tick worker vcfg env cfg (net i)) (\<lambda>_.
     bindM (read_row failed) (\<lambda>f. bindM (read_row stuck) (\<lambda>s.
     bindM (row_status f) (\<lambda>fs. bindM (row_status s) (\<lambda>ss.
       let passed' = (if ss = PROCESSING \<and> i = 0 then False else passed)
       in if fs = INVALID \<or> fs = COMPLETED then ret passed'
          else smoke_ticks worker vcfg env cfg net failed stuck k (Suc i) passed')))))"

definition smoke_scheduler ::
  "worker \<Rightarrow> visit_settings \<Rightarrow> (world \<Rightarrow> world) \<Rightarrow> scheduler_settings \<Rightarrow> (nat \<Rightarrow> fate) \<Rightarrow> string \<Rightarrow> int io" where
  "smoke_scheduler worker vcfg env cfg net mp4 =
     seqM (ensure_storage_files mp4)
     (bindM read_video_ids (\<lambda>ids.
        if length ids < 2 then ret 1
        else let failed_id = ids ! 0; stuck_id = ids ! 1
          in seqM (reset_failed_video failed_id 0) (seqM (reset_stale_processing stuck_id)
             (bindM (smoke_ticks worker vcfg env cfg net failed_id stuck_id max_ticks 0 True) (\<lambda>passed.
              bindM (read_row failed_id) (\<lambda>_. bindM (read_row stuck_id) (\<lambda>s. bindM (row_status s) (\<lambda>_.
                ret (if passed then 0 else 1)))))))))"

section \<open>What the resets do\<close>

definition on_time :: "(nat \<Rightarrow> int) \<Rightarrow> nat \<Rightarrow> world \<Rightarrow> bool" where
  "on_time c n w \<longleftrightarrow> clock w = c \<and> reads w = n"

lemma keeps_time_session: "keeps (on_time c n) m \<Longrightarrow> keeps (on_time c n) (with_session m)"
proof (rule keepsI)
  fix w :: world assume m: "keeps (on_time c n) m" and w: "on_time c n w"
  obtain r w1 where 1: "m (next_txn (w\<lparr>working := committed w\<rparr>)) = (r, w1)" by fastforce
  have "on_time c n (next_txn (w\<lparr>working := committed w\<rparr>))" using w by (simp add: on_time_def next_txn_def)
  then have "on_time c n w1" by (rule keeps_run [OF m _ 1])
  then show "on_time c n (snd (with_session m w))" by (simp add: with_session_def 1 on_time_def)
qed

lemma keeps_time_begin: "keeps (on_time c n) m \<Longrightarrow> keeps (on_time c n) (engine_begin m)"
  unfolding engine_begin_def
  by (auto intro!: keeps_time_session keeps_intros) (auto simp: keeps_def commit_def rollback_def on_time_def next_txn_def Let_def)

lemma keeps_time_update: "keeps (on_time c n) (update_where R P f)"
  by (auto simp: update_where_def keeps_def seqM_def bindM_def flush_def on_time_def)

lemma table_get_map:
  "(\<And>r. row_id (g r) = row_id r) \<Longrightarrow> table_get (map_rows g t) i = map_option g (table_get t i)"
proof -
  assume g: "\<And>r. row_id (g r) = row_id r"
  have "find (\<lambda>r. row_id r = i) (map g xs) = map_option g (find (\<lambda>r. row_id r = i) xs)" for xs
    using g by (induction xs) auto
  then show ?thesis by (simp add: table_get_def map_rows_def)
qed

definition same_video :: "(video_file \<Rightarrow> video_file) \<Rightarrow> bool" where
  "same_video g \<longleftrightarrow> (\<forall>v. row_id (g v) = row_id v \<and> vf_content_hash (g v) = vf_content_hash v \<and> vf_station_id (g v) = vf_station_id v
     \<and> (video_row_ok v \<longrightarrow> video_row_ok (g v)))"

lemma consistent_map_videos:
  assumes c: "consistent d" and g: "same_video g"
  shows "consistent (videos_update (map_rows g) d)"
proof -
  have id: "\<And>v. row_id (g v) = row_id v" using g by (simp add: same_video_def)
  have "fk (map_rows g (videos d)) = fk (videos d)" by (simp add: fk_def table_ids_map_rows [OF id] fun_eq_iff)
  moreover have "vf_content_hash \<circ> g = vf_content_hash"
    using g by (simp add: same_video_def fun_eq_iff)
  ultimately show ?thesis
    using c g table_wf_map_rows [OF id, of "videos d"]
    by (auto simp: consistent_def db_wf_def db_ok_def stations_ok_def tractors_ok_def videos_ok_def events_ok_def visits_ok_def
        visit_fks_def list_all_iff map_rows_def same_video_def)
qed

lemma reset_run:
  assumes c: "consistent (committed w)" and f: "\<And>now. same_video (f now)"
  obtains w' where "engine_begin (update_where VideoRepo (\<lambda>v. row_id v = i) f) w = (Inr (), w')" "consistent (committed w')"
    "clock w' = clock w" "reads w' = reads w"
    "\<forall>j. table_get (videos (committed w')) j = (if j = i then map_option (f (Naive (clock w (reads w)))) (table_get (videos (committed w)) i)
        else table_get (videos (committed w)) j)"
proof -
  let ?m = "update_where VideoRepo (\<lambda>v. row_id v = i) f"
  let ?g = "\<lambda>v. if row_id v = i then f (txn_now (opened w)) v else v"
  let ?d = "videos_update (map_rows ?g) (committed w)"
  have g: "same_video ?g" using f by (simp add: same_video_def)
  have c': "consistent ?d" by (rule consistent_map_videos [OF c g])
  then have run: "?m (opened w) = (Inr (), (opened w)\<lparr>working := ?d\<rparr>)"
    by (simp add: update_where_def seqM_def bindM_run flush_def consistent_def)
  obtain w' where w': "engine_begin ?m w = (Inr (), w')" "consistent (committed w')" "same_rows (regenerate ?d) (committed w')"
    by (rule engine_begin_run [where m = ?m and w = w, OF run]) (use c' in simp_all)
  have "on_time (clock w) (reads w) w'"
    using keeps_run [OF keeps_time_begin [OF keeps_time_update] _ w'(1)] by (simp add: on_time_def)
  moreover have "table_get (videos (committed w')) j = (if j = i then map_option (f (Naive (clock w (reads w)))) (table_get (videos (committed w)) i)
        else table_get (videos (committed w)) j)" for j
  proof -
    have "table_get (videos (committed w')) j = table_get (map_rows ?g (videos (committed w))) j"
      using w'(3) by (simp add: same_rows_def table_get_def)
    also have "\<dots> = map_option ?g (table_get (videos (committed w)) j)"
      by (rule table_get_map) (use g in \<open>simp add: same_video_def\<close>)
    also have "\<dots> = (if j = i then map_option (f (Naive (clock w (reads w)))) (table_get (videos (committed w)) i)
        else table_get (videos (committed w)) j)"
    proof (cases "table_get (videos (committed w)) j")
      case (Some a)
      then have "row_id a = j" by (auto dest: table_get_Some)
      then show ?thesis using Some by (auto simp: opened_def next_txn_def)
    qed auto
    finally show ?thesis .
  qed
  ultimately show ?thesis using that w'(1,2) by (simp add: on_time_def)
qed

lemma same_failed: "same_video (failed_reset n now)"
  by (simp add: same_video_def failed_reset_def video_checks)

lemma same_stale: "same_video (stale_reset now)"
  by (simp add: same_video_def stale_reset_def video_checks)

section \<open>The verdict\<close>

lemma read_row_run:
  "\<exists>w'. read_row i w = (Inr (table_get (videos (committed w)) i), w') \<and> committed w' = rewind (committed w) (committed w)"
  unfolding read_row_def by (rule look_run)

lemma trigger_run:
  assumes "tick worker vcfg env cfg w = (Inr r, w')"
  shows "\<exists>b. trigger_tick worker vcfg env cfg Answered w = (Inr b, w')"
  using assms by (cases r) (simp add: trigger_tick_def over_network_def tick_now_def tryM_def bindM_run raise_for_status_def
      success_code_def json_body_def)

text \<open>One turn of the loop, when both rows are there after the tick.\<close>

lemma smoke_turn:
  assumes "tick worker vcfg env cfg w = (Inr r, w1)" and "consistent (committed w1)"
    and "video_at (committed w1) failed fs m" and "video_at (committed w1) stuck ss n"
    and "net i = Answered"
  shows "\<exists>w'. smoke_ticks worker vcfg env cfg net failed stuck (Suc k) i passed w =
      (let passed' = (if ss = PROCESSING \<and> i = 0 then False else passed)
       in if fs = INVALID \<or> fs = COMPLETED then (Inr passed', w') else smoke_ticks worker vcfg env cfg net failed stuck k (Suc i) passed' w')
    \<and> consistent (committed w') \<and> (\<forall>j s n. video_at (committed w') j s n = video_at (committed w1) j s n)"
proof -
  obtain v1 v2 where v: "table_get (videos (committed w1)) failed = Some v1" "vf_status v1 = fs"
    "table_get (videos (committed w1)) stuck = Some v2" "vf_status v2 = ss"
    using assms(3,4) by (auto simp: video_at_def)
  obtain w2 where 2: "read_row failed w1 = (Inr (Some v1), w2)" "committed w2 = rewind (committed w1) (committed w1)"
    using read_row_run [of failed w1] v(1) by auto
  have "table_get (videos (committed w2)) stuck = Some v2" using v(3) by (simp add: 2(2) table_get_def)
  then obtain w3 where 3: "read_row stuck w2 = (Inr (Some v2), w3)" "committed w3 = rewind (committed w2) (committed w2)"
    using read_row_run [of stuck w2] by auto
  obtain b where "trigger_tick worker vcfg env cfg (net i) w = (Inr b, w1)"
    using trigger_run [OF assms(1)] assms(5) by auto
  then show ?thesis
    using 2 3 v(2,4) assms(2)
    by (intro exI [of _ w3]) (simp add: bindM_run row_status_def consistent_rewind)
qed

lemma smoke_ticks_run:
  assumes bad: "always_fails worker" and net: "\<And>i. net i = Answered"
  shows "consistent (committed w) \<Longrightarrow> video_at (committed w) failed FAILED (int i) \<Longrightarrow> int i < max_retry_attempts cfg
    \<Longrightarrow> video_at (committed w) stuck s n \<Longrightarrow> 0 < i \<or> stale_at cfg w stuck
    \<Longrightarrow> \<exists>w' s n. smoke_ticks worker vcfg env cfg net failed stuck k i passed w =
          (Inr (passed \<and> max_retry_attempts cfg \<le> int i + int k), w')
        \<and> video_at (committed w') stuck s n"
proof (induction k arbitrary: w i s n passed)
  case 0
  then show ?case by auto
next
  case (Suc k)
  obtain r w1 where 1: "tick worker vcfg env cfg w = (Inr r, w1)" "consistent (committed w1)"
    "\<forall>i s n. video_at (committed w) i s n \<longrightarrow>
       (let s1 = if stale_at cfg w i then FAILED else s
        in if due cfg s1 n then video_at (committed w1) i (next_status cfg (n + 1)) (n + 1) else video_at (committed w1) i s1 n)"
    by (rule tick_run [OF bad Suc.prems(1)])
  have failed: "video_at (committed w1) failed (next_status cfg (int i + 1)) (int i + 1)"
    using 1(3) [rule_format, OF Suc.prems(2)] Suc.prems(3) by (simp add: due_def)
  obtain ss m where stuck: "video_at (committed w1) stuck ss m" "0 < i \<or> ss \<noteq> PROCESSING"
  proof (cases "due cfg (if stale_at cfg w stuck then FAILED else s) n")
    case True
    then have "video_at (committed w1) stuck (next_status cfg (n + 1)) (n + 1)"
      using 1(3) [rule_format, OF Suc.prems(4)] by (simp only: Let_def if_True)
    then show ?thesis by (rule that) (simp add: next_status_def)
  next
    case False
    then have "video_at (committed w1) stuck (if stale_at cfg w stuck then FAILED else s) n"
      using 1(3) [rule_format, OF Suc.prems(4)] by (simp only: Let_def if_False)
    then show ?thesis by (rule that) (use Suc.prems(5) in auto)
  qed
  obtain w2 where 2: "smoke_ticks worker vcfg env cfg net failed stuck (Suc k) i passed w =
      (let passed' = (if ss = PROCESSING \<and> i = 0 then False else passed)
       in if next_status cfg (int i + 1) = INVALID \<or> next_status cfg (int i + 1) = COMPLETED then (Inr passed', w2)
          else smoke_ticks worker vcfg env cfg net failed stuck k (Suc i) passed' w2)"
    "consistent (committed w2)" "\<forall>j s n. video_at (committed w2) j s n = video_at (committed w1) j s n"
    using smoke_turn [where net = net and i = i, OF 1(1,2) failed stuck(1) net] by blast
  have pass: "(if ss = PROCESSING \<and> i = 0 then False else passed) = passed" using stuck(2) by auto
  show ?case
  proof (cases "max_retry_attempts cfg \<le> int i + 1")
    case True
    then show ?thesis using 2(1,3) stuck(1) unfolding pass by (intro exI [of _ w2] exI [of _ ss] exI [of _ m]) (simp add: next_status_def)
  next
    case False
    have "video_at (committed w2) failed FAILED (int (Suc i))" "int (Suc i) < max_retry_attempts cfg" "video_at (committed w2) stuck ss m"
      using 2(3) failed stuck(1) False by (simp_all add: next_status_def add.commute)
    from Suc.IH [OF 2(2) this, of passed] show ?thesis
      using 2(1) False unfolding pass by (simp add: next_status_def algebra_simps)
  qed
qed

lemma ensure_run:
  "\<exists>w'. ensure_storage_files mp4 w = (Inr (), w') \<and> committed w' = committed w \<and> clock w' = clock w \<and> reads w' = reads w"
proof -
  have one: "\<exists>w'. ensure_storage_file mp4 name w = (Inr (), w') \<and> committed w' = committed w \<and> clock w' = clock w \<and> reads w' = reads w"
    for name w
    by (auto simp: ensure_storage_file_def Let_def bindM_run write_file_def split: option.splits list.splits)
  obtain w1 where "ensure_storage_file mp4 ''scheduler_test.mp4'' w = (Inr (), w1)" "committed w1 = committed w"
    "clock w1 = clock w" "reads w1 = reads w" using one by blast
  moreover obtain w2 where "ensure_storage_file mp4 ''stuck.mp4'' w1 = (Inr (), w2)" "committed w2 = committed w1"
    "clock w2 = clock w1" "reads w2 = reads w1" using one by blast
  ultimately show ?thesis by (simp add: ensure_storage_files_def seqM_def bindM_def)
qed

lemma read_ids_run:
  "\<exists>w'. read_video_ids w = (Inr (take 3 (rev (sort (table_ids (videos (committed w)))))), w')
    \<and> committed w' = rewind (committed w) (committed w) \<and> clock w' = clock w \<and> reads w' = reads w"
  by (simp add: read_video_ids_def with_session_def next_txn_def repo_rows_def table_ids_def)

lemma first_two:
  assumes "distinct xs" and "2 \<le> length xs"
  obtains a b rest where "take 3 (rev (sort xs)) = a # b # rest" "a \<in> set xs" "b \<in> set xs" "a \<noteq> (b :: int)"
proof -
  obtain a b ys where ys: "rev (sort xs) = a # b # ys"
    using assms(2) by (metis Suc_le_length_iff length_rev length_sort numeral_2_eq_2)
  have "set (rev (sort xs)) = set xs" "distinct (rev (sort xs))" using assms(1) by simp_all
  then show ?thesis using that [of a b "take 1 ys"] ys by (auto simp: numeral_3_eq_3)
qed

text \<open>The check passes when the cap on retries is within the five ticks, and warns when it is not.\<close>

lemma smoke_scheduler_verdict:
  assumes c: "consistent (committed w)" and bad: "always_fails worker" and net: "\<And>i. net i = Answered"
    and two: "2 \<le> length (tbl_rows (videos (committed w)))" and cap: "1 \<le> max_retry_attempts cfg"
    and stale: "timedelta_s (stale_threshold_minutes cfg * 60) < timedelta_s 3600" and mono: "mono (clock w)"
  shows "\<exists>w'. smoke_scheduler worker vcfg env cfg net mp4 w = (Inr (if max_retry_attempts cfg \<le> 5 then 0 else 1), w')"
proof -
  obtain w1 where 1: "ensure_storage_files mp4 w = (Inr (), w1)" "committed w1 = committed w" "clock w1 = clock w" "reads w1 = reads w"
    using ensure_run by blast
  let ?ids = "table_ids (videos (committed w))"
  have "distinct ?ids" "2 \<le> length ?ids"
    using c two by (simp_all add: consistent_def db_wf_def table_wf_def) (simp add: table_ids_def)
  then obtain a b rest where ids: "take 3 (rev (sort ?ids)) = a # b # rest" "a \<in> set ?ids" "b \<in> set ?ids" "a \<noteq> b"
    by (rule first_two)
  obtain w2 where 2: "read_video_ids w1 = (Inr (a # b # rest), w2)" "committed w2 = rewind (committed w1) (committed w1)"
    "clock w2 = clock w" "reads w2 = reads w"
    using read_ids_run [of w1] 1 ids(1) by auto
  have c2: "consistent (committed w2)" using c by (simp add: 2(2) 1(2) consistent_rewind)
  have get2: "table_get (videos (committed w2)) j = table_get (videos (committed w)) j" for j
    by (simp add: 2(2) 1(2) table_get_def)
  obtain w3 where 3: "reset_failed_video a 0 w2 = (Inr (), w3)" "consistent (committed w3)" "clock w3 = clock w2" "reads w3 = reads w2"
    "\<forall>j. table_get (videos (committed w3)) j = (if j = a then map_option (failed_reset 0 (Naive (clock w2 (reads w2))))
       (table_get (videos (committed w2)) a) else table_get (videos (committed w2)) j)"
    unfolding reset_failed_video_def by (rule reset_run [where i = a and f = "failed_reset 0", OF c2 same_failed])
  obtain w4 where 4: "reset_stale_processing b w3 = (Inr (), w4)" "consistent (committed w4)" "clock w4 = clock w3" "reads w4 = reads w3"
    "\<forall>j. table_get (videos (committed w4)) j = (if j = b then map_option (stale_reset (Naive (clock w3 (reads w3))))
       (table_get (videos (committed w3)) b) else table_get (videos (committed w3)) j)"
    unfolding reset_stale_processing_def by (rule reset_run [where i = b and f = stale_reset, OF 3(2) same_stale])
  have there: "\<exists>v. table_get (videos (committed w)) i = Some v" if "i \<in> set ?ids" for i
    using that table_get_None [of "videos (committed w)" i] by auto
  obtain va vb where v: "table_get (videos (committed w)) a = Some va" "table_get (videos (committed w)) b = Some vb"
    using there ids(2,3) by blast
  have failed: "video_at (committed w4) a FAILED (int 0)"
    using ids(4) v(1) by (simp add: video_at_def 4(5) 3(5) get2 failed_reset_def)
  have "vb \<in> set (tbl_rows (videos (committed w)))" using v(2) by (auto dest: table_get_Some)
  then obtain n where n: "vf_retry_count vb = Some n"
    using video_facts(3) [OF c] by (auto simp: video_row_ok_def)
  have row: "table_get (videos (committed w4)) b = Some (stale_reset (Naive (clock w (reads w))) vb)"
    using ids(4) v(2) 2(3,4) 3(3,4) by (simp add: 4(5) 3(5) get2)
  then have stuck: "video_at (committed w4) b PROCESSING n" using n by (simp add: video_at_def stale_reset_def)
  have "clock w (reads w) \<le> clock w (Suc (reads w))" using mono by (simp add: mono_def)
  then have "is_stale cfg (clock w (reads w)) (clock w (Suc (reads w))) (stale_reset (Naive (clock w (reads w))) vb)"
    using stale by (simp add: is_stale_def stale_reset_def updated_before_def cutoff_def)
  moreover have "clock w4 = clock w" "reads w4 = reads w" using 2(3,4) 3(3,4) 4(3,4) by simp_all
  ultimately have "stale_at cfg w4 b" unfolding stale_at_def using row by auto
  then obtain w5 s m where 5: "smoke_ticks worker vcfg env cfg net a b max_ticks 0 True w4 =
      (Inr (max_retry_attempts cfg \<le> 5), w5)" "video_at (committed w5) b s m"
    using smoke_ticks_run [where net = net and cfg = cfg and k = max_ticks and passed = True and vcfg = vcfg and env = env,
        OF bad net 4(2) failed _ stuck] cap by (auto simp: max_ticks_def)
  obtain w6 x where 6: "read_row a w5 = (Inr x, w6)" "committed w6 = rewind (committed w5) (committed w5)"
    using read_row_run [of a w5] by auto
  obtain v7 where "table_get (videos (committed w6)) b = Some v7" using 5(2) by (auto simp: video_at_def 6(2) table_get_def)
  then obtain w7 where 7: "read_row b w6 = (Inr (Some v7), w7)"
    using read_row_run [of b w6] by auto
  have "row_status (Some v7) w7 = (Inr (vf_status v7), w7)" by (simp add: row_status_def)
  then show ?thesis
    using 1(1) 2(1) 3(1) 4(1) 5(1) 6(1) 7 by (simp add: smoke_scheduler_def bindM_run)
qed

end
