(* ===== verification/TestVideo.thy ===== *)
theory TestVideo
  imports ExecutorProperties Paths
begin

text \<open>
  The synthetic videos: \<open>scripts/generate_test_video.py\<close> and \<open>scripts/benchmark_executor.py\<close>. A frame is the list of
  what is drawn onto its noise, in order; NumPy refuses to paste a marker into a slice of another size.
  \<open>wave i n\<close> is \<open>sin (2 * pi * i / n)\<close>, of which only the bounds are used; \<open>marker\<close> is what \<open>generateImageMarker\<close> returns
  or raises for an id. The lemmas say when the markers fit, where they are relative to the region of interest,
  and that the two phases of the benchmark count the same.
\<close>

section \<open>Numbers and lists in arguments\<close>

text \<open>\<open>int(x)\<close> of a float cuts towards zero.\<close>

definition int_of_float :: "rat \<Rightarrow> int" where
  "int_of_float r = (if 0 \<le> r then \<lfloor>r\<rfloor> else \<lceil>r\<rceil>)"

lemma int_of_float_bounds: "\<bar>r\<bar> \<le> of_int n \<Longrightarrow> \<bar>int_of_float r\<bar> \<le> n"
proof -
  assume r: "\<bar>r\<bar> \<le> of_int n"
  show ?thesis
  proof (cases "0 \<le> r")
    case True
    then have "\<lfloor>r\<rfloor> \<le> n" using r by (simp add: floor_le_iff)
    then show ?thesis using True by (simp add: int_of_float_def)
  next
    case False
    then have "- n \<le> \<lceil>r\<rceil>" using r by (simp add: le_ceiling_iff)
    then show ?thesis using False by (simp add: int_of_float_def)
  qed
qed

definition is_space :: "char \<Rightarrow> bool" where
  "is_space c \<longleftrightarrow> (let n = of_char c :: nat in n = 32 \<or> 9 \<le> n \<and> n \<le> 13 \<or> 28 \<le> n \<and> n \<le> 31)"

definition py_strip :: "string \<Rightarrow> string" where
  "py_strip s = rev (dropWhile is_space (rev (dropWhile is_space s)))"

text \<open>The digits of \<open>int(s)\<close>: groups separated by single underscores.\<close>

definition digit_groups :: "string \<Rightarrow> int option" where
  "digit_groups s = (let groups = split_on CHR ''_'' s
     in if [] \<in> set groups then None else number_value (concat groups) 0)"

definition py_int :: "string \<Rightarrow> exn + int" where
  "py_int s =
     (let t = py_strip s;
          value = (case t of
              CHR ''-'' # u \<Rightarrow> map_option uminus (digit_groups u)
            | CHR ''+'' # u \<Rightarrow> digit_groups u
            | _ \<Rightarrow> digit_groups t)
      in case value of None \<Rightarrow> Inl (Exn ValueErr ''invalid literal for int() with base 10'') | Some n \<Rightarrow> Inr n)"

text \<open>A list comprehension stops at the first error.\<close>

fun collect :: "('a \<Rightarrow> exn + 'b) \<Rightarrow> 'a list \<Rightarrow> exn + 'b list" where
  "collect f [] = Inr []"
| "collect f (x # xs) = (case f x of Inl e \<Rightarrow> Inl e | Inr y \<Rightarrow>
     (case collect f xs of Inl e \<Rightarrow> Inl e | Inr ys \<Rightarrow> Inr (y # ys)))"

lemma collect_Inr: "collect f xs = Inr ys \<longleftrightarrow> map f xs = map Inr ys"
proof (induction xs arbitrary: ys)
  case (Cons x xs)
  show ?case
  proof (cases "f x")
    case (Inr y)
    have "collect f (x # xs) = Inr ys \<longleftrightarrow> (\<exists>zs. collect f xs = Inr zs \<and> ys = y # zs)"
      by (cases "collect f xs") (auto simp: Inr)
    then show ?thesis by (simp add: Cons.IH Inr Cons_eq_map_conv) metis
  qed (auto simp: Cons_eq_map_conv)
qed auto

lemma collect_all: "(\<And>x. x \<in> set xs \<Longrightarrow> \<exists>y. f x = Inr y) \<Longrightarrow> \<exists>ys. collect f xs = Inr ys"
proof (induction xs)
  case (Cons x xs)
  obtain y where "f x = Inr y" using Cons.prems [of x] by auto
  moreover obtain ys where "collect f xs = Inr ys" using Cons.IH Cons.prems by auto
  ultimately show ?case by simp
qed simp

lemma map_sum_Inr_iff: "map_sum f g x = Inr y \<longleftrightarrow> (\<exists>z. x = Inr z \<and> y = g z)"
  by (cases x) auto

lemma collect_length: "collect f xs = Inr ys \<Longrightarrow> length ys = length xs"
  unfolding collect_Inr by (metis length_map)

definition resolve_ids :: "string option \<Rightarrow> int option \<Rightarrow> exn + int list" where
  "resolve_ids aruco_ids aruco_id =
     (case aruco_ids of
        Some (c # cs) \<Rightarrow> collect py_int (filter (\<lambda>x. py_strip x \<noteq> []) (split_on CHR '','' (c # cs)))
      | _ \<Rightarrow> (case aruco_id of Some i \<Rightarrow> Inr [i] | None \<Rightarrow> Inr [1]))"

lemma resolve_examples:
  "resolve_ids (Some ''1, 11,12,'') (Some 5) = Inr [1, 11, 12]" "resolve_ids (Some [CHR '','']) None = Inr []"
  "resolve_ids (Some []) (Some 5) = Inr [5]" "resolve_ids None None = Inr [1]" 
  "resolve_ids (Some ''1;2'') None = Inl (Exn ValueErr ''invalid literal for int() with base 10'')"
  by code_simp+

section \<open>Frames\<close>

datatype draw = Paste nat int int int | Rectangle int int int int

definition default_roi :: "int \<Rightarrow> int \<Rightarrow> int \<times> int \<times> int \<times> int" where
  "default_roi width height = (width div 4, height div 4, width div 2, height div 2)"

text \<open>
  \<open>frame[y : y + size, x : x + size] = marker\<close>: the slice must have the marker's shape. A slice that starts
  below zero starts at the other end of the frame and is too short or empty.
\<close>

definition paste :: "int \<Rightarrow> int \<Rightarrow> int \<Rightarrow> nat \<Rightarrow> int \<Rightarrow> int \<Rightarrow> exn + draw" where
  "paste width height side k x y =
     (if 0 \<le> x \<and> 0 \<le> y \<and> x + side \<le> width \<and> y + side \<le> height then Inr (Paste k x y side)
      else Inl (Exn ValueErr ''could not broadcast input array''))"

definition clamp :: "int \<Rightarrow> int \<Rightarrow> int" where
  "clamp hi x = max 0 (min x hi)"

definition marker_offset :: "(int \<Rightarrow> int \<Rightarrow> rat) \<Rightarrow> int \<Rightarrow> int \<Rightarrow> int \<Rightarrow> int" where
  "marker_offset wave amplitude frame_idx period = int_of_float (of_int amplitude * wave frame_idx period)"

definition marker_place :: "int \<Rightarrow> int \<Rightarrow> int \<Rightarrow> bool \<Rightarrow> int \<Rightarrow> nat \<Rightarrow> int \<times> int" where
  "marker_place width height marker_size inside_roi offset i =
     (let roi = default_roi width height;
          slots_x = (if inside_roi then fst roi + 20 + int i * (marker_size + 20) else 10);
          slots_y = (if inside_roi then fst (snd roi) + 20 else 10)
      in (clamp (width - marker_size) (slots_x + offset), clamp (height - marker_size) (slots_y + offset)))"

definition compose_frame ::
  "(int \<Rightarrow> int \<Rightarrow> rat) \<Rightarrow> nat \<Rightarrow> int \<Rightarrow> int \<Rightarrow> int \<Rightarrow> int \<Rightarrow> int \<Rightarrow> bool \<Rightarrow> exn + draw list" where
  "compose_frame wave markers frame_idx fps width height marker_size inside_roi =
     (if markers \<noteq> 0 \<and> fps = 0 then Inl (Exn ValueErr ''ZeroDivisionError'')
      else (case collect (\<lambda>i. case marker_place width height marker_size inside_roi (marker_offset wave 20 frame_idx fps) i of
                (x, y) \<Rightarrow> paste width height marker_size i x y) [0..<markers] of
              Inl e \<Rightarrow> Inl e
            | Inr ds \<Rightarrow> (case default_roi width height of (x0, y0, w0, h0) \<Rightarrow>
                Inr (ds @ [Rectangle x0 y0 (x0 + w0) (y0 + h0)]))))"

record video_args =
  va_aruco_id :: "int option"
  va_aruco_ids :: "string option"
  va_duration :: rat
  va_fps :: int
  va_width :: int
  va_height :: int
  va_marker_size :: int
  va_outside_roi :: bool

definition default_video_args :: video_args where
  "default_video_args = \<lparr>va_aruco_id = None, va_aruco_ids = None, va_duration = 5, va_fps = 10, va_width = 640, va_height = 480,
     va_marker_size = 120, va_outside_roi = False\<rparr>"

text \<open>\<open>main\<close>: the frames that are written, when the markers can be made and the writer opens.\<close>

definition generate_video ::
  "(int \<Rightarrow> int \<Rightarrow> rat) \<Rightarrow> (int \<Rightarrow> int \<Rightarrow> exn + 'm) \<Rightarrow> bool \<Rightarrow> video_args \<Rightarrow> exn + draw list list" where
  "generate_video wave marker opens a =
     (case resolve_ids (va_aruco_ids a) (va_aruco_id a) of Inl e \<Rightarrow> Inl e | Inr ids \<Rightarrow>
      (case collect (\<lambda>i. marker i (va_marker_size a)) ids of Inl e \<Rightarrow> Inl e | Inr markers \<Rightarrow>
       if \<not> opens then Inl (Exn RuntimeErr ''Cannot open VideoWriter'')
       else let total_frames = int_of_float (va_duration a * of_int (va_fps a))
            in collect (\<lambda>idx. compose_frame wave (length markers) idx (va_fps a) (va_width a) (va_height a)
                 (va_marker_size a) (\<not> va_outside_roi a)) [0..total_frames - 1]))"

section \<open>The clips of the benchmark\<close>

definition clip_frame :: "(int \<Rightarrow> int \<Rightarrow> rat) \<Rightarrow> int \<Rightarrow> int \<Rightarrow> int \<Rightarrow> exn + draw" where
  "clip_frame wave width height i =
     (let offset = marker_offset wave 15 i 10
      in paste width height 140 0 ((width - 140) div 2 + offset) ((height - 140) div 2 + offset))"

definition render_clip ::
  "(int \<Rightarrow> int \<Rightarrow> rat) \<Rightarrow> (int \<Rightarrow> int \<Rightarrow> exn + 'm) \<Rightarrow> int \<Rightarrow> rat \<Rightarrow> int \<Rightarrow> int \<Rightarrow> int \<Rightarrow> exn + draw list" where
  "render_clip wave marker fps duration width height aruco_id =
     (case marker aruco_id 140 of Inl e \<Rightarrow> Inl e | Inr _ \<Rightarrow>
        collect (clip_frame wave width height) [0..round_half_even (of_int fps * duration) - 1])"

definition corpus_id :: "nat \<Rightarrow> int" where
  "corpus_id i = int i mod 49 + 1"

text \<open>\<open>f"clip_{i:03d}.mp4"\<close>: longer numbers are not cut.\<close>

definition clip_name :: "nat \<Rightarrow> string" where
  "clip_name i = (let s = show_nat i in ''clip_'' @ replicate (3 - length s) CHR ''0'' @ s @ ''.mp4'')"

definition build_corpus ::
  "(int \<Rightarrow> int \<Rightarrow> rat) \<Rightarrow> (int \<Rightarrow> int \<Rightarrow> exn + 'm) \<Rightarrow> nat \<Rightarrow> int \<Rightarrow> rat \<Rightarrow> int \<Rightarrow> int \<Rightarrow> string \<Rightarrow> exn + (string \<times> draw list) list" where
  "build_corpus wave marker clips fps duration width height work_dir =
     collect (\<lambda>i. map_sum id (\<lambda>frames. (path_join work_dir (clip_name i), frames))
       (render_clip wave marker fps duration width height (corpus_id i))) [0..<clips]"

record phase =
  ph_label :: string
  ph_wall_seconds :: rat
  ph_events_total :: nat
  ph_frames_total :: int

definition events_per_sec :: "phase \<Rightarrow> rat" where
  "events_per_sec p = (if ph_wall_seconds p = 0 then 0 else of_nat (ph_events_total p) / ph_wall_seconds p)"

definition clips_per_sec :: "phase \<Rightarrow> rat" where
  "clips_per_sec p = (if ph_wall_seconds p = 0 then 0 else of_int (ph_frames_total p) / ph_wall_seconds p)"

text \<open>One phase: \<open>t0\<close> and \<open>t1\<close> are the readings of \<open>perf_counter\<close>, \<open>results\<close> the outcome of the batch.\<close>

definition bench_jobs :: "string list \<Rightarrow> video_job list" where
  "bench_jobs paths = map (\<lambda>p. \<lparr>vj_video_path = p, vj_roi_polygon = None\<rparr>) paths"

definition time_phase ::
  "worker \<Rightarrow> nat \<Rightarrow> string \<Rightarrow> string list \<Rightarrow> bool \<Rightarrow> move list \<Rightarrow> rat \<Rightarrow> rat \<Rightarrow> (exn + phase) option" where
  "time_phase work workers label paths use_process_pool ms t0 t1 =
     (let jobs = bench_jobs paths
      in map_option (map_sum id (\<lambda>results.
            \<lparr>ph_label = label, ph_wall_seconds = t1 - t0, ph_events_total = sum_list (map (\<lambda>r. length (vr_events r)) results),
             ph_frames_total = sum_list (map vr_frames_processed results)\<rparr>))
          (if use_process_pool then run_videos_in_parallel work workers None jobs ms
           else run_videos_in_thread_pool work workers jobs ms))"

definition speedup :: "phase \<Rightarrow> phase \<Rightarrow> rat" where
  "speedup thread_phase process_phase =
     (if ph_wall_seconds process_phase = 0 then 0 else ph_wall_seconds thread_phase / ph_wall_seconds process_phase)"

section \<open>Where the markers are\<close>

definition wave_bounded :: "(int \<Rightarrow> int \<Rightarrow> rat) \<Rightarrow> bool" where
  "wave_bounded wave \<longleftrightarrow> (\<forall>i n. \<bar>wave i n\<bar> \<le> 1)"

lemma offset_bounds: "wave_bounded wave \<Longrightarrow> 0 \<le> n \<Longrightarrow> \<bar>marker_offset wave n i p\<bar> \<le> n"
  unfolding marker_offset_def wave_bounded_def
  by (rule int_of_float_bounds) (simp add: abs_mult mult_left_le)

lemma clamped: "0 \<le> hi \<Longrightarrow> 0 \<le> clamp hi x \<and> clamp hi x \<le> hi"
  by (simp add: clamp_def)

text \<open>A marker that fits into the frame is never refused, wherever its slot is.\<close>

lemma compose_frame_run:
  assumes "0 < fps" and "marker_size \<le> width" and "marker_size \<le> height"
  shows "\<exists>ds. compose_frame wave markers idx fps width height marker_size inside = Inr ds \<and> length ds = markers + 1
    \<and> (\<forall>i < markers. case marker_place width height marker_size inside (marker_offset wave 20 idx fps) i of
          (x, y) \<Rightarrow> ds ! i = Paste i x y marker_size \<and> 0 \<le> x \<and> x + marker_size \<le> width \<and> 0 \<le> y \<and> y + marker_size \<le> height)"
proof -
  define place where "place = marker_place width height marker_size inside (marker_offset wave 20 idx fps)"
  define f where "f i = (case place i of (x, y) \<Rightarrow> paste width height marker_size i x y)" for i
  have fits: "0 \<le> fst (place i) \<and> fst (place i) + marker_size \<le> width \<and> 0 \<le> snd (place i) \<and> snd (place i) + marker_size \<le> height"
    for i
    using clamped [of "width - marker_size"] clamped [of "height - marker_size"] assms(2,3)
    by (simp add: place_def marker_place_def Let_def algebra_simps)
  have f: "f i = Inr (Paste i (fst (place i)) (snd (place i)) marker_size)" for i
    using fits [of i] by (cases "place i") (simp add: f_def paste_def)
  have "collect f [0..<markers] = Inr (map (\<lambda>i. Paste i (fst (place i)) (snd (place i)) marker_size) [0..<markers])"
    by (simp add: collect_Inr f)
  then show ?thesis
    using assms(1) fits
    by (simp add: compose_frame_def f_def [abs_def] place_def [symmetric] default_roi_def nth_append split_beta)
qed

lemma generate_video_run:
  assumes "resolve_ids (va_aruco_ids a) (va_aruco_id a) = Inr ids" and "\<forall>i \<in> set ids. \<exists>m. marker i (va_marker_size a) = Inr m"
    and "0 < va_fps a" and "va_marker_size a \<le> va_width a" and "va_marker_size a \<le> va_height a"
  shows "\<exists>frames. generate_video wave marker True a = Inr frames
    \<and> length frames = nat (int_of_float (va_duration a * of_int (va_fps a))) \<and> (\<forall>ds \<in> set frames. length ds = length ids + 1)"
proof -
  obtain ms where ms: "collect (\<lambda>i. marker i (va_marker_size a)) ids = Inr ms"
    using collect_all [of ids "\<lambda>i. marker i (va_marker_size a)"] assms(2) by blast
  then have len: "length ms = length ids" by (rule collect_length)
  define f where "f idx = compose_frame wave (length ms) idx (va_fps a) (va_width a) (va_height a) (va_marker_size a) (\<not> va_outside_roi a)"
    for idx
  have f: "\<exists>ds. f idx = Inr ds \<and> length ds = length ids + 1" for idx
    using compose_frame_run [OF assms(3-5), of wave "length ms" idx "\<not> va_outside_roi a"] len by (auto simp: f_def)
  obtain frames where fr: "collect f [0..int_of_float (va_duration a * of_int (va_fps a)) - 1] = Inr frames"
    using collect_all [of _ f] f by blast
  then have m: "map f [0..int_of_float (va_duration a * of_int (va_fps a)) - 1] = map Inr frames" by (simp add: collect_Inr)
  then have "length frames = nat (int_of_float (va_duration a * of_int (va_fps a)))"
    using collect_length [OF fr] by simp
  moreover have "length ds = length ids + 1" if "ds \<in> set frames" for ds
  proof -
    have "Inr ds \<in> set (map f [0..int_of_float (va_duration a * of_int (va_fps a)) - 1])" unfolding m using that by simp
    then show ?thesis using f by auto (metis sum.inject(2))
  qed
  ultimately show ?thesis using fr assms(1) ms by (simp add: generate_video_def f_def [abs_def])
qed

definition covers :: "int \<times> int \<times> int \<times> int \<Rightarrow> int \<Rightarrow> int \<Rightarrow> bool" where
  "covers r x y = (case r of (x0, y0, w, h) \<Rightarrow> x0 \<le> x \<and> x \<le> x0 + w \<and> y0 \<le> y \<and> y \<le> y0 + h)"

text \<open>
  With the default sizes the first two markers stay inside the region of interest; the centre of the third is
  right of it in every frame.
\<close>

lemma default_places:
  assumes "\<bar>offset\<bar> \<le> 20"
  shows "i < 2 \<Longrightarrow> (case marker_place 640 480 120 True offset i of (x, y) \<Rightarrow>
      covers (default_roi 640 480) x y \<and> covers (default_roi 640 480) (x + 119) (y + 119))"
    and "case marker_place 640 480 120 True offset 2 of (x, y) \<Rightarrow> \<not> covers (default_roi 640 480) (x + 60) (y + 60)"
  using assms by (auto simp: marker_place_def clamp_def default_roi_def covers_def less_Suc_eq numeral_2_eq_2)

text \<open>Outside the rectangle all markers are drawn at one place: only the last is visible.\<close>

lemma outside_places: "marker_place width height marker_size False offset i = marker_place width height marker_size False offset j"
  by (simp add: marker_place_def)

lemma render_clip_run:
  assumes "wave_bounded wave" and "170 \<le> width" and "170 \<le> height" and "marker aruco_id 140 = Inr m"
  shows "\<exists>frames. render_clip wave marker fps duration width height aruco_id = Inr frames
    \<and> length frames = nat (round_half_even (of_int fps * duration))"
proof -
  have f: "\<exists>d. clip_frame wave width height i = Inr d" for i
    using offset_bounds [OF assms(1), of 15 i 10] assms(2,3)
    by (simp add: clip_frame_def paste_def Let_def) linarith
  then obtain frames where fr: "collect (clip_frame wave width height) [0..round_half_even (of_int fps * duration) - 1] = Inr frames"
    using collect_all [of _ "clip_frame wave width height"] by blast
  then have "length frames = nat (round_half_even (of_int fps * duration))" by (simp add: collect_length)
  then show ?thesis using fr assms(4) by (simp add: render_clip_def)
qed

lemma corpus_id_bounds: "1 \<le> corpus_id i \<and> corpus_id i \<le> 49"
  unfolding corpus_id_def by (simp add: pos_mod_bound add_le_imp_le_diff)

lemma build_corpus_run:
  assumes "wave_bounded wave" and "170 \<le> width" and "170 \<le> height"
    and "\<And>i. 1 \<le> i \<Longrightarrow> i \<le> 49 \<Longrightarrow> \<exists>m. marker i 140 = Inr m"
  shows "\<exists>cs. build_corpus wave marker clips fps duration width height work_dir = Inr cs \<and> length cs = clips"
proof -
  define f where "f i = map_sum id (\<lambda>frames. (path_join work_dir (clip_name i), frames))
       (render_clip wave marker fps duration width height (corpus_id i))" for i
  have "\<exists>c. f i = Inr c" for i
  proof -
    obtain m where "marker (corpus_id i) 140 = Inr m" using assms(4) corpus_id_bounds by blast
    then obtain frames where "render_clip wave marker fps duration width height (corpus_id i) = Inr frames"
      using render_clip_run [OF assms(1-3), where marker = marker] by blast
    then show ?thesis by (simp add: f_def)
  qed
  then obtain cs where cs: "collect f [0..<clips] = Inr cs" using collect_all [of _ f] by blast
  then show ?thesis using collect_length [OF cs] by (simp add: build_corpus_def f_def [abs_def])
qed

section \<open>The two phases\<close>

text \<open>
  The phases count the same events and frames, however their jobs are scheduled. A clip that fails counts
  as empty with threads, and ends the phase with processes.
\<close>

lemma phases_agree:
  assumes "time_phase work n l1 paths True ms t0 t1 = Some (Inr p)" and "time_phase work k l2 paths False ns t2 t3 = Some r"
  shows "\<exists>q. r = Inr q \<and> ph_events_total q = ph_events_total p \<and> ph_frames_total q = ph_frames_total p"
proof -
  define jobs where "jobs = bench_jobs paths"
  obtain rs where rs: "run_videos_in_parallel work n None jobs ms = Some (Inr rs)"
    "ph_events_total p = sum_list (map (\<lambda>r. length (vr_events r)) rs)" "ph_frames_total p = sum_list (map vr_frames_processed rs)"
    using assms(1) by (auto simp: time_phase_def jobs_def [symmetric] map_sum_Inr_iff)
  obtain x where x: "run_videos_in_thread_pool work k jobs ns = Some x"
    "r = map_sum id (\<lambda>results. \<lparr>ph_label = l2, ph_wall_seconds = t3 - t2,
        ph_events_total = sum_list (map (\<lambda>r. length (vr_events r)) results), ph_frames_total = sum_list (map vr_frames_processed results)\<rparr>) x"
    using assms(2) by (auto simp: time_phase_def jobs_def [symmetric])
  have m: "map (dispatch_job work) jobs = map Inr rs"
    using parallel_run [OF rs(1)] by simp
  have "map (wrap_job work) jobs = map (dispatch_job work) jobs"
  proof (rule map_cong [OF refl])
    fix j assume "j \<in> set jobs"
    then have "dispatch_job work j \<in> set (map Inr rs)" unfolding m [symmetric] by simp
    then show "wrap_job work j = dispatch_job work j" by (auto simp: wrap_job_def)
  qed
  then have "x = Inr rs"
    using thread_pool_run [OF x(1)] m by auto
  then show ?thesis using x(2) rs(2,3) by simp
qed

end
