(* ===== verification/Benchmark.thy ===== *)
theory Benchmark
  imports TestVideo Calendar RawSql
begin

text \<open>
  The whole of \<open>scripts/benchmark_executor.py\<close>: the report and the run in a temporary directory \<open>tmp\<close>, with the clips
  kept on request. \<open>ms\<close> and \<open>ns\<close> are the schedules of the two batches, \<open>t\<close> the readings of \<open>perf_counter\<close>, \<open>n\<close> the
  configured number of workers. The lemmas: a printed figure is the nearest decimal, the table is aligned, and a run
  leaves nothing behind but the kept clips.
\<close>

section \<open>Formatted figures\<close>

text \<open>\<open>f"{r:.df}"\<close>, \<open>f"{s:>w}"\<close> and \<open>f"{s:<w}"\<close>.\<close>

definition fixed :: "nat \<Rightarrow> rat \<Rightarrow> string" where
  "fixed d r =
     (let n = round_half_even (\<bar>r\<bar> * 10 ^ d)
      in (if r < 0 then ''-'' else []) @ show_int (n div 10 ^ d) @ (if d = 0 then [] else CHR ''.'' # zero_pad d (n mod 10 ^ d)))"

definition align_right :: "nat \<Rightarrow> string \<Rightarrow> string" where
  "align_right w s = replicate (w - length s) CHR '' '' @ s"

definition align_left :: "nat \<Rightarrow> string \<Rightarrow> string" where
  "align_left w s = s @ replicate (w - length s) CHR '' ''"

lemma length_align [simp]: "length (align_right w s) = max w (length s)" "length (align_left w s) = max w (length s)"
  by (auto simp: align_right_def align_left_def)

definition cpu_count_hint :: "int option \<Rightarrow> int" where
  "cpu_count_hint cpus = (case cpus of None \<Rightarrow> 1 | Some n \<Rightarrow> if n = 0 then 1 else n)"

definition table_row :: "string \<Rightarrow> string \<Rightarrow> string \<Rightarrow> string \<Rightarrow> string \<Rightarrow> string" where
  "table_row label secs frames n_events rate =
     ''  '' @ align_left 24 label @ align_right 10 secs @ align_right 10 frames @ align_right 10 n_events @ align_right 14 rate"

definition phase_row :: "string \<Rightarrow> phase \<Rightarrow> string" where
  "phase_row label p = table_row label (fixed 2 (ph_wall_seconds p)) (show_int (ph_frames_total p))
     (show_nat (ph_events_total p)) (fixed 1 (clips_per_sec p))"

definition render_report :: "int \<Rightarrow> int \<Rightarrow> rat \<Rightarrow> int \<Rightarrow> int option \<Rightarrow> phase \<Rightarrow> phase \<Rightarrow> string" where
  "render_report n_clips fps duration workers cpus thread_phase process_phase =
     join_with [CHR 0x0A]
      [''Executor benchmark'',
       ''=================='',
       ''clips='' @ show_int n_clips @ ''  fps='' @ show_int fps @ ''  duration='' @ fixed 1 duration @ ''s  ''
         @ ''workers='' @ show_int workers @ ''  cpu_count='' @ show_int (cpu_count_hint cpus),
       [],
       table_row ''phase'' ''wall (s)'' ''frames'' ''events'' ''frames/s'',
       phase_row ''thread pool (GIL)'' thread_phase,
       phase_row ''process pool'' process_phase,
       [],
       ''speed-up: process / thread = '' @ fixed 2 (speedup thread_phase process_phase) @ ''x'']"

section \<open>The run\<close>

record bench_args =
  ba_clips :: int
  ba_fps :: int
  ba_duration :: rat
  ba_width :: int
  ba_height :: int
  ba_workers :: int
  ba_keep_dir :: "string option"

definition default_bench_args :: bench_args where
  "default_bench_args = \<lparr>ba_clips = 16, ba_fps = 10, ba_duration = 4, ba_width = 320, ba_height = 240, ba_workers = 4,
     ba_keep_dir = None\<rparr>"

definition inside :: "string \<Rightarrow> string \<Rightarrow> bool" where
  "inside dir p \<longleftrightarrow> path_root p = path_root dir \<and> take (length (path_parts dir)) (path_parts p) = path_parts dir"

text \<open>The end of \<open>TemporaryDirectory\<close>.\<close>

definition remove_tree :: "string \<Rightarrow> unit io" where
  "remove_tree dir = modify (\<lambda>w. w\<lparr>files := (\<lambda>p. if inside dir p then None else files w p)\<rparr>)"

definition write_clips :: "(draw list \<Rightarrow> string) \<Rightarrow> (string \<times> draw list) list \<Rightarrow> unit io" where
  "write_clips mp4 cs = forM (\<lambda>(p, frames). write_file p (mp4 frames)) cs"

definition keep_clips :: "string option \<Rightarrow> string list \<Rightarrow> unit io" where
  "keep_clips keep_dir paths =
     (case keep_dir of
        Some (c # cs) \<Rightarrow> forM (\<lambda>p. copyfile p (path_join (c # cs) (path_name p))) paths
      | _ \<Rightarrow> ret ())"

text \<open>\<open>None\<close>: one of the batches has not ended in its schedule.\<close>

definition benchmark ::
  "(int \<Rightarrow> int \<Rightarrow> rat) \<Rightarrow> (int \<Rightarrow> int \<Rightarrow> exn + 'm) \<Rightarrow> (draw list \<Rightarrow> string) \<Rightarrow> worker \<Rightarrow> nat \<Rightarrow> int option \<Rightarrow> bench_args \<Rightarrow> string
   \<Rightarrow> move list \<Rightarrow> move list \<Rightarrow> (nat \<Rightarrow> rat) \<Rightarrow> string io option" where
  "benchmark wave marker mp4 work n cpus a tmp ms ns t =
     map_option (\<lambda>m. finally_do m (remove_tree tmp))
      (case build_corpus wave marker (nat (ba_clips a)) (ba_fps a) (ba_duration a) (ba_width a) (ba_height a) tmp of
         Inl e \<Rightarrow> Some (raise e)
       | Inr cs \<Rightarrow>
          let paths = map fst cs; fails = (\<lambda>e. Some (seqM (write_clips mp4 cs) (raise e)))
          in (case time_phase work n ''thread'' paths False ms (t 0) (t 1) of
                None \<Rightarrow> None
              | Some (Inl e) \<Rightarrow> fails e
              | Some (Inr thread_phase) \<Rightarrow>
                 (case time_phase work n ''process'' paths True ns (t 2) (t 3) of
                    None \<Rightarrow> None
                  | Some (Inl e) \<Rightarrow> fails e
                  | Some (Inr process_phase) \<Rightarrow>
                      Some (seqM (write_clips mp4 cs)
                       (seqM (keep_clips (ba_keep_dir a) paths)
                         (ret (render_report (ba_clips a) (ba_fps a) (ba_duration a) (ba_workers a) cpus thread_phase process_phase)))))))"

section \<open>Figures and columns\<close>

lemma show_nat_value: "number_value (show_nat k) 0 = Some (int k)"
proof (induction k rule: show_nat.induct)
  case (1 k)
  have "10 * int (k div 10) + int (k mod 10) = int k" by presburger
  then show ?case
    using 1 digit_value_char [of "k mod 10"] digit_value_char [of k]
    by (subst show_nat.simps) (auto simp: number_value_append)
qed

lemma digits_only: "number_value s a = Some v \<Longrightarrow> c \<in> set s \<Longrightarrow> digit_value c \<noteq> None"
  by (induction s arbitrary: a) (auto split: option.splits)

lemma undotted: "number_value s a = Some v \<Longrightarrow> filter (\<lambda>c. c \<noteq> CHR ''.'') s = s"
  using digits_only [of s a v "CHR ''.''"] by (auto simp: filter_id_conv digit_value_def)

text \<open>A printed figure is a decimal nearest to the number: the digits without the point are the nearest multiple.\<close>

lemma fixed_is_nearest:
  assumes "0 \<le> r"
  shows "\<exists>n. number_value (filter (\<lambda>c. c \<noteq> CHR ''.'') (fixed d r)) 0 = Some n \<and> \<bar>of_int n / 10 ^ d - r\<bar> \<le> 1 / (2 * 10 ^ d)"
proof -
  define n where "n = round_half_even (r * 10 ^ d)"
  have near: "\<bar>of_int n - r * 10 ^ d\<bar> \<le> 1 / 2" unfolding n_def by (rule round_half_even_near)
  have "0 \<le> r * 10 ^ d" using assms by simp
  then have "- (1 / 2) \<le> (of_int n :: rat)" using near by linarith
  then have n0: "0 \<le> n" by linarith
  have whole: "number_value (show_int (n div 10 ^ d)) 0 = Some (n div 10 ^ d)"
  proof -
    have "0 \<le> n div 10 ^ d" using n0 by (simp add: pos_imp_zdiv_nonneg_iff)
    then show ?thesis using show_nat_value [of "nat (n div 10 ^ d)"] by (simp add: show_int_def)
  qed
  have part: "number_value (zero_pad d (n mod 10 ^ d)) a = Some (a * 10 ^ d + n mod 10 ^ d)" for a
    by (rule zero_pad_value) simp_all
  have "filter (\<lambda>c. c \<noteq> CHR ''.'') (fixed d r) = show_int (n div 10 ^ d) @ (if d = 0 then [] else zero_pad d (n mod 10 ^ d))"
    using assms undotted [OF whole] undotted [OF part] by (simp add: fixed_def n_def [symmetric] Let_def)
  then have "number_value (filter (\<lambda>c. c \<noteq> CHR ''.'') (fixed d r)) 0 = Some n"
    using whole part by (simp add: number_value_append div_mult_mod_eq)
  moreover have "\<bar>of_int n / 10 ^ d - r\<bar> \<le> 1 / (2 * 10 ^ d)"
    using near by (simp add: abs_le_iff field_simps)
  ultimately show ?thesis by blast
qed

text \<open>The rows of the table are as wide as its head, unless a figure is wider than its column.\<close>

lemma table_is_aligned:
  assumes "length secs \<le> 10" and "length frames \<le> 10" and "length n \<le> 10" and "length rate \<le> 14" and "length label \<le> 24"
  shows "length (table_row label secs frames n rate) = 70"
  using assms by (simp add: table_row_def)

section \<open>What is left of a run\<close>

lemma clip_name_plain: "plain_name (clip_name i)"
proof -
  have "CHR ''/'' \<notin> set (show_nat i)"
    using digits_only [OF show_nat_value [of i], of "CHR ''/''"] by (auto simp: digit_value_def)
  then show ?thesis by (auto simp: plain_name_def clip_name_def Let_def)
qed

lemma zeros_value: "number_value (replicate k CHR ''0'' @ s) 0 = number_value s 0"
  by (induction k) (simp_all add: digit_value_def)

lemma clip_name_inj: "clip_name i = clip_name j \<Longrightarrow> i = j"
proof -
  have v: "number_value (replicate (3 - length (show_nat k)) CHR ''0'' @ show_nat k) 0 = Some (int k)" for k
    by (simp add: zeros_value show_nat_value)
  assume "clip_name i = clip_name j"
  then have "replicate (3 - length (show_nat i)) CHR ''0'' @ show_nat i = replicate (3 - length (show_nat j)) CHR ''0'' @ show_nat j"
    unfolding clip_name_def Let_def append_assoc [symmetric] by simp
  then have "Some (int i) = Some (int j)" unfolding v [symmetric] by simp
  then show ?thesis by simp
qed

lemma corpus_paths:
  assumes "build_corpus wave marker k fps duration width height tmp = Inr cs"
  shows "map fst cs = map (\<lambda>i. path_join tmp (clip_name i)) [0..<k]"
proof -
  define f where "f i = map_sum id (\<lambda>frames. (path_join tmp (clip_name i), frames))
    (render_clip wave marker fps duration width height (corpus_id i))" for i
  have m: "map f [0..<k] = map Inr cs" using assms by (simp add: build_corpus_def f_def [abs_def] collect_Inr)
  then have len: "length cs = k" by (metis length_map length_upt minus_nat.diff_0)
  have "fst (cs ! i) = path_join tmp (clip_name i)" if "i < k" for i
  proof -
    have "f i = Inr (cs ! i)" using arg_cong [OF m, of "\<lambda>xs. xs ! i"] that len by simp
    then show ?thesis by (auto simp: f_def map_sum_Inr_iff)
  qed
  then show ?thesis using len by (intro nth_equalityI) simp_all
qed

lemma inside_join: "plain_name n \<Longrightarrow> inside d (path_join d n)"
proof -
  assume n: "plain_name n"
  have r: "path_root (d @ CHR ''/'' # n) = path_root d" if "d \<noteq> []" "last d \<noteq> CHR ''/''" for d
    using that by (cases d; cases "tl d"; cases "tl (tl d)") (auto simp: path_root_def)
  have "n \<noteq> []" "hd n \<noteq> CHR ''/''" using n by (cases n; auto simp: plain_name_def)+
  then have s: "path_root (c @ CHR ''/'' # n) = path_root (c @ ''/'')" for c
    by (cases n; cases c; cases "tl c"; cases "tl (tl c)") (auto simp: path_root_def)
  have "path_root (path_join d n) = path_root d"
    using n
  proof (cases rule: join_cases [of n d])
    case empty
    have "path_root [] = []" by (simp add: path_root_def)
    then show ?thesis unfolding empty(2) unfolding root_str plain_root [OF n] empty(1) by simp
  next
    case none
    show ?thesis unfolding none(3) root_str by (rule r [OF none(1,2)])
  qed (simp add: root_str s)
  then show ?thesis using parts_path_join [OF n] by (simp add: inside_def)
qed

text \<open>Writing files one after the other.\<close>

lemma writes_run:
  assumes "\<And>x w. x \<in> set xs \<Longrightarrow> P w \<Longrightarrow> f x w = (Inr (), w\<lparr>files := U x (files w)\<rparr>) \<and> P (w\<lparr>files := U x (files w)\<rparr>)"
    and "P w"
  shows "forM f xs w = (Inr (), w\<lparr>files := fold U xs (files w)\<rparr>)
    \<and> P (w\<lparr>files := fold U xs (files w)\<rparr>)"
  using assms
proof (induction xs arbitrary: w)
  case (Cons x xs)
  have x: "f x w = (Inr (), w\<lparr>files := U x (files w)\<rparr>)" "P (w\<lparr>files := U x (files w)\<rparr>)"
    by (rule conjunct1 [OF Cons.prems(1) [OF list.set_intros(1) Cons.prems(2)]])
      (rule conjunct2 [OF Cons.prems(1) [OF list.set_intros(1) Cons.prems(2)]])
  define v where "v = w\<lparr>files := U x (files w)\<rparr>"
  have "forM f xs v = (Inr (), v\<lparr>files := fold U xs (files v)\<rparr>)
    \<and> P (v\<lparr>files := fold U xs (files v)\<rparr>)"
    by (rule Cons.IH [OF Cons.prems(1)]) (auto simp: v_def x(2))
  moreover have "forM f (x # xs) w = forM f xs v" using x(1) by (simp add: seqM_def bindM_def v_def)
  moreover have "v\<lparr>files := fold U xs (files v)\<rparr>
      = w\<lparr>files := fold U (x # xs) (files w)\<rparr>" by (simp add: v_def)
  ultimately show ?case by simp
qed (simp_all add: ret_def)

lemma fold_updates:
  "q \<notin> g ` set xs \<Longrightarrow> fold (\<lambda>x m. m(g x \<mapsto> c x)) xs m q = m q"
  "distinct (map g xs) \<Longrightarrow> x \<in> set xs \<Longrightarrow> fold (\<lambda>x m. m(g x \<mapsto> c x)) xs m (g x) = Some (c x)"
proof -
  show 1: "q \<notin> g ` set xs \<Longrightarrow> fold (\<lambda>x m. m(g x \<mapsto> c x)) xs m q = m q" for q xs m
    by (induction xs arbitrary: m) auto
  show "distinct (map g xs) \<Longrightarrow> x \<in> set xs \<Longrightarrow> fold (\<lambda>x m. m(g x \<mapsto> c x)) xs m (g x) = Some (c x)"
    by (induction xs arbitrary: m) (auto simp: 1)
qed

text \<open>
  A run whose corpus can be rendered and whose batches end without an error prints the report, and afterwards the
  directory is gone, every clip is in the directory of \<open>--keep-dir\<close> if there is one, and no other file has changed.
\<close>

lemma clips_written:
  assumes "build_corpus wave marker k fps duration width height tmp = Inr cs"
  shows "write_clips mp4 cs w = (Inr (), w\<lparr>files := fold (\<lambda>x m. m(fst x \<mapsto> mp4 (snd x))) cs (files w)\<rparr>)"
    and "distinct (map fst cs)" and "x \<in> set cs \<Longrightarrow> inside tmp (fst x) \<and> (\<exists>i. fst x = path_join tmp (clip_name i))"
proof -
  note paths = corpus_paths [OF assms]
  have at: "\<exists>i. fst x = path_join tmp (clip_name i)" if "x \<in> set cs" for x
  proof -
    have "fst x \<in> set (map fst cs)" using that by simp
    then show ?thesis unfolding paths by auto
  qed
  then show "x \<in> set cs \<Longrightarrow> inside tmp (fst x) \<and> (\<exists>i. fst x = path_join tmp (clip_name i))"
    using inside_join [OF clip_name_plain] by metis
  have str: "path_str (fst x) = fst x" if "x \<in> set cs" for x using at [OF that] by auto
  show "write_clips mp4 cs w = (Inr (), w\<lparr>files := fold (\<lambda>x m. m(fst x \<mapsto> mp4 (snd x))) cs (files w)\<rparr>)"
    unfolding write_clips_def
    by (rule conjunct1 [OF writes_run [where P = "\<lambda>_. True"]]) (auto simp: write_file_def modify_def str split_beta)
  have "inj (\<lambda>i. path_join tmp (clip_name i))"
  proof (rule injI)
    fix i j assume "path_join tmp (clip_name i) = path_join tmp (clip_name j)"
    then have "path_parts tmp @ [clip_name i] = path_parts tmp @ [clip_name j]"
      using parts_path_join [OF clip_name_plain] by metis
    then show "i = j" by (simp add: clip_name_inj)
  qed
  then show "distinct (map fst cs)" unfolding paths by (simp add: distinct_map inj_on_def)
qed

lemma without_keeping:
  assumes "benchmark wave marker mp4 work n cpus a tmp ms ns t = Some m" and "ba_keep_dir a = None"
    and "\<And>p. inside tmp p \<Longrightarrow> files w p = None"
  shows "files (snd (m w)) = files w"
proof -
  define I :: "world \<Rightarrow> bool" where "I = (\<lambda>v. \<forall>p. \<not> inside tmp p \<longrightarrow> files v p = files w p)"
  have clips: "keeps I (write_clips mp4 cs)" if cs: "build_corpus wave marker k fps duration width height tmp = Inr cs" for k fps duration width height cs
  proof (rule keepsI)
    fix v assume v: "I v"
    have "fold (\<lambda>x m. m(fst x \<mapsto> mp4 (snd x))) cs (files v) p = files v p" if p: "\<not> inside tmp p" for p
      using p clips_written(3) [OF cs] by (intro fold_updates(1)) auto
    then show "I (snd (write_clips mp4 cs v))"
      using v by (simp add: I_def clips_written(1) [OF cs])
  qed
  obtain m' where m': "m = finally_do m' (remove_tree tmp)" "keeps I m'"
    using assms(1) by (auto simp: benchmark_def keep_clips_def assms(2) Let_def split: sum.splits option.splits
        intro!: keeps_intros clips)
  have "I (snd (m' w))" using keepsD [OF m'(2)] by (simp add: I_def)
  then show ?thesis
    using assms(3) by (auto simp: m'(1) finally_do_def remove_tree_def modify_def I_def split_beta)
qed

lemma with_keeping:
  assumes cs: "build_corpus wave marker (nat (ba_clips a)) (ba_fps a) (ba_duration a) (ba_width a) (ba_height a) tmp = Inr cs"
    and phases: "time_phase work n ''thread'' (map fst cs) False ms (t 0) (t 1) = Some (Inr thread_phase)"
      "time_phase work n ''process'' (map fst cs) True ns (t 2) (t 3) = Some (Inr process_phase)"
    and keep: "ba_keep_dir a = Some k" "k \<noteq> []" and apart: "\<And>i. \<not> inside tmp (path_join k (clip_name i))"
    and fresh: "\<And>p. inside tmp p \<Longrightarrow> files w p = None"
  shows "\<exists>m w'. benchmark wave marker mp4 work n cpus a tmp ms ns t = Some m
    \<and> m w = (Inr (render_report (ba_clips a) (ba_fps a) (ba_duration a) (ba_workers a) cpus thread_phase process_phase), w')
    \<and> (\<forall>x \<in> set cs. files w' (path_join k (path_name (fst x))) = Some (mp4 (snd x)))
    \<and> (\<forall>q. (\<forall>i. q \<noteq> path_join k (clip_name i)) \<longrightarrow> files w' q = files w q)"
proof -
  note clips = clips_written [OF cs]
  define target where "target p = path_join k (path_name p)" for p
  define F where "F = fold (\<lambda>x m. m(fst x \<mapsto> mp4 (snd x))) cs (files w)"
  define w1 where "w1 = w\<lparr>files := F\<rparr>"
  have F: "F (fst x) = Some (mp4 (snd x))" if "x \<in> set cs" for x
    unfolding F_def by (rule fold_updates(2) [OF clips(2) that])
  have F0: "F q = files w q" if "\<not> inside tmp q" for q
    unfolding F_def using that clips(3) by (intro fold_updates(1)) auto
  have named: "\<exists>i. target (fst x) = path_join k (clip_name i) \<and> fst x = path_join tmp (clip_name i)" if "x \<in> set cs" for x
    using clips(3) [OF that] name_join clip_name_plain by (auto simp: target_def plain_name_def)
  have far: "\<not> inside tmp (target (fst x))" if "x \<in> set cs" for x using named [OF that] apart by metis
  have near: "inside tmp (fst x)" "path_str (fst x) = fst x" if "x \<in> set cs" for x
    using clips(3) [OF that] by auto
  define U where "U p m = m(target p \<mapsto> the (F p))" for p and m :: "string \<Rightarrow> string option"
  define P :: "world \<Rightarrow> bool" where "P = (\<lambda>v. \<forall>x \<in> set cs. files v (fst x) = Some (mp4 (snd x)))"
  have step: "copyfile p (path_join k (path_name p)) v = (Inr (), v\<lparr>files := U p (files v)\<rparr>) \<and> P (v\<lparr>files := U p (files v)\<rparr>)"
    if p: "p \<in> set (map fst cs)" and v: "P v" for p v
  proof -
    obtain x where x: "x \<in> set cs" "p = fst x" using p by auto
    have "fst y \<noteq> target p" if "y \<in> set cs" for y using near(1) [OF that] far [OF x(1)] x(2) by metis
    then show ?thesis
      using v F [OF x(1)] near(2) [OF x(1)] x by (auto simp: copyfile_def write_file_def modify_def bindM_run P_def U_def target_def)
  qed
  have "P w1" using F by (simp add: P_def w1_def)
  then have "forM (\<lambda>p. copyfile p (path_join k (path_name p))) (map fst cs) w1 = (Inr (), w1\<lparr>files := fold U (map fst cs) (files w1)\<rparr>)"
    by (intro conjunct1 [OF writes_run [where P = P]] step)
  then have kept: "keep_clips (ba_keep_dir a) (map fst cs) w1 = (Inr (), w1\<lparr>files := fold U (map fst cs) F\<rparr>)"
    using keep by (cases k) (simp_all add: keep_clips_def w1_def)
  define w' where "w' = snd (remove_tree tmp (w1\<lparr>files := fold U (map fst cs) F\<rparr>))"
  let ?m = "finally_do (seqM (write_clips mp4 cs) (seqM (keep_clips (ba_keep_dir a) (map fst cs))
    (ret (render_report (ba_clips a) (ba_fps a) (ba_duration a) (ba_workers a) cpus thread_phase process_phase)))) (remove_tree tmp)"
  have "benchmark wave marker mp4 work n cpus a tmp ms ns t = Some ?m"
    by (simp add: benchmark_def cs Let_def phases [simplified])
  moreover have "?m w = (Inr (render_report (ba_clips a) (ba_fps a) (ba_duration a) (ba_workers a) cpus thread_phase process_phase), w')"
    using clips(1) [of mp4 w] kept
    by (simp add: finally_do_def seqM_def bindM_def ret_def w1_def F_def w'_def remove_tree_def modify_def)
  moreover have "files w' (target (fst x)) = Some (mp4 (snd x))" if x: "x \<in> set cs" for x
  proof -
    have "inj_on (\<lambda>x. target (fst x)) (set cs)"
    proof (rule inj_onI)
      fix y z assume y: "y \<in> set cs" and z: "z \<in> set cs" and "target (fst y) = target (fst z)"
      then have "fst y = fst z" using named [OF y] named [OF z] parts_path_join [OF clip_name_plain] by (metis last_snoc)
      then show "y = z" using clips(2) y z by (simp add: distinct_map inj_on_def)
    qed
    then have "distinct (map target (map fst cs))" using clips(2) by (simp add: distinct_map inj_on_def)
    then have "fold U (map fst cs) F (target (fst x)) = Some (the (F (fst x)))"
      unfolding U_def [abs_def] using x by (intro fold_updates(2)) auto
    then show ?thesis using F [OF x] far [OF x] by (simp add: w'_def remove_tree_def modify_def)
  qed
  moreover have "files w' q = files w q" if q: "\<forall>i. q \<noteq> path_join k (clip_name i)" for q
  proof -
    have "q \<notin> target ` set (map fst cs)" using named q by auto
    then have "fold U (map fst cs) F q = F q" unfolding U_def [abs_def] by (rule fold_updates(1))
    then show ?thesis using F0 [of q] fresh [of q] by (simp add: w'_def remove_tree_def modify_def)
  qed
  ultimately show ?thesis unfolding target_def by blast
qed

end
