(* ===== verification/SmokeVisit.thy ===== *)
theory SmokeVisit
  imports RawSql VideoApi TestVideo
begin

text \<open>
  \<open>scripts/smoke_visit_aggregator.py\<close>: the check of the visit state machine. It seeds a station and a tractor,
  removes what is left of an earlier run, renders a clip, has it handled over the API, polls until the video is
  COMPLETED, prints the visits and cleans up. \<open>net\<close> is what becomes of the requests, in order, \<open>k\<close> the number of
  polls that are answered before the server has run its background task. An error is answered with a JSON object,
  by the API and by a gateway alike. The main result: what the check adds under its own station and
  tractor is removed by its clean-up, whatever that is.
\<close>

section \<open>The station and the tractor\<close>

definition visit_marker :: int where
  "visit_marker = 42"

definition visit_station :: "string \<Rightarrow> station_create" where
  "visit_station code = \<lparr>sc_code = code, sc_name = ''Smoke '' @ code, sc_location = None, sc_video_dir = ''data/queue/'' @ code,
     sc_roi_polygon = Some [[10, 10], [320 - 10, 10], [320 - 10, 240 - 10], [10, 240 - 10]],
     sc_is_entry_zone = True, sc_is_active = True\<rparr>"

definition visit_tractor :: "string \<Rightarrow> tractor_create" where
  "visit_tractor name = \<lparr>tc_name = name, tc_model = None, tc_notes = None, tc_is_active = True, tc_aruco_ids = [visit_marker]\<rparr>"

definition seed_refs :: "string \<Rightarrow> string \<Rightarrow> (int \<times> int) io" where
  "seed_refs code name = session_commit
     (bindM (get_by_code code) (\<lambda>existing.
      bindM (case existing of None \<Rightarrow> station_service_create (visit_station code) | Some s \<Rightarrow> ret s) (\<lambda>station.
      bindM (gets (\<lambda>w. first_or_none (filter (\<lambda>t. tr_name t = name) (repo_rows TractorRepo w)))) (\<lambda>found.
      bindM (case found of
               None \<Rightarrow> ret None
             | Some t \<Rightarrow> if visit_marker \<notin> set (tr_aruco_ids t)
                        then seqM (repo_delete TractorRepo (row_id t)) (seqM flush (ret None)) else ret (Some t)) (\<lambda>match.
      bindM (case match of None \<Rightarrow> tractor_service_create (visit_tractor name) | Some t \<Rightarrow> ret t) (\<lambda>tractor.
        ret (row_id station, row_id tractor)))))))"

definition at_code :: "string \<Rightarrow> db \<Rightarrow> int set" where
  "at_code code d = set (map row_id (filter (\<lambda>s. st_code s = code) (tbl_rows (stations d))))"

definition filmed_at :: "string \<Rightarrow> db \<Rightarrow> video_file \<Rightarrow> bool" where
  "filmed_at code d v \<longleftrightarrow> (case vf_station_id v of None \<Rightarrow> False | Some i \<Rightarrow> i \<in> at_code code d)"

definition event_at :: "string \<Rightarrow> db \<Rightarrow> event \<Rightarrow> bool" where
  "event_at code d e \<longleftrightarrow> e_video_file_id e \<in> set (map row_id (filter (filmed_at code d) (tbl_rows (videos d))))"

definition smoke_tractor :: string where
  "smoke_tractor = ''Smoke tractor 8''"

definition visit_cleanup :: "string \<Rightarrow> int \<Rightarrow> unit io" where
  "visit_cleanup code tid = session_commit
     (seqM (delete_where VisitRepo (\<lambda>_ v. v_tractor_id v = tid))
     (seqM (delete_where EventRepo (event_at code))
     (seqM (delete_where VideoRepo (filmed_at code))
     (seqM (delete_where StationRepo (\<lambda>_ s. st_code s = code))
       (delete_where TractorRepo (\<lambda>_ t. tr_name t = smoke_tractor))))))"

section \<open>The run\<close>

text \<open>\<open>mp4\<close> encodes the frames; the marker is drawn at the places of the clips of the benchmark.\<close>

definition make_video :: "(int \<Rightarrow> int \<Rightarrow> rat) \<Rightarrow> (draw list \<Rightarrow> string) \<Rightarrow> string \<Rightarrow> unit io" where
  "make_video wave mp4 path =
     seqM (unlink_file path)
       (case collect (clip_frame wave 320 240) [0..10 * 8 - 1] of
          Inl e \<Rightarrow> raise e
        | Inr frames \<Rightarrow> write_file path (mp4 frames))"

fun poll_video ::
  "(nat \<Rightarrow> fate) \<Rightarrow> nat \<Rightarrow> unit io \<Rightarrow> int \<Rightarrow> nat \<Rightarrow> nat \<Rightarrow> bool io" where
  "poll_video net k task video_id 0 i = ret False"
| "poll_video net k task video_id (Suc n) i =
     bindM (if i = k then tryM task (\<lambda>_. ret ()) else ret ()) (\<lambda>_.
     bindM (over_network (net (Suc i)) (answer 200 True (get_video video_id))) (\<lambda>r.
       let status = map_option vp_status (snd r)
       in if status = Some ''COMPLETED'' then ret True
          else if status = Some ''FAILED'' \<or> status = Some ''INVALID'' then ret False
          else poll_video net k task video_id n (Suc i)))"

text \<open>The keys of an error object are not rows: indexing them raises.\<close>

definition rows_of :: "int \<times> 'a list option \<Rightarrow> 'a list io" where
  "rows_of r = (case snd r of Some xs \<Rightarrow> ret xs | None \<Rightarrow> raise (Exn TypeErr ''string indices must be integers''))"

definition show_visits :: "(nat \<Rightarrow> fate) \<Rightarrow> int \<Rightarrow> unit io" where
  "show_visits net tid =
     bindM (over_network (net 61) (answer 200 True get_current_tractors)) (\<lambda>r. bindM (rows_of r) (\<lambda>_.
     bindM (over_network (net 62) (answer 200 True (get_current_tractor tid))) (\<lambda>_.
     bindM (over_network (net 63) (answer 200 True get_current_stations)) (\<lambda>r. bindM (rows_of r) (\<lambda>_.
     bindM (with_session (get_history (Some tid) None 100 0)) (\<lambda>_. ret ()))))))"

definition video_completed :: "int \<Rightarrow> int \<Rightarrow> bool io" where
  "video_completed video_id tid = with_session
     (bindM (repo_get VideoRepo video_id) (\<lambda>vf. case vf of
         None \<Rightarrow> ret False
       | Some v \<Rightarrow> if vf_status v \<noteq> COMPLETED then ret False
                  else bindM (list_open_for_tractor tid) (\<lambda>_. bindM (get_current_tractor tid) (\<lambda>_. ret True))))"

definition visit_code :: string where
  "visit_code = ''SMOKE_VISIT''"

definition visit_path :: string where
  "visit_path = ''data/videos/smoke_visit.mp4''"

text \<open>\<open>shutil.rmtree\<close> of a file fails, and \<open>ignore_errors\<close> keeps quiet about it: the clip stays.\<close>

definition smoke_visit ::
  "'h hasher \<Rightarrow> worker \<Rightarrow> visit_settings \<Rightarrow> (world \<Rightarrow> world) \<Rightarrow> string \<Rightarrow> (int \<Rightarrow> int \<Rightarrow> rat) \<Rightarrow> (draw list \<Rightarrow> string)
   \<Rightarrow> (nat \<Rightarrow> fate) \<Rightarrow> nat \<Rightarrow> int io" where
  "smoke_visit H worker cfg env task_id wave mp4 net k =
     bindM (seed_refs visit_code smoke_tractor) (\<lambda>(_, old).
     seqM (visit_cleanup visit_code old)
     (bindM (seed_refs visit_code smoke_tractor) (\<lambda>(station_id, tid).
      seqM (make_video wave mp4 visit_path)
      (bindM py_now (\<lambda>now.
       let started_at = dt_add now (- timedelta_s 10); ended_at = dt_add started_at (timedelta_s 8)
       in bindM (over_network (net 0) (answer 200 True
            (handle_video_endpoint H worker cfg env task_id visit_path (Some station_id) None started_at ended_at))) (\<lambda>r.
          case r of
            (status, Some (Queued video_id _, tasks)) \<Rightarrow>
              if status \<noteq> 200 then ret 1
              else bindM (poll_video net k (forM (background_process worker cfg env) tasks) video_id 60 0) (\<lambda>finished.
              if \<not> finished then ret 1
              else bindM (video_completed video_id tid) (\<lambda>ok.
                if \<not> ok then ret 1
                else seqM (show_visits net tid) (seqM (visit_cleanup visit_code tid) (ret 0))))
          | _ \<Rightarrow> ret 1))))))"

section \<open>The clean-up\<close>

text \<open>What the check may add to a database: its station and its tractor, videos of the station with events, visits of the tractor.\<close>

definition visit_trace :: "string \<Rightarrow> int \<Rightarrow> db \<Rightarrow> db \<Rightarrow> bool" where
  "visit_trace code tid d0 d \<longleftrightarrow> consistent d \<and> (\<exists>s t vs es zs.
       tbl_rows (stations d) = tbl_rows (stations d0) @ [s] \<and> st_code s = code
     \<and> tbl_rows (tractors d) = tbl_rows (tractors d0) @ [t] \<and> tr_name t = smoke_tractor \<and> row_id t = tid
     \<and> tbl_rows (videos d) = tbl_rows (videos d0) @ vs \<and> (\<forall>v \<in> set vs. vf_station_id v = Some (row_id s))
     \<and> tbl_rows (events d) = tbl_rows (events d0) @ es \<and> (\<forall>e \<in> set es. e_video_file_id e \<in> row_id ` set vs)
     \<and> tbl_rows (visits d) = tbl_rows (visits d0) @ zs \<and> (\<forall>z \<in> set zs. v_tractor_id z = tid))"

definition visit_refs_free :: "string \<Rightarrow> db \<Rightarrow> bool" where
  "visit_refs_free code d \<longleftrightarrow> code \<notin> st_code ` set (tbl_rows (stations d))
     \<and> smoke_tractor \<notin> tr_name ` set (tbl_rows (tractors d))"

lemma visit_cleanup_run:
  assumes t: "visit_trace code tid d0 (committed w)" and free: "visit_refs_free code d0" and c0: "consistent d0"
    and r: "regenerate d0 = d0"
  obtains w' where "visit_cleanup code tid w = (Inr (), w')" "consistent (committed w')" "all_rows (committed w') = all_rows d0"
proof -
  define d where "d = committed w"
  obtain s t vs es zs where c: "consistent d"
    and s: "tbl_rows (stations d) = tbl_rows (stations d0) @ [s]" "st_code s = code"
    and tr: "tbl_rows (tractors d) = tbl_rows (tractors d0) @ [t]" "tr_name t = smoke_tractor" "row_id t = tid"
    and vs: "tbl_rows (videos d) = tbl_rows (videos d0) @ vs" "\<forall>v \<in> set vs. vf_station_id v = Some (row_id s)"
    and es: "tbl_rows (events d) = tbl_rows (events d0) @ es" "\<forall>e \<in> set es. e_video_file_id e \<in> row_id ` set vs"
    and zs: "tbl_rows (visits d) = tbl_rows (visits d0) @ zs" "\<forall>z \<in> set zs. v_tractor_id z = tid"
    using t unfolding visit_trace_def d_def by blast
  have dist: "distinct (table_ids (stations d))" "distinct (table_ids (tractors d))" "distinct (table_ids (videos d))"
    "distinct (table_ids (events d))"
    using c by (simp_all add: consistent_def db_wf_def table_wf_def)
  have new: "row_id s \<notin> set (table_ids (stations d0))" "tid \<notin> set (table_ids (tractors d0))"
    "row_id ` set vs \<inter> set (table_ids (videos d0)) = {}" "row_id ` set es \<inter> set (table_ids (events d0)) = {}"
    using dist tr(3) by (auto simp: table_ids_def s(1) tr(1) vs(1) es(1))
  note refs = consistent_refs [OF c0]
  have z0: "\<forall>z \<in> set (tbl_rows (visits d0)). v_tractor_id z \<noteq> tid"
    using refs(3) [of tid] new(2) by (auto simp: tractor_referenced_def)
  obtain d1 where 1: "delete_where VisitRepo (\<lambda>_ v. v_tractor_id v = tid) ((opened w)\<lparr>working := d\<rparr>)
      = (Inr (), (opened w)\<lparr>working := d1\<rparr>)" "consistent d1" "tbl_rows (visits d1) = tbl_rows (visits d0)"
    "stations d1 = stations d" "tractors d1 = tractors d" "videos d1 = videos d" "events d1 = events d"
    by (rule drop_visits [where P = "\<lambda>_ v. v_tractor_id v = tid" and w = "opened w" and ?d0.0 = d0, OF c])
      (use z0 zs in \<open>auto intro: filter_split\<close>)
  have s0: "\<forall>s \<in> set (tbl_rows (stations d0)). st_code s \<noteq> code" and t0: "\<forall>t \<in> set (tbl_rows (tractors d0)). tr_name t \<noteq> smoke_tractor"
    using free by (auto simp: visit_refs_free_def) (metis imageI)
  have one: "\<forall>x \<in> set [s]. st_code x = code" "\<forall>x \<in> set [t]. tr_name x = smoke_tractor" using s tr by simp_all
  have filmed: "filmed_at code e v \<longleftrightarrow> vf_station_id v = Some (row_id s)" if "stations e = stations d" for e v
  proof -
    have "at_code code e = {row_id s}" using s0 s by (simp add: at_code_def that filter_empty_conv)
    then show ?thesis by (auto simp: filmed_at_def split: option.splits)
  qed
  have v0: "\<forall>v \<in> set (tbl_rows (videos d0)). vf_station_id v \<noteq> Some (row_id s)"
    using refs(1) new(1) by auto
  have "filter (filmed_at code d1) (tbl_rows (videos d1)) = vs"
    using v0 vs(2) by (simp add: 1 vs(1) filmed filter_empty_conv filter_id_conv)
  then have P: "event_at code d1 e \<longleftrightarrow> e_video_file_id e \<in> row_id ` set vs" for e by (simp add: event_at_def del: set_filter)
  have e0: "\<forall>e \<in> set (tbl_rows (events d0)). e_video_file_id e \<notin> row_id ` set vs"
    using refs(2) new(3) by blast
  obtain d2 where 2: "delete_where EventRepo (event_at code) ((opened w)\<lparr>working := d1\<rparr>) = (Inr (), (opened w)\<lparr>working := d2\<rparr>)"
    "consistent d2" "tbl_rows (events d2) = tbl_rows (events d0)" "stations d2 = stations d" "tractors d2 = tractors d"
    "videos d2 = videos d" "tbl_rows (visits d2) = tbl_rows (visits d0)"
    using drop_events [where P = "event_at code" and w = "opened w", OF 1(2) c0] e0 es(2) filter_split [of _ "\<lambda>e. \<not> event_at code d1 e" es]
      1 P es(1) by metis
  obtain d3 where 3: "delete_where VideoRepo (filmed_at code) ((opened w)\<lparr>working := d2\<rparr>) = (Inr (), (opened w)\<lparr>working := d3\<rparr>)"
    "consistent d3" "tbl_rows (videos d3) = tbl_rows (videos d0)" "stations d3 = stations d" "tractors d3 = tractors d"
    "tbl_rows (events d3) = tbl_rows (events d0)" "tbl_rows (visits d3) = tbl_rows (visits d0)"
    using drop_videos [where P = "filmed_at code" and w = "opened w", OF 2(2) c0] v0 vs 2 filmed [OF 2(4)]
      filter_split [of _ "\<lambda>v. \<not> filmed_at code d2 v" vs] by metis
  obtain d4 where 4: "delete_where StationRepo (\<lambda>_ s. st_code s = code) ((opened w)\<lparr>working := d3\<rparr>)
      = (Inr (), (opened w)\<lparr>working := d4\<rparr>)"
    "consistent d4" "tbl_rows (stations d4) = tbl_rows (stations d0)" "tractors d4 = tractors d"
    "tbl_rows (videos d4) = tbl_rows (videos d0)" "tbl_rows (events d4) = tbl_rows (events d0)" "tbl_rows (visits d4) = tbl_rows (visits d0)"
    using drop_stations [where P = "\<lambda>_ s. st_code s = code" and w = "opened w", OF 3(2) c0] s0 one(1) s(1) 3
      filter_split [of _ "\<lambda>s. \<not> st_code s = code" "[s]"] by metis
  obtain d5 where 5: "delete_where TractorRepo (\<lambda>_ t. tr_name t = smoke_tractor) ((opened w)\<lparr>working := d4\<rparr>)
      = (Inr (), (opened w)\<lparr>working := d5\<rparr>)" "consistent d5" "same_rows d0 d5"
    using drop_tractors [where P = "\<lambda>_ t. tr_name t = smoke_tractor" and w = "opened w", OF 4(2) c0] t0 one(2)
      tr(1) 4 filter_split [of _ "\<lambda>t. \<not> tr_name t = smoke_tractor" "[t]"] unfolding same_rows_def by metis
  let ?m = "seqM (delete_where VisitRepo (\<lambda>_ v. v_tractor_id v = tid)) (seqM (delete_where EventRepo (event_at code))
     (seqM (delete_where VideoRepo (filmed_at code)) (seqM (delete_where StationRepo (\<lambda>_ s. st_code s = code))
       (delete_where TractorRepo (\<lambda>_ t. tr_name t = smoke_tractor)))))"
  have "(opened w)\<lparr>working := d\<rparr> = opened w" by (simp add: d_def opened_def next_txn_def)
  then have "?m (opened w) = (Inr (), (opened w)\<lparr>working := d5\<rparr>)"
    using 1(1) by (simp only: seqM_def bindM_def 2(1) 3(1) 4(1) 5(1) prod.case sum.case)
  from session_commit_run [where m = ?m and w = w, OF this] 5(2)
  obtain w' where w': "session_commit ?m w = (Inr (), w')" "consistent (committed w')" "same_rows (regenerate d5) (committed w')"
    by auto
  have "all_rows (committed w') = all_rows d0"
    using w'(3) 5(3) arg_cong [OF r, of "\<lambda>d. tbl_rows (visits d)"] by (simp add: same_rows_def all_rows_def)
  then show ?thesis using that w'(1,2) by (simp only: visit_cleanup_def)
qed

section \<open>Seeding\<close>

lemma station_service_create_run:
  assumes c: "consistent (working w)" and free: "sc_code p \<notin> st_code ` set (tbl_rows (stations (working w)))"
  defines "s \<equiv> stamp_new (txn_now w) (tbl_seq (stations (working w))) (station_row p)"
    and "d \<equiv> stations_update (\<lambda>_. snd (table_insert (txn_now w) (station_row p) (stations (working w)))) (working w)"
  shows "station_service_create p w = (Inr s, w\<lparr>working := d\<rparr>)" "consistent d"
proof -
  have wf: "db_wf (working w)" using c by (simp add: consistent_def)
  have ok: "db_ok d" unfolding d_def using db_ok_add_station [OF c] free by (simp add: station_row_def)
  have "db_wf d" using wf tab.wf_add [of "stations (working w)"] by (simp add: d_def db_wf_def)
  then show "consistent d" using ok by (simp add: consistent_def)
  have "find (\<lambda>s. st_code s = sc_code p) (tbl_rows (stations (working w))) = None"
    using free by (auto simp: find_None_iff image_iff)
  then show "station_service_create p w = (Inr s, w\<lparr>working := d\<rparr>)"
    using get_by_code_run [OF c, of "sc_code p"] ok station_model.repo_create_flush [of w "station_row p"] wf
    by (simp add: s_def d_def station_service_create_def bindM_run Let_def)
qed

lemma tractor_service_create_run:
  assumes c: "consistent (working w)" and ids: "tc_aruco_ids p = a # as"
    and free: "Some a \<notin> primary_aruco_id ` set (tbl_rows (tractors (working w)))"
  defines "t \<equiv> stamp_new (txn_now w) (tbl_seq (tractors (working w))) (tractor_row p)"
    and "d \<equiv> tractors_update (\<lambda>_. snd (table_insert (txn_now w) (tractor_row p) (tractors (working w)))) (working w)"
  shows "tractor_service_create p w = (Inr t, w\<lparr>working := d\<rparr>)" "consistent d"
proof -
  have wf: "db_wf (working w)" using c by (simp add: consistent_def)
  have ok: "db_ok d" unfolding d_def using db_ok_add_tractor [OF c] free ids
    by (simp add: tractor_row_def primary_aruco_id_def first_or_none_def)
  have "db_wf d" using wf tab.wf_add [of "tractors (working w)"] by (simp add: d_def db_wf_def)
  then show "consistent d" using ok by (simp add: consistent_def)
  show "tractor_service_create p w = (Inr t, w\<lparr>working := d\<rparr>)"
    using ok tractor_model.repo_create_flush [of w "tractor_row p"] wf ids
    by (simp add: t_def d_def tractor_service_create_def on_integrity_error_def tryM_def bindM_run Let_def)
qed

lemma seed_refs_run:
  assumes c: "consistent (committed w)" and free: "visit_refs_free code (committed w)"
    and marker: "Some visit_marker \<notin> primary_aruco_id ` set (tbl_rows (tractors (committed w)))"
    and r: "regenerate (committed w) = committed w"
  obtains sid tid w' where "seed_refs code smoke_tractor w = (Inr (sid, tid), w')"
    "visit_trace code tid (committed w) (committed w')"
proof -
  let ?d = "committed w" and ?now = "txn_now (opened w)"
  have none: "find (\<lambda>s. st_code s = code) (tbl_rows (stations ?d)) = None"
    "filter (\<lambda>t. tr_name t = smoke_tractor) (tbl_rows (tractors ?d)) = []"
    using free by (auto simp: visit_refs_free_def find_None_iff image_iff filter_empty_conv)
  define s where "s = stamp_new ?now (tbl_seq (stations ?d)) (station_row (visit_station code))"
  define d1 where "d1 = stations_update (\<lambda>_. snd (table_insert ?now (station_row (visit_station code)) (stations ?d))) ?d"
  have 1: "station_service_create (visit_station code) (opened w) = (Inr s, (opened w)\<lparr>working := d1\<rparr>)" "consistent d1"
    using station_service_create_run [of "opened w" "visit_station code"] c free
    by (simp_all add: s_def d1_def visit_refs_free_def visit_station_def)
  define t where "t = stamp_new ?now (tbl_seq (tractors ?d)) (tractor_row (visit_tractor smoke_tractor))"
  define d2 where "d2 = tractors_update (\<lambda>_. snd (table_insert ?now (tractor_row (visit_tractor smoke_tractor)) (tractors ?d))) d1"
  have t1: "tractors d1 = tractors ?d" by (simp add: d1_def)
  have 2: "tractor_service_create (visit_tractor smoke_tractor) ((opened w)\<lparr>working := d1\<rparr>)
      = (Inr t, (opened w)\<lparr>working := d2\<rparr>)" "consistent d2"
    using tractor_service_create_run [of "(opened w)\<lparr>working := d1\<rparr>" "visit_tractor smoke_tractor" visit_marker "[]"] 1(2) marker
    by (simp_all add: t_def d2_def t1 visit_tractor_def)
  let ?body = "bindM (get_by_code code) (\<lambda>existing.
      bindM (case existing of None \<Rightarrow> station_service_create (visit_station code) | Some s \<Rightarrow> ret s) (\<lambda>station.
      bindM (gets (\<lambda>w. first_or_none (filter (\<lambda>t. tr_name t = smoke_tractor) (repo_rows TractorRepo w)))) (\<lambda>found.
      bindM (case found of
               None \<Rightarrow> ret None
             | Some t \<Rightarrow> if visit_marker \<notin> set (tr_aruco_ids t)
                        then seqM (repo_delete TractorRepo (row_id t)) (seqM flush (ret None)) else ret (Some t)) (\<lambda>match.
      bindM (case match of None \<Rightarrow> tractor_service_create (visit_tractor smoke_tractor) | Some t \<Rightarrow> ret t) (\<lambda>tractor.
        ret (row_id station, row_id tractor))))))"
  have "?body (opened w) = (Inr (row_id s, row_id t), (opened w)\<lparr>working := d2\<rparr>)"
    using get_by_code_run [of "opened w" code] c none
    by (simp add: bindM_run 1(1) 2(1) gets_def t1 first_or_none_def)
  from session_commit_run [where m = ?body and w = w, OF this] 2(2)
  obtain w' where w': "session_commit ?body w = (Inr (row_id s, row_id t), w')" "consistent (committed w')"
    "same_rows (regenerate d2) (committed w')" by auto
  have "map (\<lambda>v. v\<lparr>v_duration_seconds := computed_duration v\<rparr>) (tbl_rows (visits ?d)) = tbl_rows (visits ?d)"
    using arg_cong [OF r, of "\<lambda>d. tbl_rows (visits d)"] by simp
  then have "visit_trace code (row_id t) ?d (committed w')"
    unfolding visit_trace_def using w'(2,3)
    by (intro conjI exI [of _ s] exI [of _ t] exI [of _ "[]"])
       (simp_all add: same_rows_def d2_def d1_def t_def s_def table_insert_def stamp_new_def station_row_def visit_station_def
          tractor_row_def visit_tractor_def)
  then show ?thesis using that w'(1) by (simp add: seed_refs_def)
qed

text \<open>What a run seeds its clean-up removes, so a second run starts where the first one did.\<close>

lemma seed_then_cleanup:
  assumes "consistent (committed w)" and "visit_refs_free code (committed w)" and "regenerate (committed w) = committed w"
    and "Some visit_marker \<notin> primary_aruco_id ` set (tbl_rows (tractors (committed w)))"
  shows "\<exists>sid tid w1 w2. seed_refs code smoke_tractor w = (Inr (sid, tid), w1) \<and> visit_cleanup code tid w1 = (Inr (), w2)
    \<and> consistent (committed w2) \<and> all_rows (committed w2) = all_rows (committed w)"
proof -
  obtain sid tid w1 where 1: "seed_refs code smoke_tractor w = (Inr (sid, tid), w1)" "visit_trace code tid (committed w) (committed w1)"
    by (rule seed_refs_run [OF assms(1,2,4,3)])
  obtain w2 where "visit_cleanup code tid w1 = (Inr (), w2)" "consistent (committed w2)" "all_rows (committed w2) = all_rows (committed w)"
    by (rule visit_cleanup_run [OF 1(2) assms(2,1,3)])
  then show ?thesis using 1(1) by blast
qed

section \<open>Polling\<close>

text \<open>The clip is never too small for the marker.\<close>

lemma make_video_run:
  assumes "wave_bounded wave"
  obtains frames where "length frames = 80" "make_video wave mp4 path w = (Inr (), w\<lparr>files := (files w)(path_str path := Some (mp4 frames))\<rparr>)"
proof -
  have f: "\<exists>d. clip_frame wave 320 240 i = Inr d" for i
    using offset_bounds [OF assms, of 15 i 10] by (simp add: clip_frame_def paste_def Let_def) linarith
  then obtain frames where fr: "collect (clip_frame wave 320 240) [0..10 * 8 - 1] = Inr frames"
    using collect_all [of _ "clip_frame wave 320 240"] by blast
  then show ?thesis using that [of frames] collect_length [OF fr]
    by (simp add: make_video_def seqM_def bindM_run unlink_file_def write_file_def)
qed

end
