(* ===== verification/Server.thy ===== *)
theory Server
  imports VideoApi Ticks Sample
begin

text \<open>
  The server as a whole: the API of \<open>src/router/v1\<close> with every request that may write, the tasks that requests leave
  behind, the loops of \<open>src/main.py\<close> and the recovery at startup, run one after the other in any order. What other
  processes do to the database while a visit is inserted is the parameter \<open>dp_others\<close>, as in the visit service.
\<close>

section \<open>The server\<close>

text \<open>What the server is configured with, and what other processes do at the points where it waits.\<close>

record 'h deployment =
  dp_hasher :: "'h hasher"
  dp_worker :: worker
  dp_visits :: visit_settings
  dp_scheduler :: scheduler_settings
  dp_storage :: string
  dp_others :: "world \<Rightarrow> world"

text \<open>Requests that may write.\<close>

datatype request =
    CreateStation station_create
  | UpdateStation int station_update
  | DeleteStation int
  | CreateTractor tractor_create
  | UpdateTractor int tractor_update
  | DeleteTractor int
  | UploadVideo string string string "int option" datetime datetime
  | HandleVideo string string "int option" "string option" datetime datetime
  | IngestBatch edge_batch_in

definition respond :: "'h deployment \<Rightarrow> request \<Rightarrow> int io" where
  "respond D r = (case r of
      CreateStation p \<Rightarrow> request 201 (station_create_valid p) (create_station p)
    | UpdateStation j x \<Rightarrow> request 200 (station_update_valid x) (update_station j x)
    | DeleteStation j \<Rightarrow> request 204 True (delete_station j)
    | CreateTractor p \<Rightarrow> request 201 (tractor_create_valid p) (create_tractor p)
    | UpdateTractor j x \<Rightarrow> request 200 (tractor_update_valid x) (update_tractor j x)
    | DeleteTractor j \<Rightarrow> request 204 True (delete_tractor j)
    | UploadVideo uuid name content sid s e \<Rightarrow>
        request 201 True (upload_video (dp_hasher D) (dp_storage D) uuid name content sid s e)
    | HandleVideo task path sid code s e \<Rightarrow>
        request 200 True (handle_video_endpoint (dp_hasher D) (dp_worker D) (dp_visits D) (dp_others D) task path sid code s e)
    | IngestBatch p \<Rightarrow> post_ingest (dp_hasher D) p)"

text \<open>What runs in the server: a request, the task that a request left behind, a turn of each loop, the recovery at startup.\<close>

datatype activity = Serve request | TickNow | Background int string | SchedulerTurn | StaleVisits | Startup

definition act :: "'h deployment \<Rightarrow> activity \<Rightarrow> unit io" where
  "act D a = (case a of
      Serve r \<Rightarrow> seqM (respond D r) (ret ())
    | TickNow \<Rightarrow> seqM (tick_now (dp_worker D) (dp_visits D) (dp_others D) (dp_scheduler D)) (ret ())
    | Background j uri \<Rightarrow> background_process (dp_worker D) (dp_visits D) (dp_others D) (j, uri)
    | SchedulerTurn \<Rightarrow> seqM (run_loop_turn (dp_worker D) (dp_visits D) (dp_others D) (dp_scheduler D)) (ret ())
    | StaleVisits \<Rightarrow> seqM (visit_stale_check_turn (dp_visits D)) (ret ())
    | Startup \<Rightarrow> seqM (lifespan_startup (dp_visits D) (dp_scheduler D) new_scheduler) (ret ()))"

text \<open>One after the other; what one raises does not stop the others.\<close>

definition run_server :: "'h deployment \<Rightarrow> activity list \<Rightarrow> unit io" where
  "run_server D acts = forM (\<lambda>a. swallow (act D a)) acts"

section \<open>A sample\<close>

definition sample_deployment :: "string deployment" where
  "sample_deployment = \<lparr>dp_hasher = plain_hasher, dp_worker = (\<lambda>_ _. Inr ([], 0, 0)), dp_visits = default_visit_settings,
     dp_scheduler = default_scheduler_settings, dp_storage = ''/storage'', dp_others = id\<rparr>"

definition closed1 :: visit where
  "closed1 = vis1\<lparr>v_state := CLOSED, v_departed_at := Some (Naive 9000000)\<rparr>"

definition busy_day :: "activity list" where
  "busy_day = [Startup, Serve (DeleteTractor 1), SchedulerTurn, Background 1 ''/videos/a.mp4'', StaleVisits, Serve (DeleteStation 1)]"

end
