(* ===== verification/VisitHistory.thy ===== *)
theory VisitHistory
  imports Server
begin

text \<open>
  Closed visits are history: no operation of the server changes or removes the row of a committed closed visit. The
  invariant says so of one row, and each operation keeps it: those of the visit service because the
  references they hold are to open visits and to new ones, the others because they leave the table alone.
\<close>

section \<open>An archived visit\<close>

text \<open>The row without its generated column.\<close>

definition timeless :: "visit \<Rightarrow> visit" where
  "timeless v = v\<lparr>v_duration_seconds := None\<rparr>"

definition holds :: "int \<Rightarrow> visit \<Rightarrow> visit table \<Rightarrow> bool" where
  "holds i u t \<longleftrightarrow> i < tbl_seq t \<and> (\<exists>v \<in> set (tbl_rows t). row_id v = i)
     \<and> (\<forall>v \<in> set (tbl_rows t). row_id v = i \<longrightarrow> timeless v = u)"

definition archived :: "int \<Rightarrow> visit \<Rightarrow> world \<Rightarrow> bool" where
  "archived i u w \<longleftrightarrow> v_state u = CLOSED \<and> holds i u (visits (working w)) \<and> holds i u (visits (committed w))"

lemma archived_cong:
  "visits (working w') = visits (working w) \<Longrightarrow> visits (committed w') = visits (committed w) \<Longrightarrow> archived i u w' = archived i u w"
  by (simp add: archived_def)

lemma timeless_sel [simp]: "row_id (timeless v) = row_id v" "v_state (timeless v) = v_state v"
  "timeless (v\<lparr>v_duration_seconds := x\<rparr>) = timeless v"
  by (simp_all add: timeless_def)

lemma archived_row: "archived (row_id v) u w \<Longrightarrow> v \<in> set (tbl_rows (visits (working w))) \<Longrightarrow> v_state v = CLOSED"
  using timeless_sel(2) [of v] unfolding archived_def holds_def by metis

lemma holds_seq: "holds i u t \<Longrightarrow> tbl_rows t' = tbl_rows t \<Longrightarrow> tbl_seq t \<le> tbl_seq t' \<Longrightarrow> holds i u t'"
  by (auto simp: holds_def)

lemma holds_rewind: "holds i u (visits c) \<Longrightarrow> holds i u (visits (rewind c d))"
  by (erule holds_seq) (simp_all add: rewind_def rewind_table_def)

lemma holds_regenerate: "holds i u (visits d) \<Longrightarrow> holds i u (visits (regenerate d))"
  by (auto simp: holds_def)

lemma holds_append: "holds i u t \<Longrightarrow> row_id v \<noteq> i \<Longrightarrow> holds i u (t\<lparr>tbl_rows := tbl_rows t @ [v]\<rparr>)"
  by (auto simp: holds_def)

lemma holds_insert: "holds i u t \<Longrightarrow> holds i u (snd (table_insert now v t))"
  by (auto simp: holds_def table_insert_def)

lemma holds_update:
  assumes "holds i u t" and "j \<noteq> i" and f: "\<And>r. row_id (f r) = row_id r"
  shows "holds i u (table_update now j f t)"
proof -
  define g where "g = (\<lambda>r. if row_id r = j then touch now r (f r) else r)"
  have g: "row_id (g r) = row_id r" "row_id r = i \<Longrightarrow> g r = r" for r using assms(2) f by (auto simp: g_def)
  have "tbl_rows (table_update now j f t) = map g (tbl_rows t)" by (simp add: table_update_def g_def)
  moreover have "tbl_seq (table_update now j f t) = tbl_seq t" by (simp add: table_update_def)
  ultimately show ?thesis using assms(1) g by (auto simp: holds_def)
qed

lemma holds_delete: "holds i u t \<Longrightarrow> j \<noteq> i \<Longrightarrow> holds i u (table_delete j t)"
  by (auto simp: holds_def table_delete_def)

section \<open>The unit of work\<close>

lemma archived_now [keeps_intros]: "keeps (archived i u) py_now"
  by (rule keepsI) (simp add: py_now_def archived_def)

lemma archived_flush [keeps_intros]: "keeps (archived i u) flush"
  by (rule keepsI) (simp add: flush_def)

lemma archived_commit [keeps_intros]: "keeps (archived i u) commit"
  by (rule keepsI) (simp add: commit_def Let_def archived_def holds_regenerate)

lemma archived_rollback [keeps_intros]: "keeps (archived i u) rollback"
  by (rule keepsI) (simp add: rollback_def archived_def holds_rewind)

text \<open>Between the sessions only what is committed counts.\<close>

definition in_archive :: "int \<Rightarrow> visit \<Rightarrow> world \<Rightarrow> bool" where
  "in_archive i u w \<longleftrightarrow> v_state u = CLOSED \<and> holds i u (visits (committed w))"

lemma archived_with_session [keeps_intros]:
  assumes "keeps (archived i u) m"
  shows "keeps (in_archive i u) (with_session m)"
proof (rule keepsI)
  fix w
  assume w: "in_archive i u w"
  obtain r w' where run: "m (next_txn (w\<lparr>working := committed w\<rparr>)) = (r, w')" by fastforce
  have "archived i u (next_txn (w\<lparr>working := committed w\<rparr>))" using w by (simp add: archived_def in_archive_def)
  then have "archived i u w'" by (rule keeps_run [OF assms _ run])
  then show "in_archive i u (snd (with_session m w))"
    by (simp add: with_session_def run in_archive_def archived_def holds_rewind)
qed

lemma archived_request [keeps_intros]: "keeps (archived i u) m \<Longrightarrow> keeps (in_archive i u) (get_async_session m)"
  by (auto simp: get_async_session_def intro!: keeps_intros)

section \<open>The repositories\<close>

text \<open>A table other than that of the visits.\<close>

definition apart :: "('a row) repo \<Rightarrow> bool" where
  "apart R \<longleftrightarrow> (\<forall>f d. visits (rp_upd R f d) = visits d)"

lemma apart_repos [simp]: "apart StationRepo" "apart TractorRepo" "apart VideoRepo" "apart EventRepo"
  by (simp_all add: apart_def)

lemma archived_get [keeps_intros]: "keeps (archived i u) (repo_get R j)"
  by (simp add: repo_get_def keeps_gets)

lemma archived_refresh [keeps_intros]: "keeps (archived i u) (refresh R j)"
  by (auto simp: refresh_def intro!: keeps_intros)

lemma archived_add_row [keeps_intros]: "apart R \<Longrightarrow> keeps (archived i u) (add_row R obj)"
  by (rule keepsI) (simp add: add_row_def table_insert_def archived_def apart_def)

lemma archived_set_row [keeps_intros]: "apart R \<Longrightarrow> keeps (archived i u) (set_row R j f)"
  by (rule keepsI) (simp add: set_row_def archived_def apart_def)

lemma archived_repo_create [keeps_intros]: "apart R \<Longrightarrow> keeps (archived i u) (repo_create R obj)"
  by (auto simp: repo_create_def intro!: keeps_intros)

lemma archived_repo_update [keeps_intros]: "apart R \<Longrightarrow> keeps (archived i u) (repo_update R j f)"
  by (auto simp: repo_update_def intro!: keeps_intros)

lemma archived_repo_update_by_id [keeps_intros]: "apart R \<Longrightarrow> keeps (archived i u) (repo_update_by_id R j f)"
  by (auto simp: repo_update_by_id_def intro!: keeps_intros)

lemma archived_delete [keeps_intros]:
  "keeps (archived i u) (repo_delete StationRepo j)" "keeps (archived i u) (repo_delete TractorRepo j)"
  by (rule keepsI, simp add: repo_delete_def archived_def on_delete_tractor_def)+

lemma archived_files [keeps_intros]:
  "keeps (archived i u) (write_file p c)" "keeps (archived i u) (unlink_file p)" "keeps (archived i u) (move_file a b)"
  "keeps (archived i u) (path_exists p)"
  by (rule keepsI, simp add: write_file_def unlink_file_def move_file_def path_exists_def archived_def)+

section \<open>The visit service\<close>

text \<open>A reference that is not the archived row.\<close>

definition safe_ref :: "int \<Rightarrow> vref \<Rightarrow> bool" where
  "safe_ref i r \<longleftrightarrow> (case r of Live j \<Rightarrow> j \<noteq> i | Expired \<Rightarrow> True | Transient v \<Rightarrow> row_id v \<noteq> i)"

definition safe_batch :: "int \<Rightarrow> batch \<Rightarrow> bool" where
  "safe_batch i b \<longleftrightarrow> (\<forall>p r. (p, Some r) \<in> set (active b) \<longrightarrow> safe_ref i r)"

lemma safe_ref_simps [simp]: "safe_ref i (Live j) \<longleftrightarrow> j \<noteq> i" "safe_ref i Expired" "safe_ref i (Transient v) \<longleftrightarrow> row_id v \<noteq> i"
  by (simp_all add: safe_ref_def)

lemma safe_visit_of: "safe_batch i b \<Longrightarrow> visit_of b p = Some r \<Longrightarrow> safe_ref i r"
proof -
  assume b: "safe_batch i b" and "visit_of b p = Some r"
  then have "map_of (active b) p = Some (Some r)" by (simp add: visit_of_def dict_get_def split: option.splits)
  then have "(p, Some r) \<in> set (active b)" by (rule map_of_SomeD)
  then show ?thesis using b unfolding safe_batch_def by blast
qed

lemma dict_set_mem: "(p, x) \<in> set (dict_set d k v) \<Longrightarrow> (p, x) \<in> set d \<or> x = v"
  by (induction d k v rule: dict_set.induct) (auto split: if_splits)

lemma safe_batch_set:
  "safe_batch i b \<Longrightarrow> (\<And>r. x = Some r \<Longrightarrow> safe_ref i r) \<Longrightarrow> safe_batch i (b\<lparr>active := dict_set (active b) p x, seen_at := s\<rparr>)"
  by (auto simp: safe_batch_def dest: dict_set_mem)

lemma load_yields: "safe_ref i r \<Longrightarrow> yields (archived i u) (load_ref r) (\<lambda>v. row_id v \<noteq> i)"
  by (rule yieldsI) (auto simp: load_ref_def repo_get_def bindM_run raise_def ret_def safe_ref_def dest: table_get_Some
      split: vref.splits option.splits)

lemma archived_visit_row:
  "j \<noteq> i \<Longrightarrow> (\<And>r. row_id (f r) = row_id r) \<Longrightarrow> keeps (archived i u) (set_row VisitRepo j f)"
  by (rule keepsI) (simp add: set_row_def archived_def holds_update)

lemma archived_visit_delete: "j \<noteq> i \<Longrightarrow> keeps (archived i u) (repo_delete VisitRepo j)"
  by (rule keepsI) (simp add: repo_delete_def archived_def holds_delete)

lemma archived_publish [keeps_intros]: "keeps (archived i u) (publish_status_change p)"
  unfolding publish_status_change_def
  by (auto intro!: keeps_intros keeps_modify simp: archived_def split: prod.split)

lemma save_yields: "safe_ref i r \<Longrightarrow> row_id v \<noteq> i \<Longrightarrow> yields (archived i u) (save_ref r v) (safe_ref i)"
proof (cases r)
  case (Live j)
  assume "safe_ref i r"
  then show ?thesis using Live
    by (auto simp: save_ref_def set_attrs_def intro!: yields_seqM archived_visit_row yields_ret)
next
  case (Transient v0)
  assume "row_id v \<noteq> i"
  then show ?thesis using Transient
    by (intro yieldsI) (auto simp: save_ref_def readd_visit_def archived_def holds_append)
qed (simp add: save_ref_def yields_ret)

lemma archived_delete_ref: "safe_ref i r \<Longrightarrow> keeps (archived i u) (delete_ref r)"
  by (auto simp: delete_ref_def intro!: keeps_intros archived_visit_delete split: vref.split)

lemma close_yields:
  "safe_ref i r \<Longrightarrow> row_id v \<noteq> i \<Longrightarrow> yields (archived i u) (close_ref cfg r v t) (\<lambda>(r', v'). safe_ref i r')"
  unfolding close_ref_def
  by (auto split: close_result.split dest: maybe_close_frame(1)
      intro!: yields_seqM yields_ret yields_bindM [OF save_yields] archived_delete_ref keeps_intros)

lemma apply_yields: "safe_ref i r \<Longrightarrow> row_id v \<noteq> i \<Longrightarrow> yields (archived i u) (apply_ref cfg r v t e) (safe_ref i)"
  using apply_frame(1) [of cfg v t e] unfolding apply_ref_def
  by (auto split: prod.split intro!: yields_seqM save_yields keeps_intros simp del: apply_frame)

text \<open>What other connections do meanwhile keeps the archive too.\<close>

definition archivists :: "(world \<Rightarrow> world) \<Rightarrow> bool" where
  "archivists env \<longleftrightarrow> (\<forall>i u w. archived i u w \<longrightarrow> archived i u (env w))"

lemma add_visit_yields: "yields (archived i u) (add_row VisitRepo v) (\<lambda>j. j \<noteq> i)"
  by (rule yieldsI) (auto simp: visit_model.add_row_run Let_def archived_def holds_insert, simp add: holds_def)

lemma insert_yields:
  "archivists env \<Longrightarrow> yields (archived i u) (insert_visit env v e) (safe_ref i)"
  unfolding insert_visit_def
  by (auto intro!: yields_bindM [OF add_visit_yields] yields_seqM yields_bind_keeps yields_ret keeps_intros keeps_modify
      yields_keeps [OF load_yields] simp: archivists_def)

lemma get_open_yields:
  "yields (archived i u) (get_open_for_pair t s) (\<lambda>x. \<forall>v. x = Some v \<longrightarrow> row_id v \<noteq> i)"
  unfolding get_open_for_pair_def
  by (rule yields_gets) (auto dest!: first_or_none_filter_Some simp: visit_is_open_def dest: archived_row)

lemma create_or_get_yields:
  "archivists env \<Longrightarrow> yields (archived i u) (create_or_get_open_visit env t s f e) (\<lambda>(x, b). \<forall>r. x = Some r \<longrightarrow> safe_ref i r)"
  unfolding create_or_get_open_visit_def
  by (auto intro!: yields_tryM yields_bindM [OF insert_yields] yields_bindM [OF get_open_yields] yields_ret yields_seqM yields_raise
      keeps_intros)

lemma safe_expire: "safe_ref i r \<Longrightarrow> safe_ref i (expire_ref lost kept r)"
  by (auto simp: expire_ref_def split: vref.splits option.splits dest: table_get_Some)

lemma safe_batch_expire:
  "safe_batch i b \<Longrightarrow> safe_batch i (b\<lparr>active := map (\<lambda>(p, x). (p, map_option (expire_ref lost kept) x)) (active b)\<rparr>)"
  unfolding safe_batch_def by auto (metis (no_types, lifting) map_option_eq_Some safe_expire)

lemma start_yields:
  assumes "archivists env" and b: "safe_batch i b"
  shows "yields (archived i u) (start_visit env p t e b) (safe_batch i)"
proof -
  have step: "safe_batch i (let act = (if rolled then map (\<lambda>(p, x). (p, map_option (expire_ref lost kept) x)) (active b) else active b)
       in b\<lparr>active := dict_set act p r, seen_at := s\<rparr>)" if "\<forall>x. r = Some x \<longrightarrow> safe_ref i x" for rolled lost kept r s
    using safe_batch_set [OF safe_batch_expire [OF b, of lost kept], where x = r and p = p and s = s]
      safe_batch_set [OF b, where x = r and p = p and s = s] that
    by (auto simp: Let_def)
  show ?thesis
    unfolding start_visit_def Let_def
    by (rule yields_bind_keeps [OF keeps_gets], rule yields_bindM [OF create_or_get_yields [OF assms(1)]])
       (auto intro!: yields_bind_keeps keeps_gets yields_ret step [unfolded Let_def])
qed

lemma seen_gap_keeps [keeps_intros]: "keeps I (seen_gap b p t)"
  by (auto simp: seen_gap_def intro!: keeps_intros split: option.split)

lemma close_out_yields:
  assumes b: "safe_batch i b"
  shows "yields (archived i u) (close_out cfg p t b) (safe_batch i)"
proof (cases "visit_of b p")
  case (Some r)
  note r = safe_visit_of [OF b Some]
  have close: "yields (archived i u) (bindM (close_ref cfg r (v\<lparr>v_state := LEAVING\<rparr>) t)
      (\<lambda>(r', _). ret (b\<lparr>active := dict_set (active b) p (Some r'), seen_at := s\<rparr>))) (safe_batch i)" if "row_id v \<noteq> i" for v s
    by (rule yields_bindM [OF close_yields [OF r]]) (use that b in \<open>auto intro!: yields_ret safe_batch_set\<close>)
  show ?thesis
    unfolding close_out_def using Some b
    by (auto intro!: yields_bindM [OF load_yields [OF r]] yields_ret yields_bind_keeps [OF seen_gap_keeps] close)
qed (simp add: close_out_def yields_ret b)

lemma advance_yields:
  "archivists env \<Longrightarrow> safe_batch i b \<Longrightarrow> yields (archived i u) (advance cfg env p t e b) (safe_batch i)"
  unfolding advance_def
  by (auto intro!: yields_ret yields_bindM [OF load_yields] yields_bindM [OF apply_yields] start_yields safe_batch_set
      dest: safe_visit_of split: option.split)

lemma process_event_yields:
  "archivists env \<Longrightarrow> safe_batch i b \<Longrightarrow> yields (archived i u) (process_event cfg env sid b e) (safe_batch i)"
  unfolding process_event_def
  by (auto intro!: yields_ret yields_bindM [OF close_out_yields] advance_yields split: option.split)

lemma opened_yields: "yields (archived i u) (open_visits_for_station sid) (safe_batch i)"
proof -
  have "yields (archived i u) (list_open_for_station sid) (\<lambda>rows. \<forall>v \<in> set rows. row_id v \<noteq> i)"
    unfolding list_open_for_station_def
    by (rule yields_gets) (auto simp: visit_is_open_def dest: archived_row)
  moreover have "safe_batch i \<lparr>active = dict_of (map (\<lambda>v. (visit_pair v, Some (Live (row_id v)))) rows), seen_at = s\<rparr>"
    if "\<forall>v \<in> set rows. row_id v \<noteq> i" for rows s
  proof -
    have "(p, x) \<in> set (fold (\<lambda>(k, v) d. dict_set d k v) kvs d) \<Longrightarrow> (p, x) \<in> set d \<or> x \<in> snd ` set kvs"
      for p and x :: "vref option" and kvs d
      by (induction kvs arbitrary: d) (force dest: dict_set_mem)+
    then show ?thesis using that unfolding safe_batch_def dict_of_def by fastforce
  qed
  ultimately show ?thesis
    unfolding open_visits_for_station_def by (auto intro!: yields_bindM yields_ret)
qed

lemma force_close_keeps: "(\<And>r. x = Some r \<Longrightarrow> safe_ref i r) \<Longrightarrow> keeps (archived i u) (force_close cfg t x)"
  unfolding force_close_def
  by (auto intro!: keeps_intros keeps_bind_yields [OF load_yields] yields_keeps [OF close_yields] split: option.split)

lemma visits_of_video_keeps: 
  assumes "archivists env"
  shows "keeps (archived i u) (process_video_for_visits cfg env video evs)"
proof -
  have force: "keeps (archived i u) (forM (force_close cfg t) (dict_values (active b)))" if "safe_batch i b" for t b
    using that by (auto simp: safe_batch_def dict_values_def intro!: keeps_forM force_close_keeps)
  have fold: "yields (archived i u) (foldM (process_event cfg env sid) b evs) (safe_batch i)" if "safe_batch i b" for sid b evs
    by (rule yields_foldM [where P = "safe_batch i"]) (use that in \<open>auto intro: process_event_yields [OF assms]\<close>)
  have "keeps (archived i u) (bindM (open_visits_for_station sid) (\<lambda>b0. bindM (foldM (process_event cfg env sid) b0 evs) (\<lambda>b.
      seqM (forM (force_close cfg t) (dict_values (active b))) commit)))" for sid evs t
    by (rule keeps_bind_yields [OF opened_yields], erule keeps_bind_yields [OF fold]) (intro keeps_seqM force archived_commit)
  then show ?thesis
    unfolding process_video_for_visits_def Let_def by (auto intro!: keeps_intros split: option.split)
qed

lemma check_stale_keeps: "keeps (archived i u) (check_stale_visits cfg)"
proof -
  have rows: "yields (archived i u) list_active (\<lambda>rows. \<forall>v \<in> set rows. row_id v \<noteq> i)"
    unfolding list_active_def by (rule yields_gets) (auto dest: archived_row)
  have loop: "keeps (archived i u) (foldM (check_one cfg now) n rows)" if "\<forall>v \<in> set rows. row_id v \<noteq> i" for now n rows
    using that
  proof (induction rows arbitrary: n)
    case (Cons v rows)
    have "keeps (archived i u) (check_one cfg now n v)"
      using Cons.prems by (auto simp: check_one_def intro!: keeps_bindM yields_keeps [OF close_yields] keeps_intros)
    then show ?case using Cons by (auto intro!: keeps_bindM)
  qed (simp add: keeps_ret)
  show ?thesis
    unfolding check_stale_visits_def
    by (rule keeps_bind_yields [OF rows]) (auto intro!: loop keeps_bindM keeps_seqM archived_now archived_commit keeps_ret)
qed

lemma recover_keeps: "keeps (archived i u) (recover_open_visits cfg)"
proof -
  have rows: "yields (archived i u) list_open (\<lambda>rows. \<forall>v \<in> set rows. row_id v \<noteq> i)"
    unfolding list_open_def by (rule yields_gets) (auto simp: visit_is_open_def dest: archived_row)
  have loop: "keeps (archived i u) (foldM (recover_one cfg now) n rows)" if "\<forall>v \<in> set rows. row_id v \<noteq> i" for now n rows
    using that
  proof (induction rows arbitrary: n)
    case (Cons v rows)
    have "keeps (archived i u) (recover_one cfg now n v)"
      using Cons.prems by (auto simp: recover_one_def intro!: keeps_intros archived_visit_delete split: option.split)
    then show ?case using Cons by (auto intro!: keeps_bindM)
  qed (simp add: keeps_ret)
  show ?thesis
    unfolding recover_open_visits_def
    by (rule keeps_bind_yields [OF rows]) (auto intro!: loop keeps_bindM keeps_seqM archived_now archived_commit keeps_ret)
qed

section \<open>Videos, events and the scheduler\<close>

lemma archived_video_service [keeps_intros]:
  "keeps (archived i u) (create_and_commit H uri s e st m)"
  "keeps (archived i u) (update_status j ns em)"
  "keeps (archived i u) (update_counters j a b c)"
  "keeps (archived i u) (increment_retry_count j)"
  "keeps (archived i u) (mark_unlimited_retry j)"
  "keeps (archived i u) (get_or_create_edge_sentinel H j code s e)"
  by (auto simp: create_and_commit_def update_status_def update_counters_def increment_retry_count_def
      mark_unlimited_retry_def get_or_create_edge_sentinel_def Let_def intro!: keeps_intros split: option.split)

lemma archived_failed [keeps_intros]:
  "keeps (archived i u) (move_to_failed f j)" "keeps (archived i u) (mark_permanently_failed f j s)"
  by (auto simp: move_to_failed_def mark_permanently_failed_def Let_def intro!: keeps_intros split: option.split)

lemma archived_create_many [keeps_intros]: "keeps (archived i u) (create_many ps)"
  by (auto simp: create_many_def intro!: keeps_intros)

lemma archived_recognize:
  assumes "archivists env"
  shows "keeps (archived i u) (recognize_video worker cfg env j uri st)"
  by (auto simp: recognize_video_def run_video_in_process_pool_def add_payload_def lookup_tractor_def aggregate_visits_def keeps_def [of _ "\<lambda>w. (_, w)"]
      intro!: keeps_intros visits_of_video_keeps [OF assms] split: option.split prod.split)

lemma archived_error_handling:
  assumes "archivists env"
  shows "keeps (archived i u) (process_video_with_error_handling worker cfg env j uri b)"
  by (auto simp: process_video_with_error_handling_def find_station_def fail_video_def
      intro!: keeps_intros archived_recognize [OF assms] split: option.split)

lemma archived_background:
  assumes "archivists env"
  shows "keeps (in_archive i u) (process_video_background worker cfg env j uri)"
  by (auto simp: process_video_background_def intro!: keeps_intros archived_error_handling [OF assms])

lemma archived_stale_videos [keeps_intros]: "keeps (archived i u) (get_stale_videos s m)"
  by (auto simp: get_stale_videos_def Let_def intro!: keeps_intros)

lemma archived_tick:
  assumes "archivists env"
  shows "keeps (in_archive i u) (tick worker vcfg env cfg)"
  by (auto simp: tick_def mark_stale_videos_def process_failed_videos_def process_single_def swallow_def handle_retry_failure_def
      failed_targets_def Let_def intro!: keeps_intros archived_error_handling [OF assms] split: option.split)

section \<open>The server\<close>

lemma keeps_request [keeps_intros]: "keeps (archived i u) m \<Longrightarrow> keeps (in_archive i u) (request n v m)"
  by (rule keepsI) (auto simp: request_def split: prod.split dest: keeps_run [OF archived_request])

lemma archived_registry [keeps_intros]:
  "keeps (archived i u) (create_station p)" "keeps (archived i u) (update_station j su)" "keeps (archived i u) (delete_station j)"
  "keeps (archived i u) (create_tractor tp)" "keeps (archived i u) (update_tractor j tu)" "keeps (archived i u) (delete_tractor j)"
  by (auto simp: create_station_def station_service_create_def update_station_def station_service_update_def delete_station_def
      station_service_delete_def create_tractor_def tractor_service_create_def update_tractor_def tractor_service_update_def
      delete_tractor_def tractor_service_delete_def on_integrity_error_def intro!: keeps_intros)

lemma archived_respond:
  assumes "archivists (dp_others D)"
  shows "keeps (in_archive i u) (respond D r)"
  by (cases r) (auto simp: respond_def upload_video_def handle_video_endpoint_def handle_video_def post_ingest_def ingest_edge_batch_def Let_def
      intro!: keeps_intros archived_error_handling [OF assms] split: option.split list.split)

lemma archived_act:
  assumes "archivists (dp_others D)"
  shows "keeps (in_archive i u) (act D a)"
  by (cases a) (auto simp: act_def tick_now_def background_process_def run_loop_turn_def visit_stale_check_turn_def lifespan_startup_def
      intro!: keeps_intros archived_respond archived_background archived_tick check_stale_keeps recover_keeps assms)

lemma archived_server:
  assumes "archivists (dp_others D)"
  shows "keeps (in_archive i u) (run_server D acts)"
  unfolding run_server_def swallow_def by (auto intro!: keeps_intros archived_act assms)

section \<open>Properties\<close>

text \<open>
  C4: Closed visits are final: whatever requests the server serves and whatever its background
  work does, in any order, and whatever of it fails, a committed closed visit is neither
  removed nor changed; only its generated duration column is left out of the comparison.
\<close>

theorem closed_visits_are_final:
  assumes "archivists (dp_others D)" and "db_wf (committed w)"
    and "v \<in> set (tbl_rows (visits (committed w)))" and "v_state v = CLOSED"
  shows "\<exists>v' \<in> set (tbl_rows (visits (committed (snd (run_server D acts w))))).
    v'\<lparr>v_duration_seconds := None\<rparr> = v\<lparr>v_duration_seconds := None\<rparr>"
proof -
  have wf: "table_wf (visits (committed w))" using assms(2) by (simp add: db_wf_def)
  have "v' = v" if "v' \<in> set (tbl_rows (visits (committed w)))" "row_id v' = row_id v" for v'
    by (rule row_unique [OF wf that(1) assms(3) that(2)])
  then have "in_archive (row_id v) (timeless v) w"
    using assms(3,4) wf by (auto simp: in_archive_def holds_def table_wf_def table_ids_def list_all_iff)
  from keepsD [OF archived_server [OF assms(1)] this] show ?thesis
    by (auto simp: in_archive_def holds_def timeless_def)
qed

text \<open>Other servers on the same database are such others.\<close>

lemma servers_are_archivists:
  assumes "archivists (dp_others D)"
  shows "archivists (\<lambda>w. w\<lparr>committed := committed (snd (run_server D acts w))\<rparr>)"
proof -
  have "in_archive i u (snd (run_server D acts w))" if "archived i u w" for i u w
    using keepsD [OF archived_server [OF assms]] that by (simp add: archived_def in_archive_def)
  then show ?thesis by (simp add: archivists_def archived_def in_archive_def)
qed

theorem closed_visits_are_final_witness:
  "\<exists>v' \<in> set (tbl_rows (visits (committed (snd (run_server
       (sample_deployment\<lparr>dp_others := \<lambda>w. w\<lparr>committed := committed (snd (run_server sample_deployment busy_day w))\<rparr>\<rparr>)
       busy_day (world_of (plant [closed1]))))))). v'\<lparr>v_duration_seconds := None\<rparr> = closed1\<lparr>v_duration_seconds := None\<rparr>"
proof -
  have "archivists (dp_others sample_deployment)" by (simp add: sample_deployment_def archivists_def)
  from servers_are_archivists [OF this] show ?thesis
    by (intro closed_visits_are_final)
       (simp_all add: closed1_def sample_defs db_wf_def table_wf_def table_ids_def)
qed

end
