(* ===== verification/SchemaSafety.thy ===== *)
theory SchemaSafety
  imports Server
begin

text \<open>
  The database is well typed at all times: what the server commits satisfies every constraint of the schema. The
  constraints are checked by the database; what the proof adds is that ids stay unique, although the visit
  service adds objects again whose rows a rollback took away.
\<close>

section \<open>References and the table\<close>

definition ref_id :: "vref \<Rightarrow> int option" where
  "ref_id r = (case r of Live j \<Rightarrow> Some j | Expired \<Rightarrow> None | Transient v \<Rightarrow> Some (row_id v))"

text \<open>A row that a rollback took away is nowhere in the database, and its id is not handed out again.\<close>

definition ref_ok :: "world \<Rightarrow> vref \<Rightarrow> bool" where
  "ref_ok w r \<longleftrightarrow> (case r of
       Live j \<Rightarrow> j < tbl_seq (visits (working w))
     | Expired \<Rightarrow> True
     | Transient v \<Rightarrow> row_id v < tbl_seq (visits (working w)) \<and> row_id v \<notin> set (table_ids (visits (working w)))
         \<and> row_id v \<notin> set (table_ids (visits (committed w))))"

definition batch_ok :: "batch \<Rightarrow> world \<Rightarrow> bool" where
  "batch_ok b w \<longleftrightarrow> world_ok w \<and> distinct (map fst (active b))
     \<and> (\<forall>p r. visit_of b p = Some r \<longrightarrow> ref_ok w r)
     \<and> (\<forall>p q r s. visit_of b p = Some r \<longrightarrow> visit_of b q = Some s \<longrightarrow> ref_id r \<noteq> None \<longrightarrow> ref_id r = ref_id s \<longrightarrow> p = q)"

lemma ref_simps [simp]: "ref_id (Live j) = Some j" "ref_id Expired = None" "ref_id (Transient v) = Some (row_id v)"
  "ref_ok w (Live j) \<longleftrightarrow> j < tbl_seq (visits (working w))" "ref_ok w Expired"
  by (simp_all add: ref_id_def ref_ok_def)

lemma visit_of_set [simp]:
  "visit_of (b\<lparr>active := dict_set (active b) p x, seen_at := s\<rparr>) q = (if q = p then x else visit_of b q)"
  by (simp add: visit_of_def)

lemma batch_okI:
  "world_ok w \<Longrightarrow> distinct (map fst (active b)) \<Longrightarrow> (\<And>p r. visit_of b p = Some r \<Longrightarrow> ref_ok w r) \<Longrightarrow>
   (\<And>p q r s. visit_of b p = Some r \<Longrightarrow> visit_of b q = Some s \<Longrightarrow> ref_id r \<noteq> None \<Longrightarrow> ref_id r = ref_id s \<Longrightarrow> p = q) \<Longrightarrow> batch_ok b w"
  unfolding batch_ok_def by blast

lemma batch_okD:
  assumes "batch_ok b w"
  shows "world_ok w" "distinct (map fst (active b))" "visit_of b p = Some r \<Longrightarrow> ref_ok w r"
    "visit_of b p = Some r \<Longrightarrow> visit_of b q = Some s \<Longrightarrow> ref_id r \<noteq> None \<Longrightarrow> ref_id r = ref_id s \<Longrightarrow> p = q"
  using assms unfolding batch_ok_def by blast+

lemmas batch_world = batch_okD(1)

text \<open>Ids come into the table only from the sequence, or back from what is committed.\<close>

definition moves_on :: "world \<Rightarrow> world \<Rightarrow> bool" where
  "moves_on w w' \<longleftrightarrow> tbl_seq (visits (working w)) \<le> tbl_seq (visits (working w'))
     \<and> (\<forall>i < tbl_seq (visits (working w)). i \<in> set (table_ids (visits (working w'))) \<union> set (table_ids (visits (committed w')))
          \<longrightarrow> i \<in> set (table_ids (visits (working w))) \<union> set (table_ids (visits (committed w))))"

lemma ref_ok_moves: "ref_ok w r \<Longrightarrow> moves_on w w' \<Longrightarrow> ref_ok w' r"
  by (cases r) (auto simp: ref_ok_def moves_on_def)

lemma batch_ok_moves: "batch_ok b w \<Longrightarrow> world_ok w' \<Longrightarrow> moves_on w w' \<Longrightarrow> batch_ok b w'"
proof (rule batch_okI)
  assume b: "batch_ok b w" and w': "world_ok w'" and m: "moves_on w w'"
  show "world_ok w'" by (rule w')
  show "distinct (map fst (active b))" by (rule batch_okD(2) [OF b])
  show "ref_ok w' r" if "visit_of b p = Some r" for p r by (rule ref_ok_moves [OF batch_okD(3) [OF b that] m])
  show "p = q" if "visit_of b p = Some r" "visit_of b q = Some s" "ref_id r \<noteq> None" "ref_id r = ref_id s" for p q r s
    by (rule batch_okD(4) [OF b that])
qed

lemma moves_on_same:
  "set (table_ids (visits (working w'))) \<subseteq> set (table_ids (visits (working w))) \<union> set (table_ids (visits (committed w))) \<Longrightarrow>
   table_ids (visits (committed w')) = table_ids (visits (committed w)) \<Longrightarrow>
   tbl_seq (visits (working w)) \<le> tbl_seq (visits (working w')) \<Longrightarrow> moves_on w w'"
  by (auto simp: moves_on_def)

definition others_ok :: "(world \<Rightarrow> world) \<Rightarrow> bool" where
  "others_ok env \<longleftrightarrow> (\<forall>w. world_ok w \<longrightarrow> world_ok (env w) \<and> moves_on w (env w))"

text \<open>Replacing the reference of one pair.\<close>

lemma batch_ok_put:
  assumes b: "batch_ok b w" and w': "world_ok w'"
    and old: "\<And>q s. q \<noteq> p \<Longrightarrow> visit_of b q = Some s \<Longrightarrow> ref_ok w' s" and r: "\<And>r. x = Some r \<Longrightarrow> ref_ok w' r"
    and new: "\<And>r q s. x = Some r \<Longrightarrow> q \<noteq> p \<Longrightarrow> visit_of b q = Some s \<Longrightarrow> ref_id r \<noteq> None \<Longrightarrow> ref_id s \<noteq> ref_id r"
  shows "batch_ok (b\<lparr>active := dict_set (active b) p x, seen_at := t\<rparr>) w'"
proof (rule batch_okI)
  fix p' q r1 s1
  let ?b = "b\<lparr>active := dict_set (active b) p x, seen_at := t\<rparr>"
  assume v: "visit_of ?b p' = Some r1" "visit_of ?b q = Some s1" and i: "ref_id r1 \<noteq> None" "ref_id r1 = ref_id s1"
  consider "p' = p" "q = p" | "p' = p" "q \<noteq> p" | "p' \<noteq> p" "q = p" | "p' \<noteq> p" "q \<noteq> p" by blast
  then show "p' = q"
  proof cases
    case 2
    then show ?thesis using v i new [of r1 q s1] by simp
  next
    case 3
    then show ?thesis using v i new [of s1 p' r1] by simp
  next
    case 4
    then show ?thesis using v i by (auto intro: batch_okD(4) [OF b])
  qed simp
qed (use b w' r old in \<open>auto simp: dict_set_distinct batch_okD(2) split: if_splits\<close>)

lemma batch_ok_same_id:
  assumes b: "batch_ok b w" and p: "visit_of b p = Some r" and r: "ref_ok w r'" "ref_id r' = ref_id r"
  shows "batch_ok (b\<lparr>active := dict_set (active b) p (Some r'), seen_at := t\<rparr>) w"
proof (rule batch_ok_put [OF b batch_world [OF b]])
  fix r1 q s
  assume "Some r' = Some r1" "q \<noteq> p" "visit_of b q = Some s" "ref_id r1 \<noteq> None"
  then show "ref_id s \<noteq> ref_id r1" using batch_okD(4) [OF b p, of q s] r(2) by auto
qed (use r b in \<open>auto dest: batch_okD(3)\<close>)

section \<open>The steps of the visit service\<close>

lemma load_triple:
  "(\<And>s. P s \<Longrightarrow> E s) \<Longrightarrow> triple P (load_ref r) (\<lambda>v s. P s \<and> ref_id r = Some (row_id v)) E"
  by (rule tripleI) (auto simp: load_ref_def repo_get_def bindM_run raise_def ret_def dest: table_get_Some
      split: vref.splits option.splits)

lemma batch_ok_cong:
  "committed w' = committed w \<Longrightarrow> working w' = working w \<Longrightarrow> batch_ok b w \<Longrightarrow> batch_ok b w'"
proof -
  assume same: "committed w' = committed w" "working w' = working w" and b: "batch_ok b w"
  have "world_ok w'" using batch_world [OF b] same by (simp add: world_ok_def)
  then show ?thesis by (rule batch_ok_moves [OF b]) (simp add: moves_on_def same)
qed

lemma publish_triple: "triple (batch_ok b) (publish_status_change p) (\<lambda>_. batch_ok b) world_ok"
  by (rule tripleI)
     (auto simp: publish_status_change_def py_now_def modify_def bindM_run split: prod.splits elim: batch_ok_cong [rotated 2])

lemma publish_all_triple: "triple (batch_ok b) (forM publish_status_change ps) (\<lambda>_. batch_ok b) world_ok"
proof (induction ps)
  case Nil
  show ?case unfolding forM.simps by (rule triple_ret)
next
  case (Cons p ps)
  then show ?case unfolding forM.simps by (intro triple_seqM [OF publish_triple])
qed

lemma save_triple:
  assumes p: "visit_of b p = Some r" and v: "ref_id r = Some (row_id v)"
  shows "triple (batch_ok b) (save_ref r v)
    (\<lambda>r' s. \<forall>t. batch_ok (b\<lparr>active := dict_set (active b) p (Some r'), seen_at := t\<rparr>) s) world_ok"
proof (rule tripleI)
  fix w e w'
  assume "batch_ok b w" "save_ref r v w = (Inl e, w')"
  then show "world_ok w'" by (cases r) (simp_all add: save_ref_def seqM_def set_row_def readd_visit_def)
next
  fix w r' w'
  assume b: "batch_ok b w" and run: "save_ref r v w = (Inr r', w')"
  have w: "world_ok w" using b by (rule batch_world)
  show "\<forall>t. batch_ok (b\<lparr>active := dict_set (active b) p (Some r'), seen_at := t\<rparr>) w'"
  proof (cases r)
    case (Live j)
    have r': "r' = Live j" "snd (set_row VisitRepo j (set_attrs v) w) = w'"
      using run Live by (simp_all add: save_ref_def seqM_def set_row_def)
    have "world_ok w'"
      using keepsD [OF visit_model.keeps_set_row w, of "set_attrs v" j] r'(2) by (simp add: set_attrs_def)
    moreover have "moves_on w w'"
      unfolding r'(2) [symmetric] by (rule moves_on_same) (auto simp: set_row_def set_attrs_def table_update_def table_ids_def)
    ultimately have b': "batch_ok b w'" by (rule batch_ok_moves [OF b])
    have "ref_ok w' r" by (rule batch_okD(3) [OF b' p])
    then show ?thesis using batch_ok_same_id [OF b' p] r'(1) Live by simp
  next
    case Expired
    then show ?thesis using v by simp
  next
    case (Transient v0)
    have r': "r' = Live (row_id v)"
      "w' = w\<lparr>working := visits_update (\<lambda>t. t\<lparr>tbl_rows := tbl_rows t @ [v]\<rparr>) (working w)\<rparr>"
      using run Transient by (simp_all add: save_ref_def readd_visit_def)
    have ok: "ref_ok w r" by (rule batch_okD(3) [OF b p])
    then have id: "row_id v < tbl_seq (visits (working w))" "row_id v \<notin> set (table_ids (visits (working w)))"
      using v Transient by (simp_all add: ref_ok_def)
    have w': "world_ok w'" using w id
      by (auto simp: r'(2) world_ok_def db_wf_def table_wf_def table_ids_def list_all_iff)
    have other: "ref_ok w' s" if "visit_of b q = Some s" "q \<noteq> p" for q s
    proof -
      have "ref_ok w s" "ref_id s \<noteq> ref_id r" using batch_okD(3) [OF b that(1)] batch_okD(4) [OF b p that(1)] that(2) v by auto
      then show ?thesis using v by (cases s) (auto simp: ref_ok_def r'(2) table_ids_def)
    qed
    have id': "ref_id r' = ref_id r" using v r'(1) by simp
    have "ref_ok w' r'" using id(1) by (simp add: r')
    moreover have "ref_id s \<noteq> ref_id r'" if "visit_of b q = Some s" "q \<noteq> p" for q s
      using batch_okD(4) [OF b p that(1)] that(2) id' v by auto
    ultimately show ?thesis
      by (intro allI batch_ok_put [OF b w']) (auto intro: other)
  qed
qed

lemma close_triple:
  assumes p: "visit_of b p = Some r" and v: "ref_id r = Some (row_id v)"
  shows "triple (batch_ok b) (close_ref cfg r v t)
    (\<lambda>(r', v') s. \<forall>t. batch_ok (b\<lparr>active := dict_set (active b) p (Some r'), seen_at := t\<rparr>) s) world_ok"
proof -
  have keep: "\<forall>t. batch_ok (b\<lparr>active := dict_set (active b) p (Some r), seen_at := t\<rparr>) s" if "batch_ok b s" for s
    using batch_ok_same_id [OF that p batch_okD(3) [OF that p]] by blast
  have del: "triple (batch_ok b) (delete_ref r) (\<lambda>_. batch_ok b) world_ok"
  proof (rule tripleI)
    fix w a w'
    assume b: "batch_ok b w" and run: "delete_ref r w = (Inr a, w')"
    then obtain j where j: "r = Live j" "repo_delete VisitRepo j w = (Inr a, w')"
      by (cases r) (auto simp: delete_ref_def)
    have "world_ok w'" using keeps_run [OF visit_model.keeps_repo_delete batch_world [OF b] j(2)] .
    moreover have "moves_on w w'"
      using j(2) by (intro moves_on_same) (auto simp: repo_delete_def table_delete_def table_ids_def)
    ultimately show "batch_ok b w'" by (rule batch_ok_moves [OF b])
  next
    fix w e w'
    assume "batch_ok b w" "delete_ref r w = (Inl e, w')"
    then show "world_ok w'" by (cases r) (auto simp: delete_ref_def repo_delete_def batch_world)
  qed
  show ?thesis
  proof (cases "maybe_close_visit cfg v t")
    case Deleted
    then show ?thesis unfolding close_ref_def by (auto intro!: triple_seqM [OF del] triple_ret keep)
  next
    case (Kept v' ps)
    then have v': "ref_id r = Some (row_id v')" using v maybe_close_frame(1) by simp
    show ?thesis
    proof (cases "v_state v = ENTERING")
      case True
      then show ?thesis unfolding close_ref_def using Kept keep by (auto intro!: triple_ret)
    next
      case False
      then show ?thesis unfolding close_ref_def using Kept
        by (auto intro!: triple_seqM [OF publish_all_triple] triple_bindM [OF save_triple [OF p v']] triple_ret)
    qed
  qed
qed

lemma apply_triple:
  assumes p: "visit_of b p = Some r" and v: "ref_id r = Some (row_id v)"
  shows "triple (batch_ok b) (apply_ref cfg r v t e)
    (\<lambda>r' s. \<forall>t. batch_ok (b\<lparr>active := dict_set (active b) p (Some r'), seen_at := t\<rparr>) s) world_ok"
proof -
  obtain v' ps where a: "apply_state_transition cfg v t e = (v', ps)" by fastforce
  then have "ref_id r = Some (row_id v')" using v apply_frame(1) [of cfg v t e] by simp
  then show ?thesis
    unfolding apply_ref_def a prod.case by (intro triple_seqM [OF publish_all_triple] save_triple [OF p])
qed

lemma batch_ok_add:
  assumes b: "batch_ok b w" and run: "add_row VisitRepo v w = (r, w')"
  shows "r = Inr (tbl_seq (visits (working w)))" "batch_ok b w'" "tbl_seq (visits (working w')) = tbl_seq (visits (working w)) + 1"
proof -
  have w': "w' = w\<lparr>working := visits_update (\<lambda>_. snd (table_insert (txn_now w) v (visits (working w)))) (working w)\<rparr>"
    and r: "r = Inr (tbl_seq (visits (working w)))"
    using run by (simp_all add: visit_model.add_row_run Let_def)
  have "world_ok w'" using keeps_run [OF visit_model.keeps_add_row batch_world [OF b] run] .
  moreover have "moves_on w w'"
    by (auto simp: moves_on_def w' table_insert_def table_ids_def)
  ultimately show "batch_ok b w'" by (rule batch_ok_moves [OF b])
  show "r = Inr (tbl_seq (visits (working w)))" by (rule r)
  show "tbl_seq (visits (working w')) = tbl_seq (visits (working w)) + 1" by (simp add: w' table_insert_def)
qed

text \<open>The new row belongs to no reference yet.\<close>

definition fresh_for :: "batch \<Rightarrow> int \<Rightarrow> world \<Rightarrow> bool" where
  "fresh_for b j w \<longleftrightarrow> batch_ok b w \<and> j < tbl_seq (visits (working w)) \<and> (\<forall>p r. visit_of b p = Some r \<longrightarrow> ref_id r \<noteq> Some j)"

lemma ref_ok_seq: "ref_ok w r \<Longrightarrow> ref_id r = Some j \<Longrightarrow> j < tbl_seq (visits (working w))"
  by (cases r) (auto simp: ref_ok_def)

lemma add_triple: "triple (batch_ok b) (add_row VisitRepo v) (fresh_for b) (batch_ok b)"
proof (rule tripleI)
  fix w j w'
  assume b: "batch_ok b w" and run: "add_row VisitRepo v w = (Inr j, w')"
  note add = batch_ok_add [OF b run]
  have "ref_id r \<noteq> Some j" if "visit_of b p = Some r" for p r
    using ref_ok_seq [OF batch_okD(3) [OF b that], of j] add(1) by auto
  then show "fresh_for b j w'" using add by (auto simp: fresh_for_def)
qed (auto dest: batch_ok_add(1))

lemma fresh_moves: "fresh_for b j w \<Longrightarrow> world_ok w' \<Longrightarrow> moves_on w w' \<Longrightarrow> fresh_for b j w'"
  unfolding fresh_for_def by (auto intro: batch_ok_moves simp: moves_on_def)

lemma publish_fresh: "triple (fresh_for b j) (publish_status_change p) (\<lambda>_. fresh_for b j) (batch_ok b)"
proof (rule tripleI)
  fix w u w'
  assume f: "fresh_for b j w" and run: "publish_status_change p w = (Inr u, w')"
  then have "working w' = working w" by (auto simp: publish_status_change_def py_now_def modify_def bindM_run split: prod.splits)
  moreover have "batch_ok b w" using f by (simp add: fresh_for_def)
  ultimately show "fresh_for b j w'"
    using f run triple_Inr [OF publish_triple] by (auto simp: fresh_for_def)
next
  fix w e w'
  assume "publish_status_change p w = (Inl e, w')"
  then show "batch_ok b w'" by (auto simp: publish_status_change_def py_now_def modify_def bindM_run split: prod.splits)
qed

lemma insert_triple:
  assumes "others_ok env"
  shows "triple (batch_ok b) (insert_visit env v e) (\<lambda>r s. \<exists>j. r = Live j \<and> fresh_for b j s) (batch_ok b)"
proof -
  have env: "triple (fresh_for b j) (modify env) (\<lambda>_. fresh_for b j) (batch_ok b)" for j
  proof (rule tripleI)
    fix w u w'
    assume f: "fresh_for b j w" and run: "modify env w = (Inr u, w')"
    have "world_ok w" using f by (auto simp: fresh_for_def dest: batch_world)
    then have "world_ok w'" "moves_on w w'" using assms run by (auto simp: others_ok_def)
    then show "fresh_for b j w'" by (rule fresh_moves [OF f])
  qed simp
  have flush: "triple (fresh_for b j) flush (\<lambda>_. fresh_for b j) (batch_ok b)" for j
    by (rule tripleI) (auto simp: flush_def fresh_for_def split: if_splits)
  have load: "triple (fresh_for b j) (load_ref (Live j)) (\<lambda>_. fresh_for b j) (batch_ok b)" for j
    by (rule triple_weaken [OF load_triple [where P = "fresh_for b j" and E = "batch_ok b"]]) (auto simp: fresh_for_def)
  show ?thesis
    unfolding insert_visit_def
    by (rule triple_bindM [OF add_triple], rule triple_seqM [OF env], rule triple_seqM [OF flush], rule triple_bindM [OF load],
        rule triple_seqM [OF publish_fresh], rule triple_ret) auto
qed

text \<open>After a rollback the session's table is the committed one.\<close>

definition settled :: "world \<Rightarrow> bool" where
  "settled w \<longleftrightarrow> set (table_ids (visits (working w))) = set (table_ids (visits (committed w)))"

lemma rollback_triple: "triple (batch_ok b) rollback (\<lambda>_ s. batch_ok b s \<and> settled s) world_ok"
proof (rule tripleI)
  fix w u w'
  assume b: "batch_ok b w" and run: "rollback w = (Inr u, w')"
  then have w': "w' = rolled_back w" by (simp add: rollback_run)
  have "world_ok w'" using keeps_run [OF keeps_rollback batch_world [OF b] run] .
  moreover have ids: "table_ids (visits (working w')) = table_ids (visits (committed w))" "committed w' = committed w"
    by (simp_all add: w' table_ids_def)
  moreover have "moves_on w w'"
    by (rule moves_on_same) (simp_all add: ids, simp add: w' rewind_def rewind_table_def)
  ultimately show "batch_ok b w' \<and> settled w'" by (auto simp: settled_def intro: batch_ok_moves [OF b])
qed (simp add: rollback_run)

definition got_ref :: "batch \<Rightarrow> vref option \<times> bool \<Rightarrow> world \<Rightarrow> bool" where
  "got_ref b x w \<longleftrightarrow> batch_ok b w \<and>
     (if snd x then settled w \<and> (\<forall>r. fst x = Some r \<longrightarrow> (\<exists>j. r = Live j \<and> j \<in> set (table_ids (visits (working w)))))
      else \<exists>j. fst x = Some (Live j) \<and> fresh_for b j w)"

lemma create_or_get_triple:
  assumes "others_ok env"
  shows "triple (batch_ok b) (create_or_get_open_visit env t s f e) (got_ref b) world_ok"
proof -
  have get: "triple (\<lambda>w. batch_ok b w \<and> settled w) (get_open_for_pair t s)
      (\<lambda>x w. got_ref b (map_option (\<lambda>v. Live (row_id v)) x, True) w) world_ok"
    unfolding get_open_for_pair_def
    by (rule triple_gets) (auto simp: got_ref_def table_ids_def dest!: first_or_none_filter_Some)
  show ?thesis
    unfolding create_or_get_open_visit_def
  proof (rule triple_tryM)
    show "triple (batch_ok b) (bindM (insert_visit env (new_visit t s f e) e) (\<lambda>r. ret (Some r, False))) (got_ref b) (batch_ok b)"
      by (rule triple_bindM [OF insert_triple [OF assms]], rule triple_ret) (auto simp: got_ref_def fresh_for_def)
    show "triple (batch_ok b) (if exn_class e = IntegrityErr then seqM rollback (bindM (get_open_for_pair t s)
        (\<lambda>x. ret (map_option (\<lambda>v. Live (row_id v)) x, True))) else raise e) (got_ref b) world_ok" for e
      by (auto intro!: triple_seqM [OF rollback_triple] triple_bindM [OF get] triple_ret triple_raise dest: batch_world)
  qed
qed

lemma visit_of_expire:
  "visit_of (b\<lparr>active := map (\<lambda>(p, x). (p, map_option (expire_ref lost kept) x)) (active b)\<rparr>) q
     = map_option (expire_ref lost kept) (visit_of b q)"
proof -
  have "map_of (map (\<lambda>(p, x). (p, map_option (expire_ref lost kept) x)) d) q = map_option (map_option (expire_ref lost kept)) (map_of d q)"
    for d :: "(pair, vref option) dict"
    by (induction d) auto
  then show ?thesis by (simp add: visit_of_def dict_get_def split: option.split)
qed

lemma expire_id: "ref_id (expire_ref lost kept r) \<noteq> None \<Longrightarrow> ref_id (expire_ref lost kept r) = ref_id r"
  by (auto simp: expire_ref_def split: vref.splits option.splits dest: table_get_Some)

lemma expire_ok:
  assumes "ref_ok w r" and "settled w"
  shows "ref_ok w (expire_ref lost (visits (working w)) r)"
    and "ref_id (expire_ref lost (visits (working w)) r) = Some j \<Longrightarrow> j \<notin> set (table_ids (visits (working w)))"
  using assms table_get_None [of "visits (working w)"]
  by (auto simp: expire_ref_def ref_ok_def settled_def split: vref.splits option.splits dest: table_get_Some)

lemma batch_ok_expire:
  assumes b: "batch_ok b w" and s: "settled w"
  shows "batch_ok (b\<lparr>active := map (\<lambda>(p, x). (p, map_option (expire_ref lost (visits (working w))) x)) (active b)\<rparr>) w"
    (is "batch_ok ?b w")
proof (rule batch_okI)
  have "map fst (active ?b) = map fst (active b)" by (simp add: comp_def split_beta)
  then show "distinct (map fst (active ?b))" using batch_okD(2) [OF b] by (rule ssubst)
  show "ref_ok w r" if "visit_of ?b p = Some r" for p r
    using that batch_okD(3) [OF b, of p] expire_ok(1) [OF _ s] unfolding visit_of_expire by (auto simp del: split_paired_All)
  show "p = q" if r: "visit_of ?b p = Some r" "visit_of ?b q = Some r'" "ref_id r \<noteq> None" "ref_id r = ref_id r'" for p q r r'
  proof -
    obtain r0 r0' where o: "visit_of b p = Some r0" "visit_of b q = Some r0'" "r = expire_ref lost (visits (working w)) r0"
      "r' = expire_ref lost (visits (working w)) r0'"
      using r(1,2) unfolding visit_of_expire by auto
    have "ref_id r0 = ref_id r" "ref_id r0' = ref_id r'" using expire_id r(3,4) o(3,4) by metis+
    then show ?thesis using batch_okD(4) [OF b o(1,2)] r(3,4) by simp
  qed
qed (rule batch_world [OF b])

lemma start_triple:
  assumes "others_ok env"
  shows "triple (batch_ok b) (start_visit env p t e b) batch_ok world_ok"
proof -
  have step: "batch_ok (let act = (if snd x then map (\<lambda>(p, y). (p, map_option (expire_ref lost (visits (working w))) y)) (active b) else active b)
      in b\<lparr>active := dict_set act p (fst x), seen_at := s\<rparr>) w" if g: "got_ref b x w" for x w lost s
  proof (cases "snd x")
    case False
    then obtain j where j: "fst x = Some (Live j)" "fresh_for b j w" "batch_ok b w" using g by (auto simp: got_ref_def)
    then have "batch_ok (b\<lparr>active := dict_set (active b) p (fst x), seen_at := s\<rparr>) w"
      by (intro batch_ok_put [OF j(3) batch_world [OF j(3)]]) (auto simp: fresh_for_def dest: batch_okD(3))
    then show ?thesis using False by simp
  next
    case True
    then have b: "batch_ok b w" "settled w"
      and x: "\<And>r. fst x = Some r \<Longrightarrow> \<exists>j. r = Live j \<and> j \<in> set (table_ids (visits (working w)))"
      using g by (auto simp: got_ref_def)
    define b' where "b' = b\<lparr>active := map (\<lambda>(p, y). (p, map_option (expire_ref lost (visits (working w))) y)) (active b)\<rparr>"
    have b': "batch_ok b' w" unfolding b'_def by (rule batch_ok_expire [OF b])
    have wf: "table_wf (visits (working w))" using batch_world [OF b(1)] by (simp add: world_ok_def db_wf_def)
    have "batch_ok (b'\<lparr>active := dict_set (active b') p (fst x), seen_at := s\<rparr>) w"
    proof (rule batch_ok_put [OF b' batch_world [OF b']])
      show "ref_ok w r" if "fst x = Some r" for r
        using x [OF that] wf by (auto simp: table_wf_def list_all_iff)
      show "ref_id r' \<noteq> ref_id r" if "fst x = Some r" "visit_of b' q = Some r'" for r r' q
        using x [OF that(1)] that(2) expire_ok(2) [OF batch_okD(3) [OF b(1)] b(2)]
        unfolding b'_def visit_of_expire by fastforce
    qed (rule batch_okD(3) [OF b'])
    then show ?thesis using True by (simp add: b'_def)
  qed
  have "triple (got_ref b x) (case x of (r, rolled) \<Rightarrow> bindM (gets (\<lambda>w. visits (working w))) (\<lambda>kept.
       let act = (if rolled then map (\<lambda>(p, y). (p, map_option (expire_ref lost kept) y)) (active b) else active b)
       in ret (b\<lparr>active := dict_set act p r, seen_at := dict_set (seen_at b) p (Some t)\<rparr>))) batch_ok world_ok" for x lost
  proof (rule tripleI)
    fix w b' w'
    assume "got_ref b x w"
      "(case x of (r, rolled) \<Rightarrow> bindM (gets (\<lambda>w. visits (working w))) (\<lambda>kept.
         let act = (if rolled then map (\<lambda>(p, y). (p, map_option (expire_ref lost kept) y)) (active b) else active b)
         in ret (b\<lparr>active := dict_set act p r, seen_at := dict_set (seen_at b) p (Some t)\<rparr>))) w = (Inr b', w')"
    then show "batch_ok b' w'" using step [of x w lost "dict_set (seen_at b) p (Some t)"] by (auto simp: Let_def split: prod.splits)
  qed (auto simp: Let_def split: prod.splits)
  then show ?thesis
    unfolding start_visit_def
    by (intro triple_bindM [where Q = "\<lambda>_. batch_ok b"] triple_gets triple_bindM [OF create_or_get_triple [OF assms]])
qed

lemma keeps_triple_state: "(\<And>w r w'. m w = (r, w') \<Longrightarrow> w' = w) \<Longrightarrow> (\<And>w. P w \<Longrightarrow> E w) \<Longrightarrow> triple P m (\<lambda>_. P) E"
  by (rule tripleI) blast+

lemma close_out_triple: "triple (batch_ok b) (close_out cfg p t b) batch_ok world_ok"
proof (cases "visit_of b p")
  case None
  then show ?thesis by (simp add: close_out_def triple_ret)
next
  case (Some r)
  have gap: "triple (batch_ok b) (seen_gap b p t) (\<lambda>_. batch_ok b) world_ok"
    by (rule keeps_triple_state) (auto simp: seen_gap_def raise_def ret_def split: option.splits dest: batch_world)
  have close: "triple (batch_ok b) (bindM (close_ref cfg r (v\<lparr>v_state := LEAVING\<rparr>) t)
      (\<lambda>(r', _). ret (b\<lparr>active := dict_set (active b) p (Some r'), seen_at := s\<rparr>))) batch_ok world_ok"
    if "ref_id r = Some (row_id v)" for v s
    by (rule triple_bindM [OF close_triple [OF Some]]) (use that in \<open>auto intro!: triple_ret\<close>)
  have "triple (\<lambda>s. batch_ok b s \<and> ref_id r = Some (row_id v))
      (if v_state v = PRESENT
       then bindM (seen_gap b p t) (\<lambda>gap. if exit_confirm_seconds cfg \<le> gap
              then bindM (close_ref cfg r (v\<lparr>v_state := LEAVING\<rparr>) t)
                (\<lambda>(r', _). ret (b\<lparr>active := dict_set (active b) p (Some r'), seen_at := dict_set (seen_at b) p (Some t)\<rparr>))
              else ret b)
       else ret b) batch_ok world_ok" for v
  proof (cases "ref_id r = Some (row_id v)")
    case True
    have "triple (batch_ok b) (bindM (seen_gap b p t) (\<lambda>gap. if exit_confirm_seconds cfg \<le> gap
              then bindM (close_ref cfg r (v\<lparr>v_state := LEAVING\<rparr>) t)
                (\<lambda>(r', _). ret (b\<lparr>active := dict_set (active b) p (Some r'), seen_at := dict_set (seen_at b) p (Some t)\<rparr>))
              else ret b)) batch_ok world_ok"
      by (rule triple_bindM [OF gap]) (auto intro!: close [OF True] triple_ret)
    then show ?thesis using True by (auto intro: triple_ret)
  qed (simp add: triple_def)
  then show ?thesis
    unfolding close_out_def Some option.case
    by (intro triple_bindM [OF load_triple]) (auto dest: batch_world)
qed

lemma advance_triple:
  assumes "others_ok env"
  shows "triple (batch_ok b) (advance cfg env p t e b) batch_ok world_ok"
proof (cases "visit_of b p")
  case None
  then show ?thesis by (simp add: advance_def start_triple [OF assms])
next
  case (Some r)
  have "triple (\<lambda>s. batch_ok b s \<and> ref_id r = Some (row_id v))
      (if v_state v = CLOSED then start_visit env p t e b
       else bindM (apply_ref cfg r v t e) (\<lambda>r'. ret (b\<lparr>active := dict_set (active b) p (Some r'), seen_at := dict_set (seen_at b) p (Some t)\<rparr>)))
      batch_ok world_ok" for v
  proof (cases "ref_id r = Some (row_id v)")
    case True
    have "triple (batch_ok b) (bindM (apply_ref cfg r v t e)
        (\<lambda>r'. ret (b\<lparr>active := dict_set (active b) p (Some r'), seen_at := dict_set (seen_at b) p (Some t)\<rparr>))) batch_ok world_ok"
      by (rule triple_bindM [OF apply_triple [OF Some True]]) (auto intro!: triple_ret)
    then show ?thesis using True start_triple [OF assms] by simp
  qed (simp add: triple_def)
  then show ?thesis
    unfolding advance_def Some option.case
    by (intro triple_bindM [OF load_triple]) (auto dest: batch_world)
qed

lemma process_event_triple:
  "others_ok env \<Longrightarrow> triple (batch_ok b) (process_event cfg env sid b e) batch_ok world_ok"
  unfolding process_event_def
  by (auto intro!: triple_ret triple_bindM [OF close_out_triple] advance_triple split: option.split)

lemma dict_of_mem: "dict_get (fold (\<lambda>(k, v) d. dict_set d k v) kvs d) p = Some x \<Longrightarrow> (p, x) \<in> set kvs \<or> dict_get d p = Some x"
proof (induction kvs arbitrary: d)
  case (Cons kv kvs)
  obtain k v where kv: "kv = (k, v)" by (cases kv)
  have "(p, x) \<in> set kvs \<or> dict_get (dict_set d k v) p = Some x" by (rule Cons.IH) (use Cons.prems kv in simp)
  then show ?case using kv by (auto split: if_splits)
qed simp

lemma dict_of_keys: "distinct (map fst d) \<Longrightarrow> distinct (map fst (fold (\<lambda>(k, v) d. dict_set d k v) kvs d))"
  by (induction kvs arbitrary: d) (auto simp: dict_set_distinct)

lemma open_triple: "triple world_ok (open_visits_for_station sid) batch_ok world_ok"
proof -
  have rows: "triple world_ok (list_open_for_station sid) (\<lambda>rows w. world_ok w \<and> set rows \<subseteq> set (tbl_rows (visits (working w)))) world_ok"
    unfolding list_open_for_station_def by (rule triple_gets) auto
  have ok: "batch_ok \<lparr>active = dict_of (map (\<lambda>v. (visit_pair v, Some (Live (row_id v)))) rows), seen_at = s\<rparr> w"
    if w: "world_ok w" and rows: "set rows \<subseteq> set (tbl_rows (visits (working w)))" for rows s w
  proof -
    let ?b = "\<lparr>active = dict_of (map (\<lambda>v. (visit_pair v, Some (Live (row_id v)))) rows), seen_at = s\<rparr>"
    have wf: "table_wf (visits (working w))" using w by (simp add: world_ok_def db_wf_def)
    have live: "\<exists>v \<in> set rows. visit_pair v = p \<and> r = Live (row_id v)" if "visit_of ?b p = Some r" for p r
      using that by (auto simp: visit_of_def dict_of_def split: option.splits dest!: dict_of_mem)
    show ?thesis
    proof (rule batch_okI)
      show "distinct (map fst (active ?b))" by (simp add: dict_of_def dict_of_keys)
      show "ref_ok w r" if "visit_of ?b p = Some r" for p r
        using live [OF that] rows wf by (auto simp: table_wf_def table_ids_def list_all_iff)
      show "p = q" if r: "visit_of ?b p = Some r" "visit_of ?b q = Some r'" "ref_id r \<noteq> None" "ref_id r = ref_id r'" for p q r r'
      proof -
        obtain v v' where v: "v \<in> set rows" "v' \<in> set rows" "visit_pair v = p" "visit_pair v' = q" "row_id v = row_id v'"
          using live [OF r(1)] live [OF r(2)] r(4) by auto
        then have "v = v'" using row_unique [OF wf] rows by blast
        then show ?thesis using v(3,4) by simp
      qed
    qed (rule w)
  qed
  show ?thesis
    unfolding open_visits_for_station_def
    by (rule triple_bindM [OF rows], rule triple_ret) (elim conjE, erule (1) ok)
qed

text \<open>The closing loop replaces the references one by one.\<close>

lemma force_close_triple:
  assumes p: "visit_of b p = x"
  shows "triple (batch_ok b) (force_close cfg t x) (\<lambda>_ w. \<exists>b'. batch_ok b' w \<and> (\<forall>q. q \<noteq> p \<longrightarrow> visit_of b' q = visit_of b q)) world_ok"
proof (cases x)
  case None
  then show ?thesis unfolding force_close_def by (auto intro!: triple_raise dest: batch_world)
next
  case (Some r)
  have same: "\<exists>b'. batch_ok b' w \<and> (\<forall>q. q \<noteq> p \<longrightarrow> visit_of b' q = visit_of b q)" if "batch_ok b w" for w
    using that by blast
  have "triple (\<lambda>s. batch_ok b s \<and> ref_id r = Some (row_id v))
      (if v_state v \<noteq> CLOSED then seqM (close_ref cfg r v t) (ret ()) else ret ())
      (\<lambda>_ w. \<exists>b'. batch_ok b' w \<and> (\<forall>q. q \<noteq> p \<longrightarrow> visit_of b' q = visit_of b q)) world_ok" for v
  proof (cases "ref_id r = Some (row_id v)")
    case True
    have put: "\<exists>b'. batch_ok b' w \<and> (\<forall>q. q \<noteq> p \<longrightarrow> visit_of b' q = visit_of b q)"
      if "\<forall>t. batch_ok (b\<lparr>active := dict_set (active b) p (Some r'), seen_at := t\<rparr>) w" for r' w
      using that [rule_format, of "seen_at b"]
      by (intro exI [of _ "b\<lparr>active := dict_set (active b) p (Some r'), seen_at := seen_at b\<rparr>"]) (simp add: visit_of_def)
    have "triple (batch_ok b) (close_ref cfg r v t)
        (\<lambda>_ w. \<exists>b'. batch_ok b' w \<and> (\<forall>q. q \<noteq> p \<longrightarrow> visit_of b' q = visit_of b q)) world_ok"
      by (rule triple_weaken [OF close_triple [OF p [unfolded Some] True]]) (auto intro: put)
    then show ?thesis using True
      by (auto intro!: triple_seqM [where Q = "\<lambda>w. \<exists>b'. batch_ok b' w \<and> (\<forall>q. q \<noteq> p \<longrightarrow> visit_of b' q = visit_of b q)"] triple_ret same)
  qed (simp add: triple_def)
  then show ?thesis
    unfolding force_close_def Some option.case
    by (intro triple_bindM [OF load_triple]) (auto dest: batch_world)
qed

lemma force_all_triple:
  "distinct (map fst kvs) \<Longrightarrow> (\<And>q x. (q, x) \<in> set kvs \<Longrightarrow> visit_of b q = x) \<Longrightarrow>
   triple (batch_ok b) (forM (force_close cfg t) (map snd kvs)) (\<lambda>_. world_ok) world_ok"
proof (induction kvs arbitrary: b)
  case Nil
  show ?case unfolding forM.simps list.map by (rule triple_ret) (rule batch_world)
next
  case (Cons kv kvs)
  obtain p x where kv: "kv = (p, x)" by (cases kv)
  let ?Q = "\<lambda>w. \<exists>b'. batch_ok b' w \<and> (\<forall>q. q \<noteq> p \<longrightarrow> visit_of b' q = visit_of b q)"
  have one: "triple (batch_ok b) (force_close cfg t x) (\<lambda>_. ?Q) world_ok"
    by (rule force_close_triple) (use Cons.prems(2) kv in simp)
  have rest: "triple ?Q (forM (force_close cfg t) (map snd kvs)) (\<lambda>_. world_ok) world_ok"
  proof (rule tripleI)
    fix w e w'
    assume "?Q w" and run: "forM (force_close cfg t) (map snd kvs) w = (Inl e, w')"
    then obtain b' where b': "batch_ok b' w" "\<forall>q. q \<noteq> p \<longrightarrow> visit_of b' q = visit_of b q" by blast
    have "triple (batch_ok b') (forM (force_close cfg t) (map snd kvs)) (\<lambda>_. world_ok) world_ok"
      by (rule Cons.IH) (use Cons.prems b'(2) kv in \<open>force+\<close>)
    from triple_Inl [OF this b'(1) run] show "world_ok w'" .
  next
    fix w u w'
    assume "?Q w" and run: "forM (force_close cfg t) (map snd kvs) w = (Inr u, w')"
    then obtain b' where b': "batch_ok b' w" "\<forall>q. q \<noteq> p \<longrightarrow> visit_of b' q = visit_of b q" by blast
    have "triple (batch_ok b') (forM (force_close cfg t) (map snd kvs)) (\<lambda>_. world_ok) world_ok"
      by (rule Cons.IH) (use Cons.prems b'(2) kv in \<open>force+\<close>)
    from triple_Inr [OF this b'(1) run] show "world_ok w'" .
  qed
  show ?case unfolding kv list.map forM.simps prod.sel by (rule triple_seqM [OF one rest])
qed

lemma visits_of_video_typed:
  assumes "others_ok env"
  shows "keeps world_ok (process_video_for_visits cfg env video evs)"
proof -
  have loop: "triple (batch_ok b) (forM (force_close cfg t) (dict_values (active b))) (\<lambda>_. world_ok) world_ok" for t b
  proof (cases "distinct (map fst (active b))")
    case True
    then show ?thesis unfolding dict_values_def
      by (intro force_all_triple) (auto simp: visit_of_def dict_get_def)
  qed (simp add: triple_def batch_ok_def)
  have "triple world_ok (bindM (open_visits_for_station sid) (\<lambda>b0. bindM (foldM (process_event cfg env sid) b0 evs) (\<lambda>b.
      seqM (forM (force_close cfg t) (dict_values (active b))) commit))) (\<lambda>_. world_ok) world_ok" for sid evs t
    by (intro triple_bindM [OF open_triple] triple_bindM [OF triple_foldM] process_event_triple [OF assms]
        triple_seqM [OF loop] triple_keeps keeps_commit)
  from keeps_triple [OF this] show ?thesis
    unfolding process_video_for_visits_def Let_def by (auto intro!: keeps_intros split: option.split)
qed

section \<open>The other operations\<close>

lemma close_live_typed: "keeps world_ok (close_ref cfg (Live j) v t)"
  by (auto simp: close_ref_def delete_ref_def save_ref_def set_attrs_def publish_status_change_def
      intro!: keeps_intros visit_model.keeps_set_row keeps_modify split: close_result.split prod.split)
     (simp add: world_ok_def)

lemma check_stale_typed: "keeps world_ok (check_stale_visits cfg)"
  by (auto simp: check_stale_visits_def check_one_def intro!: keeps_intros close_live_typed)

lemma recover_typed: "keeps world_ok (recover_open_visits cfg)"
  by (auto simp: recover_open_visits_def recover_one_def intro!: keeps_intros split: option.split)

lemma files_typed [keeps_intros]:
  "keeps world_ok (write_file p c)" "keeps world_ok (unlink_file p)" "keeps world_ok (move_file a b)" "keeps world_ok (path_exists p)"
  by (rule keepsI, simp add: write_file_def unlink_file_def move_file_def path_exists_def world_ok_def)+

lemma create_many_typed [keeps_intros]: "keeps world_ok (create_many ps)"
  by (auto simp: create_many_def intro!: keeps_intros)

lemma recognize_typed:
  assumes "others_ok env"
  shows "keeps world_ok (recognize_video worker cfg env j uri st)"
  by (auto simp: recognize_video_def run_video_in_process_pool_def add_payload_def lookup_tractor_def aggregate_visits_def keeps_def [of _ "\<lambda>w. (_, w)"]
      intro!: keeps_intros visits_of_video_typed [OF assms] split: option.split prod.split)

lemma error_handling_typed:
  assumes "others_ok env"
  shows "keeps world_ok (process_video_with_error_handling worker cfg env j uri b)"
  by (auto simp: process_video_with_error_handling_def find_station_def fail_video_def
      intro!: keeps_intros recognize_typed [OF assms] split: option.split)

lemma tick_typed:
  assumes "others_ok env"
  shows "keeps world_ok (tick worker vcfg env cfg)"
  by (auto simp: tick_def mark_stale_videos_def process_failed_videos_def process_single_def swallow_def handle_retry_failure_def
      failed_targets_def Let_def intro!: keeps_intros error_handling_typed [OF assms] split: option.split)

lemma request_typed [keeps_intros]: "keeps world_ok m \<Longrightarrow> keeps world_ok (request n v m)"
  by (rule keepsI) (auto simp: request_def split: prod.split dest: keeps_run [OF keeps_get_async_session])

lemma registry_typed [keeps_intros]:
  "keeps world_ok (create_station p)" "keeps world_ok (update_station j su)" "keeps world_ok (delete_station j)"
  "keeps world_ok (create_tractor tp)" "keeps world_ok (update_tractor j tu)" "keeps world_ok (delete_tractor j)"
  by (auto simp: create_station_def station_service_create_def update_station_def station_service_update_def delete_station_def
      station_service_delete_def create_tractor_def tractor_service_create_def update_tractor_def tractor_service_update_def
      delete_tractor_def tractor_service_delete_def on_integrity_error_def apply_station_update_def apply_tractor_update_def
      intro!: keeps_intros station_model.keeps_repo_update tractor_model.keeps_repo_update)

lemma respond_typed:
  assumes "others_ok (dp_others D)"
  shows "keeps world_ok (respond D r)"
  by (cases r) (auto simp: respond_def upload_video_def handle_video_endpoint_def handle_video_def post_ingest_def ingest_edge_batch_def Let_def
      intro!: keeps_intros video_model.keeps_repo_update error_handling_typed [OF assms] split: option.split list.split)

lemma act_typed:
  assumes "others_ok (dp_others D)"
  shows "keeps world_ok (act D a)"
  by (cases a) (auto simp: act_def tick_now_def background_process_def process_video_background_def run_loop_turn_def visit_stale_check_turn_def
      lifespan_startup_def intro!: keeps_intros respond_typed error_handling_typed tick_typed check_stale_typed recover_typed assms)

section \<open>Properties\<close>


text \<open>Another process that commits a visit when it may.\<close>

definition newcomer :: "visit \<Rightarrow> world \<Rightarrow> world" where
  "newcomer v w = (let i = tbl_seq (visits (working w));
       w' = w\<lparr>committed := visits_update (\<lambda>t. \<lparr>tbl_rows = tbl_rows t @ [v\<lparr>row_id := i\<rparr>], tbl_seq = i + 1\<rparr>) (committed w),
              working := visits_update (\<lambda>t. t\<lparr>tbl_seq := i + 1\<rparr>) (working w)\<rparr>
     in if world_ok w' then w' else w)"

lemma newcomer_ok: "others_ok (newcomer v)"
  unfolding others_ok_def
proof (intro allI impI conjI)
  fix w assume w: "world_ok w"
  then show "world_ok (newcomer v w)" by (simp add: newcomer_def Let_def)
  show "moves_on w (newcomer v w)"
    by (auto simp: newcomer_def Let_def moves_on_def table_ids_def)
qed


end
