(* ===== verification/Spec2Isabelle.thy ===== *)
theory Spec2Isabelle
  imports VisitProperties HandlerProperties MqttProperties DetectionProperties EdgeProperties ConsumerProperties
    ExecutorProperties IngestionProperties MigrationProperties Recording EdgeRun IngestionSystem
    Seeding Calendar SmokeScheduler Benchmark SmokeVisit VisitHistory SchemaSafety
begin

text \<open>
  Agro Tracking: a verification development of the services that recognise tractors by their ArUco markers
  in the videos of a farm's stations and keep the visits of tractors at stations.

  \<^bold>\<open>The program.\<close> Cameras leave clips in folders. The ingestion process (\<open>ingestion/\<close>) copies each clip into a
  cold storage and registers it with the API (\<open>src/\<close>), which stores a \<open>video_files\<close> row, runs the detection
  pipeline (motion trigger, then marker detection) in a process pool, stores one \<open>events\<close> row per detection and
  feeds the events to the visit state machine, whose visits go from ENTERING over PRESENT and LEAVING to
  CLOSED. A scheduler retries failed videos and fails stale ones; a second loop closes visits that time out;
  a broker streams visit changes to browsers. Instead of clips a camera may run the edge pipeline (\<open>edge/\<close>), which
  detects on the spot and publishes batches over MQTT; the consumer (\<open>mqtt_consumer/\<close>) forwards them to the API,
  which hangs their events on one sentinel video per station. \<open>alembic/\<close> holds the migrations, \<open>scripts/\<close> the tools
  of the operators.

  \<^bold>\<open>The model.\<close> \<open>Prelude\<close> fixes the vocabulary: a method that changes state and may raise is a function from the state
  to \<open>Inl\<close> of the exception or \<open>Inr\<close> of the value, with the new state; \<open>keeps I m\<close> says that it keeps an invariant
  either way, \<open>triple P m Q E\<close> and \<open>yields I m Q\<close> what holds of the value it returns. \<open>PyTime\<close> has Python's datetimes as microseconds, \<open>Schema\<close> the rows and the constraints on a row
  (\<open>src/models\<close>, \<open>src/schemas\<close>), \<open>Store\<close> tables with their id sequences, \<open>Database\<close> the exceptions, the
  constraints across tables, the state \<open>world\<close> (the committed database, the working copy of the open session,
  the clock as a function of how often it was read, the channel, the files), the session (\<open>src/dependencies.py\<close>) and the
  generic repository (\<open>src/repositories/base.py\<close>); \<open>Repositories\<close> has its five instances and their queries.
  What another connection commits while a request runs is an argument (\<open>env\<close>); so are OpenCV, the hash algorithm,
  pydantic's parsing, the network and the process pool. Where a property needs something of these, its statement
  says so. \<open>Sample\<close> is a small plant on which the properties are instantiated.

  \<^item> Visits (\<open>src/services/visit_service.py\<close>): \<open>VisitMachine\<close> is the machine on one object, \<open>VisitService\<close> the
    service in the database, \<open>VisitSpec\<close> the contract on the visits of one tractor at one station, without sessions,
    references or ids. \<open>VisitTables\<close>, \<open>VisitRefinement\<close> and \<open>VisitChecks\<close> show that the service implements the
    contract; \<open>VisitProperties\<close> states it, with the confirmation of a visit by elapsed time, recovery, races
    on the unique index and the failure they can end in.
  \<^item> Videos (\<open>video_service.py\<close>, \<open>video_handler.py\<close>, \<open>event_service.py\<close>, \<open>scheduler.py\<close>): \<open>VideoService\<close>, \<open>VideoHandler\<close>,
    \<open>Scheduler\<close>; \<open>VideoProperties\<close> on registration and the sentinel, \<open>HandlerProperties\<close> on failures, retries and stale
    videos, \<open>Recording\<close> on the run of a recording whose recognition succeeds, \<open>Ticks\<close> on the turns of the scheduler's
    loop, one after the other, until the retries of a failing video are exhausted.
  \<^item> Detection (\<open>detector.py\<close>, \<open>video_processor.py\<close>, \<open>video_executor.py\<close>): \<open>Detection\<close>, \<open>VideoExecutor\<close>;
    \<open>DetectionProperties\<close> on which frames give events, \<open>ExecutorProperties\<close> on the schedules of a batch of videos.
  \<^item> Interfaces of the API (\<open>src/router\<close>, \<open>station_service.py\<close>, \<open>tractor_service.py\<close>, \<open>src/sse\<close>): \<open>Sse\<close>, \<open>EdgeIngest\<close>,
    \<open>Registry\<close>, \<open>VideoApi\<close>; \<open>EdgeIngestProperties\<close> and \<open>RegistryProperties\<close> on the outcome of every request.
  \<^item> The server (\<open>src/main.py\<close>, \<open>src/router/v1/__init__.py\<close>): \<open>Server\<close> runs every writing request, the tasks that requests
    leave behind, both loops and the recovery at startup, in any order. \<open>VisitHistory\<close> shows that no such run touches a
    closed visit, \<open>SchemaSafety\<close> that every run commits only what the schema allows. What other processes do while a
    visit is inserted is assumed to respect closed visits (\<open>archivists\<close>) or the schema (\<open>others_ok\<close>); the first holds of
    other such servers on the same database, the second of a process that inserts visits.
  \<^item> The edge (\<open>edge/\<close>, \<open>mqtt_client.py\<close>, \<open>mqtt_consumer/\<close>): \<open>Mqtt\<close>, \<open>EdgePipeline\<close>, \<open>Http\<close>, \<open>Consumer\<close>;
    \<open>MqttProperties\<close> on reconnecting and delivery, \<open>EdgeProperties\<close> on the interleavings of detecting and flushing,
    \<open>EdgeRun\<close> on the life of the process and the way of a batch into the database, \<open>ConsumerProperties\<close> on retries.
  \<^item> Ingestion (\<open>ingestion/\<close>): \<open>Ingestion\<close> has the producer of a folder and the watcher, \<open>Paths\<close> the laws of file
    names, \<open>IngestionProperties\<close> what one producer keeps, \<open>IngestionSystem\<close> all producers, the watcher and the cameras
    as a step relation. \<open>Calendar\<close> converts dates and shows that a clip's time survives its name.
  \<^item> Migrations (\<open>alembic/versions\<close>): \<open>Sql\<close> is the DDL with its errors and three-valued CHECK constraints, \<open>Migrations\<close>
    the scripts as data, \<open>MigrationProperties\<close> compares the schema they build with the constraints of the model.
  \<^item> Scripts: \<open>Seeding\<close> (\<open>seed_reference.py\<close>), \<open>Calendar\<close> (\<open>simulate_station.py\<close>), \<open>RawSql\<close> (plain connections and
    requests over a network), \<open>SmokeIngest\<close> (\<open>smoke_mqtt_ingest.py\<close>), \<open>SmokeScheduler\<close> (\<open>smoke_scheduler.py\<close>),
    \<open>SmokeVisit\<close> (\<open>smoke_visit_aggregator.py\<close>), \<open>TestVideo\<close> (\<open>generate_test_video.py\<close> and the clips and phases of
    \<open>benchmark_executor.py\<close>) and \<open>Benchmark\<close> (the report and the run of the latter): what the checks leave in the database
    and in the files, where the markers are drawn, and that printed figures are nearest decimals.

  This theory has the properties of the way from the frames of a recorded video to the visits.

  \<^bold>\<open>Interfaces.\<close> The locales state what one part promises another, and are interpreted on the definitions of the
  model: \<open>row_store\<close> (tables), \<open>model_class\<close> and \<open>deletable\<close> (the tables as repositories), \<open>pubsub\<close> (the broker),
  \<open>ingest_service\<close> (the edge endpoint as the consumer's retries need it), \<open>clip_api\<close> (the registration endpoint as the
  ingestion's deletion of files needs it).

  \<^bold>\<open>Loops and concurrency.\<close> Loops over data are structural recursion, so they return. Loops that run until they are
  cancelled are functions of the list of what the environment does in their turns, or step relations whose every
  reachable state is considered; no fuel bounds any result. Coroutines interleave at their awaits. The retries
  of one scheduler tick run one after the other, a query without ORDER BY returns the rows in table order, and one
  session's statements are not interleaved with those of another except through \<open>env\<close>.

  \<^bold>\<open>Not modelled.\<close> OpenCV, paho/aiomqtt, httpx and aiohttp beyond what the parameters say; the conversions of pydantic and
  the text of JSON; multipart decoding and routing; argparse, signal handlers, pacing sleeps and logging, which change
  no state of the program; the engine and its connection pool; processes of the operating system; the configuration of
  loguru (\<open>logging_setup.py\<close>) and of Alembic (\<open>env.py\<close>); what the scripts print, but for the
  benchmark's report.
\<close>

section \<open>From the frames of a recorded video to the visits\<close>


definition bench_world :: world where
  "bench_world = (world_of (plant []))\<lparr>clock := (\<lambda>n. 100000000 + int n)\<rparr>"

lemma bench_run:
  "\<exists>evs. process_video_worker default_detector_settings bench_cv ''a.mp4''
      (station_roi (table_get (stations (working bench_world)) 1)) = Inr (evs, 3, 2) \<and> length evs = 2"
  by (simp add: process_video_worker_def process_video_def extract_frames_def bench_cv_def default_detector_settings_def
      process_frame_def trigger_detect_def aruco_detect_def larger_contour_def pipeline_start_def
      emit_def case_prod_beta enumerate_eq_zip scaled_def marker_confidence_def upt_rec Let_def
      bench_world_def plant_def table_get_def st1_def station_roi_def)

lemma bench_facts:
  "consistent (working bench_world)" "video_is (working bench_world) 1 vf1" "vf_station_id vf1 = Some 1"
  "0 \<le> cap_fps (video_capture bench_cv ''a.mp4'')" "settings_ok default_visit_settings"
  "fit_at default_visit_settings 1 0 (working bench_world)" "mono (clock bench_world)"
  "0 \<le> clock bench_world (reads bench_world)" "open_at (working bench_world) p = None"
  using empty_plant_consistent sample_video_is sample_settings
  by (simp_all add: bench_world_def sample_video bench_cv_def fit_at_def open_at_def plant_def mono_def world_of_def)


text \<open>
  C40: An event carries the time at which its row is prepared, not the time of its frame: a
  tractor without an open visit is after a recorded video, however long, at most ENTERING when
  the rows are prepared within entry_confirm_seconds.
\<close>

theorem one_video_confirms_no_visit:
  assumes "consistent (working w)" and "video_is (working w) i u" and "vf_station_id u = Some sid"
    and "process_video_worker dcfg cv uri (station_roi (table_get (stations (working w)) sid)) = Inr (evs, frames, triggers)"
    and "evs \<noteq> []" and "0 \<le> cap_fps (video_capture cv uri)"
    and "settings_ok cfg" and "fit_at cfg sid t (working w)" and "mono (clock w)" and "t \<le> clock w (reads w)"
    and "open_at (working w) (tid, sid) = None"
    and "secs_between (Naive (clock w (reads w + length evs))) (Naive (clock w (reads w))) < entry_confirm_seconds cfg"
  shows "\<exists>w'. process_video_with_error_handling (process_video_worker dcfg cv) cfg id i uri is_retry w = (Inr (), w')
    \<and> (\<forall>v \<in> set (track (committed w') (tid, sid)). v \<in> set (track (working w) (tid, sid)) \<or> v_state v = ENTERING)"
proof -
  obtain w' where "process_video_with_error_handling (process_video_worker dcfg cv) cfg id i uri is_retry w = (Inr (), w')"
    "\<forall>p. track (committed w') p =
      (if snd p = sid
       then spec_video cfg (Naive (clock w (reads w))) sid (recorded w i evs) (fst p) (track (working w) p)
       else track (working w) p)"
    by (rule worker_recording_run [OF assms(1-10)])
  then show ?thesis using recorded_entering [OF assms(11,9,12)] by (intro exI [of _ w']) auto
qed

theorem one_video_confirms_no_visit_witness:
  "\<exists>w'. process_video_with_error_handling (process_video_worker default_detector_settings bench_cv)
         default_visit_settings id 1 ''a.mp4'' False bench_world = (Inr (), w')
    \<and> (\<forall>v \<in> set (track (committed w') (1, 1)). v_state v = ENTERING)"
proof -
  obtain evs where evs: "process_video_worker default_detector_settings bench_cv ''a.mp4''
      (station_roi (table_get (stations (working bench_world)) 1)) = Inr (evs, 3, 2)" "length evs = 2"
    using bench_run by blast
  then have ne: "evs \<noteq> []" by auto
  have "secs_between (Naive (clock bench_world (reads bench_world + length evs)))
      (Naive (clock bench_world (reads bench_world))) < entry_confirm_seconds default_visit_settings"
    by (simp add: evs(2) bench_world_def world_of_def secs_between_def total_seconds_def default_visit_settings_def)
  moreover have "track (working bench_world) (1, 1) = []"
    by (simp add: bench_world_def plant_def track_def rows_at_def)
  ultimately show ?thesis
    using one_video_confirms_no_visit [OF bench_facts(1-3) evs(1) ne bench_facts(4-9), where tid = 1 and is_retry = False] by auto
qed

end
